(* ===== verification/Hdb_Prelude.thy ===== *)
theory Hdb_Prelude
  imports Main "HOL-Library.Word"
begin

text \<open>
  The prelude of the development: the machine integers of the driver, the outcome of a Rust
  function that may fail or panic, byte-stream readers and writers in the style of
  \<^verbatim>\<open>std::io::Read\<close>, \<^verbatim>\<open>std::io::Write\<close> and the \<^verbatim>\<open>byteorder\<close> extension traits, and the
  interface (\<open>wire_codec\<close>, \<open>sized_codec\<close>) every component with a wire format implements.

  Machine integers keep their width (\<open>8 word\<close> for \<^verbatim>\<open>u8\<close> and \<^verbatim>\<open>i8\<close>, and so on; \<open>sint\<close> reads
  a signed one); a \<^verbatim>\<open>usize\<close> is a \<open>nat\<close>, and every cast of a signed integer to \<^verbatim>\<open>usize\<close> is
  written out, sign extension included. A Rust \<^verbatim>\<open>String\<close> or \<^verbatim>\<open>&str\<close> is the list of its UTF-8 bytes.
\<close>

unbundle bit_operations_syntax

type_synonym u8 = "8 word"
type_synonym i8 = "8 word"
type_synonym u16 = "16 word"
type_synonym i16 = "16 word"
type_synonym u32 = "32 word"
type_synonym i32 = "32 word"
type_synonym u64 = "64 word"
type_synonym i64 = "64 word"
type_synonym i128 = "128 word"
type_synonym bytes = "u8 list"
type_synonym rstring = "u8 list"

named_theorems res_simps \<open>equations of the outcome type and of its combinators\<close>
named_theorems rd_simps \<open>equations of readers on concrete and on emitted input\<close>
named_theorems emit_simps \<open>equations of the writers\<close>

text \<open>An ASCII literal of the source as a Rust string.\<close>

definition ascii :: "string \<Rightarrow> rstring" where
  "ascii s = map of_char s"

section \<open>Outcomes\<close>

text \<open>
  A Rust function of type \<^verbatim>\<open>Result<T, E>\<close> returns \<^verbatim>\<open>Ok\<close> or \<^verbatim>\<open>Err\<close>, or it panics
  (failed assertion, index out of range, \<^verbatim>\<open>unwrap\<close> of an error, arithmetic overflow).
\<close>

datatype ('a, 'e) res = Ok 'a | Err 'e | Panic

fun res_bind :: "('a, 'e) res \<Rightarrow> ('a \<Rightarrow> ('b, 'e) res) \<Rightarrow> ('b, 'e) res" where
  "res_bind (Ok a) f = f a"
| "res_bind (Err e) f = Err e"
| "res_bind Panic f = Panic"

fun res_map_err :: "('e \<Rightarrow> 'f) \<Rightarrow> ('a, 'e) res \<Rightarrow> ('a, 'f) res" where
  "res_map_err g (Ok a) = Ok a"
| "res_map_err g (Err e) = Err (g e)"
| "res_map_err g Panic = Panic"

fun res_map :: "('a \<Rightarrow> 'b) \<Rightarrow> ('a, 'e) res \<Rightarrow> ('b, 'e) res" where
  "res_map g (Ok a) = Ok (g a)"
| "res_map g (Err e) = Err e"
| "res_map g Panic = Panic"

definition is_ok :: "('a, 'e) res \<Rightarrow> bool" where
  "is_ok r = (case r of Ok _ \<Rightarrow> True | _ \<Rightarrow> False)"

fun unwrap :: "('a, 'e) res \<Rightarrow> ('a, 'f) res" where
  "unwrap (Ok a) = Ok a"
| "unwrap (Err e) = Panic"
| "unwrap Panic = Panic"

fun ok_or :: "'a option \<Rightarrow> 'e \<Rightarrow> ('a, 'e) res" where
  "ok_or None e = Err e"
| "ok_or (Some a) e = Ok a"

lemma res_bind_Ok_iff [res_simps]:
  "res_bind r f = Ok b \<longleftrightarrow> (\<exists>a. r = Ok a \<and> f a = Ok b)"
  by (cases r) auto

lemma res_bind_assoc [res_simps]:
  "res_bind (res_bind r f) g = res_bind r (\<lambda>a. res_bind (f a) g)"
  by (cases r) auto

lemma res_map_Ok_iff [res_simps]: "res_map g r = Ok b \<longleftrightarrow> (\<exists>a. r = Ok a \<and> g a = b)"
  by (cases r) auto

lemma res_map_err_Ok_iff [res_simps]: "res_map_err g r = Ok a \<longleftrightarrow> r = Ok a"
  by (cases r) auto

lemma res_bind_cong [fundef_cong]:
  "r = r' \<Longrightarrow> (\<And>a. r' = Ok a \<Longrightarrow> f a = g a) \<Longrightarrow> res_bind r f = res_bind r' g"
  by (cases r') auto

lemma is_ok_simps [simp]: "is_ok (Ok a)" "\<not> is_ok (Err e)" "\<not> is_ok Panic"
  by (simp_all add: is_ok_def)

lemma is_okE: "is_ok r \<Longrightarrow> (\<And>a. r = Ok a \<Longrightarrow> P) \<Longrightarrow> P"
  by (cases r) auto

text \<open>The errors of \<^verbatim>\<open>std::io\<close> (\<^verbatim>\<open>ErrorKind\<close> and message); \<open>io_error\<close> is the helper of \<^verbatim>\<open>util.rs\<close>.
  Values that \<^verbatim>\<open>format!\<close> interpolates into a message are not kept, its fixed text is.\<close>

datatype io_kind = KindOther | KindUnexpectedEof | KindConnectionReset | KindInvalidInput

datatype ioerr = IoErr io_kind string

definition io_error :: "string \<Rightarrow> ioerr" where
  "io_error msg = IoErr KindOther msg"

definition eof_error :: ioerr where
  "eof_error = IoErr KindUnexpectedEof ''failed to fill whole buffer''"

section \<open>Machine integers and their byte representation\<close>

text \<open>A cast of a signed integer to \<^verbatim>\<open>usize\<close> extends the sign to 64 bits.\<close>

definition usize_of :: "'a::len word \<Rightarrow> nat" where
  "usize_of w = unat (scast w :: 64 word)"

definition isize_max :: nat where
  "isize_max = 2 ^ 63 - 1"

lemma isize_max_less [code_unfold]: "isize_max < n \<longleftrightarrow> 0x7FFFFFFFFFFFFFFF < int n"
  by (simp add: isize_max_def)

lemma sint_of_nat_small:
  assumes "n < 2 ^ (LENGTH('a::len) - 1)"
  shows "sint (word_of_nat n :: 'a word) = int n"
proof -
  have "signed_take_bit (LENGTH('a) - 1) (int n) = int n"
  proof (rule signed_take_bit_int_eq_self)
    show "int n < 2 ^ (LENGTH('a) - 1)" using assms of_nat_less_iff [where ?'a = int] by fastforce
  qed (use order.trans [of "- (2 ^ (LENGTH('a) - 1))" 0 "int n"] in simp)
  then show ?thesis by (simp add: signed_of_nat)
qed

lemma usize_of_eq: "usize_of w = nat (take_bit 64 (sint w))"
  unfolding usize_of_def scast_eq unsigned_of_int by simp

lemma usize_of_nat:
  assumes "n < 2 ^ (LENGTH('a::len) - 1)" "LENGTH('a) \<le> 64"
  shows "usize_of (word_of_nat n :: 'a word) = n"
proof -
  have "(2::nat) ^ (LENGTH('a) - 1) \<le> 2 ^ 64" using assms(2) by (intro power_increasing) auto
  then have "n < 2 ^ 64" using assms(1) by linarith
  then have "take_bit 64 (int n) = int n" by (simp add: take_bit_int_eq_self)
  then show ?thesis using sint_of_nat_small [OF assms(1)] by (simp add: usize_of_eq)
qed

fun le_nat :: "bytes \<Rightarrow> nat" where
  "le_nat [] = 0"
| "le_nat (b # bs) = unat b + 256 * le_nat bs"

fun nat_le :: "nat \<Rightarrow> nat \<Rightarrow> bytes" where
  "nat_le 0 x = []"
| "nat_le (Suc n) x = word_of_nat (x mod 256) # nat_le n (x div 256)"

lemma length_nat_le [simp]: "length (nat_le n x) = n"
  by (induction n arbitrary: x) auto

lemma unat_byte_mod [simp]: "unat (word_of_nat (x mod 256) :: u8) = x mod 256"
  by (simp add: unat_of_nat)

lemma unat_byte_less: "unat (b :: u8) < 256"
  using unsigned_less [of b, where ?'a = nat] by simp

lemma le_nat_nat_le: "le_nat (nat_le n x) = x mod 256 ^ n"
proof (induction n arbitrary: x)
  case (Suc n)
  have "x mod 256 ^ Suc n = x mod 256 + 256 * (x div 256 mod 256 ^ n)"
    by (simp add: mod_mult2_eq)
  then show ?case using Suc by simp
qed simp

lemma le_nat_bound: "le_nat bs < 256 ^ length bs"
proof (induction bs)
  case (Cons b bs)
  then have "256 * Suc (le_nat bs) \<le> 256 * 256 ^ length bs" by (intro mult_le_mono2) simp
  then show ?case using unat_byte_less [of b] by simp
qed simp

lemma nat_le_le_nat: "nat_le (length bs) (le_nat bs) = bs"
proof (induction bs)
  case (Cons b bs)
  have "(unat b + 256 * le_nat bs) mod 256 = unat b"
    using unat_byte_less [of b] by simp
  moreover have "(unat b + 256 * le_nat bs) div 256 = le_nat bs"
    using unat_byte_less [of b] by simp
  ultimately show ?case using Cons by simp
qed simp

lemma le_nat_append: "le_nat (xs @ ys) = le_nat xs + 256 ^ length xs * le_nat ys"
  by (induction xs) (auto simp: algebra_simps)

text \<open>For evaluation: the same on integers, whose numerals are binary.\<close>

fun le_int :: "bytes \<Rightarrow> int" where
  "le_int [] = 0"
| "le_int (b # bs) = uint b + 256 * le_int bs"

fun int_le :: "nat \<Rightarrow> int \<Rightarrow> bytes" where
  "int_le 0 x = []"
| "int_le (Suc n) x = word_of_int (x mod 256) # int_le n (x div 256)"

lemma int_le_nat [code_unfold]: "int (le_nat bs) = le_int bs"
  by (induction bs) auto

lemma nat_le_int: "nat_le n x = int_le n (int x)"
proof (induction n arbitrary: x)
  case (Suc n)
  have "(word_of_nat (x mod 256) :: u8) = word_of_int (int (x mod 256))"
    by (rule of_int_of_nat_eq [symmetric])
  then show ?case using Suc [of "x div 256"] by (simp only: nat_le.simps int_le.simps zmod_int zdiv_int) simp
qed simp

section \<open>Readers\<close>

text \<open>A reader consumes a prefix of the bytes that arrive on the connection.\<close>

type_synonym 'a rd = "bytes \<Rightarrow> ('a \<times> bytes, ioerr) res"

definition rd_return :: "'a \<Rightarrow> 'a rd" where
  "rd_return a = (\<lambda>bs. Ok (a, bs))"

definition rd_bind :: "'a rd \<Rightarrow> ('a \<Rightarrow> 'b rd) \<Rightarrow> 'b rd" where
  "rd_bind p f = (\<lambda>bs. res_bind (p bs) (\<lambda>(a, rest). f a rest))"

text \<open>For evaluation the combinators are unfolded to case distinctions.\<close>

lemma res_bind_case [code_unfold]:
  "res_bind r f = (case r of Ok a \<Rightarrow> f a | Err e \<Rightarrow> Err e | Panic \<Rightarrow> Panic)"
  by (cases r) auto

lemma rd_bind_case [code_unfold]:
  "rd_bind p f =
     (\<lambda>bs. case p bs of Ok x \<Rightarrow> (case x of (a, rest) \<Rightarrow> f a rest) | Err e \<Rightarrow> Err e | Panic \<Rightarrow> Panic)"
  by (auto simp: rd_bind_def res_bind_case split: prod.splits)

definition rd_fail :: "ioerr \<Rightarrow> 'a rd" where
  "rd_fail e = (\<lambda>bs. Err e)"

definition rd_panic :: "'a rd" where
  "rd_panic = (\<lambda>bs. Panic)"

definition rd_lift :: "('a, ioerr) res \<Rightarrow> 'a rd" where
  "rd_lift r = (\<lambda>bs. res_map (\<lambda>a. (a, bs)) r)"

text \<open>A loop \<^verbatim>\<open>for _ in 0..count\<close> that pushes what the body reads.\<close>

primrec rd_repeat :: "nat \<Rightarrow> 'a rd \<Rightarrow> 'a list rd" where
  "rd_repeat 0 p = rd_return []"
| "rd_repeat (Suc n) p = rd_bind p (\<lambda>x. rd_bind (rd_repeat n p) (\<lambda>xs. rd_return (x # xs)))"

definition read_exact :: "nat \<Rightarrow> bytes rd" where
  "read_exact n = (\<lambda>bs. if n \<le> length bs then Ok (take n bs, drop n bs) else Err eof_error)"

definition read_u8 :: "u8 rd" where
  "read_u8 = (\<lambda>bs. case bs of [] \<Rightarrow> Err eof_error | b # r \<Rightarrow> Ok (b, r))"

definition read_le :: "nat \<Rightarrow> ('a::len word) rd" where
  "read_le n = rd_bind (read_exact n) (\<lambda>bs. rd_return (word_of_nat (le_nat bs)))"

lemma read_le_code [code]:
  "read_le n = rd_bind (read_exact n) (\<lambda>bs. rd_return (word_of_int (le_int bs)))"
  by (simp add: read_le_def flip: int_le_nat)

definition read_u16 :: "u16 rd" where "read_u16 = read_le 2"
definition read_u32 :: "u32 rd" where "read_u32 = read_le 4"
definition read_u64 :: "u64 rd" where "read_u64 = read_le 8"
definition read_i128 :: "i128 rd" where "read_i128 = read_le 16"

abbreviation (input) read_i16 :: "i16 rd" where "read_i16 \<equiv> read_u16"
abbreviation (input) read_i32 :: "i32 rd" where "read_i32 \<equiv> read_u32"
abbreviation (input) read_i64 :: "i64 rd" where "read_i64 \<equiv> read_u64"

text \<open>\<^verbatim>\<open>util::parse_bytes\<close> allocates first: a length above \<^verbatim>\<open>isize::MAX\<close> (a negative length field,
  sign-extended) panics with a capacity overflow before anything is read.\<close>

definition parse_bytes :: "nat \<Rightarrow> bytes rd" where
  "parse_bytes len = (if len > isize_max then rd_panic else read_exact len)"

definition skip_bytes :: "nat \<Rightarrow> unit rd" where
  "skip_bytes n =
     (if n > 16 then rd_fail (io_error ''impl: n > MAXBUFLEN (16)'')
      else rd_bind (read_exact n) (\<lambda>_. rd_return ()))"

lemma rd_bind_apply [rd_simps]:
  "rd_bind p f bs = res_bind (p bs) (\<lambda>(a, rest). f a rest)"
  by (simp add: rd_bind_def)

lemma rd_apply_simps [rd_simps]:
  "rd_return a bs = Ok (a, bs)" "rd_fail e bs = Err e" "rd_panic bs = Panic"
  "rd_lift (Ok a) bs = Ok (a, bs)" "rd_lift (Err e) bs = Err e" "rd_lift Panic bs = Panic"
  by (simp_all add: rd_return_def rd_fail_def rd_panic_def rd_lift_def)

lemma read_u8_Cons [rd_simps]: "read_u8 (b # bs) = Ok (b, bs)"
  by (simp add: read_u8_def)

lemma read_u8_Nil [rd_simps]: "read_u8 [] = Err eof_error"
  by (simp add: read_u8_def)

lemma read_exact_append [rd_simps]: "length xs = n \<Longrightarrow> read_exact n (xs @ ys) = Ok (xs, ys)"
  by (simp add: read_exact_def)

lemma parse_bytes_append [rd_simps]:
  "length xs = n \<Longrightarrow> n \<le> isize_max \<Longrightarrow> parse_bytes n (xs @ ys) = Ok (xs, ys)"
  by (simp add: parse_bytes_def rd_simps)

lemma skip_bytes_append [rd_simps]:
  "length xs = n \<Longrightarrow> n \<le> 16 \<Longrightarrow> skip_bytes n (xs @ ys) = Ok ((), ys)"
  by (simp add: skip_bytes_def rd_simps)

section \<open>Writers\<close>

text \<open>A function that writes to a \<^verbatim>\<open>std::io::Write\<close> is modelled by the bytes it appends; writing
  itself does not fail in the model (the buffer is in memory), the code's own error returns do.\<close>

type_synonym wr = "(bytes, ioerr) res"

definition write_le :: "nat \<Rightarrow> 'a::len word \<Rightarrow> bytes" where
  "write_le n w = nat_le n (unat w)"

lemma write_le_code [code]: "write_le n w = int_le n (uint w)"
  by (simp add: write_le_def nat_le_int)

definition write_u16 :: "u16 \<Rightarrow> bytes" where "write_u16 w = write_le 2 w"
definition write_u32 :: "u32 \<Rightarrow> bytes" where "write_u32 w = write_le 4 w"
definition write_u64 :: "u64 \<Rightarrow> bytes" where "write_u64 w = write_le 8 w"
definition write_i128 :: "i128 \<Rightarrow> bytes" where "write_i128 w = write_le 16 w"

abbreviation (input) write_i16 :: "i16 \<Rightarrow> bytes" where "write_i16 \<equiv> write_u16"
abbreviation (input) write_i32 :: "i32 \<Rightarrow> bytes" where "write_i32 \<equiv> write_u32"
abbreviation (input) write_i64 :: "i64 \<Rightarrow> bytes" where "write_i64 \<equiv> write_u64"

text \<open>The loop that emits every element of a collection and stops at the first error.\<close>

fun emit_list :: "('a \<Rightarrow> wr) \<Rightarrow> 'a list \<Rightarrow> wr" where
  "emit_list f [] = Ok []"
| "emit_list f (x # xs) =
     res_bind (f x) (\<lambda>bs. res_bind (emit_list f xs) (\<lambda>cs. Ok (bs @ cs)))"

lemma length_write [simp]:
  "length (write_u16 a) = 2" "length (write_u32 b) = 4"
  "length (write_u64 c) = 8" "length (write_i128 d) = 16"
  by (simp_all add: write_u16_def write_u32_def write_u64_def write_i128_def write_le_def)

lemma read_le_write:
  fixes w :: "'a::len word"
  assumes "LENGTH('a) \<le> 8 * n"
  shows "read_le n (write_le n w @ rest) = Ok (w, rest)"
proof -
  have "(2::nat) ^ LENGTH('a) \<le> 2 ^ (8 * n)" using assms by simp
  also have "\<dots> = 256 ^ n" by (simp add: power_mult)
  finally have "unat w < 256 ^ n" by (rule order.strict_trans2 [rotated]) (rule unsigned_less)
  then have "unat w mod 256 ^ n = unat w" by simp
  then show ?thesis
    by (simp add: read_le_def write_le_def rd_simps le_nat_nat_le)
qed

lemma read_write [rd_simps]:
  "read_u16 (write_u16 a @ rest) = Ok (a, rest)"
  "read_u32 (write_u32 b @ rest) = Ok (b, rest)"
  "read_u64 (write_u64 c @ rest) = Ok (c, rest)"
  "read_i128 (write_i128 d @ rest) = Ok (d, rest)"
  by (simp_all add: read_u16_def write_u16_def read_u32_def write_u32_def read_u64_def
      write_u64_def read_i128_def write_i128_def read_le_write)

lemma emit_list_append:
  "emit_list f (xs @ ys) =
     res_bind (emit_list f xs) (\<lambda>bs. res_bind (emit_list f ys) (\<lambda>cs. Ok (bs @ cs)))"
proof (induction xs)
  case Nil
  then show ?case by (cases "emit_list f ys") auto
next
  case (Cons x xs)
  then show ?case
    by (cases "f x"; cases "emit_list f xs"; cases "emit_list f ys") auto
qed

section \<open>The interface of a component with a wire format\<close>

text \<open>
  \<open>emit\<close> writes a value, \<open>parse\<close> reads one; on the values \<open>wf\<close> describes (those whose length
  fields fit) writing succeeds and reading gives the value back and leaves the rest untouched.
\<close>

locale wire_codec =
  fixes emit :: "'a \<Rightarrow> wr"
    and parse :: "'a rd"
    and wf :: "'a \<Rightarrow> bool"
  assumes emit_total: "wf x \<Longrightarrow> \<exists>bs. emit x = Ok bs"
    and parse_emit: "wf x \<Longrightarrow> emit x = Ok bs \<Longrightarrow> parse (bs @ rest) = Ok (x, rest)"
begin

lemma emit_prefix_free:
  assumes "wf x" "wf y" "emit x = Ok bs" "emit y = Ok cs" "bs @ r = cs @ s"
  shows "x = y \<and> r = s"
  using parse_emit [OF assms(1,3), of r] parse_emit [OF assms(2,4), of s] assms(5) by simp

lemma emit_inj: "wf x \<Longrightarrow> wf y \<Longrightarrow> emit x = Ok bs \<Longrightarrow> emit y = Ok bs \<Longrightarrow> x = y"
  using emit_prefix_free [of x y bs bs "[]" "[]"] by simp

lemma emit_list_total: "list_all wf xs \<Longrightarrow> \<exists>bs. emit_list emit xs = Ok bs"
  by (induction xs) (auto dest: emit_total)

lemma parse_repeat:
  "list_all wf xs \<Longrightarrow> emit_list emit xs = Ok bs
    \<Longrightarrow> rd_repeat (length xs) parse (bs @ rest) = Ok (xs, rest)"
  by (induction xs arbitrary: bs) (auto simp: rd_simps res_simps parse_emit)

end

locale sized_codec = wire_codec +
  fixes size_of :: "'a \<Rightarrow> nat"
  assumes size_emit: "wf x \<Longrightarrow> emit x = Ok bs \<Longrightarrow> length bs = size_of x"
begin

lemma size_emit_list:
  "list_all wf xs \<Longrightarrow> emit_list emit xs = Ok bs \<Longrightarrow> length bs = sum_list (map size_of xs)"
  by (induction xs arbitrary: bs) (auto simp: res_simps size_emit)

end

end
