(* ===== verification/Hdb_Errors.thy ===== *)
theory Hdb_Errors
  imports Hdb_Prelude
begin

text \<open>
  The errors of the driver: \<^verbatim>\<open>Severity\<close> and \<^verbatim>\<open>ServerError\<close> (protocol/parts/server\_error.rs),
  \<^verbatim>\<open>ExecutionResult\<close> (protocol/parts/execution\_result.rs) and \<^verbatim>\<open>HdbError\<close> (hdb\_error.rs), with the
  conversions \<^verbatim>\<open>?\<close> applies between \<^verbatim>\<open>std::io::Error\<close> and \<^verbatim>\<open>HdbError\<close>.
\<close>

section \<open>Server errors\<close>

datatype severity = Sev_Warning | Sev_Error | Sev_Fatal | Sev_UNKNOWN i8

definition severity_from_i8 :: "i8 \<Rightarrow> severity" where
  "severity_from_i8 i =
     (if i = 0 then Sev_Warning
      else if i = 1 then Sev_Error
      else if i = 2 then Sev_Fatal
      else Sev_UNKNOWN i)"

fun severity_to_i8 :: "severity \<Rightarrow> i8" where
  "severity_to_i8 Sev_Warning = 0"
| "severity_to_i8 Sev_Error = 1"
| "severity_to_i8 Sev_Fatal = 2"
| "severity_to_i8 (Sev_UNKNOWN i) = i"

lemma severity_roundtrip: "severity_to_i8 (severity_from_i8 i) = i"
  by (simp add: severity_from_i8_def)

record server_error =
  se_code :: i32
  se_position :: i32
  se_severity :: severity
  se_sqlstate :: bytes
  se_text :: rstring

section \<open>Execution results\<close>

datatype execution_result =
    RowsAffected nat
  | SuccessNoInfo
  | Failure "server_error option"

fun is_failure :: "execution_result \<Rightarrow> bool" where
  "is_failure (Failure _) = True"
| "is_failure _ = False"

fun is_rows_affected :: "execution_result \<Rightarrow> bool" where
  "is_rows_affected (RowsAffected _) = True"
| "is_rows_affected _ = False"

definition parse_execution_result :: "execution_result rd" where
  "parse_execution_result = rd_bind read_i32 (\<lambda>i. rd_return
     (if sint i = -2 then SuccessNoInfo
      else if sint i = -3 then Failure None
      else RowsAffected (usize_of i)))"

text \<open>\<^verbatim>\<open>Vec::with_capacity\<close> panics when the allocation would exceed \<^verbatim>\<open>isize::MAX\<close>; a count on the wire
  is below \<open>2 ^ 31\<close> or, when negative, above \<open>2 ^ 63\<close>.\<close>

definition parse_execution_results :: "nat \<Rightarrow> execution_result list rd" where
  "parse_execution_results count =
     (if count > isize_max then rd_panic else rd_repeat count parse_execution_result)"

section \<open>The error type of the driver\<close>

datatype hdb_error =
    Deserialization string
  | Serialization string
  | Cesu8
  | ConnParams string
  | DbError server_error
  | Evaluation string
  | ExecutionResults "execution_result list"
  | LobStreaming ioerr
  | Impl string
  | ImplDetailed string
  | Poison
  | SessionClosingTransactionError
  | Tcp ioerr
  | Usage string
  | UsageDetailed string

text \<open>\<^verbatim>\<open>#[from] std::io::Error\<close> makes an i/o error a \<^verbatim>\<open>HdbError::Tcp\<close>.\<close>

definition tcp :: "('a, ioerr) res \<Rightarrow> ('a, hdb_error) res" where
  "tcp r = res_map_err Tcp r"

definition server_error_of :: "hdb_error \<Rightarrow> server_error option" where
  "server_error_of e = (case e of DbError se \<Rightarrow> Some se | _ \<Rightarrow> None)"

text \<open>The text of \<^verbatim>\<open>to_string()\<close>, from the \<^verbatim>\<open>#[error(..)]\<close> attributes.\<close>

fun hdb_error_text :: "hdb_error \<Rightarrow> string" where
  "hdb_error_text (Deserialization _) = ''Error occured in deserialization.''"
| "hdb_error_text (Serialization _) = ''Error occured in serialization.''"
| "hdb_error_text Cesu8 = ''Some error occured while decoding CESU-8.''"
| "hdb_error_text (ConnParams _) = ''Erroneous Connection Parameters''"
| "hdb_error_text (DbError _) = ''Database server responded with an error.''"
| "hdb_error_text (Evaluation _) =
     ''Error occured while evaluating a HdbResponse or an HdbReturnValue.''"
| "hdb_error_text (ExecutionResults _) = ''Database server responded with at least one error.''"
| "hdb_error_text (LobStreaming _) = ''Error occured while streaming a LOB.''"
| "hdb_error_text (Impl s) = ''Implementation error: '' @ s"
| "hdb_error_text (ImplDetailed s) = ''Implementation error: '' @ s"
| "hdb_error_text Poison = ''Error occured in thread synchronization.''"
| "hdb_error_text SessionClosingTransactionError =
     ''An error occurred on the server that requires the session to be terminated.''"
| "hdb_error_text (Tcp _) = ''Error occured in communication with the database''"
| "hdb_error_text (Usage s) = ''Wrong usage: '' @ s"
| "hdb_error_text (UsageDetailed s) = ''Wrong usage: '' @ s"

text \<open>\<^verbatim>\<open>map_err(|e| io_error(e.to_string()))\<close>.\<close>

definition io_of_hdb :: "('a, hdb_error) res \<Rightarrow> ('a, ioerr) res" where
  "io_of_hdb r = res_map_err (\<lambda>e. io_error (hdb_error_text e)) r"

lemma tcp_Ok_iff [res_simps]: "tcp r = Ok a \<longleftrightarrow> r = Ok a"
  by (simp add: tcp_def res_simps)

lemma tcp_simps [simp]: "tcp (Ok a) = Ok a" "tcp (Err e) = Err (Tcp e)" "tcp Panic = Panic"
  by (simp_all add: tcp_def)

lemma io_of_hdb_simps [simp]:
  "io_of_hdb (Ok a) = Ok a" "io_of_hdb (Err e) = Err (io_error (hdb_error_text e))"
  "io_of_hdb Panic = Panic"
  by (simp_all add: io_of_hdb_def)

end
