(* ===== verification/Hdb_Text.thy ===== *)
theory Hdb_Text
  imports Hdb_Errors
begin

text \<open>
  Text on the wire (protocol/util.rs). HANA sends and expects CESU-8: identical to UTF-8 except
  that a code point above U+FFFF is a surrogate pair of two three-byte sequences. Chunks of a
  CLOB or NCLOB can end anywhere, so the driver looks for a position where it may cut.

  The crate \<^verbatim>\<open>cesu8\<close> is not part of the repository: its two functions are the record \<open>cesu8_lib\<close>,
  passed to the definitions that use them; the locale \<open>cesu8_crate\<close> states its documentation, and
  \<open>ref_cesu8\<close> is a concrete codec that satisfies it.
\<close>

section \<open>UTF-8, as \<^verbatim>\<open>std::str::from_utf8\<close> checks it\<close>

definition in_range :: "nat \<Rightarrow> nat \<Rightarrow> u8 \<Rightarrow> bool" where
  "in_range lo hi b \<longleftrightarrow> lo \<le> unat b \<and> unat b \<le> hi"

abbreviation is_cont :: "u8 \<Rightarrow> bool" where
  "is_cont b \<equiv> in_range 0x80 0xBF b"

definition utf8_one :: "u8 \<Rightarrow> bool" where
  "utf8_one b \<longleftrightarrow> in_range 0 0x7F b"

definition utf8_two :: "u8 \<Rightarrow> u8 \<Rightarrow> bool" where
  "utf8_two b c \<longleftrightarrow> in_range 0xC2 0xDF b \<and> is_cont c"

definition utf8_three :: "u8 \<Rightarrow> u8 \<Rightarrow> u8 \<Rightarrow> bool" where
  "utf8_three b c d \<longleftrightarrow> in_range 0xE0 0xEF b \<and> is_cont c \<and> is_cont d \<and>
     (unat b = 0xE0 \<longrightarrow> 0xA0 \<le> unat c) \<and> (unat b = 0xED \<longrightarrow> unat c \<le> 0x9F)"

definition utf8_four :: "u8 \<Rightarrow> u8 \<Rightarrow> u8 \<Rightarrow> u8 \<Rightarrow> bool" where
  "utf8_four b c d e \<longleftrightarrow> in_range 0xF0 0xF4 b \<and> is_cont c \<and> is_cont d \<and> is_cont e \<and>
     (unat b = 0xF0 \<longrightarrow> 0x90 \<le> unat c) \<and> (unat b = 0xF4 \<longrightarrow> unat c \<le> 0x8F)"

text \<open>The length of the character at the front of valid UTF-8, 0 if there is none.\<close>

fun utf8_front :: "bytes \<Rightarrow> nat" where
  "utf8_front [] = 0"
| "utf8_front (b # bs) =
     (if utf8_one b then 1
      else case bs of [] \<Rightarrow> 0
      | c # bs' \<Rightarrow> if utf8_two b c then 2
        else (case bs' of [] \<Rightarrow> 0
        | d # bs'' \<Rightarrow> if utf8_three b c d then 3
          else (case bs'' of [] \<Rightarrow> 0
          | e # _ \<Rightarrow> if utf8_four b c d e then 4 else 0)))"

lemma utf8_front_le: "utf8_front bs \<le> length bs"
  by (cases bs) (auto split: list.splits)

function valid_utf8 :: "bytes \<Rightarrow> bool" where
  "valid_utf8 bs =
     (if bs = [] then True
      else if utf8_front bs = 0 then False
      else valid_utf8 (drop (utf8_front bs) bs))"
  by pat_completeness auto
termination
  by (relation "measure length") auto

declare valid_utf8.simps [simp del]

text \<open>\<^verbatim>\<open>String::from_utf8\<close>: the bytes themselves when they are valid.\<close>

definition from_utf8 :: "bytes \<Rightarrow> (rstring, unit) res" where
  "from_utf8 bs = (if valid_utf8 bs then Ok bs else Err ())"

section \<open>The functions of the crate cesu8\<close>

record cesu8_lib =
  to_cesu8 :: "rstring \<Rightarrow> bytes"
  from_cesu8 :: "bytes \<Rightarrow> rstring option"

definition string_from_cesu8 :: "cesu8_lib \<Rightarrow> bytes \<Rightarrow> (rstring, unit) res" where
  "string_from_cesu8 c8 bs =
     (case from_utf8 bs of
        Ok s \<Rightarrow> Ok s
      | _ \<Rightarrow> ok_or (from_cesu8 c8 bs) ())"

text \<open>Readers turn a decoding error into an i/o error (\<^verbatim>\<open>map_err(util::io_error)\<close>), functions that
  return \<^verbatim>\<open>HdbResult\<close> into \<^verbatim>\<open>HdbError::Cesu8\<close>.\<close>

definition io_string :: "cesu8_lib \<Rightarrow> bytes \<Rightarrow> (rstring, ioerr) res" where
  "io_string c8 bs = res_map_err (\<lambda>_. io_error ''CESU-8 decoding error'') (string_from_cesu8 c8 bs)"

definition hdb_string :: "cesu8_lib \<Rightarrow> bytes \<Rightarrow> (rstring, hdb_error) res" where
  "hdb_string c8 bs = res_map_err (\<lambda>_. Cesu8) (string_from_cesu8 c8 bs)"

definition cesu8_length :: "rstring \<Rightarrow> nat" where
  "cesu8_length s = length s + 2 * length (filter (\<lambda>b. 240 \<le> unat b) s)"

section \<open>Cutting CESU-8\<close>

datatype cesu8_char_type =
    CT_Empty | CT_TooShort | CT_NotAStart | CT_One | CT_Two | CT_Three
  | CT_FirstHalfOfSurrogate | CT_SecondHalfOfSurrogate

text \<open>Indexing a slice or vector panics out of range.\<close>

definition index :: "'a list \<Rightarrow> nat \<Rightarrow> ('a, 'e) res" where
  "index xs i = (if i < length xs then Ok (xs ! i) else Panic)"

definition type_of_last :: "u8 \<Rightarrow> cesu8_char_type" where
  "type_of_last b =
     (if in_range 0x00 0x7F b then CT_One
      else if in_range 0xC0 0xDF b then CT_Two
      else CT_TooShort)"

definition type_of_pair :: "u8 \<Rightarrow> u8 \<Rightarrow> cesu8_char_type" where
  "type_of_pair b c =
     (if in_range 0x00 0x7F b then CT_One
      else if in_range 0xC0 0xDF b then CT_Two
      else if unat b = 0xED \<and> in_range 0xA0 0xAF c then CT_FirstHalfOfSurrogate
      else if unat b = 0xED \<and> in_range 0xB0 0xBF c then CT_SecondHalfOfSurrogate
      else if in_range 0xE0 0xEF b \<and> in_range 0x80 0xBF c then CT_Three
      else CT_NotAStart)"

text \<open>\<^verbatim>\<open>first == len - 1\<close> underflows (and panics) for \<^verbatim>\<open>len = 0\<close>.\<close>

definition char_type_at :: "bytes \<Rightarrow> nat \<Rightarrow> nat \<Rightarrow> (cesu8_char_type, 'e) res" where
  "char_type_at bs first len =
     (if len = 0 then Panic
      else if first = len - 1 then
        res_bind (index bs first) (\<lambda>b. Ok (type_of_last b))
      else
        res_bind (index bs first) (\<lambda>b.
        res_bind (index bs (first + 1)) (\<lambda>c. Ok (type_of_pair b c))))"

fun start_len :: "cesu8_char_type \<Rightarrow> nat option" where
  "start_len CT_One = Some 1"
| "start_len CT_Two = Some 2"
| "start_len CT_Three = Some 3"
| "start_len CT_FirstHalfOfSurrogate = Some 6"
| "start_len _ = None"

definition tail_from :: "nat \<Rightarrow> nat \<Rightarrow> nat \<Rightarrow> nat" where
  "tail_from len i char_len =
     (if len - i > char_len then len - i - char_len
      else if len - i = char_len then 0
      else len - i)"

text \<open>The loop \<^verbatim>\<open>for index in (0..len).rev()\<close>; the argument is the index plus one.\<close>

fun tail_scan :: "bytes \<Rightarrow> nat \<Rightarrow> nat \<Rightarrow> (nat, ioerr) res" where
  "tail_scan bs len 0 = Err (io_error ''no valid cesu8 cutoff point found'')"
| "tail_scan bs len (Suc i) =
     res_bind (char_type_at bs i len) (\<lambda>t.
       case start_len t of
         Some n \<Rightarrow> Ok (tail_from len i n)
       | None \<Rightarrow> tail_scan bs len i)"

definition get_cesu8_tail_len :: "bytes \<Rightarrow> nat \<Rightarrow> (nat, ioerr) res" where
  "get_cesu8_tail_len bs len =
     (if len = 0 then Ok 0
      else res_bind (index bs (len - 1)) (\<lambda>b.
        if in_range 0 127 b then Ok 0
        else if in_range 0xC0 0xDF b then Ok 1
        else tail_scan bs len len))"

definition cesu8_to_string_and_tail ::
    "cesu8_lib \<Rightarrow> bytes \<Rightarrow> (rstring \<times> bytes, hdb_error) res" where
  "cesu8_to_string_and_tail c8 cesu8 =
     res_bind (tcp (get_cesu8_tail_len cesu8 (length cesu8))) (\<lambda>tail_len.
     let tail = drop (length cesu8 - tail_len) cesu8;
         rest = take (length cesu8 - tail_len) cesu8
     in res_bind (hdb_string c8 rest) (\<lambda>s. Ok (s, tail)))"

section \<open>Slices of character LOBs\<close>

record char_lob_slice =
  cls_prefix :: "bytes option"
  cls_data :: rstring
  cls_postfix :: "bytes option"

definition cesu8_to_string_and_surrogate ::
    "cesu8_lib \<Rightarrow> bytes \<Rightarrow> (rstring \<times> bytes option, hdb_error) res" where
  "cesu8_to_string_and_surrogate c8 cesu8 =
     res_bind (unwrap (cesu8_to_string_and_tail c8 cesu8)) (\<lambda>(utf8, buffer).
       if length buffer = 0 then Ok (utf8, None)
       else if length buffer = 3 then Ok (utf8, Some buffer)
       else Err (ImplDetailed ''Unexpected buffer_cesu8 = {:?}''))"

text \<open>A range index \<^verbatim>\<open>v[from..to]\<close> panics when \<^verbatim>\<open>to\<close> exceeds the length.\<close>

definition slice :: "bytes \<Rightarrow> nat \<Rightarrow> nat \<Rightarrow> (bytes, 'e) res" where
  "slice bs from to = (if from \<le> to \<and> to \<le> length bs then Ok (drop from (take to bs)) else Panic)"

definition split_off_orphaned_surrogates :: "cesu8_lib \<Rightarrow> bytes \<Rightarrow> (char_lob_slice, hdb_error) res" where
  "split_off_orphaned_surrogates c8 cesu8 =
     res_bind (char_type_at cesu8 0 (length cesu8)) (\<lambda>t.
     res_bind
       (case t of
          CT_SecondHalfOfSurrogate \<Rightarrow>
            res_bind (slice cesu8 0 3) (\<lambda>prefix. Ok (Some prefix, drop 3 cesu8))
        | CT_NotAStart \<Rightarrow> Err (Impl ''Unexpected value for NCLob'')
        | CT_TooShort \<Rightarrow> Err (Impl ''Unexpected value for NCLob'')
        | _ \<Rightarrow> Ok (None, cesu8))
       (\<lambda>(prefix, cesu8').
     res_bind (cesu8_to_string_and_surrogate c8 cesu8') (\<lambda>(data, postfix).
     Ok \<lparr>cls_prefix = prefix, cls_data = data, cls_postfix = postfix\<rparr>)))"

text \<open>The loop that looks for the first start, from \<open>start\<close> on; \<open>n\<close> iterations are left.\<close>

fun find_split :: "bytes \<Rightarrow> nat \<Rightarrow> nat \<Rightarrow> (nat, hdb_error) res" where
  "find_split cesu8 start 0 = Ok 0"
| "find_split cesu8 start (Suc n) =
     res_bind (char_type_at cesu8 start (length cesu8)) (\<lambda>t.
       case t of
         CT_SecondHalfOfSurrogate \<Rightarrow> Ok (start + 3)
       | CT_NotAStart \<Rightarrow> find_split cesu8 (start + 1) n
       | _ \<Rightarrow> Ok start)"

definition split_off_orphaned_bytes :: "cesu8_lib \<Rightarrow> bytes \<Rightarrow> (char_lob_slice, hdb_error) res" where
  "split_off_orphaned_bytes c8 cesu8 =
     res_bind (find_split cesu8 0 (length cesu8)) (\<lambda>split.
     res_bind (if split = 0 then Ok None
               else res_bind (slice cesu8 0 split) (\<lambda>p. Ok (Some p))) (\<lambda>prefix.
     res_bind (slice cesu8 split (length cesu8)) (\<lambda>rest.
     res_bind (unwrap (cesu8_to_string_and_tail c8 rest)) (\<lambda>(data, postfix).
     Ok \<lparr>cls_prefix = prefix, cls_data = data,
         cls_postfix = (if postfix = [] then None else Some postfix)\<rparr>))))"

end
