(* ===== verification/Hdb_Cesu8.thy ===== *)
theory Hdb_Cesu8
  imports Hdb_Text
begin

text \<open>
  Properties of the text functions of \<^verbatim>\<open>protocol/util.rs\<close>: where well-formed CESU-8 may be cut, and
  what the crate \<^verbatim>\<open>cesu8\<close> promises (locale \<open>cesu8_crate\<close>), with a concrete codec that keeps the
  promise.
\<close>

section \<open>Well-formed CESU-8\<close>

definition hi_surrogate :: "u8 \<Rightarrow> u8 \<Rightarrow> u8 \<Rightarrow> bool" where
  "hi_surrogate a b c \<longleftrightarrow> unat a = 0xED \<and> in_range 0xA0 0xAF b \<and> is_cont c"

definition lo_surrogate :: "u8 \<Rightarrow> u8 \<Rightarrow> u8 \<Rightarrow> bool" where
  "lo_surrogate a b c \<longleftrightarrow> unat a = 0xED \<and> in_range 0xB0 0xBF b \<and> is_cont c"

fun cesu_char :: "bytes \<Rightarrow> bool" where
  "cesu_char [a] = utf8_one a"
| "cesu_char [a, b] = utf8_two a b"
| "cesu_char [a, b, c] = utf8_three a b c"
| "cesu_char [a, b, c, d, e, f] = (hi_surrogate a b c \<and> lo_surrogate d e f)"
| "cesu_char _ = False"

named_theorems byte_defs
declare utf8_one_def [byte_defs] utf8_two_def [byte_defs] utf8_three_def [byte_defs]
  utf8_four_def [byte_defs] hi_surrogate_def [byte_defs] lo_surrogate_def [byte_defs]
  in_range_def [byte_defs]

lemma cesu_char_cases [consumes 1, case_names One Two Three Six]:
  assumes "cesu_char d"
  obtains a where "d = [a]" "utf8_one a"
  | a b where "d = [a, b]" "utf8_two a b"
  | a b c where "d = [a, b, c]" "utf8_three a b c"
  | a b c x y z where "d = [a, b, c, x, y, z]" "hi_surrogate a b c" "lo_surrogate x y z"
  using assms by (cases d rule: cesu_char.cases) auto

text \<open>The scan looks at one byte and its successor.\<close>

definition type_at :: "bytes \<Rightarrow> nat \<Rightarrow> cesu8_char_type" where
  "type_at bs i =
     (if Suc i = length bs then type_of_last (bs ! i) else type_of_pair (bs ! i) (bs ! Suc i))"

lemma char_type_at_eq: "i < length bs \<Longrightarrow> char_type_at bs i (length bs) = Ok (type_at bs i)"
  by (auto simp: char_type_at_def index_def type_at_def)

lemma tail_scan_step:
  "i < len \<Longrightarrow> len = length bs \<Longrightarrow> tail_scan bs len (Suc i) =
     (case start_len (type_at bs i) of
        Some n \<Rightarrow> Ok (tail_from len i n)
      | None \<Rightarrow> tail_scan bs len i)"
  by (hypsubst, simp add: char_type_at_eq)

lemma type_of_last_cont: "is_cont b \<Longrightarrow> type_of_last b = CT_TooShort"
  by (simp add: type_of_last_def byte_defs)

lemma type_of_last_lead3: "in_range 0xE0 0xEF b \<Longrightarrow> type_of_last b = CT_TooShort"
  by (simp add: type_of_last_def byte_defs)

lemma type_of_pair_cont: "is_cont b \<Longrightarrow> type_of_pair b c = CT_NotAStart"
  by (auto simp add: type_of_pair_def byte_defs)

lemma type_of_pair_one: "utf8_one b \<Longrightarrow> type_of_pair b c = CT_One"
  by (simp add: type_of_pair_def byte_defs)

lemma type_of_pair_two: "in_range 0xC2 0xDF b \<Longrightarrow> type_of_pair b c = CT_Two"
  by (simp add: type_of_pair_def byte_defs)

lemma type_of_pair_three: "utf8_three b c d \<Longrightarrow> type_of_pair b c = CT_Three"
  by (auto simp add: type_of_pair_def byte_defs)

lemma type_of_pair_hi: "hi_surrogate b c d \<Longrightarrow> type_of_pair b c = CT_FirstHalfOfSurrogate"
  by (simp add: type_of_pair_def byte_defs)

lemma type_of_pair_lo: "lo_surrogate b c d \<Longrightarrow> type_of_pair b c = CT_SecondHalfOfSurrogate"
  by (simp add: type_of_pair_def byte_defs)

lemmas type_of_rules = type_of_last_cont type_of_last_lead3 type_of_pair_cont type_of_pair_one
  type_of_pair_two type_of_pair_three type_of_pair_hi type_of_pair_lo

lemma surrogate_conts:
  "hi_surrogate a b c \<Longrightarrow> is_cont b \<and> is_cont c \<and> in_range 0xE0 0xEF a"
  "lo_surrogate a b c \<Longrightarrow> is_cont b \<and> is_cont c \<and> in_range 0xE0 0xEF a"
  "utf8_three a b c \<Longrightarrow> is_cont b \<and> is_cont c \<and> in_range 0xE0 0xEF a"
  "utf8_two a b \<Longrightarrow> is_cont b \<and> in_range 0xC2 0xDF a"
  by (auto simp: byte_defs)

lemma not_front_simps:
  "is_cont b \<Longrightarrow> \<not> in_range 0 127 b" "is_cont b \<Longrightarrow> \<not> in_range 0xC0 0xDF b"
  "in_range 0xE0 0xEF b \<Longrightarrow> \<not> in_range 0 127 b"
  "in_range 0xE0 0xEF b \<Longrightarrow> \<not> in_range 0xC0 0xDF b"
  by (auto simp: byte_defs)

text \<open>What is found behind a complete character, and behind the beginning of one.\<close>

lemmas tail_eval = get_cesu8_tail_len_def index_def nth_append tail_scan_step type_at_def
  tail_from_def not_front_simps type_of_rules

lemma tail_after_char:
  assumes "cesu_char d"
  shows "get_cesu8_tail_len (xs @ d) (length (xs @ d)) = Ok 0"
  using assms
proof (cases rule: cesu_char_cases)
  case (One a)
  then show ?thesis by (simp add: tail_eval utf8_one_def)
next
  case (Two a b)
  note surrogate_conts(4) [OF Two(2)]
  then show ?thesis unfolding Two(1) by (simp add: tail_eval del: tail_scan.simps)
next
  case (Three a b c)
  note surrogate_conts(3) [OF Three(2)]
  then show ?thesis using Three(2) unfolding Three(1) by (simp add: tail_eval del: tail_scan.simps)
next
  case (Six a b c x y z)
  note surrogate_conts(1) [OF Six(2)] surrogate_conts(2) [OF Six(3)]
  then show ?thesis using Six(2,3) unfolding Six(1) by (simp add: tail_eval del: tail_scan.simps)
qed

text \<open>The beginning of a character that is not a complete one.\<close>

lemma tail_after_partial:
  assumes "cesu_char d" "0 < j" "j < length d" "j \<noteq> 1"
  shows "get_cesu8_tail_len (xs @ take j d) (length (xs @ take j d)) = Ok j"
  using assms
proof (cases rule: cesu_char_cases)
  case (Three a b c)
  note surrogate_conts(3) [OF Three(2)]
  moreover have "j = 2" using Three assms by auto
  ultimately show ?thesis using Three(2) unfolding Three(1) by (simp add: tail_eval del: tail_scan.simps)
next
  case (Six a b c x y z)
  note * = surrogate_conts(1) [OF Six(2)] surrogate_conts(2) [OF Six(3)]
  have "j = 2 \<or> j = 3 \<or> j = 4 \<or> j = 5" using Six(1) assms by auto
  then show ?thesis using Six(2,3) * unfolding Six(1)
    by (elim disjE) (simp_all add: tail_eval del: tail_scan.simps)
qed auto

lemma tail_after_lead:
  assumes "cesu_char d" "cesu_char e" "1 < length e"
  shows "get_cesu8_tail_len (xs @ d @ take 1 e) (length (xs @ d @ take 1 e)) = Ok 1"
proof -
  consider b where "take 1 e = [b]" "in_range 0xC2 0xDF b" | b where "take 1 e = [b]" "in_range 0xE0 0xEF b"
    using assms(2,3) by (cases rule: cesu_char_cases) (auto dest: surrogate_conts)
  then show ?thesis
  proof cases
    case 1
    then show ?thesis by (simp add: tail_eval byte_defs)
  next
    case (2 l)
    from assms(1) show ?thesis
    proof (cases rule: cesu_char_cases)
      case (One a)
      then show ?thesis using 2 by (simp add: tail_eval del: tail_scan.simps)
    next
      case (Two a b)
      then show ?thesis using 2 surrogate_conts(4) [OF Two(2)]
        by (simp add: tail_eval del: tail_scan.simps)
    next
      case (Three a b c)
      then show ?thesis using 2 surrogate_conts(3) [OF Three(2)]
        by (simp add: tail_eval del: tail_scan.simps)
    next
      case (Six a b c x y z)
      then show ?thesis using 2 surrogate_conts(1) [OF Six(2)] surrogate_conts(2) [OF Six(3)]
        by (simp add: tail_eval del: tail_scan.simps)
    qed
  qed
qed

section \<open>The cut position\<close>

lemma cesu_char_nonempty: "cesu_char d \<Longrightarrow> d \<noteq> []"
  by (cases d) auto

lemma take_concat:
  assumes "i \<le> length (concat cs)" "list_all (\<lambda>c. c \<noteq> []) cs"
  shows "\<exists>n j. n \<le> length cs \<and> i = length (concat (take n cs)) + j
    \<and> take i (concat cs) = concat (take n cs) @ (if n < length cs then take j (cs ! n) else [])
    \<and> (if n < length cs then j < length (cs ! n) else j = 0)"
  using assms
proof (induction cs arbitrary: i)
  case (Cons c cs)
  show ?case
  proof (cases "i < length c")
    case True
    then show ?thesis by (intro exI [of _ 0] exI [of _ i]) simp
  next
    case False
    with Cons.prems have "i - length c \<le> length (concat cs)" by simp
    with Cons.prems obtain n j where n: "n \<le> length cs"
      "i - length c = length (concat (take n cs)) + j"
      "take (i - length c) (concat cs) =
         concat (take n cs) @ (if n < length cs then take j (cs ! n) else [])"
      "if n < length cs then j < length (cs ! n) else j = 0"
      using Cons.IH [of "i - length c"] by (auto simp del: length_concat)
    with False show ?thesis by (intro exI [of _ "Suc n"] exI [of _ j]) auto
  qed
qed simp

lemma get_tail_lead_two:
  "in_range 0xC0 0xDF b \<Longrightarrow> get_cesu8_tail_len (xs @ [b]) (length (xs @ [b])) = Ok 1"
  by (simp add: get_cesu8_tail_len_def index_def nth_append byte_defs)

lemma tail_len_cut_aux:
  assumes cs: "list_all cesu_char cs" and n: "n < length cs" and j: "0 < j" "j < length (cs ! n)"
    and ok: "\<not> (n = 0 \<and> j = 1 \<and> 2 < length (cs ! n))"
  shows "get_cesu8_tail_len (concat (take n cs) @ take j (cs ! n))
           (length (concat (take n cs)) + j) = Ok j"
proof -
  let ?e = "cs ! n"
  have e: "cesu_char ?e" using cs n by (simp add: list_all_length)
  have len: "length (concat (take n cs)) + j = length (concat (take n cs) @ take j ?e)" using j by simp
  consider "j \<noteq> 1" | "j = 1" "length ?e \<le> 2" | m where "j = 1" "n = Suc m"
    using ok by (cases n; cases "j = 1"; cases "length ?e \<le> 2") auto
  then show ?thesis
  proof cases
    case 1
    with tail_after_partial [OF e j] show ?thesis unfolding len by blast
  next
    case 2
    with e j obtain a b where "?e = [a, b]" "in_range 0xC0 0xDF a"
      by (cases rule: cesu_char_cases) (auto simp: byte_defs)
    with 2 show ?thesis using get_tail_lead_two by simp
  next
    case (3 m)
    have "cesu_char (cs ! m)" using cs n 3 by (simp add: list_all_length)
    moreover have "concat (take n cs) = concat (take m cs) @ cs ! m"
      using n 3 by (simp add: take_Suc_conv_app_nth)
    ultimately show ?thesis using tail_after_lead [OF _ e, of "cs ! m" "concat (take m cs)"] j 3 by simp
  qed
qed

lemma cesu_char_length: "cesu_char d \<Longrightarrow> 0 < length d \<and> length d \<le> 6"
  by (cases rule: cesu_char_cases) auto

lemma cut_position:
  assumes cs: "list_all cesu_char cs" and i: "i \<le> length (concat cs)"
    and ok: "\<not> (i = 1 \<and> 2 < length (hd cs))"
  shows "\<exists>k n. get_cesu8_tail_len (take i (concat cs)) i = Ok k \<and> k \<le> i \<and> k < 6
     \<and> n \<le> length cs \<and> take (i - k) (concat cs) = concat (take n cs)
     \<and> (n < length cs \<longrightarrow> k < length (cs ! n))"
proof -
  have ne: "list_all (\<lambda>c. c \<noteq> []) cs"
    using cs by (auto simp: list_all_iff dest: cesu_char_nonempty)
  obtain n j where nj: "n \<le> length cs" "i = length (concat (take n cs)) + j"
    "take i (concat cs) = concat (take n cs) @ (if n < length cs then take j (cs ! n) else [])"
    "if n < length cs then j < length (cs ! n) else j = 0"
    using take_concat [OF i ne] by blast
  have pre: "take (i - j) (concat cs) = concat (take n cs)"
  proof -
    have "concat cs = concat (take n cs) @ concat (drop n cs)"
      by (metis append_take_drop_id concat_append)
    then show ?thesis using nj(2) by (metis add_diff_cancel_right' append_eq_conv_conj)
  qed
  show ?thesis
  proof (cases "j = 0")
    case True
    have "get_cesu8_tail_len (take i (concat cs)) i = Ok 0"
    proof (cases n)
      case 0
      then show ?thesis using nj True by (simp add: get_cesu8_tail_len_def)
    next
      case (Suc m)
      then have "concat (take n cs) = concat (take m cs) @ cs ! m" "cesu_char (cs ! m)"
        using nj cs by (simp_all add: take_Suc_conv_app_nth list_all_length)
      then show ?thesis using tail_after_char [of "cs ! m" "concat (take m cs)"] nj True by simp
    qed
    then show ?thesis using True pre nj(1) cs
      by (intro exI [of _ 0] exI [of _ n]) (auto simp: list_all_length dest: cesu_char_nonempty)
  next
    case False
    then have n: "n < length cs" "j < length (cs ! n)" using nj(4) by (auto split: if_splits)
    have "\<not> (n = 0 \<and> j = 1 \<and> 2 < length (cs ! n))"
      using ok nj(2) n(1) by (auto simp: hd_conv_nth)
    with tail_len_cut_aux [OF cs n(1)] False n(2)
    have "get_cesu8_tail_len (take i (concat cs)) i = Ok j" using nj n by simp
    moreover have "j < 6" using n cs cesu_char_length [of "cs ! n"] by (auto simp: list_all_length)
    ultimately show ?thesis using pre nj n by (intro exI [of _ j] exI [of _ n]) auto
  qed
qed

text \<open>Wherever a CESU-8 text is cut, except after the first byte of a text that begins with a character of
  three or more bytes, the tail that is kept back is shorter than six bytes and what is before it is a
  sequence of whole characters; the tail is the beginning of the next character.\<close>

theorem tail_len_cut:
  assumes cs: "list_all cesu_char cs" and i: "i \<le> length (concat cs)"
    and ok: "\<not> (i = 1 \<and> 2 < length (hd cs))"
  shows "\<exists>k n. get_cesu8_tail_len (take i (concat cs)) i = Ok k \<and> k \<le> i \<and> k < 6
     \<and> n \<le> length cs \<and> take (i - k) (concat cs) = concat (take n cs)
     \<and> (n < length cs \<longrightarrow> k < length (cs ! n))"
  using assms by (rule cut_position)

text \<open>The case the theorem excludes.\<close>

lemma tail_len_single_lead:
  "in_range 0xE0 0xEF b \<Longrightarrow>
     get_cesu8_tail_len [b] 1 = Err (io_error ''no valid cesu8 cutoff point found'')"
  by (simp add: get_cesu8_tail_len_def index_def not_front_simps char_type_at_def type_of_last_lead3)

section \<open>UTF-8 texts as sequences of characters\<close>

fun utf8_char :: "bytes \<Rightarrow> bool" where
  "utf8_char [a] = utf8_one a"
| "utf8_char [a, b] = utf8_two a b"
| "utf8_char [a, b, c] = utf8_three a b c"
| "utf8_char [a, b, c, d] = utf8_four a b c d"
| "utf8_char _ = False"

lemma utf8_char_cases [consumes 1, case_names One Two Three Four]:
  assumes "utf8_char d"
  obtains a where "d = [a]" "utf8_one a"
  | a b where "d = [a, b]" "utf8_two a b"
  | a b c where "d = [a, b, c]" "utf8_three a b c"
  | a b c e where "d = [a, b, c, e]" "utf8_four a b c e"
  using assms by (cases d rule: utf8_char.cases) auto

lemma utf8_char_long:
  assumes "utf8_char c" "\<not> length c \<le> 3"
  obtains p q r t where "c = [p, q, r, t]" "utf8_four p q r t"
  using assms by (cases c rule: utf8_char_cases) auto

lemma utf8_front_char: "utf8_char c \<Longrightarrow> utf8_front (c @ s) = length c"
  by (cases rule: utf8_char_cases) (auto simp: byte_defs)

lemma utf8_front_take: "utf8_front bs \<noteq> 0 \<Longrightarrow> utf8_char (take (utf8_front bs) bs)"
  by (cases bs) (auto split: list.splits if_splits)

lemma valid_utf8_char_append: "utf8_char c \<Longrightarrow> valid_utf8 (c @ s) = valid_utf8 s"
  by (subst valid_utf8.simps) (auto simp: utf8_front_char elim: utf8_char_cases)

lemma valid_utf8_Nil [simp]: "valid_utf8 []"
  by (simp add: valid_utf8.simps)

lemma valid_utf8_concat: "list_all utf8_char cs \<Longrightarrow> valid_utf8 (concat cs)"
  by (induction cs) (auto simp: valid_utf8_char_append)

lemma valid_utf8_split:
  "valid_utf8 s \<Longrightarrow> s \<noteq> [] \<Longrightarrow> \<exists>c r. s = c @ r \<and> utf8_char c \<and> valid_utf8 r"
  by (rule exI [of _ "take (utf8_front s) s"], rule exI [of _ "drop (utf8_front s) s"])
    (use valid_utf8.simps [of s] utf8_front_take [of s] in \<open>auto split: if_splits\<close>)

lemma valid_utf8_induct [consumes 1, case_names Nil Char]:
  assumes "valid_utf8 s" "P []"
    and "\<And>c r. utf8_char c \<Longrightarrow> valid_utf8 r \<Longrightarrow> P r \<Longrightarrow> P (c @ r)"
  shows "P s"
  using assms(1)
proof (induction s rule: length_induct)
  case (1 s)
  show ?case
  proof (cases "s = []")
    case False
    with 1 obtain c r where "s = c @ r" "utf8_char c" "valid_utf8 r"
      using valid_utf8_split by blast
    moreover have "length r < length (c @ r)" using \<open>utf8_char c\<close> by (cases c) auto
    ultimately show ?thesis using 1 assms(3) by blast
  qed (use assms(2) in simp)
qed

lemma valid_utf8_append: "valid_utf8 s \<Longrightarrow> valid_utf8 (s @ t) = valid_utf8 t"
  by (induction rule: valid_utf8_induct) (auto simp: valid_utf8_char_append)

lemma valid_utf8_charI: "utf8_char c \<Longrightarrow> valid_utf8 c"
  using valid_utf8_char_append [of c "[]"] by simp

lemma surrogate_invalid: "hi_surrogate a b c \<Longrightarrow> \<not> valid_utf8 (a # b # c # r)"
  by (subst valid_utf8.simps) (auto simp: byte_defs split: list.splits)

section \<open>The crate\<close>

locale cesu8_crate =
  fixes c8 :: cesu8_lib
  assumes to_cesu8_Nil: "to_cesu8 c8 [] = []"
    and to_cesu8_append: "utf8_char c \<Longrightarrow> valid_utf8 s \<Longrightarrow>
      to_cesu8 c8 (c @ s) = to_cesu8 c8 c @ to_cesu8 c8 s"
    and to_cesu8_bmp: "utf8_char c \<Longrightarrow> length c \<le> 3 \<Longrightarrow> to_cesu8 c8 c = c"
    and to_cesu8_supplementary: "utf8_four p q r t \<Longrightarrow> \<exists>a b x d e f.
      to_cesu8 c8 [p, q, r, t] = [a, b, x, d, e, f] \<and> hi_surrogate a b x \<and> lo_surrogate d e f"
    and from_to_cesu8: "valid_utf8 s \<Longrightarrow> from_cesu8 c8 (to_cesu8 c8 s) = Some s"
    and to_cesu8_surj: "list_all cesu_char ds \<Longrightarrow>
      \<exists>s. valid_utf8 s \<and> to_cesu8 c8 s = concat ds"
begin

lemma to_cesu8_char: "utf8_char c \<Longrightarrow> cesu_char (to_cesu8 c8 c)"
proof (cases "length c \<le> 3")
  case True
  moreover assume "utf8_char c"
  ultimately show ?thesis by (cases c rule: utf8_char.cases) (auto simp: to_cesu8_bmp)
next
  case False
  assume "utf8_char c"
  with False obtain p q r s where "c = [p, q, r, s]" "utf8_four p q r s"
    using utf8_char_long by blast
  with to_cesu8_supplementary [of p q r s] show ?thesis by auto
qed

lemma to_cesu8_chars: "valid_utf8 s \<Longrightarrow> \<exists>ds. list_all cesu_char ds \<and> to_cesu8 c8 s = concat ds"
proof (induction rule: valid_utf8_induct)
  case Nil
  then show ?case by (intro exI [of _ "[]"]) (simp add: to_cesu8_Nil)
next
  case (Char c r)
  then obtain ds where "list_all cesu_char ds" "to_cesu8 c8 r = concat ds" by blast
  then show ?case using Char to_cesu8_char
    by (intro exI [of _ "to_cesu8 c8 c # ds"]) (simp add: to_cesu8_append)
qed

lemma cesu8_length_char: "utf8_char c \<Longrightarrow> cesu8_length c = length (to_cesu8 c8 c)"
proof (cases "length c \<le> 3")
  case True
  moreover assume "utf8_char c"
  ultimately show ?thesis
    by (cases c rule: utf8_char.cases) (auto simp: to_cesu8_bmp cesu8_length_def byte_defs)
next
  case False
  assume "utf8_char c"
  with False obtain p q r s where c: "c = [p, q, r, s]" "utf8_four p q r s"
    using utf8_char_long by blast
  then have "length (to_cesu8 c8 c) = 6" using to_cesu8_supplementary [of p q r s] by auto
  with c show ?thesis by (auto simp: cesu8_length_def byte_defs)
qed

lemma cesu8_length_eq: "valid_utf8 s \<Longrightarrow> cesu8_length s = length (to_cesu8 c8 s)"
proof (induction rule: valid_utf8_induct)
  case (Char c r)
  then show ?case using cesu8_length_char [of c] by (simp add: to_cesu8_append) (simp add: cesu8_length_def)
qed (simp add: to_cesu8_Nil cesu8_length_def)

lemma to_cesu8_valid_id: "valid_utf8 s \<Longrightarrow> valid_utf8 (to_cesu8 c8 s) \<Longrightarrow> to_cesu8 c8 s = s"
proof (induction rule: valid_utf8_induct)
  case (Char c r)
  show ?case
  proof (cases "length c \<le> 3")
    case True
    with Char show ?thesis by (simp add: to_cesu8_append to_cesu8_bmp valid_utf8_char_append)
  next
    case False
    with Char(1) obtain p q s t where c: "c = [p, q, s, t]" "utf8_four p q s t"
      using utf8_char_long by blast
    with to_cesu8_supplementary [of p q s t] obtain a b x y where
      "to_cesu8 c8 c = a # b # x # y" "hi_surrogate a b x" by blast
    with Char surrogate_invalid show ?thesis by (auto simp: to_cesu8_append)
  qed
qed (simp add: to_cesu8_Nil)

lemma string_from_to_cesu8: "valid_utf8 s \<Longrightarrow> string_from_cesu8 c8 (to_cesu8 c8 s) = Ok s"
  by (auto simp: string_from_cesu8_def from_utf8_def from_to_cesu8 to_cesu8_valid_id)

lemma io_string_to_cesu8 [rd_simps]: "valid_utf8 s \<Longrightarrow> io_string c8 (to_cesu8 c8 s) = Ok s"
  by (simp add: io_string_def string_from_to_cesu8)

lemma hdb_string_to_cesu8: "valid_utf8 s \<Longrightarrow> hdb_string c8 (to_cesu8 c8 s) = Ok s"
  by (simp add: hdb_string_def string_from_to_cesu8)

lemma hdb_string_chars:
  assumes "list_all cesu_char ds"
  shows "\<exists>s. hdb_string c8 (concat ds) = Ok s \<and> valid_utf8 s \<and> to_cesu8 c8 s = concat ds"
  using to_cesu8_surj [OF assms] hdb_string_to_cesu8 by metis

end

section \<open>A codec that satisfies the documentation\<close>

definition ref_pair :: "u8 \<Rightarrow> u8 \<Rightarrow> u8 \<Rightarrow> u8 \<Rightarrow> bytes" where
  "ref_pair p q r s =
     (let h = (unat p - 0xF0) * 64 + (unat q - 0x80) - 16; m = unat r - 0x80
      in [0xED, word_of_nat (0xA0 + h div 16), word_of_nat (0x80 + (h mod 16) * 4 + m div 16),
          0xED, word_of_nat (0xB0 + m mod 16), s])"

definition ref_four :: "u8 \<Rightarrow> u8 \<Rightarrow> u8 \<Rightarrow> u8 \<Rightarrow> bytes" where
  "ref_four b c e f =
     (let h = (unat b - 0xA0) * 16 + (unat c - 0x80) div 4 + 16;
          m = ((unat c - 0x80) mod 4) * 16 + (unat e - 0xB0)
      in [word_of_nat (0xF0 + h div 64), word_of_nat (0x80 + h mod 64), word_of_nat (0x80 + m), f])"

lemma u8_eqI: "unat (a :: u8) = unat b \<Longrightarrow> a = b"
  by (simp add: word_unat_eq_iff)

lemma unat_of_small: "n < 256 \<Longrightarrow> unat (word_of_nat n :: u8) = n"
  by (simp add: unat_of_nat)

lemma ref_pair_surrogates:
  assumes "utf8_four p q r s"
  shows "\<exists>b c e. ref_pair p q r s = [0xED, b, c, 0xED, e, s] \<and> hi_surrogate 0xED b c
     \<and> lo_surrogate 0xED e s \<and> ref_four b c e s = [p, q, r, s]"
proof -
  define h where "h = (unat p - 0xF0) * 64 + (unat q - 0x80) - 16"
  define m where "m = unat r - 0x80"
  define b c e :: u8 where "b = word_of_nat (0xA0 + h div 16)"
    and "c = word_of_nat (0x80 + (h mod 16) * 4 + m div 16)" and "e = word_of_nat (0xB0 + m mod 16)"
  have rg: "240 \<le> unat p" "unat p \<le> 244" "128 \<le> unat q" "unat q \<le> 191" "128 \<le> unat r" "unat r \<le> 191"
    "128 \<le> unat s" "unat s \<le> 191" "unat p = 240 \<longrightarrow> 144 \<le> unat q" "unat p = 244 \<longrightarrow> unat q \<le> 143"
    using assms by (auto simp: byte_defs)
  have h: "h + 16 = (unat p - 240) * 64 + (unat q - 128)" "h < 256"
    and m: "m + 128 = unat r" "m < 64"
    using rg unfolding h_def m_def by auto
  have ub: "unat b = 160 + h div 16" "unat c = 128 + (h mod 16) * 4 + m div 16" "unat e = 176 + m mod 16"
    unfolding b_def c_def e_def using h m by (subst unat_of_small; auto)+
  have "h div 16 < 16" "m div 16 < 4" "h mod 16 < 16" "m mod 16 < 16" using h m by auto
  then have surr: "hi_surrogate 0xED b c" "lo_surrogate 0xED e s"
    using ub rg by (auto simp: byte_defs)
  have "(unat b - 160) * 16 + (unat c - 128) div 4 + 16 = h + 16"
    "((unat c - 128) mod 4) * 16 + (unat e - 176) = m"
    using ub h m by auto
  moreover have divmod: "(x * 64 + y) div 64 = x \<and> (x * 64 + y) mod 64 = y" if "y < 64" for x y :: nat
    using that by auto
  have "(h + 16) div 64 = unat p - 240" "(h + 16) mod 64 = unat q - 128"
    unfolding h(1) using divmod [of "unat q - 128" "unat p - 240"] rg by linarith+
  moreover have "word_of_nat (128 + m) = r"
    using rg m by (intro u8_eqI) (simp add: unat_of_small del: of_nat_add)
  ultimately have "ref_four b c e s = [p, q, r, s]"
    using rg by (simp add: ref_four_def Let_def del: of_nat_add)
  moreover have "ref_pair p q r s = [0xED, b, c, 0xED, e, s]"
    unfolding ref_pair_def Let_def h_def [symmetric] m_def [symmetric] b_def c_def e_def ..
  ultimately show ?thesis using surr by blast
qed


lemma ref_four_valid:
  assumes "hi_surrogate a b c" "lo_surrogate d e f"
  shows "\<exists>p q r. ref_four b c e f = [p, q, r, f] \<and> utf8_four p q r f
     \<and> ref_pair p q r f = [a, b, c, d, e, f]"
proof -
  define x y z where "x = unat b - 160" and "y = unat c - 128" and "z = unat e - 176"
  have rg: "160 \<le> unat b" "unat b \<le> 175" "128 \<le> unat c" "unat c \<le> 191" "176 \<le> unat e" "unat e \<le> 191"
    "128 \<le> unat f" "unat f \<le> 191" and ad: "unat a = 237" "unat d = 237"
    using assms by (auto simp: byte_defs)
  have xyz: "unat b = 160 + x" "unat c = 128 + y" "unat e = 176 + z" "x < 16" "y < 64" "z < 16"
    using rg unfolding x_def y_def z_def by auto
  define h where "h = x * 16 + y div 4 + 16"
  define m where "m = (y mod 4) * 16 + z"
  have h: "16 \<le> h" "h < 272" and m: "m < 64" using xyz unfolding h_def m_def by linarith+
  define p q r :: u8 where "p = word_of_nat (0xF0 + h div 64)" and "q = word_of_nat (0x80 + h mod 64)"
    and "r = word_of_nat (0x80 + m)"
  have u: "unat p = 240 + h div 64" "unat q = 128 + h mod 64" "unat r = 128 + m"
    unfolding p_def q_def r_def using h m by (subst unat_of_small; simp)+
  define hd hm where "hd = h div 64" and "hm = h mod 64"
  have "h = hd * 64 + hm" "hm < 64" unfolding hd_def hm_def by simp_all
  then have "hd \<le> 4" "hm < 64" "hd = 0 \<longrightarrow> 16 \<le> hm" "hd = 4 \<longrightarrow> hm \<le> 15"
    using h by linarith+
  then have "h div 64 \<le> 4" "h mod 64 < 64" "h div 64 = 0 \<longrightarrow> 16 \<le> h mod 64"
    "h div 64 = 4 \<longrightarrow> h mod 64 \<le> 15"
    by (simp_all only: hd_def hm_def)
  then have four: "utf8_four p q r f" using u m rg by (auto simp: byte_defs)
  have h16: "(h div 64) * 64 + h mod 64 - 16 = h - 16" by (simp add: div_mult_mod_eq)
  have y: "y div 4 < 16" "y mod 4 < 4" "(y div 4) * 4 + y mod 4 = y" using xyz by simp_all
  have dm: "(u * 16 + v) div 16 = u \<and> (u * 16 + v) mod 16 = v" if "v < 16" for u v :: nat
    using that by auto
  have "(h - 16) div 16 = x" "(h - 16) mod 16 = y div 4"
    using dm [of "y div 4" x] y(1) unfolding h_def by simp_all
  moreover have
    "m div 16 = y mod 4" "m mod 16 = z"
    using dm [of z "y mod 4"] xyz unfolding m_def by simp_all
  ultimately have "ref_pair p q r f = [0xED, word_of_nat (160 + x), word_of_nat (128 + y), 0xED,
      word_of_nat (176 + z), f]"
    using y(3) by (simp add: ref_pair_def Let_def u h16 add.assoc del: of_nat_add)
  also have "\<dots> = [a, b, c, d, e, f]"
    using xyz ad by (auto intro!: u8_eqI simp: unat_of_small simp del: of_nat_add)
  finally have "ref_pair p q r f = [a, b, c, d, e, f]" .
  moreover have "ref_four b c e f = [p, q, r, f]"
    unfolding ref_four_def Let_def p_def q_def r_def h_def m_def x_def y_def z_def ..
  ultimately show ?thesis using four by blast
qed

definition ref_char :: "bytes \<Rightarrow> bytes" where
  "ref_char c = (case c of [p, q, r, s] \<Rightarrow> ref_pair p q r s | _ \<Rightarrow> c)"

function ref_to_cesu8 :: "rstring \<Rightarrow> bytes" where
  "ref_to_cesu8 s =
     (if utf8_front s = 0 then s
      else ref_char (take (utf8_front s) s) @ ref_to_cesu8 (drop (utf8_front s) s))"
  by pat_completeness auto
termination
proof (relation "measure length")
  fix s :: bytes
  assume "utf8_front s \<noteq> 0"
  then show "(drop (utf8_front s) s, s) \<in> measure length"
    by (cases s) auto
qed simp

declare ref_to_cesu8.simps [simp del]

text \<open>The decoder accepts UTF-8 characters and surrogate pairs.\<close>

fun ref_pair_front :: "bytes \<Rightarrow> bytes option" where
  "ref_pair_front (a # b # c # d # e # f # _) =
     (if hi_surrogate a b c \<and> lo_surrogate d e f then Some (ref_four b c e f) else None)"
| "ref_pair_front _ = None"

function ref_from_cesu8 :: "bytes \<Rightarrow> rstring option" where
  "ref_from_cesu8 bs =
     (if bs = [] then Some []
      else case ref_pair_front bs of
        Some c \<Rightarrow> map_option ((@) c) (ref_from_cesu8 (drop 6 bs))
      | None \<Rightarrow>
          if utf8_front bs = 0 then None
          else map_option ((@) (take (utf8_front bs) bs)) (ref_from_cesu8 (drop (utf8_front bs) bs)))"
  by pat_completeness auto
termination
  by (relation "measure length") auto

declare ref_from_cesu8.simps [simp del]

definition ref_cesu8 :: cesu8_lib where
  "ref_cesu8 = \<lparr>to_cesu8 = ref_to_cesu8, from_cesu8 = ref_from_cesu8\<rparr>"

lemma ref_to_Nil: "ref_to_cesu8 [] = []"
  by (simp add: ref_to_cesu8.simps)

lemma ref_to_append: "utf8_char c \<Longrightarrow> ref_to_cesu8 (c @ s) = ref_char c @ ref_to_cesu8 s"
  by (subst ref_to_cesu8.simps) (auto simp: utf8_front_char elim: utf8_char_cases)

lemma ref_to_char: "utf8_char c \<Longrightarrow> ref_to_cesu8 c = ref_char c"
  using ref_to_append [of c "[]"] by (simp add: ref_to_Nil)

lemma ref_char_bmp: "utf8_char c \<Longrightarrow> length c \<le> 3 \<Longrightarrow> ref_char c = c"
  by (cases rule: utf8_char_cases) (auto simp: ref_char_def)

lemma ref_pair_front_bmp: "utf8_char c \<Longrightarrow> ref_pair_front (c @ s) = None"
proof (cases "ref_pair_front (c @ s)")
  case (Some x)
  then obtain a b d r where "c @ s = a # b # d # r" "hi_surrogate a b d"
    by (cases "c @ s" rule: ref_pair_front.cases) (auto split: if_splits)
  moreover assume "utf8_char c"
  ultimately show ?thesis
    by (cases c rule: utf8_char.cases) (auto simp: byte_defs)
qed

lemma ref_from_char:
  assumes "utf8_char c"
  shows "ref_from_cesu8 (ref_char c @ s) = map_option ((@) c) (ref_from_cesu8 s)"
proof (cases "length c \<le> 3")
  case True
  have "utf8_front (c @ s) = length c" "c \<noteq> []" using assms utf8_front_char by auto
  with True assms show ?thesis
    by (subst ref_from_cesu8.simps) (simp add: ref_char_bmp ref_pair_front_bmp)
next
  case False
  with assms obtain p q r t where c: "c = [p, q, r, t]" "utf8_four p q r t"
    using utf8_char_long by blast
  obtain x y z where "ref_pair p q r t = [0xED, x, y, 0xED, z, t]" "hi_surrogate 0xED x y"
    "lo_surrogate 0xED z t" "ref_four x y z t = [p, q, r, t]"
    using ref_pair_surrogates [OF c(2)] by blast
  with c show ?thesis by (subst ref_from_cesu8.simps) (simp add: ref_char_def)
qed

lemma ref_from_to: "valid_utf8 s \<Longrightarrow> ref_from_cesu8 (ref_to_cesu8 s) = Some s"
proof (induction rule: valid_utf8_induct)
  case Nil
  then show ?case by (simp add: ref_to_Nil ref_from_cesu8.simps)
next
  case (Char c r)
  then show ?case by (simp add: ref_to_append ref_from_char)
qed

lemma ref_char_surj:
  assumes "cesu_char d"
  shows "\<exists>c. utf8_char c \<and> ref_char c = d"
  using assms
proof (cases rule: cesu_char_cases)
  case (Six a b c x y z)
  then obtain p q r where "ref_pair p q r z = d" "utf8_four p q r z"
    using ref_four_valid [OF Six(2,3)] by blast
  then show ?thesis by (intro exI [of _ "[p, q, r, z]"]) (simp add: ref_char_def)
qed (auto intro!: exI [of _ d] simp: ref_char_def)

lemma ref_to_surj:
  "list_all cesu_char ds \<Longrightarrow> \<exists>s. valid_utf8 s \<and> ref_to_cesu8 s = concat ds"
proof (induction ds)
  case Nil
  then show ?case by (intro exI [of _ "[]"]) (simp add: ref_to_Nil)
next
  case (Cons d ds)
  then obtain s where "valid_utf8 s" "ref_to_cesu8 s = concat ds" by auto
  moreover obtain c where "utf8_char c" "ref_char c = d" using ref_char_surj Cons.prems by auto
  ultimately show ?case
    by (intro exI [of _ "c @ s"]) (simp add: ref_to_append valid_utf8_char_append)
qed

interpretation ref: cesu8_crate ref_cesu8
proof
  fix p q r t :: u8
  assume "utf8_four p q r t"
  then obtain x y z where "ref_pair p q r t = [0xED, x, y, 0xED, z, t]" "hi_surrogate 0xED x y"
    "lo_surrogate 0xED z t"
    using ref_pair_surrogates by blast
  moreover have "ref_to_cesu8 [p, q, r, t] = ref_pair p q r t"
    using ref_to_char [of "[p, q, r, t]"] \<open>utf8_four p q r t\<close> by (simp add: ref_char_def)
  ultimately show "\<exists>a b x d e f. to_cesu8 ref_cesu8 [p, q, r, t] = [a, b, x, d, e, f] \<and>
     hi_surrogate a b x \<and> lo_surrogate d e f"
    by (auto simp: ref_cesu8_def)
qed (simp_all add: ref_cesu8_def ref_to_Nil ref_to_append ref_to_char ref_char_bmp ref_from_to ref_to_surj)

definition sample_cesu8 :: "bytes list" where
  "sample_cesu8 = [[0x41], [0xE4, 0xBD, 0xA0]]"

theorem tail_len_cut_witness:
  "\<exists>k n. get_cesu8_tail_len [0x41, 0xE4, 0xBD] 3 = Ok k \<and> k < 6 \<and> n \<le> 2
     \<and> take (3 - k) [0x41, 0xE4, 0xBD, 0xA0] = concat (take n sample_cesu8)"
proof -
  have cs: "list_all cesu_char sample_cesu8" by code_simp
  have "concat sample_cesu8 = [0x41, 0xE4, 0xBD, 0xA0]" "length sample_cesu8 = 2"
    by (simp_all add: sample_cesu8_def)
  then show ?thesis using tail_len_cut [OF cs, of 3] by fastforce
qed

end
