(* ===== verification/Hdb_Options.thy ===== *)
theory Hdb_Options
  imports Hdb_Cesu8 "HOL-Library.AList"
begin

text \<open>
  Option parts: typed values under one-byte keys (protocol/parts/option\_value.rs, option\_part.rs,
  multiline\_option\_part.rs). The type parameter \<^verbatim>\<open>T: OptionId<T>\<close> is the locale \<open>option_id\<close>.

  An \<^verbatim>\<open>OptionPart\<close> is a \<^verbatim>\<open>HashMap\<close>, whose iteration order is not specified; it is modelled by the
  association list of its entries in the order an iteration visits them. Statements about emitting
  hold for every list with distinct keys, that is for every iteration order.
\<close>

section \<open>Option values\<close>

datatype option_value =
    OV_INT i32
  | OV_BIGINT i64
  | OV_DOUBLE "64 word"
  | OV_BOOLEAN bool
  | OV_STRING rstring
  | OV_BSTRING bytes

fun ov_type_id :: "option_value \<Rightarrow> u8" where
  "ov_type_id (OV_INT _) = 3"
| "ov_type_id (OV_BIGINT _) = 4"
| "ov_type_id (OV_DOUBLE _) = 7"
| "ov_type_id (OV_BOOLEAN _) = 28"
| "ov_type_id (OV_STRING _) = 29"
| "ov_type_id (OV_BSTRING _) = 33"

text \<open>\<^verbatim>\<open>v.len() as i16\<close> keeps the low 16 bits of the length.\<close>

definition emit_length_and_bytes :: "bytes \<Rightarrow> bytes" where
  "emit_length_and_bytes v = write_i16 (word_of_nat (length v)) @ v"

definition emit_length_and_string :: "cesu8_lib \<Rightarrow> rstring \<Rightarrow> bytes" where
  "emit_length_and_string c8 s = emit_length_and_bytes (to_cesu8 c8 s)"

definition ov_emit :: "cesu8_lib \<Rightarrow> option_value \<Rightarrow> wr" where
  "ov_emit c8 v = Ok (ov_type_id v #
     (case v of
        OV_INT i \<Rightarrow> write_i32 i
      | OV_BIGINT i \<Rightarrow> write_i64 i
      | OV_DOUBLE f \<Rightarrow> write_u64 f
      | OV_BOOLEAN b \<Rightarrow> [if b then 1 else 0]
      | OV_STRING s \<Rightarrow> emit_length_and_string c8 s
      | OV_BSTRING bs \<Rightarrow> emit_length_and_bytes bs))"

fun ov_size :: "option_value \<Rightarrow> nat" where
  "ov_size (OV_INT _) = 1 + 4"
| "ov_size (OV_BIGINT _) = 1 + 8"
| "ov_size (OV_DOUBLE _) = 1 + 8"
| "ov_size (OV_BOOLEAN _) = 1 + 1"
| "ov_size (OV_STRING s) = 1 + (cesu8_length s + 2)"
| "ov_size (OV_BSTRING v) = 1 + (length v + 2)"

definition parse_length_and_binary :: "bytes rd" where
  "parse_length_and_binary = rd_bind read_i16 (\<lambda>len. parse_bytes (usize_of len))"

definition parse_length_and_string :: "cesu8_lib \<Rightarrow> rstring rd" where
  "parse_length_and_string c8 = rd_bind parse_length_and_binary (\<lambda>bs. rd_lift (io_string c8 bs))"

definition ov_parse_value :: "cesu8_lib \<Rightarrow> u8 \<Rightarrow> option_value rd" where
  "ov_parse_value c8 typecode =
     (if typecode = 3 then rd_bind read_i32 (\<lambda>i. rd_return (OV_INT i))
      else if typecode = 4 then rd_bind read_i64 (\<lambda>i. rd_return (OV_BIGINT i))
      else if typecode = 7 then rd_bind read_u64 (\<lambda>f. rd_return (OV_DOUBLE f))
      else if typecode = 28 then rd_bind read_u8 (\<lambda>b. rd_return (OV_BOOLEAN (b > 0)))
      else if typecode = 29 then
        rd_bind (parse_length_and_string c8) (\<lambda>s. rd_return (OV_STRING s))
      else if typecode = 33 then
        rd_bind parse_length_and_binary (\<lambda>bs. rd_return (OV_BSTRING bs))
      else rd_fail (io_error ''OptionValue::parse_value() not implemented for type code {}''))"

definition ov_parse :: "cesu8_lib \<Rightarrow> option_value rd" where
  "ov_parse c8 = rd_bind read_u8 (ov_parse_value c8)"

text \<open>The values whose length field does not overflow.\<close>

fun wf_option_value :: "option_value \<Rightarrow> bool" where
  "wf_option_value (OV_STRING s) \<longleftrightarrow> valid_utf8 s \<and> cesu8_length s < 2 ^ 15"
| "wf_option_value (OV_BSTRING v) \<longleftrightarrow> length v < 2 ^ 15"
| "wf_option_value _ \<longleftrightarrow> True"

section \<open>Option parts\<close>

type_synonym 'id option_part = "('id \<times> option_value) list"

definition op_insert :: "'id \<Rightarrow> option_value \<Rightarrow> 'id option_part \<Rightarrow> 'id option_part" where
  "op_insert k v m = AList.update k v m"

definition op_get :: "'id option_part \<Rightarrow> 'id \<Rightarrow> option_value option" where
  "op_get m k = map_of m k"

definition op_remove_entry ::
    "'id \<Rightarrow> 'id option_part \<Rightarrow> ('id \<times> option_value) option \<times> 'id option_part" where
  "op_remove_entry k m = (map_option (Pair k) (map_of m k), AList.delete k m)"

definition op_len :: "'id option_part \<Rightarrow> nat" where
  "op_len m = length m"

definition op_size :: "'id option_part \<Rightarrow> nat" where
  "op_size m = sum_list (map (\<lambda>(_, v). 1 + ov_size v) m)"

definition op_emit_entry :: "cesu8_lib \<Rightarrow> ('id \<Rightarrow> u8) \<Rightarrow> 'id \<times> option_value \<Rightarrow> wr" where
  "op_emit_entry c8 to_u8 = (\<lambda>(k, v). res_bind (ov_emit c8 v) (\<lambda>bs. Ok (to_u8 k # bs)))"

definition op_emit :: "cesu8_lib \<Rightarrow> ('id \<Rightarrow> u8) \<Rightarrow> 'id option_part \<Rightarrow> wr" where
  "op_emit c8 to_u8 m = emit_list (op_emit_entry c8 to_u8) m"

primrec op_parse_loop ::
    "cesu8_lib \<Rightarrow> (u8 \<Rightarrow> 'id) \<Rightarrow> nat \<Rightarrow> 'id option_part \<Rightarrow> 'id option_part rd" where
  "op_parse_loop c8 from_u8 0 result = rd_return result"
| "op_parse_loop c8 from_u8 (Suc n) result =
     rd_bind read_u8 (\<lambda>b.
     rd_bind (ov_parse c8) (\<lambda>v. op_parse_loop c8 from_u8 n (op_insert (from_u8 b) v result)))"

definition op_parse :: "cesu8_lib \<Rightarrow> (u8 \<Rightarrow> 'id) \<Rightarrow> nat \<Rightarrow> 'id option_part rd" where
  "op_parse c8 from_u8 count = op_parse_loop c8 from_u8 count []"

text \<open>Several option parts in a row, each with its own field count.\<close>

definition multiline_parse ::
    "cesu8_lib \<Rightarrow> (u8 \<Rightarrow> 'id) \<Rightarrow> nat \<Rightarrow> 'id option_part list rd" where
  "multiline_parse c8 from_u8 no_of_lines =
     rd_repeat no_of_lines (rd_bind read_u16 (\<lambda>field_count. op_parse c8 from_u8 (unat field_count)))"

lemma op_get_insert: "op_get (op_insert k v m) k' = (if k' = k then Some v else op_get m k')"
  by (simp add: op_get_def op_insert_def update_conv)

lemma op_insert_distinct:
  "distinct (map fst m) \<Longrightarrow> distinct (map fst (op_insert k v m))"
  by (simp add: op_insert_def distinct_update)

lemma op_insert_new: "k \<notin> fst ` set m \<Longrightarrow> op_insert k v m = m @ [(k, v)]"
  by (induction m) (auto simp: op_insert_def)

section \<open>Round trips\<close>

context cesu8_crate
begin

sublocale ov: sized_codec "ov_emit c8" "ov_parse c8" wf_option_value ov_size
proof
  fix v :: option_value and bs rest :: bytes
  show "\<exists>bs. ov_emit c8 v = Ok bs" by (simp add: ov_emit_def)
  assume wf: "wf_option_value v" and e: "ov_emit c8 v = Ok bs"
  have len: "length (to_cesu8 c8 s) = cesu8_length s" if "valid_utf8 s" for s
    using cesu8_length_eq [OF that] by simp
  have bin: "parse_length_and_binary (emit_length_and_bytes d @ rest) = Ok (d, rest)"
    if "length d < 2 ^ 15" for d
    using that by (simp add: parse_length_and_binary_def emit_length_and_bytes_def rd_simps
        usize_of_nat isize_max_def)
  show "ov_parse c8 (bs @ rest) = Ok (v, rest)"
    using wf e by (cases v; force simp: ov_emit_def ov_parse_def ov_parse_value_def rd_simps
        emit_length_and_string_def parse_length_and_string_def bin len io_string_to_cesu8)
  show "length bs = ov_size v"
    using wf e by (cases v) (auto simp: ov_emit_def emit_length_and_string_def
        emit_length_and_bytes_def len)
qed

lemma ov_parse_emit:
  "wf_option_value v \<Longrightarrow> ov_emit c8 v = Ok bs \<Longrightarrow> ov_parse c8 (bs @ rest) = Ok (v, rest)"
  by (rule ov.parse_emit)

lemma op_size_emit:
  "list_all (\<lambda>(_, v). wf_option_value v) m \<Longrightarrow> op_emit c8 to_u8 m = Ok bs \<Longrightarrow> length bs = op_size m"
  by (induction m arbitrary: bs)
    (auto simp: op_emit_def op_emit_entry_def op_size_def res_simps ov.size_emit)

end

text \<open>The contract of the trait: a number received from the server is sent back unchanged.\<close>

locale option_id =
  fixes to_u8 :: "'id \<Rightarrow> u8"
    and from_u8 :: "u8 \<Rightarrow> 'id"
  assumes to_from: "to_u8 (from_u8 v) = v"
begin

lemma from_u8_inj: "from_u8 v = from_u8 w \<Longrightarrow> v = w"
  by (metis (lifting) to_from)

text \<open>The identifiers a parser can produce; the others are \<^verbatim>\<open>__Unexpected__(n)\<close> for a known \<open>n\<close>.\<close>

lemma canonical_iff: "from_u8 (to_u8 k) = k \<longleftrightarrow> k \<in> range from_u8"
proof
  show "from_u8 (to_u8 k) = k \<Longrightarrow> k \<in> range from_u8" by (rule range_eqI [OF sym])
qed (auto simp: to_from)

end

locale option_part_codec = cesu8_crate c8 + option_id to_u8 from_u8
  for c8 :: cesu8_lib and to_u8 :: "'id \<Rightarrow> u8" and from_u8 :: "u8 \<Rightarrow> 'id"
begin

lemma op_parse_loop_emit:
  assumes "list_all (\<lambda>(k, v). from_u8 (to_u8 k) = k \<and> wf_option_value v) m"
    and "distinct (map fst (acc @ m))" and "op_emit c8 to_u8 m = Ok bs"
  shows "op_parse_loop c8 from_u8 (length m) acc (bs @ rest) = Ok (acc @ m, rest)"
  using assms
proof (induction m arbitrary: acc bs)
  case Nil
  then show ?case by (simp add: op_emit_def rd_simps)
next
  case (Cons x m)
  obtain k v where x: "x = (k, v)" by (cases x)
  from Cons.prems obtain b bs' where e: "ov_emit c8 v = Ok b" "op_emit c8 to_u8 m = Ok bs'"
    and bs: "bs = to_u8 k # b @ bs'"
    by (auto simp: op_emit_def op_emit_entry_def x res_simps)
  have "op_insert k v acc = acc @ [(k, v)]"
    using Cons.prems x by (intro op_insert_new) auto
  moreover have "op_parse_loop c8 from_u8 (length m) (acc @ [(k, v)]) (bs' @ rest)
      = Ok ((acc @ [(k, v)]) @ m, rest)"
    using Cons.prems x e by (intro Cons.IH) auto
  ultimately show ?case
    using Cons.prems e ov_parse_emit [of v b] by (simp add: bs x rd_simps)
qed

lemma op_parse_emit:
  assumes "list_all (\<lambda>(k, v). from_u8 (to_u8 k) = k \<and> wf_option_value v) m"
    and "distinct (map fst m)" and "op_emit c8 to_u8 m = Ok bs"
  shows "op_parse c8 from_u8 (length m) (bs @ rest) = Ok (m, rest)"
  using op_parse_loop_emit [of m "[]"] assms by (simp add: op_parse_def)

end

end
