(* ===== verification/Hdb_Option_Ids.thy ===== *)
theory Hdb_Option_Ids
  imports Hdb_Options
begin

text \<open>
  The option parts of the protocol (protocol/parts/): transactionflags.rs, statement\_context.rs,
  lob\_flags.rs, command\_info.rs, session\_context.rs, client\_context.rs, topology.rs,
  xat\_options.rs and connect\_options.rs. Every identifier type is interpreted as an \<open>option_id\<close>.
\<close>

section \<open>Transaction flags\<close>

datatype ta_flag_id =
    RolledBack | Committed | NewIsolationlevel | DdlCommitmodeChanged | WriteTaStarted
    | NoWriteTaStarted | SessionclosingTaError | ReadOnlyMode | Unexpected_TaFlag u8

fun ta_flag_id_to_u8 :: "ta_flag_id \<Rightarrow> u8" where
  "ta_flag_id_to_u8 RolledBack = 0"
| "ta_flag_id_to_u8 Committed = 1"
| "ta_flag_id_to_u8 NewIsolationlevel = 2"
| "ta_flag_id_to_u8 DdlCommitmodeChanged = 3"
| "ta_flag_id_to_u8 WriteTaStarted = 4"
| "ta_flag_id_to_u8 NoWriteTaStarted = 5"
| "ta_flag_id_to_u8 SessionclosingTaError = 6"
| "ta_flag_id_to_u8 ReadOnlyMode = 7"
| "ta_flag_id_to_u8 (Unexpected_TaFlag v) = v"

definition ta_flag_id_from_u8 :: "u8 \<Rightarrow> ta_flag_id" where
  "ta_flag_id_from_u8 v =
     (if v = 0 then RolledBack
      else if v = 1 then Committed
      else if v = 2 then NewIsolationlevel
      else if v = 3 then DdlCommitmodeChanged
      else if v = 4 then WriteTaStarted
      else if v = 5 then NoWriteTaStarted
      else if v = 6 then SessionclosingTaError
      else if v = 7 then ReadOnlyMode
      else Unexpected_TaFlag v)"

interpretation ta_flag_ids: option_id ta_flag_id_to_u8 ta_flag_id_from_u8
  by unfold_locales (simp add: ta_flag_id_from_u8_def)

type_synonym transaction_flags = "ta_flag_id option_part"

definition is_committed :: "transaction_flags \<Rightarrow> bool" where
  "is_committed m = (case op_get m Committed of Some (OV_BOOLEAN b) \<Rightarrow> b | _ \<Rightarrow> False)"

section \<open>Statement context\<close>

datatype statement_context_id =
    StatementSequenceInfo | ServerProcessingTime | SchemaName | FlagSet | QueryTimeout
    | ClientReconnectionWaitTimeout | ServerCPUTime | ServerMemoryUsage
    | Unexpected_StatementContext u8

fun statement_context_id_to_u8 :: "statement_context_id \<Rightarrow> u8" where
  "statement_context_id_to_u8 StatementSequenceInfo = 1"
| "statement_context_id_to_u8 ServerProcessingTime = 2"
| "statement_context_id_to_u8 SchemaName = 3"
| "statement_context_id_to_u8 FlagSet = 4"
| "statement_context_id_to_u8 QueryTimeout = 5"
| "statement_context_id_to_u8 ClientReconnectionWaitTimeout = 6"
| "statement_context_id_to_u8 ServerCPUTime = 7"
| "statement_context_id_to_u8 ServerMemoryUsage = 8"
| "statement_context_id_to_u8 (Unexpected_StatementContext v) = v"

definition statement_context_id_from_u8 :: "u8 \<Rightarrow> statement_context_id" where
  "statement_context_id_from_u8 v =
     (if v = 1 then StatementSequenceInfo
      else if v = 2 then ServerProcessingTime
      else if v = 3 then SchemaName
      else if v = 4 then FlagSet
      else if v = 5 then QueryTimeout
      else if v = 6 then ClientReconnectionWaitTimeout
      else if v = 7 then ServerCPUTime
      else if v = 8 then ServerMemoryUsage
      else Unexpected_StatementContext v)"

interpretation statement_context_ids: option_id statement_context_id_to_u8 statement_context_id_from_u8
  by unfold_locales (simp add: statement_context_id_from_u8_def)

type_synonym statement_context = "statement_context_id option_part"

text \<open>\<^verbatim>\<open>value.try_into().unwrap_or(0)\<close> from \<^verbatim>\<open>i64\<close> to \<^verbatim>\<open>u64\<close>.\<close>

definition u64_or_zero :: "i64 \<Rightarrow> nat" where
  "u64_or_zero v = (if sint v < 0 then 0 else unat v)"

definition statement_sequence_info :: "statement_context \<Rightarrow> i64 option" where
  "statement_sequence_info m =
     (case op_get m StatementSequenceInfo of Some (OV_BIGINT v) \<Rightarrow> Some v | _ \<Rightarrow> None)"

definition set_statement_sequence_info :: "i64 \<Rightarrow> statement_context \<Rightarrow> statement_context" where
  "set_statement_sequence_info v m = op_insert StatementSequenceInfo (OV_BIGINT v) m"

text \<open>Durations are microseconds.\<close>

definition server_processing_time :: "statement_context \<Rightarrow> nat option" where
  "server_processing_time m =
     (case op_get m ServerProcessingTime of Some (OV_BIGINT v) \<Rightarrow> Some (u64_or_zero v) | _ \<Rightarrow> None)"

definition server_cpu_time :: "statement_context \<Rightarrow> nat option" where
  "server_cpu_time m =
     (case op_get m ServerCPUTime of Some (OV_BIGINT v) \<Rightarrow> Some (u64_or_zero v) | _ \<Rightarrow> None)"

definition server_memory_usage :: "statement_context \<Rightarrow> nat option" where
  "server_memory_usage m =
     (case op_get m ServerMemoryUsage of Some (OV_BIGINT v) \<Rightarrow> Some (u64_or_zero v) | _ \<Rightarrow> None)"

section \<open>LOB flags\<close>

datatype lob_flags_id =
    ImplicitStreaming | Unexpected_LobFlags u8

fun lob_flags_id_to_u8 :: "lob_flags_id \<Rightarrow> u8" where
  "lob_flags_id_to_u8 ImplicitStreaming = 0"
| "lob_flags_id_to_u8 (Unexpected_LobFlags v) = v"

definition lob_flags_id_from_u8 :: "u8 \<Rightarrow> lob_flags_id" where
  "lob_flags_id_from_u8 v =
     (if v = 0 then ImplicitStreaming
      else Unexpected_LobFlags v)"

interpretation lob_flags_ids: option_id lob_flags_id_to_u8 lob_flags_id_from_u8
  by unfold_locales (simp add: lob_flags_id_from_u8_def)

type_synonym lob_flags = "lob_flags_id option_part"

definition for_implicit_streaming :: lob_flags where
  "for_implicit_streaming = op_insert ImplicitStreaming (OV_BOOLEAN True) []"

section \<open>Command info\<close>

datatype command_info_id =
    LineNumber | SourceModule | Unexpected_CommandInfo u8

fun command_info_id_to_u8 :: "command_info_id \<Rightarrow> u8" where
  "command_info_id_to_u8 LineNumber = 1"
| "command_info_id_to_u8 SourceModule = 2"
| "command_info_id_to_u8 (Unexpected_CommandInfo v) = v"

definition command_info_id_from_u8 :: "u8 \<Rightarrow> command_info_id" where
  "command_info_id_from_u8 v =
     (if v = 1 then LineNumber
      else if v = 2 then SourceModule
      else Unexpected_CommandInfo v)"

interpretation command_info_ids: option_id command_info_id_to_u8 command_info_id_from_u8
  by unfold_locales (simp add: command_info_id_from_u8_def)

type_synonym command_info = "command_info_id option_part"

definition command_info_new :: "i32 \<Rightarrow> rstring \<Rightarrow> command_info" where
  "command_info_new linenumber module =
     op_insert SourceModule (OV_STRING module) (op_insert LineNumber (OV_INT linenumber) [])"

section \<open>Session context\<close>

datatype session_context_id =
    PrimaryConnectionID | PrimaryHostname | PrimaryHostPortNumber | MasterConnectionID
    | MasterHostname | MasterHostPortNumber | Unexpected_SessionContext u8

fun session_context_id_to_u8 :: "session_context_id \<Rightarrow> u8" where
  "session_context_id_to_u8 PrimaryConnectionID = 1"
| "session_context_id_to_u8 PrimaryHostname = 2"
| "session_context_id_to_u8 PrimaryHostPortNumber = 3"
| "session_context_id_to_u8 MasterConnectionID = 4"
| "session_context_id_to_u8 MasterHostname = 5"
| "session_context_id_to_u8 MasterHostPortNumber = 6"
| "session_context_id_to_u8 (Unexpected_SessionContext v) = v"

definition session_context_id_from_u8 :: "u8 \<Rightarrow> session_context_id" where
  "session_context_id_from_u8 v =
     (if v = 1 then PrimaryConnectionID
      else if v = 2 then PrimaryHostname
      else if v = 3 then PrimaryHostPortNumber
      else if v = 4 then MasterConnectionID
      else if v = 5 then MasterHostname
      else if v = 6 then MasterHostPortNumber
      else Unexpected_SessionContext v)"

interpretation session_context_ids: option_id session_context_id_to_u8 session_context_id_from_u8
  by unfold_locales (simp add: session_context_id_from_u8_def)

type_synonym session_context = "session_context_id option_part"

section \<open>Client context\<close>

datatype client_context_id =
    ClientVersion | ClientType | ClientApplicationProgramm | Unexpected_ClientContext u8

fun client_context_id_to_u8 :: "client_context_id \<Rightarrow> u8" where
  "client_context_id_to_u8 ClientVersion = 1"
| "client_context_id_to_u8 ClientType = 2"
| "client_context_id_to_u8 ClientApplicationProgramm = 3"
| "client_context_id_to_u8 (Unexpected_ClientContext v) = v"

definition client_context_id_from_u8 :: "u8 \<Rightarrow> client_context_id" where
  "client_context_id_from_u8 v =
     (if v = 1 then ClientVersion
      else if v = 2 then ClientType
      else if v = 3 then ClientApplicationProgramm
      else Unexpected_ClientContext v)"

interpretation client_context_ids: option_id client_context_id_to_u8 client_context_id_from_u8
  by unfold_locales (simp add: client_context_id_from_u8_def)

type_synonym client_context = "client_context_id option_part"

text \<open>The package version (\<^verbatim>\<open>env!\<close>) and the program's first argument are inputs.\<close>

definition client_context_new :: "rstring \<Rightarrow> rstring option \<Rightarrow> client_context" where
  "client_context_new version program =
     op_insert ClientApplicationProgramm
       (OV_STRING (case program of Some p \<Rightarrow> p | None \<Rightarrow> ascii ''<unknown>''))
     (op_insert ClientType
       (OV_STRING (ascii ''hdbconnect (rust native HANA driver, https://crates.io/crates/hdbconnect)''))
     (op_insert ClientVersion (OV_STRING version) []))"

text \<open>\<^verbatim>\<open>Display\<close> of an identifier reaches \<^verbatim>\<open>unreachable!\<close> for an unexpected one.\<close>

fun client_context_id_display :: "client_context_id \<Rightarrow> (string, 'e) res" where
  "client_context_id_display ClientVersion = Ok ''ClientVersion''"
| "client_context_id_display ClientType = Ok ''ClientType''"
| "client_context_id_display ClientApplicationProgramm = Ok ''ClientApplicationProgram''"
| "client_context_id_display (Unexpected_ClientContext _) = Panic"

section \<open>Topology\<close>

datatype topology_attr_id =
    HostName | HostPortNumber | TenantName | LoadFactor | VolumeID | IsMaster | IsCurrentSession
    | ServiceType | IsStandby | SiteType | Unexpected_TopologyAttr u8

fun topology_attr_id_to_u8 :: "topology_attr_id \<Rightarrow> u8" where
  "topology_attr_id_to_u8 HostName = 1"
| "topology_attr_id_to_u8 HostPortNumber = 2"
| "topology_attr_id_to_u8 TenantName = 3"
| "topology_attr_id_to_u8 LoadFactor = 4"
| "topology_attr_id_to_u8 VolumeID = 5"
| "topology_attr_id_to_u8 IsMaster = 6"
| "topology_attr_id_to_u8 IsCurrentSession = 7"
| "topology_attr_id_to_u8 ServiceType = 8"
| "topology_attr_id_to_u8 IsStandby = 10"
| "topology_attr_id_to_u8 SiteType = 13"
| "topology_attr_id_to_u8 (Unexpected_TopologyAttr v) = v"

definition topology_attr_id_from_u8 :: "u8 \<Rightarrow> topology_attr_id" where
  "topology_attr_id_from_u8 v =
     (if v = 1 then HostName
      else if v = 2 then HostPortNumber
      else if v = 3 then TenantName
      else if v = 4 then LoadFactor
      else if v = 5 then VolumeID
      else if v = 6 then IsMaster
      else if v = 7 then IsCurrentSession
      else if v = 8 then ServiceType
      else if v = 10 then IsStandby
      else if v = 13 then SiteType
      else Unexpected_TopologyAttr v)"

interpretation topology_attr_ids: option_id topology_attr_id_to_u8 topology_attr_id_from_u8
  by unfold_locales (simp add: topology_attr_id_from_u8_def)

type_synonym topology_line = "topology_attr_id option_part"

definition topology_parse :: "cesu8_lib \<Rightarrow> nat \<Rightarrow> topology_line list rd" where
  "topology_parse c8 = multiline_parse c8 topology_attr_id_from_u8"

section \<open>XA options\<close>

datatype xat_option_id =
    Flags | Returncode | OnePhase | NumberOfXid | XidList
    | Unexpected_XatOption u8

fun xat_option_id_to_u8 :: "xat_option_id \<Rightarrow> u8" where
  "xat_option_id_to_u8 Flags = 1"
| "xat_option_id_to_u8 Returncode = 2"
| "xat_option_id_to_u8 OnePhase = 3"
| "xat_option_id_to_u8 NumberOfXid = 4"
| "xat_option_id_to_u8 XidList = 5"
| "xat_option_id_to_u8 (Unexpected_XatOption v) = v"

definition xat_option_id_from_u8 :: "u8 \<Rightarrow> xat_option_id" where
  "xat_option_id_from_u8 v =
     (if v = 1 then Flags
      else if v = 2 then Returncode
      else if v = 3 then OnePhase
      else if v = 4 then NumberOfXid
      else if v = 5 then XidList
      else Unexpected_XatOption v)"

interpretation xat_option_ids: option_id xat_option_id_to_u8 xat_option_id_from_u8
  by unfold_locales (simp add: xat_option_id_from_u8_def)

type_synonym xat_options = "xat_option_id option_part"

text \<open>
  The crate \<^verbatim>\<open>dist_tx\<close> encodes transaction ids and flags: what \<^verbatim>\<open>as_bytes(true)\<close> and
  \<^verbatim>\<open>Flags::bits\<close> return, and what \<^verbatim>\<open>XaTransactionId::parse\<close> makes of a list, are inputs
  (\<open>None\<close> where the call returns an error, which \<^verbatim>\<open>unwrap\<close> turns into a panic).
\<close>

definition set_xatid :: "bytes option \<Rightarrow> xat_options \<Rightarrow> (xat_options, 'e) res" where
  "set_xatid as_bytes m =
     (case as_bytes of
        None \<Rightarrow> Panic
      | Some bs \<Rightarrow> Ok (op_insert XidList (OV_BSTRING bs) (op_insert NumberOfXid (OV_BIGINT 1) m)))"

definition set_flags :: "u32 \<Rightarrow> xat_options \<Rightarrow> xat_options" where
  "set_flags flag_bits m = op_insert Flags (OV_INT flag_bits) m"

text \<open>The getters iterate over the entries and stop at, or remember the last, fitting one.\<close>

fun get_returncode :: "xat_options \<Rightarrow> i32 option" where
  "get_returncode [] = None"
| "get_returncode ((Returncode, OV_INT number) # m) = Some number"
| "get_returncode (_ # m) = get_returncode m"

fun xid_count :: "xat_options \<Rightarrow> u64 \<Rightarrow> u64" where
  "xid_count [] n = n"
| "xid_count ((NumberOfXid, OV_BIGINT number) # m) n = xid_count m number"
| "xid_count (_ # m) n = xid_count m n"

fun xid_list :: "xat_options \<Rightarrow> bytes option" where
  "xid_list [] = None"
| "xid_list ((XidList, OV_BSTRING bs) # m) = Some bs"
| "xid_list (_ # m) = xid_list m"

definition get_transactions ::
    "(bytes \<Rightarrow> u64 \<Rightarrow> 'xid list option) \<Rightarrow> xat_options \<Rightarrow> ('xid list, hdb_error) res" where
  "get_transactions parse_xids m =
     (if xid_count m 0 > 0 then
        (case xid_list m of
           Some bs \<Rightarrow> (case parse_xids bs (xid_count m 0) of Some xs \<Rightarrow> Ok xs | None \<Rightarrow> Panic)
         | None \<Rightarrow> Ok [])
      else Ok [])"

section \<open>Connect options\<close>

datatype conn_opt_id =
    ConnectionID | CompleteArrayExecution | ClientLocale | SupportsLargeBulkOperations
    | DistributionEnabled | PrimaryConnectionId | PrimaryConnectionHost | PrimaryConnectionPort
    | CompleteDatatypeSupport | LargeNumberOfParametersOK | SystemID | DataFormatVersion
    | AbapVarcharMode | SelectForUpdateOK | ClientDistributionMode | EngineDataFormatVersion
    | DistributionProtocolVersion | SplitBatchCommands | UseTransactionFlagsOnly
    | RowSlotImageParameter | IgnoreUnknownParts | TableOutputParMetadataOK | DataFormatVersion2
    | ItabParameter | DescribeTableOutputParameter | ColumnarResultSet | ScrollableResultSet
    | ClientInfoNullValueOK | AssociatedConnectionID | NonTransactionalPrepare | FdaEnabled
    | OSUser | RowSlotImageResultSet | Endianness | UpdateTopologyAnwhere | EnableArrayType
    | ImplicitLobStreaming | CachedViewProperty | XOpenXAProtocolOK | MasterCommitRedirectionOK
    | ActiveActiveProtocolVersion | ActiveActiveConnOriginSite | QueryTimeoutOK
    | FullVersionString | DatabaseName | BuildPlatform | ImplicitXASessionOK
    | ClientSideColumnEncryptionVersion | CompressionLevelAndFlags
    | ClientSideReExecutionSupported | ClientReconnectWaitTimeout | OriginalAnchorConnectionID
    | FlagSet1 | TopologyNetworkGroup | IPAddress | Unexpected_ConnOpt u8

fun conn_opt_id_to_u8 :: "conn_opt_id \<Rightarrow> u8" where
  "conn_opt_id_to_u8 ConnectionID = 1"
| "conn_opt_id_to_u8 CompleteArrayExecution = 2"
| "conn_opt_id_to_u8 ClientLocale = 3"
| "conn_opt_id_to_u8 SupportsLargeBulkOperations = 4"
| "conn_opt_id_to_u8 DistributionEnabled = 5"
| "conn_opt_id_to_u8 PrimaryConnectionId = 6"
| "conn_opt_id_to_u8 PrimaryConnectionHost = 7"
| "conn_opt_id_to_u8 PrimaryConnectionPort = 8"
| "conn_opt_id_to_u8 CompleteDatatypeSupport = 9"
| "conn_opt_id_to_u8 LargeNumberOfParametersOK = 10"
| "conn_opt_id_to_u8 SystemID = 11"
| "conn_opt_id_to_u8 DataFormatVersion = 12"
| "conn_opt_id_to_u8 AbapVarcharMode = 13"
| "conn_opt_id_to_u8 SelectForUpdateOK = 14"
| "conn_opt_id_to_u8 ClientDistributionMode = 15"
| "conn_opt_id_to_u8 EngineDataFormatVersion = 16"
| "conn_opt_id_to_u8 DistributionProtocolVersion = 17"
| "conn_opt_id_to_u8 SplitBatchCommands = 18"
| "conn_opt_id_to_u8 UseTransactionFlagsOnly = 19"
| "conn_opt_id_to_u8 RowSlotImageParameter = 20"
| "conn_opt_id_to_u8 IgnoreUnknownParts = 21"
| "conn_opt_id_to_u8 TableOutputParMetadataOK = 22"
| "conn_opt_id_to_u8 DataFormatVersion2 = 23"
| "conn_opt_id_to_u8 ItabParameter = 24"
| "conn_opt_id_to_u8 DescribeTableOutputParameter = 25"
| "conn_opt_id_to_u8 ColumnarResultSet = 26"
| "conn_opt_id_to_u8 ScrollableResultSet = 27"
| "conn_opt_id_to_u8 ClientInfoNullValueOK = 28"
| "conn_opt_id_to_u8 AssociatedConnectionID = 29"
| "conn_opt_id_to_u8 NonTransactionalPrepare = 30"
| "conn_opt_id_to_u8 FdaEnabled = 31"
| "conn_opt_id_to_u8 OSUser = 32"
| "conn_opt_id_to_u8 RowSlotImageResultSet = 33"
| "conn_opt_id_to_u8 Endianness = 34"
| "conn_opt_id_to_u8 UpdateTopologyAnwhere = 35"
| "conn_opt_id_to_u8 EnableArrayType = 36"
| "conn_opt_id_to_u8 ImplicitLobStreaming = 37"
| "conn_opt_id_to_u8 CachedViewProperty = 38"
| "conn_opt_id_to_u8 XOpenXAProtocolOK = 39"
| "conn_opt_id_to_u8 MasterCommitRedirectionOK = 40"
| "conn_opt_id_to_u8 ActiveActiveProtocolVersion = 41"
| "conn_opt_id_to_u8 ActiveActiveConnOriginSite = 42"
| "conn_opt_id_to_u8 QueryTimeoutOK = 43"
| "conn_opt_id_to_u8 FullVersionString = 44"
| "conn_opt_id_to_u8 DatabaseName = 45"
| "conn_opt_id_to_u8 BuildPlatform = 46"
| "conn_opt_id_to_u8 ImplicitXASessionOK = 47"
| "conn_opt_id_to_u8 ClientSideColumnEncryptionVersion = 48"
| "conn_opt_id_to_u8 CompressionLevelAndFlags = 49"
| "conn_opt_id_to_u8 ClientSideReExecutionSupported = 50"
| "conn_opt_id_to_u8 ClientReconnectWaitTimeout = 51"
| "conn_opt_id_to_u8 OriginalAnchorConnectionID = 52"
| "conn_opt_id_to_u8 FlagSet1 = 53"
| "conn_opt_id_to_u8 TopologyNetworkGroup = 54"
| "conn_opt_id_to_u8 IPAddress = 55"
| "conn_opt_id_to_u8 (Unexpected_ConnOpt v) = v"

definition conn_opt_id_from_u8 :: "u8 \<Rightarrow> conn_opt_id" where
  "conn_opt_id_from_u8 v =
     (if v = 1 then ConnectionID
      else if v = 2 then CompleteArrayExecution
      else if v = 3 then ClientLocale
      else if v = 4 then SupportsLargeBulkOperations
      else if v = 5 then DistributionEnabled
      else if v = 6 then PrimaryConnectionId
      else if v = 7 then PrimaryConnectionHost
      else if v = 8 then PrimaryConnectionPort
      else if v = 9 then CompleteDatatypeSupport
      else if v = 10 then LargeNumberOfParametersOK
      else if v = 11 then SystemID
      else if v = 12 then DataFormatVersion
      else if v = 13 then AbapVarcharMode
      else if v = 14 then SelectForUpdateOK
      else if v = 15 then ClientDistributionMode
      else if v = 16 then EngineDataFormatVersion
      else if v = 17 then DistributionProtocolVersion
      else if v = 18 then SplitBatchCommands
      else if v = 19 then UseTransactionFlagsOnly
      else if v = 20 then RowSlotImageParameter
      else if v = 21 then IgnoreUnknownParts
      else if v = 22 then TableOutputParMetadataOK
      else if v = 23 then DataFormatVersion2
      else if v = 24 then ItabParameter
      else if v = 25 then DescribeTableOutputParameter
      else if v = 26 then ColumnarResultSet
      else if v = 27 then ScrollableResultSet
      else if v = 28 then ClientInfoNullValueOK
      else if v = 29 then AssociatedConnectionID
      else if v = 30 then NonTransactionalPrepare
      else if v = 31 then FdaEnabled
      else if v = 32 then OSUser
      else if v = 33 then RowSlotImageResultSet
      else if v = 34 then Endianness
      else if v = 35 then UpdateTopologyAnwhere
      else if v = 36 then EnableArrayType
      else if v = 37 then ImplicitLobStreaming
      else if v = 38 then CachedViewProperty
      else if v = 39 then XOpenXAProtocolOK
      else if v = 40 then MasterCommitRedirectionOK
      else if v = 41 then ActiveActiveProtocolVersion
      else if v = 42 then ActiveActiveConnOriginSite
      else if v = 43 then QueryTimeoutOK
      else if v = 44 then FullVersionString
      else if v = 45 then DatabaseName
      else if v = 46 then BuildPlatform
      else if v = 47 then ImplicitXASessionOK
      else if v = 48 then ClientSideColumnEncryptionVersion
      else if v = 49 then CompressionLevelAndFlags
      else if v = 50 then ClientSideReExecutionSupported
      else if v = 51 then ClientReconnectWaitTimeout
      else if v = 52 then OriginalAnchorConnectionID
      else if v = 53 then FlagSet1
      else if v = 54 then TopologyNetworkGroup
      else if v = 55 then IPAddress
      else Unexpected_ConnOpt v)"

interpretation conn_opt_ids: option_id conn_opt_id_to_u8 conn_opt_id_from_u8
  by unfold_locales (simp add: conn_opt_id_from_u8_def)

type_synonym connect_options = "conn_opt_id option_part"

text \<open>The options the client announces; the cargo feature \<^verbatim>\<open>alpha_routing\<close> is an input.\<close>

definition connect_options_for_server ::
    "bool \<Rightarrow> rstring option \<Rightarrow> rstring \<Rightarrow> connect_options" where
  "connect_options_for_server alpha_routing locale os_user =
     (let m1 = op_insert ClientReconnectWaitTimeout (OV_INT 678) [];
          m2 = op_insert DataFormatVersion2 (OV_INT 8) m1;
          m3 = op_insert OSUser (OV_STRING os_user) m2;
          m4 = (case locale of Some cl \<Rightarrow> op_insert ClientLocale (OV_STRING cl) m3 | None \<Rightarrow> m3)
      in if alpha_routing then
           op_insert DistributionProtocolVersion (OV_INT 1)
             (op_insert ClientDistributionMode (OV_INT 0)
               (op_insert DistributionEnabled (OV_BOOLEAN True) m4))
         else m4)"

definition digested_conn_opts :: "conn_opt_id list" where
  "digested_conn_opts =
     [ConnectionID, SystemID, DatabaseName, FullVersionString, BuildPlatform, Endianness,
      EngineDataFormatVersion, DataFormatVersion, DataFormatVersion2, NonTransactionalPrepare,
      SupportsLargeBulkOperations, ActiveActiveProtocolVersion, ImplicitLobStreaming,
      CompleteArrayExecution, QueryTimeoutOK, UseTransactionFlagsOnly, IgnoreUnknownParts,
      SplitBatchCommands, FdaEnabled, ItabParameter, ClientDistributionMode,
      ClientInfoNullValueOK, ClientReconnectWaitTimeout, FlagSet1]"

text \<open>The server's values overwrite the client's; options not in the list are ignored.\<close>

fun digest_server_connect_options :: "connect_options \<Rightarrow> connect_options \<Rightarrow> connect_options" where
  "digest_server_connect_options m [] = m"
| "digest_server_connect_options m ((k, v) # server_co) =
     digest_server_connect_options
       (if k \<in> set digested_conn_opts then op_insert k v m else m) server_co"

definition co_get_integer :: "connect_options \<Rightarrow> conn_opt_id \<Rightarrow> i32 option" where
  "co_get_integer m k = (case op_get m k of Some (OV_INT i) \<Rightarrow> Some i | _ \<Rightarrow> None)"

definition co_get_string :: "connect_options \<Rightarrow> conn_opt_id \<Rightarrow> rstring option" where
  "co_get_string m k = (case op_get m k of Some (OV_STRING s) \<Rightarrow> Some s | _ \<Rightarrow> None)"

definition co_get_bool :: "connect_options \<Rightarrow> conn_opt_id \<Rightarrow> bool option" where
  "co_get_bool m k = (case op_get m k of Some (OV_BOOLEAN b) \<Rightarrow> Some b | _ \<Rightarrow> None)"

definition get_connection_id :: "connect_options \<Rightarrow> (i32, 'e) res" where
  "get_connection_id m = (case co_get_integer m ConnectionID of Some i \<Rightarrow> Ok i | None \<Rightarrow> Panic)"

definition get_system_id :: "connect_options \<Rightarrow> rstring option" where
  "get_system_id m = co_get_string m SystemID"

definition get_database_name :: "connect_options \<Rightarrow> rstring option" where
  "get_database_name m = co_get_string m DatabaseName"

definition get_full_version_string :: "connect_options \<Rightarrow> rstring option" where
  "get_full_version_string m = co_get_string m FullVersionString"

definition get_dataformat_version2 :: "connect_options \<Rightarrow> i32 option" where
  "get_dataformat_version2 m = co_get_integer m DataFormatVersion2"

definition get_implicit_lob_streaming :: "connect_options \<Rightarrow> bool option" where
  "get_implicit_lob_streaming m = co_get_bool m ImplicitLobStreaming"

lemma digest_get:
  assumes "distinct (map fst server_co)"
  shows "op_get (digest_server_connect_options m server_co) k =
    (if k \<in> set digested_conn_opts \<and> op_get server_co k \<noteq> None then op_get server_co k
     else op_get m k)"
  using assms
proof (induction m server_co rule: digest_server_connect_options.induct)
  case (1 m)
  then show ?case by (simp add: op_get_def)
next
  case (2 m k' v server_co)
  have none: "op_get server_co k' = None"
    using 2 by (auto simp: op_get_def map_of_eq_None_iff)
  have cons: "op_get ((k', v) # server_co) k = (if k = k' then Some v else op_get server_co k)"
    by (simp add: op_get_def)
  show ?case using 2 none cons by (auto simp: op_get_insert)
qed

end
