(* ===== verification/Hdb_Types.thy ===== *)
theory Hdb_Types
  imports Hdb_Option_Ids
begin

text \<open>
  The data types of database values: \<^verbatim>\<open>TypeId\<close> (protocol/parts/type\_id.rs), the date and time types
  (types\_impl/daydate.rs, secondtime.rs, seconddate.rs, longdate.rs), the handles of LOBs
  (types\_impl/lob/), \<^verbatim>\<open>ServerUsage\<close> (protocol/server\_usage.rs), \<^verbatim>\<open>HdbValue\<close>
  (protocol/parts/hdb\_value.rs) and the parameter descriptors
  (protocol/parts/parameter\_descriptor.rs).

  The reference to the connection that LOB handles share is not part of a handle: there is one
  connection, its state is passed explicitly where it is used. A \<^verbatim>\<open>BigDecimal\<close> is the pair its
  \<^verbatim>\<open>new\<close> takes and its \<^verbatim>\<open>as_bigint_and_exponent\<close> returns.
\<close>

section \<open>Type identifiers\<close>

datatype type_id =
    TY_TINYINT | TY_SMALLINT | TY_INT | TY_BIGINT | TY_DECIMAL | TY_REAL | TY_DOUBLE | TY_CHAR
    | TY_VARCHAR | TY_NCHAR | TY_NVARCHAR | TY_BINARY | TY_VARBINARY | TY_CLOB | TY_NCLOB
    | TY_BLOB | TY_BOOLEAN | TY_STRING | TY_NSTRING | TY_BLOCATOR | TY_BSTRING | TY_TEXT
    | TY_SHORTTEXT | TY_BINTEXT | TY_ALPHANUM | TY_LONGDATE | TY_SECONDDATE | TY_DAYDATE
    | TY_SECONDTIME | TY_GEOMETRY | TY_POINT | TY_FIXED8 | TY_FIXED12 | TY_FIXED16

fun type_id_as_u8 :: "type_id \<Rightarrow> u8" where
  "type_id_as_u8 TY_TINYINT = 1"
| "type_id_as_u8 TY_SMALLINT = 2"
| "type_id_as_u8 TY_INT = 3"
| "type_id_as_u8 TY_BIGINT = 4"
| "type_id_as_u8 TY_DECIMAL = 5"
| "type_id_as_u8 TY_REAL = 6"
| "type_id_as_u8 TY_DOUBLE = 7"
| "type_id_as_u8 TY_CHAR = 8"
| "type_id_as_u8 TY_VARCHAR = 9"
| "type_id_as_u8 TY_NCHAR = 10"
| "type_id_as_u8 TY_NVARCHAR = 11"
| "type_id_as_u8 TY_BINARY = 12"
| "type_id_as_u8 TY_VARBINARY = 13"
| "type_id_as_u8 TY_CLOB = 25"
| "type_id_as_u8 TY_NCLOB = 26"
| "type_id_as_u8 TY_BLOB = 27"
| "type_id_as_u8 TY_BOOLEAN = 28"
| "type_id_as_u8 TY_STRING = 29"
| "type_id_as_u8 TY_NSTRING = 30"
| "type_id_as_u8 TY_BLOCATOR = 31"
| "type_id_as_u8 TY_BSTRING = 33"
| "type_id_as_u8 TY_TEXT = 51"
| "type_id_as_u8 TY_SHORTTEXT = 52"
| "type_id_as_u8 TY_BINTEXT = 53"
| "type_id_as_u8 TY_ALPHANUM = 55"
| "type_id_as_u8 TY_LONGDATE = 61"
| "type_id_as_u8 TY_SECONDDATE = 62"
| "type_id_as_u8 TY_DAYDATE = 63"
| "type_id_as_u8 TY_SECONDTIME = 64"
| "type_id_as_u8 TY_GEOMETRY = 74"
| "type_id_as_u8 TY_POINT = 75"
| "type_id_as_u8 TY_FIXED8 = 81"
| "type_id_as_u8 TY_FIXED12 = 82"
| "type_id_as_u8 TY_FIXED16 = 76"

definition type_id_try_new :: "u8 \<Rightarrow> (type_id, ioerr) res" where
  "type_id_try_new i =
     (if i = 1 then Ok TY_TINYINT
      else if i = 2 then Ok TY_SMALLINT
      else if i = 3 then Ok TY_INT
      else if i = 4 then Ok TY_BIGINT
      else if i = 5 then Ok TY_DECIMAL
      else if i = 6 then Ok TY_REAL
      else if i = 7 then Ok TY_DOUBLE
      else if i = 8 then Ok TY_CHAR
      else if i = 9 then Ok TY_VARCHAR
      else if i = 10 then Ok TY_NCHAR
      else if i = 11 then Ok TY_NVARCHAR
      else if i = 12 then Ok TY_BINARY
      else if i = 13 then Ok TY_VARBINARY
      else if i = 25 then Ok TY_CLOB
      else if i = 26 then Ok TY_NCLOB
      else if i = 27 then Ok TY_BLOB
      else if i = 28 then Ok TY_BOOLEAN
      else if i = 29 then Ok TY_STRING
      else if i = 30 then Ok TY_NSTRING
      else if i = 31 then Ok TY_BLOCATOR
      else if i = 33 then Ok TY_BSTRING
      else if i = 51 then Ok TY_TEXT
      else if i = 52 then Ok TY_SHORTTEXT
      else if i = 53 then Ok TY_BINTEXT
      else if i = 55 then Ok TY_ALPHANUM
      else if i = 61 then Ok TY_LONGDATE
      else if i = 62 then Ok TY_SECONDDATE
      else if i = 63 then Ok TY_DAYDATE
      else if i = 64 then Ok TY_SECONDTIME
      else if i = 74 then Ok TY_GEOMETRY
      else if i = 75 then Ok TY_POINT
      else if i = 76 then Ok TY_FIXED16
      else if i = 81 then Ok TY_FIXED8
      else if i = 82 then Ok TY_FIXED12
      else Err (io_error ''Illegal type code {}''))"

definition type_code :: "type_id \<Rightarrow> bool \<Rightarrow> u8" where
  "type_code t nullable = (if nullable then 128 else 0) + type_id_as_u8 t"

definition matches_value_type :: "type_id \<Rightarrow> type_id \<Rightarrow> (unit, ioerr) res" where
  "matches_value_type self value_type =
     (if value_type = self then Ok ()
      else case value_type of
        TY_BOOLEAN \<Rightarrow>
          (if self \<in> {TY_TINYINT, TY_SMALLINT, TY_INT, TY_BIGINT} then Ok ()
           else Err (io_error ''value type id {:?} does not match metadata {:?}''))
      | TY_STRING \<Rightarrow>
          (if self \<in> {TY_GEOMETRY, TY_POINT}
           then Err (io_error ''value type id {:?} does not match metadata {:?}'')
           else Ok ())
      | TY_BINARY \<Rightarrow>
          (if self \<in> {TY_BLOB, TY_BLOCATOR, TY_VARBINARY, TY_GEOMETRY, TY_POINT} then Ok ()
           else Err (io_error ''value type id {:?} does not match metadata {:?}''))
      | TY_DECIMAL \<Rightarrow>
          (if self \<in> {TY_FIXED8, TY_FIXED12, TY_FIXED16} then Ok ()
           else Err (io_error ''value type id {:?} does not match metadata {:?}''))
      | _ \<Rightarrow> Err (io_error ''value type id {:?} does not match metadata {:?}''))"

lemma type_id_try_new_as_u8: "type_id_try_new (type_id_as_u8 t) = Ok t"
  by (cases t) (simp_all add: type_id_try_new_def)

lemma type_id_as_u8_try_new: "type_id_try_new i = Ok t \<Longrightarrow> type_id_as_u8 t = i"
  by (auto simp: type_id_try_new_def split: if_splits)

lemma type_id_less_128: "unat (type_id_as_u8 t) < 128"
  by (cases t) simp_all

section \<open>Server usage\<close>

text \<open>Durations in microseconds.\<close>

record server_usage =
  proc_time :: nat
  accum_proc_time :: nat
  cpu_time :: nat
  accum_cpu_time :: nat
  server_mem_usage :: nat

definition server_usage_default :: server_usage where
  "server_usage_default = \<lparr>proc_time = 0, accum_proc_time = 0, cpu_time = 0, accum_cpu_time = 0,
     server_mem_usage = 0\<rparr>"

definition server_usage_update ::
    "nat option \<Rightarrow> nat option \<Rightarrow> nat option \<Rightarrow> server_usage \<Rightarrow> server_usage" where
  "server_usage_update o_proc o_cpu o_mem u =
     (let u1 = (case o_proc of
                  Some d \<Rightarrow> u\<lparr>proc_time := d, accum_proc_time := accum_proc_time u + d\<rparr>
                | None \<Rightarrow> u);
          u2 = (case o_cpu of
                  Some d \<Rightarrow> u1\<lparr>cpu_time := d, accum_cpu_time := accum_cpu_time u1 + d\<rparr>
                | None \<Rightarrow> u1)
      in u2\<lparr>server_mem_usage := (case o_mem of Some m \<Rightarrow> m | None \<Rightarrow> 0)\<rparr>)"

section \<open>Values\<close>

datatype daydate = DayDate i32
datatype secondtime = SecondTime u32
datatype seconddate = SecondDate i64
datatype longdate = LongDate i64

record bigdecimal =
  bd_int :: int
  bd_scale :: int

text \<open>The handles of LOBs. \<open>rscore\<close> is the result set a handle keeps open.\<close>

record blob_handle =
  bl_rscore :: "u64 option"
  bl_complete :: bool
  bl_total_byte_length :: u64
  bl_locator_id :: u64
  bl_data :: bytes
  bl_max_buf_len :: nat
  bl_acc_byte_length :: nat
  bl_server_usage :: server_usage

record clob_handle =
  cl_rscore :: "u64 option"
  cl_complete :: bool
  cl_total_char_length :: u64
  cl_total_byte_length :: u64
  cl_locator_id :: u64
  cl_cesu8 :: bytes
  cl_cesu8_tail_len :: nat
  cl_max_buf_len :: nat
  cl_acc_byte_length :: nat
  cl_server_usage :: server_usage

record nclob_handle =
  nc_rscore :: "u64 option"
  nc_complete :: bool
  nc_total_char_length :: u64
  nc_total_byte_length :: u64
  nc_locator_id :: u64
  nc_cesu8 :: bytes
  nc_cesu8_tail_len :: nat
  nc_max_buf_len :: nat
  nc_acc_byte_length :: nat
  nc_acc_char_length :: nat
  nc_server_usage :: server_usage

text \<open>A reader in \<^verbatim>\<open>LOBSTREAM\<close> is what it will deliver. Floating-point values are their bits.\<close>

datatype hdb_value =
    HV_NOTHING
  | HV_NULL
  | HV_TINYINT u8
  | HV_SMALLINT i16
  | HV_INT i32
  | HV_BIGINT i64
  | HV_DECIMAL bigdecimal
  | HV_REAL "32 word"
  | HV_DOUBLE "64 word"
  | HV_BINARY bytes
  | HV_CLOB clob_handle
  | HV_NCLOB nclob_handle
  | HV_BLOB blob_handle
  | HV_LOBSTREAM "bytes option"
  | HV_BOOLEAN bool
  | HV_STRING rstring
  | HV_STR rstring
  | HV_LONGDATE longdate
  | HV_SECONDDATE seconddate
  | HV_DAYDATE daydate
  | HV_SECONDTIME secondtime
  | HV_GEOMETRY bytes
  | HV_POINT bytes

section \<open>Parameter descriptors\<close>

datatype parameter_direction = IN | INOUT | OUT

datatype parameter_binding = Optional | Mandatory | HasDefault

record parameter_descriptor =
  pd_option :: u8
  pd_type_id :: type_id
  pd_nullable :: bool
  pd_scale :: i16
  pd_precision :: i16
  pd_direction :: parameter_direction
  pd_name :: "rstring option"

definition binding :: "parameter_descriptor \<Rightarrow> parameter_binding" where
  "binding d =
     (if pd_option d AND 0b00000001 \<noteq> 0 then Mandatory
      else if pd_option d AND 0b00000010 \<noteq> 0 then Optional
      else HasDefault)"

definition pd_is_nullable :: "parameter_descriptor \<Rightarrow> bool" where
  "pd_is_nullable d \<longleftrightarrow> pd_option d AND 0b00000010 \<noteq> 0"

definition pd_has_default :: "parameter_descriptor \<Rightarrow> bool" where
  "pd_has_default d \<longleftrightarrow> pd_option d AND 0b00000100 \<noteq> 0"

definition pd_is_auto_incremented :: "parameter_descriptor \<Rightarrow> bool" where
  "pd_is_auto_incremented d \<longleftrightarrow> pd_option d AND 0b00100000 \<noteq> 0"

definition pd_is_array_type :: "parameter_descriptor \<Rightarrow> bool" where
  "pd_is_array_type d \<longleftrightarrow> pd_option d AND 0b01000000 \<noteq> 0"

definition pd_try_new ::
    "u8 \<Rightarrow> u8 \<Rightarrow> parameter_direction \<Rightarrow> i16 \<Rightarrow> i16 \<Rightarrow> (parameter_descriptor, ioerr) res" where
  "pd_try_new parameter_option tc direction precision scale =
     res_bind (type_id_try_new tc) (\<lambda>type_id.
     Ok \<lparr>pd_option = parameter_option, pd_type_id = type_id,
         pd_nullable = (parameter_option AND 0b00000010 \<noteq> 0), pd_scale = scale,
         pd_precision = precision, pd_direction = direction, pd_name = None\<rparr>)"

definition direction_from_u8 :: "u8 \<Rightarrow> (parameter_direction, ioerr) res" where
  "direction_from_u8 v =
     (if v = 1 then Ok IN
      else if v = 2 then Ok INOUT
      else if v = 4 then Ok OUT
      else Err (io_error ''invalid value for ParameterDirection: {}''))"

definition iter_in :: "parameter_descriptor list \<Rightarrow> parameter_descriptor list" where
  "iter_in ds = filter (\<lambda>d. pd_direction d = IN \<or> pd_direction d = INOUT) ds"

definition iter_out :: "parameter_descriptor list \<Rightarrow> parameter_descriptor list" where
  "iter_out ds = filter (\<lambda>d. pd_direction d = OUT \<or> pd_direction d = INOUT) ds"

definition has_in :: "parameter_descriptor list \<Rightarrow> bool" where
  "has_in ds \<longleftrightarrow> iter_in ds \<noteq> []"

text \<open>The descriptors are read first, each with the offset of its name, then the names.\<close>

definition parse_descriptor :: "(parameter_descriptor \<times> u32) rd" where
  "parse_descriptor =
     rd_bind read_u8 (\<lambda>option.
     rd_bind read_u8 (\<lambda>value_type.
     rd_bind (rd_bind read_u8 (\<lambda>b. rd_lift (direction_from_u8 b))) (\<lambda>mode.
     rd_bind read_u8 (\<lambda>_.
     rd_bind read_u32 (\<lambda>name_offset.
     rd_bind read_i16 (\<lambda>length.
     rd_bind read_i16 (\<lambda>fraction.
     rd_bind read_u32 (\<lambda>_.
     rd_bind (rd_lift (pd_try_new option value_type mode length fraction)) (\<lambda>d.
     rd_return (d, name_offset))))))))))"

fun parse_descriptor_names ::
    "cesu8_lib \<Rightarrow> (parameter_descriptor \<times> u32) list \<Rightarrow> parameter_descriptor list rd" where
  "parse_descriptor_names c8 [] = rd_return []"
| "parse_descriptor_names c8 ((d, name_offset) # ds) =
     rd_bind
       (if name_offset \<noteq> 0xFFFFFFFF then
          rd_bind read_u8 (\<lambda>length.
          rd_bind (parse_bytes (unat length)) (\<lambda>bs.
          rd_bind (rd_lift (io_string c8 bs)) (\<lambda>name.
          rd_return (d\<lparr>pd_name := Some name\<rparr>))))
        else rd_return d) (\<lambda>d'.
     rd_bind (parse_descriptor_names c8 ds) (\<lambda>ds'. rd_return (d' # ds')))"

definition parse_descriptors :: "cesu8_lib \<Rightarrow> nat \<Rightarrow> parameter_descriptor list rd" where
  "parse_descriptors c8 count =
     rd_bind (rd_repeat count parse_descriptor) (parse_descriptor_names c8)"

lemma iter_in_out_cover: "set ds = set (iter_in ds) \<union> set (iter_out ds)"
proof -
  have "pd_direction d = IN \<or> pd_direction d = INOUT \<or> pd_direction d = OUT" for d
    by (cases "pd_direction d") auto
  then show ?thesis by (auto simp: iter_in_def iter_out_def)
qed

end
