(* ===== verification/Hdb_Dates.thy ===== *)
theory Hdb_Dates
  imports Hdb_Types
begin

text \<open>
  Dates and times (types\_impl/daydate.rs, secondtime.rs, seconddate.rs, longdate.rs): the raw
  integers of the wire, their decomposition into year, month, day, hour, minute, second and
  fraction, and their text form.

  The calendar computation of the code goes through \<^verbatim>\<open>f64\<close>; \<open>f64_ratio\<close> is the rounding of IEEE
  double precision (to nearest, ties to even) of a fraction in the range of normal numbers. The
  components of a date, \<^verbatim>\<open>i32\<close> and \<^verbatim>\<open>u32\<close> in the code, are integers here, the casts written out.
\<close>

section \<open>Double precision\<close>

text \<open>A finite \<^verbatim>\<open>f64\<close>: the mantissa and the exponent of two, \<open>m * 2 ^ e\<close>.\<close>

datatype f64 = F64 int int

function bit_length :: "int \<Rightarrow> int" where
  "bit_length i = (if i \<le> 0 then 0 else 1 + bit_length (i div 2))"
  by pat_completeness auto
termination
  by (relation "measure nat") auto

declare bit_length.simps [simp del]

definition shift_up :: "int \<Rightarrow> int \<Rightarrow> int" where
  "shift_up e n = (if e \<ge> 0 then n * 2 ^ nat e else n)"

definition div_half_even :: "int \<Rightarrow> int \<Rightarrow> int" where
  "div_half_even n d =
     (let q = n div d; r = n mod d
      in if 2 * r < d then q
         else if 2 * r > d then q + 1
         else if even q then q else q + 1)"

text \<open>
  The double nearest to \<open>n / d\<close> (\<open>d > 0\<close>): the exponent is chosen so that the mantissa has 53
  binary digits, then the quotient is rounded.
\<close>

definition f64_ratio :: "int \<Rightarrow> int \<Rightarrow> f64" where
  "f64_ratio n d =
     (if n = 0 then F64 0 0
      else
        let a = bit_length \<bar>n\<bar> - bit_length d - 53;
            e = (if \<bar>shift_up (- a) n\<bar> < 2 ^ 53 * shift_up a d then a else a + 1)
        in F64 (div_half_even (shift_up (- e) n) (shift_up e d)) e)"

fun f64_add :: "f64 \<Rightarrow> f64 \<Rightarrow> f64" where
  "f64_add (F64 m e) (F64 n f) =
     (let g = min e f in
      f64_ratio (shift_up g (shift_up (e - g) m + shift_up (f - g) n)) (shift_up (- g) 1))"

fun f64_neg :: "f64 \<Rightarrow> f64" where
  "f64_neg (F64 m e) = F64 (- m) e"

definition f64_sub :: "f64 \<Rightarrow> f64 \<Rightarrow> f64" where
  "f64_sub a b = f64_add a (f64_neg b)"

fun f64_mul :: "f64 \<Rightarrow> f64 \<Rightarrow> f64" where
  "f64_mul (F64 m e) (F64 n f) = f64_ratio (shift_up (e + f) (m * n)) (shift_up (- (e + f)) 1)"

fun f64_div :: "f64 \<Rightarrow> f64 \<Rightarrow> f64" where
  "f64_div (F64 m e) (F64 n f) =
     f64_ratio (shift_up (e - f) (m * sgn n)) (shift_up (f - e) \<bar>n\<bar>)"

text \<open>A cast from \<^verbatim>\<open>f64\<close> to an integer type truncates towards zero.\<close>

definition quot :: "int \<Rightarrow> int \<Rightarrow> int" where
  "quot a b = sgn a * sgn b * (\<bar>a\<bar> div \<bar>b\<bar>)"

fun f64_trunc :: "f64 \<Rightarrow> int" where
  "f64_trunc (F64 m e) = quot (shift_up e m) (shift_up (- e) 1)"

abbreviation f64_of :: "int \<Rightarrow> f64" where
  "f64_of i \<equiv> f64_ratio i 1"

abbreviation f64_lit :: "int \<Rightarrow> int \<Rightarrow> f64" where
  "f64_lit n d \<equiv> f64_ratio n d"

section \<open>The calendar\<close>

text \<open>Casts of \<^verbatim>\<open>i64\<close> values to \<^verbatim>\<open>u32\<close> and \<^verbatim>\<open>i32\<close> keep the low bits.\<close>

definition as_u32 :: "int \<Rightarrow> int" where
  "as_u32 i = i mod 2 ^ 32"

definition as_i32 :: "int \<Rightarrow> int" where
  "as_i32 i = (i + 2 ^ 31) mod 2 ^ 32 - 2 ^ 31"

definition in_i32 :: "int \<Rightarrow> bool" where
  "in_i32 i \<longleftrightarrow> - (2 ^ 31) \<le> i \<and> i < 2 ^ 31"

definition zeitenwende :: int where "zeitenwende = 1721424"
definition jgreg :: int where "jgreg = 2299161"

definition cal_ja :: "int \<Rightarrow> int" where
  "cal_ja julian =
     (if julian \<ge> jgreg then
        let jalpha = f64_trunc (f64_div (f64_sub (f64_of (julian - 1867216)) (f64_lit 1 4))
                                        (f64_lit 3652425 100))
        in julian + 1 + jalpha - f64_trunc (f64_mul (f64_lit 1 4) (f64_of jalpha))
      else julian)"

definition cal_jc :: "int \<Rightarrow> int" where
  "cal_jc jb =
     f64_trunc (f64_add (f64_of 6680)
       (f64_div (f64_sub (f64_of (jb - 2439870)) (f64_lit 1221 10)) (f64_lit 36525 100)))"

definition cal_jd :: "int \<Rightarrow> int" where
  "cal_jd jc = f64_trunc (f64_add (f64_of (365 * jc)) (f64_mul (f64_lit 1 4) (f64_of jc)))"

definition cal_je :: "int \<Rightarrow> int \<Rightarrow> int" where
  "cal_je jb jd = f64_trunc (f64_div (f64_of (jb - jd)) (f64_lit 306001 10000))"

definition cal_day :: "int \<Rightarrow> int \<Rightarrow> int \<Rightarrow> int" where
  "cal_day jb jd je = jb - jd - f64_trunc (f64_mul (f64_lit 306001 10000) (f64_of je))"

text \<open>
  The common tail of the three conversions. \<^verbatim>\<open>je as u32 - 1\<close> and \<^verbatim>\<open>jc as i32 - 4715\<close> can overflow
  for raw values the constructors of \<^verbatim>\<open>SecondDate\<close> and \<^verbatim>\<open>LongDate\<close> do not exclude.
\<close>

definition ymd_of_datevalue :: "int \<Rightarrow> (int \<times> int \<times> int, 'e) res" where
  "ymd_of_datevalue datevalue =
     (let julian = datevalue + zeitenwende;
          jb = cal_ja julian + 1524;
          jc = cal_jc jb;
          jd = cal_jd jc;
          je = cal_je jb jd;
          day = as_u32 (cal_day jb jd je)
      in if as_u32 je = 0 \<or> \<not> in_i32 (as_i32 jc - 4715) then Panic
         else
           let month0 = as_u32 je - 1;
               year0 = as_i32 jc - 4715;
               month = (if month0 > 12 then month0 - 12 else month0);
               year1 = (if month > 2 then year0 - 1 else year0);
               year2 = (if year1 \<le> 0 then year1 - 1 else year1)
           in if in_i32 year1 \<and> in_i32 year2 then Ok (year2, month, day) else Panic)"

section \<open>DayDate\<close>

definition daydate_null :: int where "daydate_null = 3652062"

definition daydate_new :: "i32 \<Rightarrow> (daydate, 'e) res" where
  "daydate_new raw = (if sint raw < daydate_null \<and> sint raw \<ge> 0 then Ok (DayDate raw) else Panic)"

fun daydate_ymd :: "daydate \<Rightarrow> (int \<times> int \<times> int, 'e) res" where
  "daydate_ymd (DayDate raw) = ymd_of_datevalue (if sint raw = 0 then 0 else sint raw - 1)"

definition parse_daydate :: "bool \<Rightarrow> hdb_value rd" where
  "parse_daydate nullable =
     rd_bind read_i32 (\<lambda>i.
       if sint i = daydate_null then
         (if nullable then rd_return HV_NULL
          else rd_fail (io_error ''found NULL value for NOT NULL DAYDATE column''))
       else rd_bind (rd_lift (daydate_new i)) (\<lambda>d. rd_return (HV_DAYDATE d)))"

section \<open>SecondTime\<close>

definition secondtime_null :: int where "secondtime_null = 86402"

definition secondtime_new :: "i32 \<Rightarrow> (secondtime, 'e) res" where
  "secondtime_new raw =
     (if sint raw < secondtime_null \<and> sint raw \<ge> 0 then Ok (SecondTime raw) else Panic)"

fun as_hms :: "secondtime \<Rightarrow> int \<times> int \<times> int" where
  "as_hms (SecondTime raw) =
     (let second0 = (if uint raw = 0 then 0 else uint raw - 1);
          hour = second0 div 3600;
          second1 = second0 - 3600 * hour;
          minute = second1 div 60;
          second2 = second1 - 60 * minute
      in (hour, minute, second2))"

definition parse_secondtime :: "bool \<Rightarrow> hdb_value rd" where
  "parse_secondtime nullable =
     rd_bind read_i32 (\<lambda>i.
       if sint i = secondtime_null then
         (if nullable then rd_return HV_NULL
          else rd_fail (io_error ''found NULL value for NOT NULL SECONDTIME column''))
       else rd_bind (rd_lift (secondtime_new i)) (\<lambda>t. rd_return (HV_SECONDTIME t)))"

section \<open>SecondDate and LongDate\<close>

definition seconddate_null :: int where "seconddate_null = 315538070401"
definition longdate_null :: int where "longdate_null = 3155380704000000001"

text \<open>The part of a day that a value denotes; \<open>f\<close> is the number of units in a second.\<close>

definition split_timevalue :: "int \<Rightarrow> int \<Rightarrow> int \<times> int \<times> int \<times> int" where
  "split_timevalue f timevalue =
     (let hour = as_u32 (quot timevalue (3600 * f));
          t1 = timevalue - 3600 * f * hour;
          minute = as_u32 (quot t1 (60 * f));
          t2 = t1 - 60 * f * minute;
          second = as_u32 (quot t2 f);
          t3 = t2 - f * second
      in (hour, minute, second, as_u32 t3))"

text \<open>
  \<^verbatim>\<open>v - 1\<close> underflows for the least \<^verbatim>\<open>i64\<close>. A negative time of day becomes a huge \<^verbatim>\<open>u32\<close>, and the
  subtractions that follow stay in the range of \<^verbatim>\<open>i64\<close>.
\<close>

definition dt_split :: "int \<Rightarrow> i64 \<Rightarrow> (int \<times> int, 'e) res" where
  "dt_split f raw =
     (let v = sint raw
      in if v = - (2 ^ 63) then Panic
         else let value = (if v = 0 then 0 else v - 1);
                  datevalue = quot value (86400 * f)
              in Ok (datevalue, value - datevalue * (86400 * f)))"

fun as_ymd_hms :: "seconddate \<Rightarrow> (int \<times> int \<times> int \<times> int \<times> int \<times> int, 'e) res" where
  "as_ymd_hms (SecondDate raw) =
     res_bind (dt_split 1 raw) (\<lambda>(datevalue, timevalue).
     res_bind (ymd_of_datevalue datevalue) (\<lambda>(year, month, day).
     case split_timevalue 1 timevalue of (hour, minute, second, _) \<Rightarrow>
       Ok (year, month, day, hour, minute, second)))"

fun as_ymd_hms_f :: "longdate \<Rightarrow> (int \<times> int \<times> int \<times> int \<times> int \<times> int \<times> int, 'e) res" where
  "as_ymd_hms_f (LongDate raw) =
     res_bind (dt_split 10000000 raw) (\<lambda>(datevalue, timevalue).
     res_bind (ymd_of_datevalue datevalue) (\<lambda>(year, month, day).
     case split_timevalue 10000000 timevalue of (hour, minute, second, fraction) \<Rightarrow>
       Ok (year, month, day, hour, minute, second, fraction)))"

definition parse_seconddate :: "bool \<Rightarrow> hdb_value rd" where
  "parse_seconddate nullable =
     rd_bind read_i64 (\<lambda>i.
       if sint i = seconddate_null then
         (if nullable then rd_return HV_NULL
          else rd_fail (io_error ''found NULL value for NOT NULL SECONDDATE column''))
       else rd_return (HV_SECONDDATE (SecondDate i)))"

definition parse_longdate :: "bool \<Rightarrow> hdb_value rd" where
  "parse_longdate nullable =
     rd_bind read_i64 (\<lambda>i.
       if sint i = longdate_null then
         (if nullable then rd_return HV_NULL
          else rd_fail (io_error ''found NULL value for NOT NULL LONGDATE column''))
       else rd_return (HV_LONGDATE (LongDate i)))"

section \<open>Text form\<close>

text \<open>\<^verbatim>\<open>{:0w}\<close>: decimal digits, padded with zeros to the width, the sign counted.\<close>

function dec_digits :: "int \<Rightarrow> string" where
  "dec_digits n =
     (if n < 10 then [char_of (48 + n)] else dec_digits (n div 10) @ [char_of (48 + n mod 10)])"
  by pat_completeness auto
termination
  by (relation "measure nat") auto

declare dec_digits.simps [simp del]

definition pad_nat :: "nat \<Rightarrow> int \<Rightarrow> string" where
  "pad_nat w n = replicate (w - length (dec_digits n)) (CHR ''0'') @ dec_digits n"

definition pad_int :: "nat \<Rightarrow> int \<Rightarrow> string" where
  "pad_int w i = (if i < 0 then ''-'' @ pad_nat (w - 1) (- i) else pad_nat w i)"

definition show_ymd :: "int \<times> int \<times> int \<Rightarrow> string" where
  "show_ymd = (\<lambda>(y, m, d). pad_int 4 y @ ''-'' @ pad_nat 2 m @ ''-'' @ pad_nat 2 d)"

definition show_hms :: "int \<times> int \<times> int \<Rightarrow> string" where
  "show_hms = (\<lambda>(h, m, s). pad_nat 2 h @ '':'' @ pad_nat 2 m @ '':'' @ pad_nat 2 s)"

definition daydate_display :: "daydate \<Rightarrow> (string, 'e) res" where
  "daydate_display d = res_map show_ymd (daydate_ymd d)"

definition secondtime_display :: "secondtime \<Rightarrow> string" where
  "secondtime_display t = show_hms (as_hms t)"

definition seconddate_display :: "seconddate \<Rightarrow> (string, 'e) res" where
  "seconddate_display d =
     res_map (\<lambda>(y, mo, da, h, mi, s). show_ymd (y, mo, da) @ ''T'' @ show_hms (h, mi, s)) (as_ymd_hms d)"

definition longdate_display :: "longdate \<Rightarrow> (string, 'e) res" where
  "longdate_display d =
     res_map (\<lambda>(y, mo, da, h, mi, s, f).
       show_ymd (y, mo, da) @ ''T'' @ show_hms (h, mi, s) @ ''.'' @ pad_nat 7 f) (as_ymd_hms_f d)"

end
