(* ===== verification/Hdb_Decimal.thy ===== *)
theory Hdb_Decimal
  imports Hdb_Types
begin

text \<open>
  Decimals (types\_impl/hdb\_decimal.rs, types\_impl/decimal.rs): HANA's 16-byte DECIMAL with a
  113-bit mantissa and a biased 14-bit exponent, and the fixed-point transport formats FIXED8,
  FIXED12 and FIXED16.

  A \<^verbatim>\<open>BigInt\<close> of the crate \<^verbatim>\<open>num\<close> is an integer. Its byte encodings and the rescaling of a
  \<^verbatim>\<open>BigDecimal\<close> are the record \<open>num_lib\<close>, whose documented laws are the locale \<open>num_crates\<close>.
\<close>

section \<open>What the crates num and bigdecimal provide\<close>

record num_lib =
  with_scale :: "bigdecimal \<Rightarrow> int \<Rightarrow> bigdecimal"
  to_signed_bytes_le :: "int \<Rightarrow> bytes"
  from_signed_bytes_le :: "bytes \<Rightarrow> int"
  to_bytes_le :: "int \<Rightarrow> bytes"
  from_bytes_le :: "bytes \<Rightarrow> int"

text \<open>The value of bytes in two's complement.\<close>

definition signed_le :: "bytes \<Rightarrow> int" where
  "signed_le bs =
     int (le_nat bs) - (if bs \<noteq> [] \<and> unat (last bs) \<ge> 128 then 256 ^ length bs else 0)"

locale num_crates =
  fixes nl :: num_lib
  assumes scale_with_scale: "bd_scale (with_scale nl d n) = n"
    and with_scale_exact:
      "bd_scale d \<le> n \<Longrightarrow> bd_int (with_scale nl d n) = bd_int d * 10 ^ nat (n - bd_scale d)"
    and signed_bytes_nonempty: "to_signed_bytes_le nl i \<noteq> []"
    and signed_bytes_value: "signed_le (to_signed_bytes_le nl i) = i"
    and signed_bytes_length:
      "0 < k \<Longrightarrow> - (2 ^ (8 * k - 1)) \<le> i \<Longrightarrow> i < 2 ^ (8 * k - 1) \<Longrightarrow> length (to_signed_bytes_le nl i) \<le> k"
    and from_signed: "from_signed_bytes_le nl bs = signed_le bs"
    and bytes_value: "int (le_nat (to_bytes_le nl i)) = \<bar>i\<bar>"
    and bytes_length: "\<bar>i\<bar> < 256 ^ k \<Longrightarrow> 0 < k \<Longrightarrow> length (to_bytes_le nl i) \<le> k"
    and from_bytes: "from_bytes_le nl bs = int (le_nat bs)"
begin

lemma bytes_length_greater: "256 ^ n \<le> \<bar>i\<bar> \<Longrightarrow> n < length (to_bytes_le nl i)"
proof (rule ccontr)
  assume big: "256 ^ n \<le> \<bar>i\<bar>" and "\<not> n < length (to_bytes_le nl i)"
  then have "(256::int) ^ length (to_bytes_le nl i) \<le> 256 ^ n" by (intro power_increasing) auto
  moreover have "int (le_nat (to_bytes_le nl i)) < int (256 ^ length (to_bytes_le nl i))"
    using le_nat_bound of_nat_less_iff by blast
  then have "\<bar>i\<bar> < 256 ^ length (to_bytes_le nl i)" by (simp add: bytes_value)
  ultimately show False using big by linarith
qed

end

section \<open>HANA's DECIMAL\<close>

text \<open>The 16 bytes.\<close>

datatype hdb_decimal = HdbDecimal bytes

fun into_raw :: "hdb_decimal \<Rightarrow> bytes" where
  "into_raw (HdbDecimal raw) = raw"

text \<open>\<^verbatim>\<open>while !bigint.is_zero() && (&bigint % &ten).is_zero()\<close>.\<close>

function strip_zeros :: "int \<Rightarrow> int \<Rightarrow> int \<times> int" where
  "strip_zeros bigint exponent =
     (if bigint \<noteq> 0 \<and> bigint mod 10 = 0 then strip_zeros (bigint div 10) (exponent + 1)
      else (bigint, exponent))"
  by pat_completeness auto
termination
  by (relation "measure (\<lambda>(b, _). nat \<bar>b\<bar>)") auto

declare strip_zeros.simps [simp del]

text \<open>\<^verbatim>\<open>bigint /= 10\<close> truncates towards zero.\<close>

definition div10 :: "int \<Rightarrow> int" where
  "div10 i = sgn i * (\<bar>i\<bar> div 10)"

definition mantissa_too_long :: "bytes \<Rightarrow> bool" where
  "mantissa_too_long mantissa \<longleftrightarrow>
     (let l = length mantissa
      in l > 15 \<or> l = 15 \<and> (mantissa ! 14) AND 0b11111110 \<noteq> 0)"

text \<open>
  The loop that shortens the mantissa. It ends because a number that is not zero gets smaller and
  zero has no long mantissa; the test for zero makes the definition total for any \<open>num_lib\<close>.
\<close>

function shorten :: "num_lib \<Rightarrow> int \<Rightarrow> int \<Rightarrow> int \<times> int" where
  "shorten nl bigint exponent =
     (if bigint \<noteq> 0 \<and> mantissa_too_long (to_bytes_le nl bigint)
      then shorten nl (div10 bigint) (exponent + 1)
      else (bigint, exponent))"
  by pat_completeness auto
termination
proof (relation "measure (\<lambda>(_, b, _). nat \<bar>b\<bar>)")
  fix nl :: num_lib and bigint exponent :: int
  assume "bigint \<noteq> 0 \<and> mantissa_too_long (to_bytes_le nl bigint)"
  then have "\<bar>bigint\<bar> div 10 < \<bar>bigint\<bar>" "\<bar>div10 bigint\<bar> = \<bar>bigint\<bar> div 10"
    by (auto simp: div10_def abs_mult abs_sgn_eq)
  then show "((nl, div10 bigint, exponent + 1), nl, bigint, exponent) \<in> measure (\<lambda>(_, b, _). nat \<bar>b\<bar>)"
    by simp
qed simp

declare shorten.simps [simp del]

text \<open>
  The mantissa is copied into the first bytes, then bytes 14 and 15 are overwritten with twice the
  biased exponent, then the sign bit is set. A mantissa longer than the array panics.
\<close>

definition copy_mantissa :: "bytes \<Rightarrow> (bytes, 'e) res" where
  "copy_mantissa mantissa =
     (if length mantissa \<le> 16 then Ok (mantissa @ replicate (16 - length mantissa) 0) else Panic)"

definition set_exponent :: "bytes \<Rightarrow> u16 \<Rightarrow> bytes" where
  "set_exponent raw w = take 14 raw @ write_u16 w"

definition set_sign :: "int \<Rightarrow> bytes \<Rightarrow> bytes" where
  "set_sign i raw = (if i < 0 then raw[15 := (raw ! 15) OR 0b10000000] else raw)"

definition from_bigdecimal :: "num_lib \<Rightarrow> bigdecimal \<Rightarrow> (hdb_decimal, string) res" where
  "from_bigdecimal nl bigdec =
     (case strip_zeros (bd_int bigdec) (- bd_scale bigdec) of (b1, e1) \<Rightarrow>
      case shorten nl b1 e1 of (bigint, exponent) \<Rightarrow>
        if exponent < -6143 \<or> exponent > 6144 then Err ''exponent '{}' out of range''
        else
          res_bind (copy_mantissa (to_bytes_le nl bigint)) (\<lambda>raw.
          Ok (HdbDecimal (set_sign bigint
            (set_exponent raw (word_of_int (exponent + 6176) * 2))))))"

fun into_elements :: "num_lib \<Rightarrow> hdb_decimal \<Rightarrow> bool \<times> int \<times> int" where
  "into_elements nl (HdbDecimal raw) =
     (let is_negative = (raw ! 15) AND 0b10000000 \<noteq> 0;
          raw1 = raw[15 := (raw ! 15) AND 0b01111111];
          exponent = int (le_nat (drop 14 raw1) div 2) - 6176;
          raw2 = raw1[14 := (raw1 ! 14) AND 0b00000001]
      in (is_negative, from_bytes_le nl (take 15 raw2), exponent))"

definition into_bigdecimal :: "num_lib \<Rightarrow> hdb_decimal \<Rightarrow> bigdecimal" where
  "into_bigdecimal nl d =
     (case into_elements nl d of (is_negative, mantissa, exponent) \<Rightarrow>
        if is_negative then \<lparr>bd_int = - mantissa, bd_scale = - exponent\<rparr>
        else \<lparr>bd_int = mantissa, bd_scale = - exponent\<rparr>)"

definition into_bigdecimal_with_scale :: "num_lib \<Rightarrow> i16 \<Rightarrow> hdb_decimal \<Rightarrow> bigdecimal" where
  "into_bigdecimal_with_scale nl scale d =
     (let bd = into_bigdecimal nl d
      in if sint scale < 32767 then with_scale nl bd (sint scale) else bd)"

definition parse_hdb_decimal :: "num_lib \<Rightarrow> bool \<Rightarrow> i16 \<Rightarrow> hdb_value rd" where
  "parse_hdb_decimal nl nullable scale =
     rd_bind (read_exact 16) (\<lambda>raw.
       if raw ! 15 = 112 \<and> list_all (\<lambda>el. el = 0) (take 15 raw) then
         (if nullable then rd_return HV_NULL
          else rd_fail (io_error ''received null value for not-null column''))
       else rd_return (HV_DECIMAL (into_bigdecimal_with_scale nl scale (HdbDecimal raw))))"

section \<open>Decimals on the wire\<close>

definition parse_null :: "bool \<Rightarrow> bool rd" where
  "parse_null nullable =
     rd_bind read_u8 (\<lambda>b.
       let is_null = (b = 0)
       in if is_null \<and> \<not> nullable then rd_fail (io_error ''found null value for not-null column'')
          else rd_return is_null)"

definition decimal_parse :: "num_lib \<Rightarrow> bool \<Rightarrow> type_id \<Rightarrow> i16 \<Rightarrow> hdb_value rd" where
  "decimal_parse nl nullable type_id scale =
     (case type_id of
        TY_DECIMAL \<Rightarrow> parse_hdb_decimal nl nullable scale
      | TY_FIXED8 \<Rightarrow>
          rd_bind (parse_null nullable) (\<lambda>is_null.
            if is_null then rd_return HV_NULL
            else rd_bind read_i64 (\<lambda>i.
              rd_return (HV_DECIMAL \<lparr>bd_int = sint i, bd_scale = sint scale\<rparr>)))
      | TY_FIXED12 \<Rightarrow>
          rd_bind (parse_null nullable) (\<lambda>is_null.
            if is_null then rd_return HV_NULL
            else rd_bind (parse_bytes 12) (\<lambda>bs.
              rd_return (HV_DECIMAL \<lparr>bd_int = from_signed_bytes_le nl bs, bd_scale = sint scale\<rparr>)))
      | TY_FIXED16 \<Rightarrow>
          rd_bind (parse_null nullable) (\<lambda>is_null.
            if is_null then rd_return HV_NULL
            else rd_bind read_i128 (\<lambda>i.
              rd_return (HV_DECIMAL \<lparr>bd_int = sint i, bd_scale = sint scale\<rparr>)))
      | _ \<Rightarrow> rd_fail (io_error ''unexpected type id for decimal''))"

definition fits_signed :: "nat \<Rightarrow> int \<Rightarrow> bool" where
  "fits_signed n i \<longleftrightarrow> - (2 ^ (n - 1)) \<le> i \<and> i < 2 ^ (n - 1)"

text \<open>Fewer than 12 bytes are extended with the sign; more are written as they are.\<close>

definition pad12 :: "bytes \<Rightarrow> bytes" where
  "pad12 bs =
     (let l = length bs
      in if l < 12 then
           bs @ replicate (12 - l) (if (bs ! (l - 1)) AND 0b10000000 = 0 then 0 else 255)
         else bs)"

definition decimal_emit :: "num_lib \<Rightarrow> bigdecimal \<Rightarrow> type_id \<Rightarrow> i16 \<Rightarrow> wr" where
  "decimal_emit nl bd type_id scale =
     (case type_id of
        TY_DECIMAL \<Rightarrow> res_map into_raw (res_map_err io_error (from_bigdecimal nl bd))
      | TY_FIXED8 \<Rightarrow>
          (let i = bd_int (with_scale nl bd (sint scale))
           in if fits_signed 64 i then Ok (write_i64 (word_of_int i))
              else Err (io_error ''conversion to FIXED8 fails''))
      | TY_FIXED12 \<Rightarrow>
          Ok (pad12 (to_signed_bytes_le nl (bd_int (with_scale nl bd (sint scale)))))
      | TY_FIXED16 \<Rightarrow>
          (let i = bd_int (with_scale nl bd (sint scale))
           in if fits_signed 128 i then Ok (write_i128 (word_of_int i))
              else Err (io_error ''conversion to FIXED16 fails''))
      | _ \<Rightarrow> Err (io_error ''unexpected type id for decimal''))"

section \<open>Properties of DECIMAL\<close>

lemma sign_bit_u8:
  assumes "unat (h :: u8) < 128"
  shows "(h OR 128) AND 128 \<noteq> 0" "(h OR 128) AND 127 = h" "h AND 128 = 0" "h AND 127 = h"
proof -
  have all: "list_all (\<lambda>n. let h = word_of_nat n :: u8 in
      (h OR 128) AND 128 \<noteq> 0 \<and> (h OR 128) AND 127 = h \<and> h AND 128 = 0 \<and> h AND 127 = h) [0..<128]"
    by code_simp
  have "let h' = word_of_nat (unat h) :: u8 in
      (h' OR 128) AND 128 \<noteq> 0 \<and> (h' OR 128) AND 127 = h' \<and> h' AND 128 = 0 \<and> h' AND 127 = h'"
    using all assms unfolding list_all_iff by (elim ballE [where x = "unat h"]) auto
  then show "(h OR 128) AND 128 \<noteq> 0" "(h OR 128) AND 127 = h" "h AND 128 = 0" "h AND 127 = h"
    by (simp_all add: Let_def)
qed

lemma even_u8_and_1: "even (unat (w :: u8)) \<Longrightarrow> w AND 1 = 0"
  by (simp add: and_one_eq even_iff_mod_2_eq_zero word_unat_eq_iff unat_mod_distrib)

lemma unat_less_2_cases: "unat (w :: u8) < 2 \<Longrightarrow> w = 0 \<or> w = 1"
  by (auto simp: less_2_cases_iff word_unat_eq_iff)

lemma and_254_zero: "(w :: u8) AND 0b11111110 = 0 \<Longrightarrow> unat w < 2"
proof -
  assume z: "w AND 0b11111110 = 0"
  have all: "list_all (\<lambda>n. (word_of_nat n :: u8) AND 0b11111110 = 0 \<longrightarrow> n < 2) [0..<256]" by code_simp
  have "(word_of_nat (unat w) :: u8) AND 0b11111110 = 0 \<longrightarrow> unat w < 2"
    using all unat_byte_less [of w] unfolding list_all_iff by (elim ballE [where x = "unat w"]) auto
  then show ?thesis using z by simp
qed

lemma le_nat_take: "n \<le> length xs \<Longrightarrow> le_nat (take n xs) = le_nat xs mod 256 ^ n"
proof -
  assume n: "n \<le> length xs"
  have "le_nat xs = le_nat (take n xs) + 256 ^ n * le_nat (drop n xs)"
    using le_nat_append [of "take n xs" "drop n xs"] n by simp
  moreover have "le_nat (take n xs) < 256 ^ n" using le_nat_bound [of "take n xs"] n by simp
  ultimately show ?thesis by simp
qed

lemma le_nat_zeros [simp]: "le_nat (replicate n 0) = 0"
  by (induction n) auto

lemma strip_zeros_value:
  "strip_zeros b e = (b', e') \<Longrightarrow> e \<le> e' \<and> b = b' * 10 ^ nat (e' - e)"
proof (induction b e rule: strip_zeros.induct)
  case (1 b e)
  show ?case
  proof (cases "b \<noteq> 0 \<and> b mod 10 = 0")
    case True
    then have ih: "e + 1 \<le> e'" "b div 10 = b' * 10 ^ nat (e' - (e + 1))"
      using 1 by (simp_all add: strip_zeros.simps [of b e])
    have "nat (e' - e) = Suc (nat (e' - (e + 1)))" using ih(1) by simp
    moreover have "b = 10 * (b div 10)" using True by auto
    ultimately show ?thesis using ih by simp
  next
    case False
    then show ?thesis using 1(2) by (simp only: strip_zeros.simps [of b e]) auto
  qed
qed

lemma nat_le_2: "nat_le 2 x = [word_of_nat (x mod 256), word_of_nat (x div 256 mod 256)]"
proof -
  have "nat_le 2 x = nat_le (Suc (Suc 0)) x" by (simp only: numeral_2_eq_2)
  then show ?thesis by simp
qed

text \<open>The two exponent bytes.\<close>

lemma exponent_bytes:
  assumes "0 \<le> x" "x < 2 ^ 14"
  obtains lo hi where "write_u16 (word_of_int x * 2) = [lo, hi]" "even (unat lo)" "unat hi < 128"
    and "int (le_nat [lo, hi]) = 2 * x"
proof -
  define n where "n = nat x"
  have n: "n < 2 ^ 14" "x = int n" using assms by (auto simp: n_def)
  have "(word_of_int x * 2 :: u16) = word_of_nat (2 * n)" using n(2) by simp
  moreover have "unat (word_of_nat (2 * n) :: u16) = 2 * n"
    using n(1) take_bit_nat_eq_self [of "2 * n" 16] by (simp only: unsigned_of_nat) simp
  ultimately have w: "write_u16 (word_of_int x * 2) = nat_le 2 (2 * n)"
    by (simp add: write_u16_def write_le_def)
  have l: "le_nat (nat_le 2 (2 * n)) = 2 * n" using n(1) by (simp add: le_nat_nat_le)
  show ?thesis
  proof (rule that)
    show "write_u16 (word_of_int x * 2) =
        [word_of_nat (2 * n mod 256), word_of_nat (2 * n div 256 mod 256)]"
      by (simp only: w nat_le_2)
    have "even (2 * n mod 256)" by (intro dvd_mod) simp_all
    then show "even (unat (word_of_nat (2 * n mod 256) :: u8))" by (simp only: unat_byte_mod)
    have "2 * n div 256 mod 256 < 128" using n(1) by simp
    then show "unat (word_of_nat (2 * n div 256 mod 256) :: u8) < 128" by (simp only: unat_byte_mod)
    show "int (le_nat [word_of_nat (2 * n mod 256), word_of_nat (2 * n div 256 mod 256)]) = 2 * x"
      using l n(2) by (simp only: nat_le_2)
  qed
qed

text \<open>Reading back what \<open>from_bigdecimal\<close> writes: only 112 bits of the mantissa survive.\<close>

lemma length15_le_nat: "length ms \<le> 16 \<Longrightarrow> le_nat (ms @ replicate (16 - length ms) 0) = le_nat ms"
  by (simp add: le_nat_append)

lemma write_take_mantissa:
  assumes ms: "length ms \<le> 15" and x: "0 \<le> x" "x < 2 ^ 14"
    and fb: "\<And>bs. from_bytes_le nl bs = int (le_nat bs)"
  shows "into_elements nl (HdbDecimal (set_sign i
      (set_exponent (ms @ replicate (16 - length ms) 0) (word_of_int x * 2))))
    = (i < 0, int (le_nat ms mod 2 ^ 112), x - 6176)"
proof -
  obtain lo hi where w: "write_u16 (word_of_int x * 2) = [lo, hi]" "even (unat lo)" "unat hi < 128"
    "int (le_nat [lo, hi]) = 2 * x"
    using exponent_bytes [OF x] .
  define m where "m = take 14 (ms @ replicate (16 - length ms) 0)"
  have m: "length m = 14" using ms by (auto simp: m_def)
  have "le_nat m = le_nat ms mod 256 ^ 14"
    unfolding m_def by (subst le_nat_take) (use ms in \<open>auto simp: le_nat_append\<close>)
  then have val: "le_nat m = le_nat ms mod 2 ^ 112" by simp
  have raw: "set_exponent (ms @ replicate (16 - length ms) 0) (word_of_int x * 2) = m @ [lo, hi]"
    by (simp add: set_exponent_def w(1) m_def)
  define hi' where "hi' = (if i < 0 then hi OR 128 else hi)"
  have ss: "set_sign i (m @ [lo, hi]) = m @ [lo, hi']"
    using m by (simp add: set_sign_def hi'_def nth_append list_update_append)
  have h: "hi' AND 128 \<noteq> 0 \<longleftrightarrow> i < 0" "hi' AND 127 = hi"
    using sign_bit_u8 [OF w(3)] by (auto simp: hi'_def)
  have e: "int (le_nat [lo, hi] div 2) = x" using w(4) by linarith
  have r: "(m @ [lo, hi']) ! 15 = hi'" "(m @ [lo, hi']) ! 14 = lo"
    "(m @ [lo, hi'])[15 := hi] = m @ [lo, hi]" "(m @ [lo, hi])[14 := 0] = m @ [0, hi]"
    "(m @ [lo, hi]) ! 14 = lo" "drop 14 (m @ [lo, hi]) = [lo, hi]" "take 15 (m @ [0, hi]) = m @ [0]"
    using m by (simp_all add: nth_append list_update_append)
  show ?thesis
    unfolding raw ss using h e r even_u8_and_1 [OF w(2)] val
    by (simp only: into_elements.simps Let_def fb) (simp add: le_nat_append)
qed

context num_crates
begin

lemma not_too_long: "\<bar>b\<bar> < 2 ^ 113 \<Longrightarrow> \<not> mantissa_too_long (to_bytes_le nl b) \<and> length (to_bytes_le nl b) \<le> 15"
proof -
  assume b: "\<bar>b\<bar> < 2 ^ 113"
  define ms where "ms = to_bytes_le nl b"
  have len: "length ms \<le> 15" using b bytes_length [of b 15] by (simp add: ms_def)
  have "int (le_nat ms) < 2 ^ 113" using b by (simp add: ms_def bytes_value)
  then have val: "le_nat ms < 2 ^ 113" by (simp only: of_nat_less_numeral_power_cancel_iff)
  have "(ms ! 14) AND 0b11111110 = 0" if l: "length ms = 15"
  proof -
    have "ms = take 14 ms @ [ms ! 14]" using l by (simp add: take_Suc_conv_app_nth [symmetric])
    then have "le_nat ms = le_nat (take 14 ms) + 256 ^ 14 * unat (ms ! 14)"
      using le_nat_append [of "take 14 ms" "[ms ! 14]"] l by simp
    then have "unat (ms ! 14) < 2" using val by simp
    then have "ms ! 14 = 0 \<or> ms ! 14 = 1" using unat_less_2_cases by blast
    then show ?thesis by auto
  qed
  then show ?thesis using len by (auto simp: mantissa_too_long_def ms_def Let_def)
qed

lemma too_long: "2 ^ 113 \<le> \<bar>b\<bar> \<Longrightarrow> mantissa_too_long (to_bytes_le nl b)"
proof -
  assume b: "2 ^ 113 \<le> \<bar>b\<bar>"
  define ms where "ms = to_bytes_le nl b"
  have "2 ^ 113 \<le> int (le_nat ms)" using b by (simp add: ms_def bytes_value)
  then have val: "2 ^ 113 \<le> le_nat ms" by (simp only: numeral_power_le_of_nat_cancel_iff)
  have len: "14 < length ms" using b bytes_length_greater [of 14 b] by (simp add: ms_def)
  have "(ms ! 14) AND 0b11111110 \<noteq> 0" if l: "length ms = 15"
  proof
    assume z: "(ms ! 14) AND 0b11111110 = 0"
    have "ms = take 14 ms @ [ms ! 14]" using l by (simp add: take_Suc_conv_app_nth [symmetric])
    then have "le_nat ms = le_nat (take 14 ms) + 256 ^ 14 * unat (ms ! 14)"
      using le_nat_append [of "take 14 ms" "[ms ! 14]"] l by simp
    moreover have "unat (ms ! 14) < 2" using z by (rule and_254_zero)
    moreover have "le_nat (take 14 ms) < 256 ^ 14" using le_nat_bound [of "take 14 ms"] l by simp
    ultimately show False using val by (auto simp: less_2_cases_iff)
  qed
  then show ?thesis using len by (auto simp: mantissa_too_long_def ms_def Let_def)
qed

lemma shorten_id: "\<bar>b\<bar> < 2 ^ 113 \<Longrightarrow> shorten nl b e = (b, e)"
  using not_too_long by (subst shorten.simps) simp

text \<open>The loop ends with a mantissa of at most 113 bits.\<close>

lemma shorten_bound: "shorten nl b e = (b', e') \<Longrightarrow> \<bar>b'\<bar> < 2 ^ 113 \<and> e \<le> e'"
proof (induction "nat \<bar>b\<bar>" arbitrary: b e rule: less_induct)
  case less
  show ?case
  proof (cases "\<bar>b\<bar> < 2 ^ 113")
    case True
    then show ?thesis using less.prems by (simp add: shorten_id)
  next
    case False
    then have b: "b \<noteq> 0" "mantissa_too_long (to_bytes_le nl b)" using too_long by auto
    then have "shorten nl (div10 b) (e + 1) = (b', e')"
      using less.prems by (simp add: shorten.simps [of nl b])
    moreover have "nat \<bar>div10 b\<bar> < nat \<bar>b\<bar>"
      using b(1) by (simp add: div10_def abs_mult abs_sgn_eq)
    ultimately show ?thesis using less.hyps [of "div10 b" "e + 1"] by simp
  qed
qed

lemma from_bigdecimal_elements:
  assumes "strip_zeros (bd_int d) (- bd_scale d) = (b, e)" "\<bar>b\<bar> < 2 ^ 113" "-6143 \<le> e" "e \<le> 6144"
  shows "\<exists>h. from_bigdecimal nl d = Ok h \<and> into_elements nl h = (b < 0, \<bar>b\<bar> mod 2 ^ 112, e)"
proof -
  define ms where "ms = to_bytes_le nl b"
  have len: "length ms \<le> 15" using not_too_long [OF assms(2)] by (simp add: ms_def)
  have "into_elements nl (HdbDecimal (set_sign b
      (set_exponent (ms @ replicate (16 - length ms) 0) (word_of_int (e + 6176) * 2))))
    = (b < 0, int (le_nat ms mod 2 ^ 112), e + 6176 - 6176)"
    by (rule write_take_mantissa [OF len]) (use assms from_bytes in auto)
  moreover have "int (le_nat ms mod 2 ^ 112) = \<bar>b\<bar> mod 2 ^ 112"
    by (simp add: zmod_int ms_def bytes_value)
  moreover have "from_bigdecimal nl d = Ok (HdbDecimal (set_sign b
      (set_exponent (ms @ replicate (16 - length ms) 0) (word_of_int (e + 6176) * 2))))"
    using assms len by (simp add: from_bigdecimal_def shorten_id copy_mantissa_def ms_def)
  ultimately show ?thesis by simp
qed

end

section \<open>A reference instance\<close>

function ref_signed :: "int \<Rightarrow> bytes" where
  "ref_signed i =
     (if -128 \<le> i \<and> i < 128 then [word_of_int i] else word_of_int i # ref_signed (i div 256))"
  by pat_completeness auto
termination
  by (relation "measure (\<lambda>i. nat \<bar>i\<bar>)") auto

declare ref_signed.simps [simp del]

function ref_unsigned :: "int \<Rightarrow> bytes" where
  "ref_unsigned i = (if i < 256 then [word_of_int i] else word_of_int i # ref_unsigned (i div 256))"
  by pat_completeness auto
termination
  by (relation "measure nat") auto

declare ref_unsigned.simps [simp del]

definition ref_with_scale :: "bigdecimal \<Rightarrow> int \<Rightarrow> bigdecimal" where
  "ref_with_scale d n =
     (if bd_scale d \<le> n then \<lparr>bd_int = bd_int d * 10 ^ nat (n - bd_scale d), bd_scale = n\<rparr>
      else \<lparr>bd_int = sgn (bd_int d) * (\<bar>bd_int d\<bar> div 10 ^ nat (bd_scale d - n)), bd_scale = n\<rparr>)"

definition ref_num :: num_lib where
  "ref_num = \<lparr>with_scale = ref_with_scale, to_signed_bytes_le = ref_signed,
     from_signed_bytes_le = signed_le, to_bytes_le = (\<lambda>i. ref_unsigned \<bar>i\<bar>),
     from_bytes_le = (\<lambda>bs. int (le_nat bs))\<rparr>"

lemma uint_byte: "uint (word_of_int i :: u8) = i mod 256"
  by (simp add: uint_word_of_int)

lemma signed_le_Cons: "bs \<noteq> [] \<Longrightarrow> signed_le (b # bs) = uint b + 256 * signed_le bs"
  by (simp add: signed_le_def algebra_simps)

lemma ref_signed_nonempty: "ref_signed i \<noteq> []"
  by (subst ref_signed.simps) simp

lemma ref_signed_value: "signed_le (ref_signed i) = i"
proof (induction i rule: ref_signed.induct)
  case (1 i)
  show ?case
  proof (cases "-128 \<le> i \<and> i < 128")
    case True
    have "signed_le [word_of_int i] = i mod 256 - (if i mod 256 \<ge> 128 then 256 else 0)"
      by (simp add: signed_le_def uint_byte flip: uint_nat) (auto simp: unat_eq_nat_uint uint_byte le_nat_iff)
    also have "\<dots> = i"
    proof (cases "0 \<le> i")
      case True
      then show ?thesis using \<open>-128 \<le> i \<and> i < 128\<close> by simp
    next
      case False
      then have "i mod 256 = i + 256" using True by (intro mod_pos_pos_trivial [of "i + 256" 256, simplified]) auto
      then show ?thesis using False True by simp
    qed
    finally show ?thesis using True by (subst ref_signed.simps) simp
  next
    case False
    then have "signed_le (ref_signed i) = i mod 256 + 256 * (i div 256)"
      using 1 by (subst ref_signed.simps) (auto simp: signed_le_Cons ref_signed_nonempty uint_byte)
    then show ?thesis by simp
  qed
qed

lemma ref_signed_length:
  "0 < n \<Longrightarrow> - (2 ^ (8 * n - 1)) \<le> i \<Longrightarrow> i < 2 ^ (8 * n - 1) \<Longrightarrow> length (ref_signed i) \<le> n"
proof (induction i arbitrary: n rule: ref_signed.induct)
  case (1 i)
  show ?case
  proof (cases "-128 \<le> i \<and> i < 128")
    case True
    then show ?thesis using 1 by (subst ref_signed.simps) auto
  next
    case False
    have "n \<noteq> 1" using 1(3,4) False by auto
    then obtain m where n: "n = Suc m" "0 < m" using 1(2) by (cases n) auto
    have "8 * n - 1 = 8 + (8 * m - 1)" using n by simp
    then have p: "(2::int) ^ (8 * n - 1) = 256 * 2 ^ (8 * m - 1)" by (simp only: power_add) simp
    have "- (2 ^ (8 * m - 1)) \<le> i div 256" "i div 256 < 2 ^ (8 * m - 1)"
      using 1(3,4) unfolding p by auto
    then have "length (ref_signed (i div 256)) \<le> m" using 1(1) False n(2) by blast
    then show ?thesis using n False by (subst ref_signed.simps) auto
  qed
qed

lemma ref_unsigned_value: "0 \<le> i \<Longrightarrow> int (le_nat (ref_unsigned i)) = i"
proof (induction i rule: ref_unsigned.induct)
  case (1 i)
  show ?case
  proof (cases "i < 256")
    case True
    then show ?thesis using 1 by (subst ref_unsigned.simps) (simp add: uint_byte)
  next
    case False
    then have "int (le_nat (ref_unsigned i)) = i mod 256 + 256 * (i div 256)"
      using 1 by (subst ref_unsigned.simps) (simp add: uint_byte)
    then show ?thesis by simp
  qed
qed

lemma ref_unsigned_length: "i < 256 ^ n \<Longrightarrow> 0 < n \<Longrightarrow> length (ref_unsigned i) \<le> n"
proof (induction i arbitrary: n rule: ref_unsigned.induct)
  case (1 i)
  show ?case
  proof (cases "i < 256")
    case True
    then show ?thesis using 1 by (subst ref_unsigned.simps) simp
  next
    case False
    have "n \<noteq> 1" using 1(2) False by auto
    then obtain m where n: "n = Suc m" "0 < m" using 1(3) by (cases n) auto
    have "i div 256 < 256 ^ m" using 1(2) n by simp
    then have "length (ref_unsigned (i div 256)) \<le> m" using 1(1) False n(2) by blast
    then show ?thesis using n False by (subst ref_unsigned.simps) simp
  qed
qed

interpretation ref_num: num_crates ref_num
  by unfold_locales
    (simp_all add: ref_num_def ref_with_scale_def ref_signed_nonempty ref_signed_value
      ref_signed_length ref_unsigned_value ref_unsigned_length)

section \<open>DECIMAL round trips\<close>

lemma length_into_raw:
  assumes "num_crates nl" "from_bigdecimal nl d = Ok h"
  shows "length (into_raw h) = 16"
proof -
  obtain b1 e1 where s: "strip_zeros (bd_int d) (- bd_scale d) = (b1, e1)" by (cases "strip_zeros (bd_int d) (- bd_scale d)")
  obtain b e where sh: "shorten nl b1 e1 = (b, e)" by (cases "shorten nl b1 e1")
  have "length (to_bytes_le nl b) \<le> 15"
    using num_crates.shorten_bound [OF assms(1) sh] num_crates.not_too_long [OF assms(1)] by blast
  then show ?thesis using assms(2) s sh
    by (auto simp: from_bigdecimal_def copy_mantissa_def set_exponent_def set_sign_def split: if_splits)
qed

text \<open>The bytes of the NULL value have an exponent that is out of range.\<close>

lemma null_bytes_exponent:
  assumes "length raw = 16" "raw ! 15 = 112" "list_all (\<lambda>el. el = 0) (take 15 raw)"
  shows "snd (snd (into_elements nl (HdbDecimal raw))) = 8160"
proof -
  have "take 15 raw = replicate 15 0" using assms(1,3) by (intro replicate_eqI) (auto simp: list_all_iff)
  then have raw: "raw = replicate 15 0 @ [112]"
    using assms(1,2) append_take_drop_id [of 15 raw] Cons_nth_drop_Suc [of 15 raw] by simp
  have "replicate 15 (0 :: u8) = [0, 0, 0, 0, 0, 0, 0, 0, 0, 0, 0, 0, 0, 0, 0]" by (simp add: numeral_eq_Suc)
  then show ?thesis unfolding raw by simp
qed

text \<open>Two decimals that denote the same number.\<close>

definition same_number :: "bigdecimal \<Rightarrow> bigdecimal \<Rightarrow> bool" where
  "same_number d d' \<longleftrightarrow>
     (let s = max (bd_scale d) (bd_scale d')
      in bd_int d * 10 ^ nat (s - bd_scale d) = bd_int d' * 10 ^ nat (s - bd_scale d'))"

lemma same_number_intro:
  assumes "bd_int d = b * 10 ^ nat (bd_scale d + e)" "bd_int d' = b * 10 ^ nat (bd_scale d' + e)"
    and "- e \<le> bd_scale d" "- e \<le> bd_scale d'"
  shows "same_number d d'"
proof -
  have "(10::int) ^ nat (x + e) * 10 ^ nat (s - x) = 10 ^ nat (s + e)" if "- e \<le> x" "x \<le> s" for x s :: int
    using that by (simp flip: power_add nat_add_distrib)
  then show ?thesis using assms by (simp add: same_number_def Let_def mult.assoc)
qed

text \<open>C35: A decimal sent for a DECIMAL parameter and read back from a DECIMAL column, through the 16 bytes on
  the wire and the test for the bytes of NULL. If its digits, trailing zeros stripped, have at most 112
  bits and its exponent is between -6143 and 6144, it is emitted, is never taken for NULL, and what
  is read is the same number, in a column without a scale of its own with the digits stripped, in a
  column with a scale rescaled to it by the crate; a column with fewer decimal places than the number
  has digits for is the case in which the rescaling may cut digits.\<close>

theorem decimal_roundtrip:
  assumes "num_crates nl" and "strip_zeros (bd_int d) (- bd_scale d) = (b, e)"
    and "\<bar>b\<bar> < 2 ^ 112" "-6143 \<le> e" "e \<le> 6144"
  shows "\<exists>raw d'. decimal_emit nl d TY_DECIMAL any_scale = Ok raw \<and> length raw = 16 \<and>
    decimal_parse nl nullable TY_DECIMAL scale (raw @ rest) = Ok (HV_DECIMAL d', rest) \<and>
    d' = (if sint scale = 32767 then \<lparr>bd_int = b, bd_scale = - e\<rparr>
          else with_scale nl \<lparr>bd_int = b, bd_scale = - e\<rparr> (sint scale)) \<and>
    (- e \<le> sint scale \<longrightarrow> same_number d d')"
proof -
  obtain h where h: "from_bigdecimal nl d = Ok h" "into_elements nl h = (b < 0, \<bar>b\<bar> mod 2 ^ 112, e)"
    using num_crates.from_bigdecimal_elements [OF assms(1,2)] assms by force
  obtain raw where raw: "h = HdbDecimal raw" by (cases h)
  have len: "length raw = 16" using length_into_raw [OF assms(1) h(1)] by (simp add: raw)
  have m: "\<bar>b\<bar> mod 2 ^ 112 = \<bar>b\<bar>" using assms(3) by simp
  let ?d = "\<lparr>bd_int = b, bd_scale = - e\<rparr>"
  have d: "into_bigdecimal nl (HdbDecimal raw) = ?d"
    using h(2) unfolding m by (simp add: into_bigdecimal_def raw)
  have not_null: "\<not> (raw ! 15 = 112 \<and> list_all (\<lambda>el. el = 0) (take 15 raw))"
    using null_bytes_exponent [OF len, of nl] h(2) assms(5) by (auto simp: raw)
  have bound: "sint scale \<le> 32767" using sint_lt [of scale] by simp
  define d' where "d' = (if sint scale = 32767 then ?d else with_scale nl ?d (sint scale))"
  have parsed: "decimal_parse nl nullable TY_DECIMAL scale (raw @ rest) = Ok (HV_DECIMAL d', rest)"
    using len not_null bound
    by (auto simp: decimal_parse_def parse_hdb_decimal_def rd_simps into_bigdecimal_with_scale_def d d'_def Let_def)
  have v: "- bd_scale d \<le> e" "bd_int d = b * 10 ^ nat (bd_scale d + e)"
    using strip_zeros_value [OF assms(2)] by (simp_all add: add.commute)
  have "same_number d d'" if "- e \<le> sint scale"
  proof (rule same_number_intro [OF v(2), of d'])
    show "bd_int d' = b * 10 ^ nat (bd_scale d' + e)" "- e \<le> bd_scale d'"
      using num_crates.with_scale_exact [OF assms(1), of ?d "sint scale"]
        num_crates.scale_with_scale [OF assms(1)] that by (auto simp: d'_def)
  qed (use v(1) in simp)
  then show ?thesis using parsed h(1) len by (auto simp: decimal_emit_def raw d'_def)
qed

theorem decimal_roundtrip_witness:
  "\<exists>raw d'. decimal_emit ref_num \<lparr>bd_int = -12345600, bd_scale = 4\<rparr> TY_DECIMAL 4 = Ok raw \<and>
    decimal_parse ref_num True TY_DECIMAL 3 (raw @ [7]) = Ok (HV_DECIMAL d', [7]) \<and>
    same_number \<lparr>bd_int = -12345600, bd_scale = 4\<rparr> d'"
proof -
  have "strip_zeros (-12345600) (- 4) = (-123456, -2)" by code_simp
  then show ?thesis
    using decimal_roundtrip [OF ref_num.num_crates_axioms,
        of "\<lparr>bd_int = -12345600, bd_scale = 4\<rparr>" "-123456" "-2" 4 True 3 "[7]"] by auto
qed

text \<open>C37: The highest of the 113 bits the code allows for the mantissa is overwritten by the exponent:
  a mantissa of exactly 113 bits is silently decoded as the number without its leading bit.\<close>

theorem decimal_bit113_lost:
  assumes "num_crates nl" and "strip_zeros (bd_int d) (- bd_scale d) = (b, e)"
    and "2 ^ 112 \<le> b" "b < 2 ^ 113" "-6143 \<le> e" "e \<le> 6144"
  shows "\<exists>h. from_bigdecimal nl d = Ok h \<and>
    into_bigdecimal nl h = \<lparr>bd_int = b - 2 ^ 112, bd_scale = - e\<rparr>"
proof -
  obtain h where h: "from_bigdecimal nl d = Ok h"
    "into_elements nl h = (b < 0, \<bar>b\<bar> mod 2 ^ 112, e)"
    using num_crates.from_bigdecimal_elements [OF assms(1,2)] assms by force
  moreover have "b mod 2 ^ 112 = b - 2 ^ 112"
    using assms(3,4) mod_pos_pos_trivial [of "b - 2 ^ 112" "2 ^ 112"]
    by (simp only: minus_mod_self2) simp
  ultimately show ?thesis using assms(3) by (auto simp: into_bigdecimal_def)
qed

theorem decimal_bit113_lost_witness:
  "\<exists>h. from_bigdecimal ref_num \<lparr>bd_int = 2 ^ 112 + 1, bd_scale = 0\<rparr> = Ok h \<and>
    into_bigdecimal ref_num h = \<lparr>bd_int = 1, bd_scale = 0\<rparr>"
proof -
  have "strip_zeros (2 ^ 112 + 1) 0 = (2 ^ 112 + 1, 0)" by code_simp
  then show ?thesis
    using decimal_bit113_lost [OF ref_num.num_crates_axioms,
        of "\<lparr>bd_int = 2 ^ 112 + 1, bd_scale = 0\<rparr>" "2 ^ 112 + 1" 0] by simp
qed

end
