(* ===== verification/Hdb_Lob_Wire.thy ===== *)
theory Hdb_Lob_Wire
  imports Hdb_Types
begin

text \<open>
  LOBs in rows (types\_impl/lob/wire.rs): the header of a LOB value, the first chunk of data, and
  the handles that are made of them (\<^verbatim>\<open>BLobHandle::new\<close> in blob.rs, \<^verbatim>\<open>CLobHandle::new\<close> in clob.rs,
  \<^verbatim>\<open>NCLobHandle::new\<close> in nclob.rs).
\<close>

section \<open>Handles\<close>

definition blob_handle_new :: "u64 option \<Rightarrow> bool \<Rightarrow> u64 \<Rightarrow> u64 \<Rightarrow> bytes \<Rightarrow> blob_handle" where
  "blob_handle_new o_am_rscore is_data_complete total_byte_length locator_id data =
     \<lparr>bl_rscore = o_am_rscore, bl_complete = is_data_complete,
      bl_total_byte_length = total_byte_length, bl_locator_id = locator_id, bl_data = data,
      bl_max_buf_len = length data, bl_acc_byte_length = length data,
      bl_server_usage = server_usage_default\<rparr>"

definition clob_handle_new ::
    "u64 option \<Rightarrow> bool \<Rightarrow> u64 \<Rightarrow> u64 \<Rightarrow> u64 \<Rightarrow> bytes \<Rightarrow> (clob_handle, hdb_error) res" where
  "clob_handle_new o_am_rscore is_data_complete total_char_length total_byte_length locator_id cesu8 =
     res_bind (tcp (get_cesu8_tail_len cesu8 (length cesu8))) (\<lambda>tail_len.
     Ok \<lparr>cl_rscore = o_am_rscore, cl_complete = is_data_complete,
         cl_total_char_length = total_char_length, cl_total_byte_length = total_byte_length,
         cl_locator_id = locator_id, cl_cesu8 = cesu8, cl_cesu8_tail_len = tail_len,
         cl_max_buf_len = length cesu8, cl_acc_byte_length = length cesu8,
         cl_server_usage = server_usage_default\<rparr>)"

definition is_utf8_char_start :: "u8 \<Rightarrow> bool" where
  "is_utf8_char_start b \<longleftrightarrow>
     in_range 0x00 0x7F b \<or> in_range 0xC0 0xDF b \<or> in_range 0xE0 0xEF b \<or> in_range 0xF0 0xF7 b"

definition count_1_2_3_sequence_starts :: "bytes \<Rightarrow> nat" where
  "count_1_2_3_sequence_starts cesu8 = length (filter is_utf8_char_start cesu8)"

definition nclob_handle_new ::
    "u64 option \<Rightarrow> bool \<Rightarrow> u64 \<Rightarrow> u64 \<Rightarrow> u64 \<Rightarrow> bytes \<Rightarrow> (nclob_handle, hdb_error) res" where
  "nclob_handle_new o_am_rscore is_data_complete total_char_length total_byte_length locator_id cesu8 =
     res_bind (tcp (get_cesu8_tail_len cesu8 (length cesu8))) (\<lambda>tail_len.
     Ok \<lparr>nc_rscore = o_am_rscore, nc_complete = is_data_complete,
         nc_total_char_length = total_char_length, nc_total_byte_length = total_byte_length,
         nc_locator_id = locator_id, nc_cesu8 = cesu8, nc_cesu8_tail_len = tail_len,
         nc_max_buf_len = length cesu8, nc_acc_byte_length = length cesu8,
         nc_acc_char_length = count_1_2_3_sequence_starts cesu8,
         nc_server_usage = server_usage_default\<rparr>)"

section \<open>Parsing\<close>

definition parse_lob_1 :: "(bool \<times> bool \<times> bool) rd" where
  "parse_lob_1 =
     rd_bind read_u8 (\<lambda>_.
     rd_bind read_u8 (\<lambda>options.
     rd_return (options AND 0b1 \<noteq> 0, options AND 0b10 \<noteq> 0, options AND 0b100 \<noteq> 0)))"

definition parse_lob_2 :: "bool \<Rightarrow> (u64 \<times> u64 \<times> u64 \<times> bytes) rd" where
  "parse_lob_2 is_data_included =
     rd_bind (skip_bytes 2) (\<lambda>_.
     rd_bind read_u64 (\<lambda>total_char_length.
     rd_bind read_u64 (\<lambda>total_byte_length.
     rd_bind read_u64 (\<lambda>locator_id.
     rd_bind read_u32 (\<lambda>chunk_length.
       if is_data_included then
         rd_bind (parse_bytes (unat chunk_length)) (\<lambda>data.
         rd_return (total_char_length, total_byte_length, locator_id, data))
       else rd_return (total_char_length, total_byte_length, locator_id, []))))))"

definition parse_blob :: "u64 option \<Rightarrow> bool \<Rightarrow> hdb_value rd" where
  "parse_blob o_am_rscore nullable =
     rd_bind parse_lob_1 (\<lambda>(is_null, is_data_included, is_last_data).
       if is_null then
         (if nullable then rd_return HV_NULL
          else rd_fail (io_error ''found null value for not-null BLOB column''))
       else
         rd_bind (parse_lob_2 is_data_included) (\<lambda>(_, len, locator_id, data).
         rd_return (HV_BLOB (blob_handle_new o_am_rscore is_last_data len locator_id data))))"

definition parse_clob :: "u64 option \<Rightarrow> bool \<Rightarrow> hdb_value rd" where
  "parse_clob o_am_rscore nullable =
     rd_bind parse_lob_1 (\<lambda>(is_null, is_data_included, is_last_data).
       if is_null then
         (if nullable then rd_return HV_NULL
          else rd_fail (io_error ''found null value for not-null CLOB column''))
       else
         rd_bind (parse_lob_2 is_data_included) (\<lambda>(char_length, byte_length, locator_id, data).
         rd_bind (rd_lift (io_of_hdb
           (clob_handle_new o_am_rscore is_last_data char_length byte_length locator_id data))) (\<lambda>h.
         rd_return (HV_CLOB h))))"

definition parse_nclob :: "u64 option \<Rightarrow> bool \<Rightarrow> type_id \<Rightarrow> hdb_value rd" where
  "parse_nclob o_am_rscore nullable type_id =
     rd_bind parse_lob_1 (\<lambda>(is_null, is_data_included, is_last_data).
       if is_null then
         (if nullable then rd_return HV_NULL
          else rd_fail (io_error ''found null value for not-null NCLOB column''))
       else
         rd_bind (parse_lob_2 is_data_included) (\<lambda>(char_length, byte_length, locator_id, data).
           if type_id = TY_TEXT \<or> type_id = TY_NCLOB then
             rd_bind (rd_lift (io_of_hdb
               (nclob_handle_new o_am_rscore is_last_data char_length byte_length locator_id data))) (\<lambda>h.
             rd_return (HV_NCLOB h))
           else rd_fail (io_error ''unexpected type id for nclob'')))"

section \<open>The header of a LOB that is sent\<close>

text \<open>The new offset is \<^verbatim>\<open>*offset += length as i32\<close>, which can overflow.\<close>

definition emit_lob_header :: "u64 \<Rightarrow> i32 \<Rightarrow> (bytes \<times> i32, ioerr) res" where
  "emit_lob_header len offset =
     (let len32 = ucast len :: i32
      in if - (2 ^ 31) \<le> sint offset + sint len32 \<and> sint offset + sint len32 < 2 ^ 31
         then Ok ([0] @ write_i32 len32 @ write_i32 offset, offset + len32)
         else Panic)"

text \<open>What a server sends for a LOB value: the inverse of the parser.\<close>

definition lob_image :: "u8 \<Rightarrow> bool \<Rightarrow> u64 \<Rightarrow> u64 \<Rightarrow> u64 \<Rightarrow> bytes \<Rightarrow> bytes" where
  "lob_image data_type is_last_data char_length byte_length locator_id data =
     [data_type, if is_last_data then 0b110 else 0b010, 0, 0] @ write_u64 char_length
       @ write_u64 byte_length @ write_u64 locator_id @ write_u32 (word_of_nat (length data)) @ data"

lemma parse_lob_image:
  assumes "length data < 2 ^ 32"
  shows "parse_lob_1 (lob_image t l cl byl loc data @ rest)
      = Ok ((False, True, l), drop 2 (lob_image t l cl byl loc data) @ rest)"
    and "parse_lob_2 True (drop 2 (lob_image t l cl byl loc data) @ rest)
      = Ok ((cl, byl, loc, data), rest)"
proof -
  show "parse_lob_1 (lob_image t l cl byl loc data @ rest)
      = Ok ((False, True, l), drop 2 (lob_image t l cl byl loc data) @ rest)"
    by (simp add: parse_lob_1_def lob_image_def rd_simps)
  have "unat (word_of_nat (length data) :: u32) = length data"
    using assms by (simp add: unat_of_nat)
  moreover have "skip_bytes 2 (0 # 0 # xs) = Ok ((), xs)" for xs
    using skip_bytes_append [of "[0, 0]" 2 xs] by simp
  moreover have "length data \<le> isize_max" using assms by (simp add: isize_max_def)
  ultimately show "parse_lob_2 True (drop 2 (lob_image t l cl byl loc data) @ rest)
      = Ok ((cl, byl, loc, data), rest)"
    by (simp add: parse_lob_2_def lob_image_def rd_simps)
qed

end
