(* ===== verification/Hdb_Values.thy ===== *)
theory Hdb_Values
  imports Hdb_Dates Hdb_Decimal Hdb_Lob_Wire
begin

text \<open>
  Database values on the wire (protocol/parts/hdb\_value.rs): emitting a parameter value with its
  type code, its size in the part, and parsing the values of result set rows and of output
  parameters by their type.
\<close>

section \<open>Lengths\<close>

definition emit_length_bytes :: "bytes \<Rightarrow> bytes" where
  "emit_length_bytes v =
     (let l = length v
      in if l \<le> 245 then [word_of_nat l] @ v
         else if l \<le> 32767 then [246] @ write_i16 (word_of_nat l) @ v
         else [247] @ write_i32 (word_of_nat l) @ v)"

definition emit_length_string :: "cesu8_lib \<Rightarrow> rstring \<Rightarrow> bytes" where
  "emit_length_string c8 s = emit_length_bytes (to_cesu8 c8 s)"

definition binary_length :: "nat \<Rightarrow> nat" where
  "binary_length l = (if l \<le> 245 then 1 + l else if l \<le> 32767 then 3 + l else 5 + l)"

definition string_length :: "rstring \<Rightarrow> nat" where
  "string_length s = binary_length (cesu8_length s)"

definition parse_length_bytes :: "u8 \<Rightarrow> bytes rd" where
  "parse_length_bytes l8 =
     (if l8 \<le> 245 then parse_bytes (unat l8)
      else if l8 = 246 then rd_bind read_i16 (\<lambda>l. parse_bytes (usize_of l))
      else if l8 = 247 then rd_bind read_i32 (\<lambda>l. parse_bytes (usize_of l))
      else rd_fail (io_error ''Unexpected value in length indicator: {}''))"

section \<open>Parsing values\<close>

definition parse_tinyint :: "bool \<Rightarrow> hdb_value rd" where
  "parse_tinyint nullable =
     rd_bind (parse_null nullable) (\<lambda>is_null.
       if is_null then rd_return HV_NULL else rd_bind read_u8 (\<lambda>v. rd_return (HV_TINYINT v)))"

definition parse_smallint :: "bool \<Rightarrow> hdb_value rd" where
  "parse_smallint nullable =
     rd_bind (parse_null nullable) (\<lambda>is_null.
       if is_null then rd_return HV_NULL else rd_bind read_i16 (\<lambda>v. rd_return (HV_SMALLINT v)))"

definition parse_int :: "bool \<Rightarrow> hdb_value rd" where
  "parse_int nullable =
     rd_bind (parse_null nullable) (\<lambda>is_null.
       if is_null then rd_return HV_NULL else rd_bind read_i32 (\<lambda>v. rd_return (HV_INT v)))"

definition parse_bigint :: "bool \<Rightarrow> hdb_value rd" where
  "parse_bigint nullable =
     rd_bind (parse_null nullable) (\<lambda>is_null.
       if is_null then rd_return HV_NULL else rd_bind read_i64 (\<lambda>v. rd_return (HV_BIGINT v)))"

text \<open>Floating-point columns have no null indicator: the value with all bits set is NULL.\<close>

definition parse_real :: "bool \<Rightarrow> hdb_value rd" where
  "parse_real nullable =
     rd_bind read_u32 (\<lambda>tmp.
       if tmp = 0xFFFFFFFF then
         (if nullable then rd_return HV_NULL
          else rd_fail (io_error ''found NULL value for NOT NULL column''))
       else rd_return (HV_REAL tmp))"

definition parse_double :: "bool \<Rightarrow> hdb_value rd" where
  "parse_double nullable =
     rd_bind read_u64 (\<lambda>tmp.
       if tmp = 0xFFFFFFFFFFFFFFFF then
         (if nullable then rd_return HV_NULL
          else rd_fail (io_error ''found NULL value for NOT NULL column''))
       else rd_return (HV_DOUBLE tmp))"

definition parse_bool :: "bool \<Rightarrow> hdb_value rd" where
  "parse_bool nullable =
     rd_bind read_u8 (\<lambda>b.
       if b = 0 then rd_return (HV_BOOLEAN False)
       else if b = 2 then rd_return (HV_BOOLEAN True)
       else if b = 1 then
         (if nullable then rd_return HV_NULL
          else rd_fail (io_error ''parse_bool: got null value''))
       else rd_fail (io_error ''parse_bool: got bad value {}''))"

text \<open>
  ALPHANUM: the first byte is one more than the length, \<^verbatim>\<open>indicator1 - 1\<close> underflows for zero; a
  purely numeric value is prefixed with zeros up to the length of the field, and
  \<^verbatim>\<open>field_length - data_length\<close> underflows for a value that is longer than its field.
\<close>

definition parse_alphanum :: "cesu8_lib \<Rightarrow> bool \<Rightarrow> hdb_value rd" where
  "parse_alphanum c8 nullable =
     rd_bind read_u8 (\<lambda>indicator1.
       if indicator1 = 255 then
         (if nullable then rd_return HV_NULL
          else rd_fail (io_error ''found NULL value for NOT NULL ALPHANUM column''))
       else if indicator1 = 0 then rd_panic
       else
         let data_length = indicator1 - 1
         in rd_bind read_u8 (\<lambda>indicator2.
            rd_bind (parse_bytes (unat data_length)) (\<lambda>value.
            rd_bind
              (if indicator2 AND 0b10000000 = 0 then rd_return value
               else
                 let field_length = indicator2 AND 0b01111111
                 in if field_length < data_length then rd_panic
                    else rd_return (replicate (unat (field_length - data_length)) 48 @ value))
              (\<lambda>chars. rd_bind (rd_lift (io_string c8 chars)) (\<lambda>s. rd_return (HV_STRING s))))))"

definition parse_string :: "cesu8_lib \<Rightarrow> bool \<Rightarrow> type_id \<Rightarrow> hdb_value rd" where
  "parse_string c8 nullable type_id =
     rd_bind read_u8 (\<lambda>l8.
       if l8 = 255 then
         (if nullable then rd_return HV_NULL
          else rd_fail (io_error ''found NULL value for NOT NULL string column''))
       else
         rd_bind (parse_length_bytes l8) (\<lambda>bs.
         rd_bind (rd_lift (io_string c8 bs)) (\<lambda>s.
           if type_id \<in> {TY_CHAR, TY_VARCHAR, TY_NCHAR, TY_NVARCHAR, TY_NSTRING, TY_SHORTTEXT, TY_STRING}
           then rd_return (HV_STRING s)
           else rd_fail (io_error ''unexpected type id for string''))))"

definition parse_binary :: "bool \<Rightarrow> type_id \<Rightarrow> hdb_value rd" where
  "parse_binary nullable type_id =
     rd_bind read_u8 (\<lambda>l8.
       if l8 = 255 then
         (if nullable then rd_return HV_NULL
          else rd_fail (io_error ''found NULL value for NOT NULL binary column''))
       else
         rd_bind (parse_length_bytes l8) (\<lambda>bs.
           if type_id \<in> {TY_BSTRING, TY_VARBINARY, TY_BINARY} then rd_return (HV_BINARY bs)
           else if type_id = TY_GEOMETRY then rd_return (HV_GEOMETRY bs)
           else if type_id = TY_POINT then rd_return (HV_POINT bs)
           else rd_fail (io_error ''unexpected type id for binary'')))"

definition parse_from_reply ::
    "cesu8_lib \<Rightarrow> num_lib \<Rightarrow> type_id \<Rightarrow> i16 \<Rightarrow> bool \<Rightarrow> u64 option \<Rightarrow> hdb_value rd" where
  "parse_from_reply c8 nl t scale nullable o_am_rscore =
     (case t of
        TY_TINYINT \<Rightarrow> parse_tinyint nullable
      | TY_SMALLINT \<Rightarrow> parse_smallint nullable
      | TY_INT \<Rightarrow> parse_int nullable
      | TY_BIGINT \<Rightarrow> parse_bigint nullable
      | TY_REAL \<Rightarrow> parse_real nullable
      | TY_DOUBLE \<Rightarrow> parse_double nullable
      | TY_BOOLEAN \<Rightarrow> parse_bool nullable
      | TY_DECIMAL \<Rightarrow> decimal_parse nl nullable t scale
      | TY_FIXED8 \<Rightarrow> decimal_parse nl nullable t scale
      | TY_FIXED12 \<Rightarrow> decimal_parse nl nullable t scale
      | TY_FIXED16 \<Rightarrow> decimal_parse nl nullable t scale
      | TY_CHAR \<Rightarrow> parse_string c8 nullable t
      | TY_VARCHAR \<Rightarrow> parse_string c8 nullable t
      | TY_NCHAR \<Rightarrow> parse_string c8 nullable t
      | TY_NVARCHAR \<Rightarrow> parse_string c8 nullable t
      | TY_STRING \<Rightarrow> parse_string c8 nullable t
      | TY_NSTRING \<Rightarrow> parse_string c8 nullable t
      | TY_SHORTTEXT \<Rightarrow> parse_string c8 nullable t
      | TY_ALPHANUM \<Rightarrow> parse_alphanum c8 nullable
      | TY_BINARY \<Rightarrow> parse_binary nullable t
      | TY_VARBINARY \<Rightarrow> parse_binary nullable t
      | TY_BSTRING \<Rightarrow> parse_binary nullable t
      | TY_GEOMETRY \<Rightarrow> parse_binary nullable t
      | TY_POINT \<Rightarrow> parse_binary nullable t
      | TY_BLOCATOR \<Rightarrow> rd_fail (io_error ''parsing BLOCATOR not implemented'')
      | TY_BLOB \<Rightarrow> parse_blob o_am_rscore nullable
      | TY_BINTEXT \<Rightarrow> parse_blob o_am_rscore nullable
      | TY_CLOB \<Rightarrow> parse_clob o_am_rscore nullable
      | TY_NCLOB \<Rightarrow> parse_nclob o_am_rscore nullable t
      | TY_TEXT \<Rightarrow> parse_nclob o_am_rscore nullable t
      | TY_LONGDATE \<Rightarrow> parse_longdate nullable
      | TY_SECONDDATE \<Rightarrow> parse_seconddate nullable
      | TY_DAYDATE \<Rightarrow> parse_daydate nullable
      | TY_SECONDTIME \<Rightarrow> parse_secondtime nullable)"

section \<open>Emitting values\<close>

definition is_null :: "hdb_value \<Rightarrow> bool" where
  "is_null v = (case v of HV_NULL \<Rightarrow> True | _ \<Rightarrow> False)"

definition type_id_for_emit :: "hdb_value \<Rightarrow> type_id \<Rightarrow> (type_id, hdb_error) res" where
  "type_id_for_emit v requested =
     (case v of
        HV_NOTHING \<Rightarrow> Err (Usage ''Can't send HdbValue::NOTHING to Database'')
      | HV_NULL \<Rightarrow> Ok (if requested = TY_SECONDTIME then TY_SECONDDATE else requested)
      | HV_TINYINT _ \<Rightarrow> Ok TY_TINYINT
      | HV_SMALLINT _ \<Rightarrow> Ok TY_SMALLINT
      | HV_INT _ \<Rightarrow> Ok TY_INT
      | HV_BIGINT _ \<Rightarrow> Ok TY_BIGINT
      | HV_DECIMAL _ \<Rightarrow>
          (if requested \<in> {TY_FIXED8, TY_FIXED12, TY_FIXED16, TY_DECIMAL} then Ok requested
           else Err (ImplDetailed ''Can't send {} type for requested {:?} type''))
      | HV_REAL _ \<Rightarrow> Ok TY_REAL
      | HV_DOUBLE _ \<Rightarrow> Ok TY_DOUBLE
      | HV_CLOB _ \<Rightarrow> Ok requested
      | HV_NCLOB _ \<Rightarrow> Ok requested
      | HV_BLOB _ \<Rightarrow> Ok requested
      | HV_LOBSTREAM _ \<Rightarrow> Ok requested
      | HV_BOOLEAN _ \<Rightarrow> Ok TY_BOOLEAN
      | HV_STR _ \<Rightarrow> Ok TY_STRING
      | HV_STRING _ \<Rightarrow> Ok TY_STRING
      | HV_LONGDATE _ \<Rightarrow> Ok TY_LONGDATE
      | HV_SECONDDATE _ \<Rightarrow> Ok TY_SECONDDATE
      | HV_DAYDATE _ \<Rightarrow> Ok TY_DAYDATE
      | HV_SECONDTIME _ \<Rightarrow> Ok TY_SECONDTIME
      | HV_GEOMETRY _ \<Rightarrow> Ok TY_BINARY
      | HV_POINT _ \<Rightarrow> Ok TY_BINARY
      | HV_BINARY _ \<Rightarrow> Ok TY_BINARY)"

definition emit_type_id :: "hdb_value \<Rightarrow> type_id \<Rightarrow> (bytes \<times> bool, ioerr) res" where
  "emit_type_id v requested =
     res_bind (io_of_hdb (type_id_for_emit v requested)) (\<lambda>t.
     Ok ([type_code t (is_null v)], is_null v))"

definition emit_bool :: "bool \<Rightarrow> bytes" where
  "emit_bool b = [2 * (if b then 1 else 0)]"

text \<open>The bytes behind the type code and the new LOB position \<^verbatim>\<open>data_pos\<close>.\<close>

definition emit_value_data ::
    "cesu8_lib \<Rightarrow> num_lib \<Rightarrow> parameter_descriptor \<Rightarrow> i32 \<Rightarrow> hdb_value \<Rightarrow> (bytes \<times> i32, ioerr) res" where
  "emit_value_data c8 nl d data_pos v =
     (case v of
        HV_NULL \<Rightarrow> Ok ([], data_pos)
      | HV_TINYINT u \<Rightarrow> Ok ([u], data_pos)
      | HV_SMALLINT i \<Rightarrow> Ok (write_i16 i, data_pos)
      | HV_INT i \<Rightarrow> Ok (write_i32 i, data_pos)
      | HV_BIGINT i \<Rightarrow> Ok (write_i64 i, data_pos)
      | HV_DECIMAL bd \<Rightarrow>
          res_map (\<lambda>bs. (bs, data_pos)) (decimal_emit nl bd (pd_type_id d) (pd_scale d))
      | HV_REAL f \<Rightarrow> Ok (write_u32 f, data_pos)
      | HV_DOUBLE f \<Rightarrow> Ok (write_u64 f, data_pos)
      | HV_BOOLEAN b \<Rightarrow> Ok (emit_bool b, data_pos)
      | HV_LONGDATE (LongDate raw) \<Rightarrow> Ok (write_i64 raw, data_pos)
      | HV_SECONDDATE (SecondDate raw) \<Rightarrow> Ok (write_i64 raw, data_pos)
      | HV_DAYDATE (DayDate raw) \<Rightarrow> Ok (write_i32 raw, data_pos)
      | HV_SECONDTIME (SecondTime raw) \<Rightarrow> Ok (write_u32 raw, data_pos)
      | HV_LOBSTREAM None \<Rightarrow> emit_lob_header 0 data_pos
      | HV_STR s \<Rightarrow> Ok (emit_length_string c8 s, data_pos)
      | HV_STRING s \<Rightarrow> Ok (emit_length_string c8 s, data_pos)
      | HV_BINARY bs \<Rightarrow> Ok (emit_length_bytes bs, data_pos)
      | HV_GEOMETRY bs \<Rightarrow> Ok (emit_length_bytes bs, data_pos)
      | HV_POINT bs \<Rightarrow> Ok (emit_length_bytes bs, data_pos)
      | _ \<Rightarrow> Err (io_error ''HdbValue::{} cannot be sent to the database''))"

definition value_emit ::
    "cesu8_lib \<Rightarrow> num_lib \<Rightarrow> parameter_descriptor \<Rightarrow> i32 \<Rightarrow> hdb_value \<Rightarrow> (bytes \<times> i32, ioerr) res" where
  "value_emit c8 nl d data_pos v =
     res_bind (emit_type_id v (pd_type_id d)) (\<lambda>(code, is_null).
       if is_null then Ok (code, data_pos)
       else res_bind (emit_value_data c8 nl d data_pos v) (\<lambda>(bs, data_pos').
         Ok (code @ bs, data_pos')))"

definition value_size :: "type_id \<Rightarrow> hdb_value \<Rightarrow> (nat, ioerr) res" where
  "value_size type_id v =
     (case v of
        HV_NOTHING \<Rightarrow> Ok (1 + 0)
      | HV_NULL \<Rightarrow> Ok (1 + 0)
      | HV_BOOLEAN _ \<Rightarrow> Ok (1 + 1)
      | HV_TINYINT _ \<Rightarrow> Ok (1 + 1)
      | HV_SMALLINT _ \<Rightarrow> Ok (1 + 2)
      | HV_DECIMAL _ \<Rightarrow>
          (if type_id = TY_FIXED8 then Ok (1 + 8)
           else if type_id = TY_FIXED12 then Ok (1 + 12)
           else if type_id = TY_FIXED16 \<or> type_id = TY_DECIMAL then Ok (1 + 16)
           else Err (io_error ''invalid TypeId {:?} for DECIMAL''))
      | HV_INT _ \<Rightarrow> Ok (1 + 4)
      | HV_REAL _ \<Rightarrow> Ok (1 + 4)
      | HV_DAYDATE _ \<Rightarrow> Ok (1 + 4)
      | HV_SECONDTIME _ \<Rightarrow> Ok (1 + 4)
      | HV_BIGINT _ \<Rightarrow> Ok (1 + 8)
      | HV_DOUBLE _ \<Rightarrow> Ok (1 + 8)
      | HV_LONGDATE _ \<Rightarrow> Ok (1 + 8)
      | HV_SECONDDATE _ \<Rightarrow> Ok (1 + 8)
      | HV_LOBSTREAM None \<Rightarrow> Ok (1 + 9)
      | HV_STR s \<Rightarrow> Ok (1 + binary_length (cesu8_length s))
      | HV_STRING s \<Rightarrow> Ok (1 + binary_length (cesu8_length s))
      | HV_BINARY bs \<Rightarrow> Ok (1 + binary_length (length bs))
      | HV_GEOMETRY bs \<Rightarrow> Ok (1 + binary_length (length bs))
      | HV_POINT bs \<Rightarrow> Ok (1 + binary_length (length bs))
      | _ \<Rightarrow> Err (io_error ''size(): can't send {:?} directly to the database''))"

section \<open>Conversions\<close>

fun try_into_blob :: "hdb_value \<Rightarrow> (blob_handle, hdb_error) res" where
  "try_into_blob (HV_BLOB blob) = Ok blob"
| "try_into_blob _ = Err (UsageDetailed ''The value {:?} cannot be converted into a BLOB'')"

fun try_into_clob :: "hdb_value \<Rightarrow> (clob_handle, hdb_error) res" where
  "try_into_clob (HV_CLOB clob) = Ok clob"
| "try_into_clob _ = Err (UsageDetailed ''The value {:?} cannot be converted into a CLOB'')"

fun try_into_nclob :: "hdb_value \<Rightarrow> (nclob_handle, hdb_error) res" where
  "try_into_nclob (HV_NCLOB nclob) = Ok nclob"
| "try_into_nclob _ = Err (UsageDetailed ''The database value {:?} cannot be converted into a NCLob'')"

fun value_eq_i32 :: "hdb_value \<Rightarrow> i32 \<Rightarrow> bool" where
  "value_eq_i32 (HV_TINYINT i) rhs \<longleftrightarrow> uint i = sint rhs"
| "value_eq_i32 (HV_SMALLINT i) rhs \<longleftrightarrow> sint i = sint rhs"
| "value_eq_i32 (HV_INT i) rhs \<longleftrightarrow> i = rhs"
| "value_eq_i32 (HV_BIGINT i) rhs \<longleftrightarrow> sint i = sint rhs"
| "value_eq_i32 _ rhs \<longleftrightarrow> False"

fun value_eq_str :: "hdb_value \<Rightarrow> rstring \<Rightarrow> bool" where
  "value_eq_str (HV_STRING s) rhs \<longleftrightarrow> s = rhs"
| "value_eq_str _ rhs \<longleftrightarrow> False"

section \<open>Properties\<close>

lemma sint_of_int_fits: "fits_signed LENGTH('a::len) i \<Longrightarrow> sint (word_of_int i :: 'a word) = i"
  by (simp add: fits_signed_def sint_sbintrunc' signed_take_bit_int_eq_self)

lemma byte_all: "list_all (\<lambda>n. P (word_of_nat n)) [m..<n] \<Longrightarrow> m \<le> unat (w :: u8) \<Longrightarrow> unat w < n \<Longrightarrow> P w"
  unfolding list_all_iff by (elim ballE [where x = "unat w"]) auto

lemma and_128_nonzero: "\<not> unat (w :: u8) < 128 \<Longrightarrow> w AND 128 \<noteq> 0"
proof -
  assume w: "\<not> unat w < 128"
  have "list_all (\<lambda>n. (word_of_nat n :: u8) AND 128 \<noteq> 0) [128..<256]" by code_simp
  then show ?thesis by (rule byte_all) (use w unat_byte_less in auto)
qed

lemma unat_255: "unat (255 :: u8) = 255"
  by code_simp

lemma length_emit_length_bytes: "length (emit_length_bytes v) = binary_length (length v)"
  by (simp add: emit_length_bytes_def binary_length_def Let_def)

lemma parse_emit_length_bytes:
  assumes "length v < 2 ^ 31"
  obtains l8 bs where "emit_length_bytes v = l8 # bs" "l8 \<noteq> 255"
    "\<And>rest. parse_length_bytes l8 (bs @ rest) = Ok (v, rest)"
proof -
  have max: "length v \<le> isize_max" using assms by (simp add: isize_max_def)
  consider "length v \<le> 245" | "245 < length v" "length v \<le> 32767" | "32767 < length v" by linarith
  then show ?thesis
  proof cases
    case 1
    then have u: "unat (word_of_nat (length v) :: u8) = length v" by (simp add: unat_of_nat)
    then have "word_of_nat (length v) \<noteq> (255 :: u8)" "word_of_nat (length v) \<le> (245 :: u8)"
      using 1 by (auto simp: word_le_nat_alt word_unat_eq_iff)
    then show ?thesis using that [of "word_of_nat (length v)" v] 1 u max
      by (simp add: emit_length_bytes_def parse_length_bytes_def rd_simps)
  next
    case 2
    then have "usize_of (word_of_nat (length v) :: i16) = length v" by (intro usize_of_nat) auto
    then show ?thesis using that [of 246 "write_i16 (word_of_nat (length v)) @ v"] 2 max
      by (simp add: emit_length_bytes_def parse_length_bytes_def rd_simps)
  next
    case 3
    then have "usize_of (word_of_nat (length v) :: i32) = length v"
      using assms by (intro usize_of_nat) auto
    then show ?thesis using that [of 247 "write_i32 (word_of_nat (length v)) @ v"] 3 max
      by (simp add: emit_length_bytes_def parse_length_bytes_def rd_simps)
  qed
qed

text \<open>A binary value of less than 2 GiB, written with its length in one, three or five bytes, is read back
  unchanged and nothing of the following bytes is consumed.\<close>

theorem binary_roundtrip:
  assumes "length v < 2 ^ 31"
  shows "parse_binary nullable TY_BINARY (emit_length_bytes v @ rest) = Ok (HV_BINARY v, rest)"
proof -
  obtain l8 bs where "emit_length_bytes v = l8 # bs" "l8 \<noteq> 255"
    "\<And>rest. parse_length_bytes l8 (bs @ rest) = Ok (v, rest)"
    using parse_emit_length_bytes [OF assms] by blast
  then show ?thesis by (simp add: parse_binary_def rd_simps)
qed

theorem binary_roundtrip_witness:
  "parse_binary False TY_BINARY (emit_length_bytes (replicate 300 7) @ [9]) =
     Ok (HV_BINARY (replicate 300 7), [9])"
  by (rule binary_roundtrip) simp

text \<open>A string, written in CESU-8 with its length, is read back unchanged whatever the crate for CESU-8
  does within its documentation.\<close>

theorem string_roundtrip:
  assumes "cesu8_crate c8" and "valid_utf8 s" and "cesu8_length s < 2 ^ 31"
  shows "parse_string c8 nullable TY_STRING (emit_length_string c8 s @ rest) = Ok (HV_STRING s, rest)"
proof -
  have "length (to_cesu8 c8 s) < 2 ^ 31"
    using cesu8_crate.cesu8_length_eq [OF assms(1,2)] assms(3) by simp
  then obtain l8 bs where "emit_length_bytes (to_cesu8 c8 s) = l8 # bs" "l8 \<noteq> 255"
    "\<And>rest. parse_length_bytes l8 (bs @ rest) = Ok (to_cesu8 c8 s, rest)"
    using parse_emit_length_bytes by blast
  then show ?thesis
    using cesu8_crate.io_string_to_cesu8 [OF assms(1,2)]
    by (simp add: emit_length_string_def parse_string_def rd_simps)
qed

theorem string_roundtrip_witness:
  "parse_string ref_cesu8 False TY_STRING
     (emit_length_string ref_cesu8 [0x41, 0xF0, 0x9F, 0x98, 0x80] @ [9])
   = Ok (HV_STRING [0x41, 0xF0, 0x9F, 0x98, 0x80], [9])"
proof (rule string_roundtrip [OF ref.cesu8_crate_axioms])
  show "valid_utf8 [0x41, 0xF0, 0x9F, 0x98, 0x80]" by code_simp
qed (simp add: cesu8_length_def)

text \<open>A decimal too large for its FIXED12 parameter, and the values of which the announced size is right.\<close>

fun fixed12_overflow :: "num_lib \<Rightarrow> parameter_descriptor \<Rightarrow> hdb_value \<Rightarrow> bool" where
  "fixed12_overflow nl d (HV_DECIMAL bd) \<longleftrightarrow>
     pd_type_id d = TY_FIXED12 \<and> \<not> fits_signed 96 (bd_int (with_scale nl bd (sint (pd_scale d))))"
| "fixed12_overflow nl d _ \<longleftrightarrow> False"

fun wf_value :: "num_lib \<Rightarrow> parameter_descriptor \<Rightarrow> hdb_value \<Rightarrow> bool" where
  "wf_value nl d (HV_STRING s) \<longleftrightarrow> valid_utf8 s"
| "wf_value nl d (HV_STR s) \<longleftrightarrow> valid_utf8 s"
| "wf_value nl d (HV_DECIMAL bd) \<longleftrightarrow>
     (pd_type_id d = TY_FIXED12 \<longrightarrow> fits_signed 96 (bd_int (with_scale nl bd (sint (pd_scale d)))))"
| "wf_value nl d _ \<longleftrightarrow> True"

lemma length_decimal_emit:
  assumes nl: "num_crates nl" and e: "decimal_emit nl bd (pd_type_id d) (pd_scale d) = Ok bs"
    and wf: "wf_value nl d (HV_DECIMAL bd)"
  shows "value_size (pd_type_id d) (HV_DECIMAL bd) = Ok (1 + length bs)"
proof -
  have "pd_type_id d = TY_FIXED12 \<Longrightarrow>
      length (to_signed_bytes_le nl (bd_int (with_scale nl bd (sint (pd_scale d))))) \<le> 12"
    using num_crates.signed_bytes_length [OF nl, of 12] wf by (simp add: fits_signed_def)
  then show ?thesis
    using e length_into_raw [OF nl]
    by (cases "pd_type_id d") (auto simp: decimal_emit_def value_size_def res_simps pad12_def Let_def split: if_splits)
qed

lemma value_size_emit:
  assumes "cesu8_crate c8" "num_crates nl" "wf_value nl d v" "value_emit c8 nl d pos v = Ok (bs, pos')"
  shows "value_size (pd_type_id d) v = Ok (length bs)"
proof -
  have len: "length (to_cesu8 c8 s) = cesu8_length s" if "valid_utf8 s" for s
    using cesu8_crate.cesu8_length_eq [OF assms(1) that] by simp
  have e: "value_size (pd_type_id d) v = Ok (1 + length data)"
    if v: "emit_value_data c8 nl d pos v = Ok (data, pos'')" "v \<noteq> HV_NULL" for data pos''
  proof (cases "\<exists>bd. v = HV_DECIMAL bd")
    case True
    then obtain bd where bd: "v = HV_DECIMAL bd" by blast
    with v have "decimal_emit nl bd (pd_type_id d) (pd_scale d) = Ok data"
      by (simp add: emit_value_data_def res_simps)
    then show ?thesis using length_decimal_emit [OF assms(2)] assms(3) by (simp only: bd)
  next
    case False
    then show ?thesis using v assms(3) len
      by (cases v) (auto simp: emit_value_data_def value_size_def emit_bool_def
          length_emit_length_bytes emit_length_string_def emit_lob_header_def Let_def
          split: option.splits longdate.splits seconddate.splits daydate.splits secondtime.splits
          if_splits)
  qed
  show ?thesis
  proof (cases "v = HV_NULL")
    case True
    then show ?thesis using assms(4)
      by (auto simp: value_emit_def emit_type_id_def value_size_def res_simps is_null_def)
  next
    case False
    then have n: "\<not> is_null v" by (cases v) (auto simp: is_null_def)
    obtain code data where "emit_type_id v (pd_type_id d) = Ok (code, False)" "length code = 1"
      "emit_value_data c8 nl d pos v = Ok (data, pos')" "bs = code @ data"
      using assms(4) n by (auto simp: value_emit_def emit_type_id_def res_simps)
    then show ?thesis using e False by auto
  qed
qed


definition sample_descriptor :: "type_id \<Rightarrow> i16 \<Rightarrow> parameter_descriptor" where
  "sample_descriptor t scale = \<lparr>pd_option = 2, pd_type_id = t, pd_nullable = True, pd_scale = scale,
     pd_precision = 10, pd_direction = IN, pd_name = None\<rparr>"

text \<open>Fixed-point decimals.\<close>

lemma signed_le_bounds:
  "bs \<noteq> [] \<Longrightarrow> - (2 ^ (8 * length bs - 1)) \<le> signed_le bs \<and> signed_le bs < 2 ^ (8 * length bs - 1)"
proof (induction bs)
  case (Cons b bs)
  show ?case
  proof (cases "bs = []")
    case True
    define n where "n = unat b"
    have "n < 256" using unat_byte_less [of b] by (simp add: n_def)
    moreover have "signed_le (b # bs) = int n - (if 128 \<le> n then 256 else 0)"
      using True by (simp add: signed_le_def n_def)
    ultimately show ?thesis using True by auto
  next
    case False
    have "8 * length (b # bs) - 1 = 8 + (8 * length bs - 1)" using False by (cases bs) auto
    then have p: "(2::int) ^ (8 * length (b # bs) - 1) = 256 * 2 ^ (8 * length bs - 1)"
      by (simp only: power_add) simp
    have "0 \<le> uint b" "uint b < 256" using uint_bounded [of b] by auto
    moreover have "- (2 ^ (8 * length bs - 1)) \<le> signed_le bs" "signed_le bs < 2 ^ (8 * length bs - 1)"
      using Cons.IH False by auto
    ultimately show ?thesis unfolding p signed_le_Cons [OF False] by linarith
  qed
qed simp

lemma signed_le_fits: "bs \<noteq> [] \<Longrightarrow> length bs \<le> n \<Longrightarrow> fits_signed (8 * n) (signed_le bs)"
proof -
  assume bs: "bs \<noteq> []" "length bs \<le> n"
  have "(2::int) ^ (8 * length bs - 1) \<le> 2 ^ (8 * n - 1)" using bs by (intro power_increasing) auto
  then show ?thesis using signed_le_bounds [OF bs(1)] unfolding fits_signed_def by linarith
qed

lemma replicate_255: "unat (f :: u8) = 255 \<Longrightarrow> int (le_nat (replicate k f)) = 256 ^ k - 1"
  by (induction k) (auto simp: algebra_simps)

lemma signed_le_extend:
  assumes "bs \<noteq> []" and f: "(last bs) AND 128 = 0 \<Longrightarrow> f = 0" "(last bs) AND 128 \<noteq> 0 \<Longrightarrow> unat f = 255"
  shows "signed_le (bs @ replicate k f) = signed_le bs"
proof (cases "unat (last bs) < 128")
  case True
  then have "f = 0" using sign_bit_u8 f by blast
  then show ?thesis using True assms
    by (cases k) (auto simp: signed_le_def le_nat_append)
next
  case False
  then have "unat f = 255" using and_128_nonzero f by simp
  then show ?thesis using False assms(1)
    by (cases "k = 0") (auto simp: signed_le_def le_nat_append replicate_255 power_add algebra_simps
        last_replicate)
qed

lemma pad12_last: "bs \<noteq> [] \<Longrightarrow> length bs \<le> 12 \<Longrightarrow> signed_le (pad12 bs) = signed_le bs \<and> length (pad12 bs) = 12"
  using signed_le_extend [of bs "if (last bs) AND 128 = 0 then 0 else 255" "12 - length bs"] unat_255
  by (simp add: pad12_def Let_def last_conv_nth split: if_splits)

text \<open>C38: A decimal sent in one of the fixed-point formats is parsed back as the decimal with the scale of the
  column.\<close>

theorem fixed_decimal_roundtrip:
  assumes nl: "num_crates nl" and t: "t \<in> {TY_FIXED8, TY_FIXED12, TY_FIXED16}"
    and e: "decimal_emit nl bd t scale = Ok bs"
    and fits: "t = TY_FIXED12 \<longrightarrow> fits_signed 96 (bd_int (with_scale nl bd (sint scale)))"
  shows "decimal_parse nl nullable t scale (1 # bs @ rest) = Ok (HV_DECIMAL (with_scale nl bd (sint scale)), rest)"
proof -
  define i where "i = bd_int (with_scale nl bd (sint scale))"
  have bd: "with_scale nl bd (sint scale) = \<lparr>bd_int = i, bd_scale = sint scale\<rparr>"
    using num_crates.scale_with_scale [OF nl] by (simp add: i_def)
  have null: "parse_null nullable (1 # xs) = Ok (False, xs)" for xs
    by (simp add: parse_null_def rd_simps)
  consider "t = TY_FIXED8" | "t = TY_FIXED12" | "t = TY_FIXED16" using t by blast
  then show ?thesis
  proof cases
    case 1
    then have f: "fits_signed 64 i" "bs = write_i64 (word_of_int i)"
      using e by (auto simp: decimal_emit_def i_def Let_def split: if_splits)
    then have "sint (word_of_int i :: i64) = i" by (intro sint_of_int_fits) simp
    then show ?thesis using f 1 by (simp add: decimal_parse_def rd_simps null bd)
  next
    case 2
    define ms where "ms = to_signed_bytes_le nl i"
    have bs: "bs = pad12 ms" using e 2 by (simp add: decimal_emit_def ms_def i_def)
    have "length ms \<le> 12" "ms \<noteq> []" "signed_le ms = i"
      using num_crates.signed_bytes_length [OF nl, of 12 i] num_crates.signed_bytes_nonempty [OF nl]
        num_crates.signed_bytes_value [OF nl] fits 2 by (simp_all add: ms_def fits_signed_def i_def)
    then have "length bs = 12" "signed_le bs = i" using pad12_last bs by auto
    then show ?thesis using 2 num_crates.from_signed [OF nl]
      by (simp add: decimal_parse_def rd_simps null bd isize_max_def)
  next
    case 3
    then have f: "fits_signed 128 i" "bs = write_i128 (word_of_int i)"
      using e by (auto simp: decimal_emit_def i_def Let_def split: if_splits)
    then have "sint (word_of_int i :: i128) = i" by (intro sint_of_int_fits) simp
    then show ?thesis using f 3 by (simp add: decimal_parse_def rd_simps null bd)
  qed
qed

theorem fixed_decimal_roundtrip_witness:
  "decimal_parse ref_num True TY_FIXED8 2 (1 # [12, 254, 255, 255, 255, 255, 255, 255] @ [9])
   = Ok (HV_DECIMAL (with_scale ref_num \<lparr>bd_int = -5, bd_scale = 0\<rparr> (sint (2 :: i16))), [9])"
proof (rule fixed_decimal_roundtrip [OF ref_num.num_crates_axioms])
  show "decimal_emit ref_num \<lparr>bd_int = -5, bd_scale = 0\<rparr> TY_FIXED8 2
      = Ok [12, 254, 255, 255, 255, 255, 255, 255]"
    by code_simp
qed simp_all

text \<open>FIXED8 and FIXED16 reject a number that does not fit, FIXED12 emits it with more than its 12 bytes.\<close>

theorem fixed12_overflow_emitted:
  assumes nl: "num_crates nl" and "\<not> fits_signed 96 (bd_int (with_scale nl bd (sint scale)))"
  shows "\<exists>bs. decimal_emit nl bd TY_FIXED12 scale = Ok bs \<and> 12 < length bs"
proof -
  define i where "i = bd_int (with_scale nl bd (sint scale))"
  have "\<not> length (to_signed_bytes_le nl i) \<le> 12"
    using signed_le_fits [of "to_signed_bytes_le nl i" 12] num_crates.signed_bytes_nonempty [OF nl]
      num_crates.signed_bytes_value [OF nl] assms(2) by (auto simp: i_def)
  then show ?thesis by (auto simp: decimal_emit_def pad12_def i_def Let_def)
qed

theorem fixed12_overflow_emitted_witness:
  "\<exists>bs. decimal_emit ref_num \<lparr>bd_int = 10 ^ 30, bd_scale = 0\<rparr> TY_FIXED12 0 = Ok bs \<and> 12 < length bs"
  by (rule fixed12_overflow_emitted [OF ref_num.num_crates_axioms])
    (simp add: ref_num_def ref_with_scale_def fits_signed_def)

text \<open>C36: The size a value reports for the part header is the number of bytes its emission produces, for
  every kind of value (text being well-formed UTF-8, as every string of Rust is) and every branch of
  the type dispatch, with one exception that the code has: a decimal for a FIXED12 parameter whose
  unscaled value does not fit into 96 bits is announced with 13 bytes, but emitted with more.\<close>

theorem value_emit_size:
  assumes "cesu8_crate c8" "num_crates nl" "value_emit c8 nl d pos v = Ok (bs, pos')"
    and "\<forall>s. v = HV_STRING s \<or> v = HV_STR s \<longrightarrow> valid_utf8 s"
  shows "if fixed12_overflow nl d v
         then value_size (pd_type_id d) v = Ok 13 \<and> 13 < length bs
         else value_size (pd_type_id d) v = Ok (length bs)"
proof (cases "fixed12_overflow nl d v")
  case True
  then obtain bd where v: "v = HV_DECIMAL bd" "pd_type_id d = TY_FIXED12"
    "\<not> fits_signed 96 (bd_int (with_scale nl bd (sint (pd_scale d))))" by (cases v) auto
  obtain data where data: "decimal_emit nl bd TY_FIXED12 (pd_scale d) = Ok data" "12 < length data"
    using fixed12_overflow_emitted [OF assms(2) v(3)] by blast
  have "length bs = 1 + length data" using assms(3) v data(1)
    by (auto simp: value_emit_def emit_type_id_def emit_value_data_def is_null_def res_simps)
  then show ?thesis using True data(2) v by (simp add: value_size_def)
next
  case False
  then have "wf_value nl d v" using assms(4) by (cases v) auto
  then show ?thesis using value_size_emit [OF assms(1,2) _ assms(3)] False by simp
qed

theorem value_emit_size_witness:
  "value_emit ref_cesu8 ref_num (sample_descriptor TY_FIXED12 2) 0
     (HV_DECIMAL \<lparr>bd_int = -5, bd_scale = 0\<rparr>) = Ok ([82, 12, 254] @ replicate 10 255, 0)
   \<and> value_size TY_FIXED12 (HV_DECIMAL \<lparr>bd_int = -5, bd_scale = 0\<rparr>) = Ok 13"
proof -
  have e: "value_emit ref_cesu8 ref_num (sample_descriptor TY_FIXED12 2) 0
     (HV_DECIMAL \<lparr>bd_int = -5, bd_scale = 0\<rparr>) = Ok ([82, 12, 254] @ replicate 10 255, 0)"
    by code_simp
  have "\<not> fixed12_overflow ref_num (sample_descriptor TY_FIXED12 2) (HV_DECIMAL \<lparr>bd_int = -5, bd_scale = 0\<rparr>)"
    by code_simp
  with e show ?thesis
    using value_emit_size [OF ref.cesu8_crate_axioms ref_num.num_crates_axioms e]
    by (simp add: sample_descriptor_def)
qed

end
