(* ===== verification/Hdb_Rows.thy ===== *)
theory Hdb_Rows
  imports Hdb_Values
begin

text \<open>
  Rows: input parameters (protocol/parts/parameter\_rows.rs), output parameters
  (output\_parameters.rs), the metadata of a result set (resultset\_metadata.rs) and its rows
  (row.rs).
\<close>

section \<open>Input parameters\<close>

type_synonym parameter_row = "hdb_value list"

text \<open>The loop of \<^verbatim>\<open>ParameterRow::new\<close> over the values and the IN descriptors.\<close>

fun check_parameters :: "hdb_value list \<Rightarrow> parameter_descriptor list \<Rightarrow> (unit, hdb_error) res" where
  "check_parameters [] ds = Ok ()"
| "check_parameters (v # vs) [] = Err (Impl ''ParameterRow::new(): Not enough metadata'')"
| "check_parameters (v # vs) (d # ds) =
     res_bind
       (if is_null v then Ok ()
        else res_bind (type_id_for_emit v (pd_type_id d)) (\<lambda>t.
             tcp (matches_value_type (pd_type_id d) t))) (\<lambda>_.
     check_parameters vs ds)"

definition parameter_row_new ::
    "hdb_value list \<Rightarrow> parameter_descriptor list \<Rightarrow> (parameter_row, hdb_error) res" where
  "parameter_row_new hdb_parameters descriptors =
     res_bind (check_parameters hdb_parameters (iter_in descriptors)) (\<lambda>_. Ok hdb_parameters)"

fun row_size_loop :: "hdb_value list \<Rightarrow> parameter_descriptor list \<Rightarrow> (nat, ioerr) res" where
  "row_size_loop [] ds = Ok 0"
| "row_size_loop (v # vs) [] = Err (io_error ''ParameterRow::size(): Not enough metadata'')"
| "row_size_loop (v # vs) (d # ds) =
     res_bind (value_size (pd_type_id d) v) (\<lambda>n.
     res_bind (row_size_loop vs ds) (\<lambda>m. Ok (n + m)))"

definition parameter_row_size :: "parameter_descriptor list \<Rightarrow> parameter_row \<Rightarrow> (nat, ioerr) res" where
  "parameter_row_size descriptors row = row_size_loop row (iter_in descriptors)"

fun row_emit_loop ::
    "cesu8_lib \<Rightarrow> num_lib \<Rightarrow> i32 \<Rightarrow> hdb_value list \<Rightarrow> parameter_descriptor list \<Rightarrow> wr" where
  "row_emit_loop c8 nl data_pos [] ds = Ok []"
| "row_emit_loop c8 nl data_pos (v # vs) [] =
     Err (io_error ''ParameterRow::emit(): Not enough metadata'')"
| "row_emit_loop c8 nl data_pos (v # vs) (d # ds) =
     res_bind (value_emit c8 nl d data_pos v) (\<lambda>(bs, data_pos').
     res_bind (row_emit_loop c8 nl data_pos' vs ds) (\<lambda>cs. Ok (bs @ cs)))"

definition parameter_row_emit ::
    "cesu8_lib \<Rightarrow> num_lib \<Rightarrow> parameter_descriptor list \<Rightarrow> parameter_row \<Rightarrow> wr" where
  "parameter_row_emit c8 nl descriptors row = row_emit_loop c8 nl 0 row (iter_in descriptors)"

definition push_hdb_values ::
    "hdb_value list \<Rightarrow> parameter_descriptor list \<Rightarrow> parameter_row list \<Rightarrow> (parameter_row list, hdb_error) res" where
  "push_hdb_values hdb_parameters descriptors rows =
     res_bind (parameter_row_new hdb_parameters descriptors) (\<lambda>row. Ok (rows @ [row]))"

definition parameter_rows_emit ::
    "cesu8_lib \<Rightarrow> num_lib \<Rightarrow> parameter_descriptor list \<Rightarrow> parameter_row list \<Rightarrow> wr" where
  "parameter_rows_emit c8 nl descriptors rows = emit_list (parameter_row_emit c8 nl descriptors) rows"

fun parameter_rows_size :: "parameter_descriptor list \<Rightarrow> parameter_row list \<Rightarrow> (nat, ioerr) res" where
  "parameter_rows_size descriptors [] = Ok 0"
| "parameter_rows_size descriptors (row # rows) =
     res_bind (parameter_row_size descriptors row) (\<lambda>n.
     res_bind (parameter_rows_size descriptors rows) (\<lambda>m. Ok (n + m)))"

definition parameter_rows_count :: "parameter_row list \<Rightarrow> nat" where
  "parameter_rows_count rows = length rows"

text \<open>A row of values for which the size of each value is exact.\<close>

fun wf_row :: "num_lib \<Rightarrow> hdb_value list \<Rightarrow> parameter_descriptor list \<Rightarrow> bool" where
  "wf_row nl (v # vs) (d # ds) \<longleftrightarrow> wf_value nl d v \<and> wf_row nl vs ds"
| "wf_row nl _ _ \<longleftrightarrow> True"

lemma row_emit_size:
  assumes "cesu8_crate c8" "num_crates nl"
  shows "row_emit_loop c8 nl pos vs ds = Ok bs \<Longrightarrow> wf_row nl vs ds \<Longrightarrow> row_size_loop vs ds = Ok (length bs)"
proof (induction vs ds arbitrary: pos bs rule: row_size_loop.induct)
  case (3 v vs d ds)
  then obtain b pos' cs where e: "value_emit c8 nl d pos v = Ok (b, pos')"
    "row_emit_loop c8 nl pos' vs ds = Ok cs" "bs = b @ cs"
    by (auto simp: res_simps)
  have "value_size (pd_type_id d) v = Ok (length b)"
    using value_size_emit [OF assms _ e(1)] 3(3) by simp
  then show ?case using 3 e by simp
qed auto

lemma rows_emit_size:
  assumes "cesu8_crate c8" "num_crates nl"
  shows "parameter_rows_emit c8 nl ds rows = Ok bs \<Longrightarrow> \<forall>row \<in> set rows. wf_row nl row (iter_in ds)
    \<Longrightarrow> parameter_rows_size ds rows = Ok (length bs)"
proof (induction rows arbitrary: bs)
  case (Cons row rows)
  then obtain b cs where "parameter_row_emit c8 nl ds row = Ok b"
    "parameter_rows_emit c8 nl ds rows = Ok cs" "bs = b @ cs"
    by (auto simp: parameter_rows_emit_def res_simps)
  with Cons row_emit_size [OF assms] show ?case
    by (simp add: parameter_row_emit_def parameter_row_size_def)
qed (simp add: parameter_rows_emit_def)

section \<open>Output parameters\<close>

record output_parameters =
  op_descriptors :: "parameter_descriptor list"
  op_values :: "hdb_value list"

fun parse_output_values ::
    "cesu8_lib \<Rightarrow> num_lib \<Rightarrow> parameter_descriptor list \<Rightarrow> hdb_value list rd" where
  "parse_output_values c8 nl [] = rd_return []"
| "parse_output_values c8 nl (d # ds) =
     rd_bind (parse_from_reply c8 nl (pd_type_id d) (pd_scale d) (pd_nullable d) None) (\<lambda>v.
     rd_bind (parse_output_values c8 nl ds) (\<lambda>vs. rd_return (v # vs)))"

text \<open>\<open>has_conn_core\<close> says whether the connection is passed in (\<^verbatim>\<open>o_am_conn_core\<close>).\<close>

definition output_parameters_parse ::
    "cesu8_lib \<Rightarrow> num_lib \<Rightarrow> bool \<Rightarrow> parameter_descriptor list \<Rightarrow> output_parameters rd" where
  "output_parameters_parse c8 nl has_conn_core descriptors =
     (if \<not> has_conn_core then rd_fail (io_error ''Cannot parse output parameters without am_conn_core'')
      else rd_bind (parse_output_values c8 nl (iter_out descriptors)) (\<lambda>vs.
        rd_return \<lparr>op_descriptors = iter_out descriptors, op_values = vs\<rparr>))"

lemma output_values_length:
  "parse_output_values c8 nl ds bs = Ok (vs, rest) \<Longrightarrow> length vs = length ds"
  by (induction ds arbitrary: bs vs rest) (auto simp: rd_simps res_simps)

section \<open>Metadata of a result set\<close>

record field_metadata =
  fm_schemaname_idx :: u32
  fm_tablename_idx :: u32
  fm_columnname_idx :: u32
  fm_displayname_idx :: u32
  fm_column_options :: u8
  fm_type_id :: type_id
  fm_scale :: i16
  fm_precision :: i16

definition fm_is_nullable :: "field_metadata \<Rightarrow> bool" where
  "fm_is_nullable f \<longleftrightarrow> fm_column_options f AND 0b00000010 \<noteq> 0"

definition fm_has_default :: "field_metadata \<Rightarrow> bool" where
  "fm_has_default f \<longleftrightarrow> fm_column_options f AND 0b00000100 \<noteq> 0"

definition fm_read_only :: "field_metadata \<Rightarrow> bool" where
  "fm_read_only f \<longleftrightarrow> fm_column_options f AND 0b00010000 \<noteq> 0"

definition fm_is_auto_incremented :: "field_metadata \<Rightarrow> bool" where
  "fm_is_auto_incremented f \<longleftrightarrow> fm_column_options f AND 0b00100000 \<noteq> 0"

definition fm_is_array_type :: "field_metadata \<Rightarrow> bool" where
  "fm_is_array_type f \<longleftrightarrow> fm_column_options f AND 0b01000000 \<noteq> 0"

text \<open>\<^verbatim>\<open>VecMap<String>\<close> from offsets to names: an association list with distinct keys.\<close>

record resultset_metadata =
  rsmd_fields :: "field_metadata list"
  rsmd_names :: "(nat \<times> rstring) list"

definition number_of_fields :: "resultset_metadata \<Rightarrow> nat" where
  "number_of_fields m = length (rsmd_fields m)"

definition add_to_names :: "u32 \<Rightarrow> (nat \<times> rstring) list \<Rightarrow> (nat \<times> rstring) list" where
  "add_to_names offset names =
     (if offset \<noteq> 0xFFFFFFFF \<and> map_of names (unat offset) = None
      then AList.update (unat offset) [] names else names)"

definition field_metadata_at :: "resultset_metadata \<Rightarrow> nat \<Rightarrow> (field_metadata, hdb_error) res" where
  "field_metadata_at m i =
     (if i < length (rsmd_fields m) then Ok (rsmd_fields m ! i) else Err (Usage ''invalid field index''))"

definition typeid_nullable_scale ::
    "resultset_metadata \<Rightarrow> nat \<Rightarrow> (type_id \<times> bool \<times> i16, hdb_error) res" where
  "typeid_nullable_scale m i =
     res_map (\<lambda>f. (fm_type_id f, fm_is_nullable f, fm_scale f)) (field_metadata_at m i)"

definition name_at :: "resultset_metadata \<Rightarrow> (field_metadata \<Rightarrow> u32) \<Rightarrow> nat \<Rightarrow> (rstring, hdb_error) res" where
  "name_at m idx i =
     res_bind (field_metadata_at m i) (\<lambda>f.
     ok_or (map_of (rsmd_names m) (unat (idx f))) (Usage ''invalid field index''))"

definition schemaname :: "resultset_metadata \<Rightarrow> nat \<Rightarrow> (rstring, hdb_error) res" where
  "schemaname m i = name_at m fm_schemaname_idx i"

definition tablename :: "resultset_metadata \<Rightarrow> nat \<Rightarrow> (rstring, hdb_error) res" where
  "tablename m i = name_at m fm_tablename_idx i"

definition columnname :: "resultset_metadata \<Rightarrow> nat \<Rightarrow> (rstring, hdb_error) res" where
  "columnname m i = name_at m fm_columnname_idx i"

definition displayname :: "resultset_metadata \<Rightarrow> nat \<Rightarrow> (rstring, hdb_error) res" where
  "displayname m i = name_at m fm_displayname_idx i"

definition parse_field :: "field_metadata rd" where
  "parse_field =
     rd_bind read_u8 (\<lambda>column_options.
     rd_bind read_u8 (\<lambda>tc.
     rd_bind read_i16 (\<lambda>scale.
     rd_bind read_i16 (\<lambda>precision.
     rd_bind read_i16 (\<lambda>_.
     rd_bind read_u32 (\<lambda>tablename_idx.
     rd_bind read_u32 (\<lambda>schemaname_idx.
     rd_bind read_u32 (\<lambda>columnname_idx.
     rd_bind read_u32 (\<lambda>displayname_idx.
     rd_bind (rd_lift (type_id_try_new tc)) (\<lambda>type_id.
     rd_return \<lparr>fm_schemaname_idx = schemaname_idx, fm_tablename_idx = tablename_idx,
       fm_columnname_idx = columnname_idx, fm_displayname_idx = displayname_idx,
       fm_column_options = column_options, fm_type_id = type_id, fm_scale = scale,
       fm_precision = precision\<rparr>))))))))))"

text \<open>The offsets of all fields, each registered once, in the order table, schema, column, display.\<close>

definition field_names :: "(nat \<times> rstring) list \<Rightarrow> field_metadata \<Rightarrow> (nat \<times> rstring) list" where
  "field_names names f =
     add_to_names (fm_displayname_idx f) (add_to_names (fm_columnname_idx f)
       (add_to_names (fm_schemaname_idx f) (add_to_names (fm_tablename_idx f) names)))"

text \<open>\<^verbatim>\<open>offset += u32::from(nl) + 1\<close>; the offsets start at 0. \<open>n\<close> names are left.\<close>

fun parse_names ::
    "cesu8_lib \<Rightarrow> nat \<Rightarrow> u32 \<Rightarrow> (nat \<times> rstring) list \<Rightarrow> (nat \<times> rstring) list rd" where
  "parse_names c8 0 offset names = rd_return names"
| "parse_names c8 (Suc n) offset names =
     rd_bind read_u8 (\<lambda>nl.
     rd_bind (parse_bytes (unat nl)) (\<lambda>bs.
     rd_bind (rd_lift (io_string c8 bs)) (\<lambda>name.
       if unat offset + unat nl + 1 < 2 ^ 32 then
         parse_names c8 n (offset + ucast nl + 1) (AList.update (unat offset) name names)
       else rd_panic)))"

definition resultset_metadata_parse :: "cesu8_lib \<Rightarrow> nat \<Rightarrow> resultset_metadata rd" where
  "resultset_metadata_parse c8 count =
     rd_bind (rd_repeat count parse_field) (\<lambda>fields.
     let names = foldl field_names [] fields
     in rd_bind (parse_names c8 (length names) 0 names) (\<lambda>names'.
        rd_return \<lparr>rsmd_fields = fields, rsmd_names = names'\<rparr>))"

section \<open>Rows\<close>

text \<open>A row: the reference to the metadata and the values not yet taken.\<close>

record row =
  row_metadata :: resultset_metadata
  row_value_iter :: "hdb_value list"

definition row_new :: "resultset_metadata \<Rightarrow> hdb_value list \<Rightarrow> row" where
  "row_new metadata vs = \<lparr>row_metadata = metadata, row_value_iter = vs\<rparr>"

definition next_value :: "row \<Rightarrow> hdb_value option \<times> row" where
  "next_value r =
     (case row_value_iter r of
        [] \<Rightarrow> (None, r)
      | v # vs \<Rightarrow> (Some v, r\<lparr>row_value_iter := vs\<rparr>))"

definition row_len :: "row \<Rightarrow> nat" where
  "row_len r = length (row_value_iter r)"

definition into_single_value :: "row \<Rightarrow> (hdb_value, hdb_error) res" where
  "into_single_value r =
     (if row_len r > 1 then Err (Usage ''Row has more than one field'')
      else ok_or (fst (next_value r)) (Usage ''Row is empty''))"

definition row_index :: "row \<Rightarrow> nat \<Rightarrow> (hdb_value, 'e) res" where
  "row_index r i = index (row_value_iter r) i"

text \<open>The columns from \<open>col_idx\<close> on; \<open>n\<close> are left.\<close>

fun parse_columns ::
    "cesu8_lib \<Rightarrow> num_lib \<Rightarrow> u64 option \<Rightarrow> resultset_metadata \<Rightarrow> nat \<Rightarrow> nat \<Rightarrow> hdb_value list rd" where
  "parse_columns c8 nl o_am_rscore md col_idx 0 = rd_return []"
| "parse_columns c8 nl o_am_rscore md col_idx (Suc n) =
     rd_bind (rd_lift (io_of_hdb (typeid_nullable_scale md col_idx))) (\<lambda>(type_id, nullable, scale).
     rd_bind (parse_from_reply c8 nl type_id scale nullable o_am_rscore) (\<lambda>v.
     rd_bind (parse_columns c8 nl o_am_rscore md (col_idx + 1) n) (\<lambda>vs. rd_return (v # vs))))"

definition row_parse ::
    "cesu8_lib \<Rightarrow> num_lib \<Rightarrow> resultset_metadata \<Rightarrow> u64 option \<Rightarrow> row rd" where
  "row_parse c8 nl md o_am_rscore =
     rd_bind (parse_columns c8 nl o_am_rscore md 0 (number_of_fields md)) (\<lambda>vs.
     rd_return (row_new md vs))"

lemma row_parse_len:
  assumes "row_parse c8 nl md rs bs = Ok (r, rest)"
  shows "row_len r = number_of_fields md \<and> row_metadata r = md"
proof -
  have "parse_columns c8 nl rs md i n bs = Ok (vs, rest') \<Longrightarrow> length vs = n" for i n bs vs rest'
    by (induction n arbitrary: i bs vs rest') (auto simp: rd_simps res_simps)
  then show ?thesis
    using assms by (auto simp: row_parse_def rd_simps res_simps row_new_def row_len_def)
qed

end
