(* ===== verification/Hdb_Small_Parts.thy ===== *)
theory Hdb_Small_Parts
  imports Hdb_Rows
begin

text \<open>
  The parts that are not option parts (protocol/parts/): the fields of the authentication part
  (authfields.rs), server errors (\<^verbatim>\<open>ServerError::parse\<close> in server\_error.rs), the requests and replies
  of LOB transfers, partition\_information.rs, client\_info.rs; and the attribute bits of a part
  (protocol/part\_attributes.rs).
\<close>

section \<open>Part attributes\<close>

type_synonym part_attributes = u8

definition is_last_packet :: "part_attributes \<Rightarrow> bool" where
  "is_last_packet a \<longleftrightarrow> a AND 0b00000001 \<noteq> 0"

definition has_next_packet :: "part_attributes \<Rightarrow> bool" where
  "has_next_packet a \<longleftrightarrow> a AND 0b00000010 \<noteq> 0"

definition is_first_packet :: "part_attributes \<Rightarrow> bool" where
  "is_first_packet a \<longleftrightarrow> a AND 0b00000100 \<noteq> 0"

definition row_not_found :: "part_attributes \<Rightarrow> bool" where
  "row_not_found a \<longleftrightarrow> a AND 0b00001000 \<noteq> 0"

definition resultset_is_closed :: "part_attributes \<Rightarrow> bool" where
  "resultset_is_closed a \<longleftrightarrow> a AND 0b00010000 \<noteq> 0"

section \<open>Authentication fields\<close>

type_synonym auth_field = bytes

definition auth_field_emit :: "auth_field \<Rightarrow> wr" where
  "auth_field_emit v =
     (let l = length v
      in if l \<le> 250 then Ok ([word_of_nat l] @ v)
         else if l \<le> 65535 then Ok ([255] @ write_u16 (word_of_nat l) @ v)
         else Err (io_error ''Value of AuthField is too big: {}''))"

definition auth_field_size :: "auth_field \<Rightarrow> nat" where
  "auth_field_size v = 1 + length v"

definition auth_field_parse :: "auth_field rd" where
  "auth_field_parse =
     rd_bind read_u8 (\<lambda>len.
       if len = 255 then rd_bind read_u16 (\<lambda>l. parse_bytes (unat l))
       else if len \<ge> 251 then rd_fail (io_error ''Unknown length indicator for AuthField: {}'')
       else parse_bytes (unat len))"

definition auth_fields_emit :: "auth_field list \<Rightarrow> wr" where
  "auth_fields_emit fs =
     res_bind (emit_list auth_field_emit fs) (\<lambda>bs. Ok (write_i16 (word_of_nat (length fs)) @ bs))"

definition auth_fields_size :: "auth_field list \<Rightarrow> nat" where
  "auth_fields_size fs = 2 + sum_list (map auth_field_size fs)"

definition auth_fields_parse :: "auth_field list rd" where
  "auth_fields_parse = rd_bind read_u16 (\<lambda>field_count. rd_repeat (unat field_count) auth_field_parse)"

definition auth_fields_pop :: "auth_field list \<Rightarrow> auth_field option \<times> auth_field list" where
  "auth_fields_pop fs = (if fs = [] then (None, []) else (Some (last fs), butlast fs))"

interpretation auth_field: wire_codec auth_field_emit auth_field_parse "\<lambda>v. length v \<le> 65535"
proof
  fix v bs rest :: bytes
  assume l: "length v \<le> 65535"
  show "\<exists>bs. auth_field_emit v = Ok bs"
    using l by (simp add: auth_field_emit_def Let_def)
  assume e: "auth_field_emit v = Ok bs"
  have max: "length v \<le> isize_max" using l by (simp add: isize_max_def)
  show "auth_field_parse (bs @ rest) = Ok (v, rest)"
  proof (cases "length v \<le> 250")
    case True
    have u: "unat (word_of_nat (length v) :: u8) = length v" using True by (simp add: unat_of_nat)
    then have "\<not> 251 \<le> (word_of_nat (length v) :: u8)" using True by (simp add: word_le_nat_alt)
    then have "word_of_nat (length v) \<noteq> (255 :: u8)" by auto
    then show ?thesis using True e u \<open>\<not> 251 \<le> _\<close> max
      by (auto simp: auth_field_emit_def auth_field_parse_def rd_simps)
  next
    case False
    have "unat (word_of_nat (length v) :: u16) = length v" using l by (simp add: unat_of_nat)
    then show ?thesis using False e l max
      by (auto simp: auth_field_emit_def auth_field_parse_def rd_simps)
  qed
qed

interpretation auth_field_short: sized_codec auth_field_emit auth_field_parse
    "\<lambda>v. length v \<le> 250" auth_field_size
proof
  fix v bs rest :: bytes
  assume l: "length v \<le> 250"
  then have l': "length v \<le> 65535" by simp
  show "\<exists>bs. auth_field_emit v = Ok bs" using auth_field.emit_total [OF l'] .
  assume e: "auth_field_emit v = Ok bs"
  show "auth_field_parse (bs @ rest) = Ok (v, rest)" using auth_field.parse_emit [OF l' e] .
  show "length bs = auth_field_size v"
    using l e by (auto simp: auth_field_emit_def auth_field_size_def)
qed

section \<open>Server errors\<close>

text \<open>\<^verbatim>\<open>8 - (BASE_SIZE + text_length) % 8\<close> bytes of padding, from 1 to 8; the sum can overflow.\<close>

definition parse_server_error :: "cesu8_lib \<Rightarrow> server_error rd" where
  "parse_server_error c8 =
     rd_bind read_i32 (\<lambda>code.
     rd_bind read_i32 (\<lambda>position.
     rd_bind read_i32 (\<lambda>text_length.
     rd_bind read_u8 (\<lambda>sev.
     rd_bind (parse_bytes 5) (\<lambda>sqlstate.
     rd_bind (parse_bytes (usize_of text_length)) (\<lambda>bs.
     rd_bind (rd_lift (io_string c8 bs)) (\<lambda>text.
       if 18 + sint text_length \<ge> 2 ^ 31 then rd_panic
       else
         rd_bind (skip_bytes (8 - (18 + unat text_length) mod 8)) (\<lambda>_.
         rd_return \<lparr>se_code = code, se_position = position,
           se_severity = severity_from_i8 sev, se_sqlstate = sqlstate, se_text = text\<rparr>))))))))"

definition parse_server_errors :: "cesu8_lib \<Rightarrow> nat \<Rightarrow> server_error list rd" where
  "parse_server_errors c8 no_of_args = rd_repeat no_of_args (parse_server_error c8)"

section \<open>LOB requests and replies\<close>

record read_lob_request =
  rl_locator_id :: u64
  rl_offset :: u64
  rl_length :: u32

definition read_lob_request_emit :: "read_lob_request \<Rightarrow> bytes" where
  "read_lob_request_emit r =
     write_u64 (rl_locator_id r) @ write_u64 (rl_offset r) @ write_u32 (rl_length r) @ write_u32 0"

definition read_lob_request_size :: nat where
  "read_lob_request_size = 24"

record read_lob_reply =
  rr_locator_id :: u64
  rr_is_last_data :: bool
  rr_data :: bytes

definition read_lob_reply_parse :: "read_lob_reply rd" where
  "read_lob_reply_parse =
     rd_bind read_u64 (\<lambda>locator_id.
     rd_bind read_u8 (\<lambda>options.
     rd_bind read_i32 (\<lambda>chunk_length.
     rd_bind (skip_bytes 3) (\<lambda>_.
     rd_bind (parse_bytes (usize_of chunk_length)) (\<lambda>data.
     rd_return \<lparr>rr_locator_id = locator_id, rr_is_last_data = (options AND 0b100 \<noteq> 0),
       rr_data = data\<rparr>)))))"

record write_lob_request =
  wl_locator_id :: u64
  wl_offset :: i64
  wl_buf :: bytes
  wl_last_data :: bool

definition write_lob_request_emit :: "write_lob_request \<Rightarrow> bytes" where
  "write_lob_request_emit r =
     write_u64 (wl_locator_id r) @ [if wl_last_data r then 6 else 2] @ write_i64 (wl_offset r)
       @ write_u32 (word_of_nat (length (wl_buf r))) @ wl_buf r"

definition write_lob_request_size :: "write_lob_request \<Rightarrow> nat" where
  "write_lob_request_size r = 21 + length (wl_buf r)"

type_synonym write_lob_reply = "u64 list"

definition write_lob_reply_parse :: "nat \<Rightarrow> write_lob_reply rd" where
  "write_lob_reply_parse count = rd_repeat count read_u64"

lemma read_lob_request_length [simp]: "length (read_lob_request_emit r) = read_lob_request_size"
  by (simp add: read_lob_request_emit_def read_lob_request_size_def)

lemma write_lob_request_length [simp]: "length (write_lob_request_emit r) = write_lob_request_size r"
  by (simp add: write_lob_request_emit_def write_lob_request_size_def)

section \<open>Partition information\<close>

datatype partition_method = PM_Invalid | PM_RoundRobin | PM_Hash
datatype parameter_function = PF_Invalid | PF_Year | PF_Month

definition partition_method_from_i8 :: "i8 \<Rightarrow> (partition_method, ioerr) res" where
  "partition_method_from_i8 v =
     (if v = 0 then Ok PM_Invalid
      else if v = 1 then Ok PM_RoundRobin
      else if v = 2 then Ok PM_Hash
      else Err (io_error ''PartitionMethod {} not implemented''))"

definition parameter_function_from_i8 :: "i8 \<Rightarrow> (parameter_function, ioerr) res" where
  "parameter_function_from_i8 v =
     (if v = 0 then Ok PF_Invalid
      else if v = 1 then Ok PF_Year
      else if v = 2 then Ok PF_Month
      else Err (io_error ''ParameterFunction {} not implemented''))"

record partition_parameter =
  pp_parameter_index :: i32
  pp_parameter_function :: parameter_function
  pp_attribute_type :: i8

record partition_information =
  pi_method :: partition_method
  pi_parameters :: "partition_parameter list"
  pi_partitions :: "(i32 \<times> i32) list"

definition parse_partition_parameter :: "partition_parameter rd" where
  "parse_partition_parameter =
     rd_bind read_i32 (\<lambda>index.
     rd_bind (rd_bind read_u8 (\<lambda>b. rd_lift (parameter_function_from_i8 b))) (\<lambda>function.
     rd_bind read_u8 (\<lambda>attribute_type.
     rd_bind (skip_bytes 2) (\<lambda>_.
     rd_return \<lparr>pp_parameter_index = index, pp_parameter_function = function,
       pp_attribute_type = attribute_type\<rparr>))))"

text \<open>The ranges \<^verbatim>\<open>0..num\<close> are empty for negative numbers.\<close>

definition partition_information_parse :: "partition_information rd" where
  "partition_information_parse =
     rd_bind (rd_bind read_u8 (\<lambda>b. rd_lift (partition_method_from_i8 b))) (\<lambda>method.
     rd_bind (skip_bytes 7) (\<lambda>_.
     rd_bind read_i32 (\<lambda>num_parameters.
     rd_bind read_i32 (\<lambda>num_partitions.
     rd_bind (rd_repeat (nat (sint num_parameters)) parse_partition_parameter) (\<lambda>params.
     rd_bind (rd_repeat (nat (sint num_partitions))
       (rd_bind read_i32 (\<lambda>val1. rd_bind read_i32 (\<lambda>val2. rd_return (val1, val2))))) (\<lambda>partitions.
     rd_return \<lparr>pi_method = method, pi_parameters = params, pi_partitions = partitions\<rparr>))))))"

section \<open>Client info\<close>

datatype client_info_key =
    CI_Application | CI_ApplicationVersion | CI_ApplicationSource | CI_ApplicationUser
  | CI_Driver | CI_DriverInfo | CI_DriverVersion

fun client_info_key_string :: "client_info_key \<Rightarrow> rstring" where
  "client_info_key_string CI_Application = ascii ''APPLICATION''"
| "client_info_key_string CI_ApplicationVersion = ascii ''APPLICATIONVERSION''"
| "client_info_key_string CI_ApplicationSource = ascii ''APPLICATIONSOURCE''"
| "client_info_key_string CI_ApplicationUser = ascii ''APPLICATIONUSER''"
| "client_info_key_string CI_Driver = ascii ''DRIVER''"
| "client_info_key_string CI_DriverInfo = ascii ''DRIVERINFO''"
| "client_info_key_string CI_DriverVersion = ascii ''DRIVERVERSION''"

text \<open>A \<^verbatim>\<open>HashMap\<close>, like the option parts.\<close>

type_synonym client_info = "(client_info_key \<times> rstring) list"

definition client_info_set :: "client_info_key \<Rightarrow> rstring \<Rightarrow> client_info \<Rightarrow> client_info" where
  "client_info_set k v ci = AList.update k v ci"

text \<open>The file name of the program and the package's name and version are inputs.\<close>

definition client_info_default :: "rstring option \<Rightarrow> rstring \<Rightarrow> rstring \<Rightarrow> client_info" where
  "client_info_default program pkg_name pkg_version =
     client_info_set CI_DriverInfo (ascii ''https://crates.io/crates/hdbconnect'')
     (client_info_set CI_DriverVersion pkg_version
     (client_info_set CI_Driver pkg_name
     (case program of Some s \<Rightarrow> client_info_set CI_Application s [] | None \<Rightarrow> [])))"

definition client_info_emit :: "cesu8_lib \<Rightarrow> client_info \<Rightarrow> bytes" where
  "client_info_emit c8 ci =
     concat (map (\<lambda>(k, v). emit_length_string c8 (client_info_key_string k) @ emit_length_string c8 v) ci)"

definition client_info_size :: "client_info \<Rightarrow> nat" where
  "client_info_size ci =
     sum_list (map (\<lambda>(k, v). string_length (client_info_key_string k) + string_length v) ci)"

definition client_info_count :: "client_info \<Rightarrow> nat" where
  "client_info_count ci = length ci * 2"

lemma client_info_key_valid: "valid_utf8 (client_info_key_string k)"
  by (cases k) (simp_all, code_simp+)

lemma client_info_emit_size:
  assumes "cesu8_crate c8" "\<forall>(k, v) \<in> set ci. valid_utf8 v"
  shows "length (client_info_emit c8 ci) = client_info_size ci"
proof -
  have len: "length (emit_length_string c8 s) = string_length s" if "valid_utf8 s" for s
    using cesu8_crate.cesu8_length_eq [OF assms(1) that]
    by (simp add: emit_length_string_def string_length_def length_emit_length_bytes)
  show ?thesis
    using assms(2)
    by (induction ci) (auto simp: client_info_emit_def client_info_size_def len client_info_key_valid)
qed

end
