(* ===== verification/Hdb_Parts.thy ===== *)
theory Hdb_Parts
  imports Hdb_Small_Parts
begin

text \<open>
  The parts of a message (protocol/part.rs, partkind.rs, parts.rs) and the parsing of result sets
  (\<^verbatim>\<open>ResultSet::parse\<close>, \<^verbatim>\<open>RsState::parse_rows\<close> in protocol/parts/resultset.rs).

  The reference to the connection that \<^verbatim>\<open>Part::parse\<close> may get (\<^verbatim>\<open>o_am_conn_core\<close>) is only stored in
  what is parsed; \<open>has_conn\<close> says whether there is one. The mutable arguments \<^verbatim>\<open>parts\<close> and \<^verbatim>\<open>o_rs\<close>
  are passed in and returned.
\<close>

section \<open>Kinds of parts\<close>

datatype part_kind =
    PK_Command | PK_ResultSet | PK_Error | PK_StatementId | PK_TransactionId
    | PK_ExecutionResult | PK_ResultSetId | PK_TopologyInformation | PK_TableLocation
    | PK_ReadLobRequest | PK_ReadLobReply | PK_CommandInfo | PK_WriteLobRequest
    | PK_ClientContext | PK_WriteLobReply | PK_Parameters | PK_Authentication
    | PK_SessionContext | PK_StatementContext | PK_PartitionInformation | PK_OutputParameters
    | PK_ConnectOptions | PK_CommitOptions | PK_FetchOptions | PK_FetchSize
    | PK_ParameterMetadata | PK_ResultSetMetadata | PK_FindLobRequest | PK_FindLobReply
    | PK_ClientInfo | PK_TransactionFlags | PK_LobFlags | PK_ResultsetOptions | PK_XatOptions
    | PK_SessionVariable | PK_WorkloadReplayContext | PK_SQLReplyOptions | PK_PrintOptions

fun part_kind_as_i8 :: "part_kind \<Rightarrow> i8" where
  "part_kind_as_i8 PK_Command = 3"
| "part_kind_as_i8 PK_ResultSet = 5"
| "part_kind_as_i8 PK_Error = 6"
| "part_kind_as_i8 PK_StatementId = 10"
| "part_kind_as_i8 PK_TransactionId = 11"
| "part_kind_as_i8 PK_ExecutionResult = 12"
| "part_kind_as_i8 PK_ResultSetId = 13"
| "part_kind_as_i8 PK_TopologyInformation = 15"
| "part_kind_as_i8 PK_TableLocation = 16"
| "part_kind_as_i8 PK_ReadLobRequest = 17"
| "part_kind_as_i8 PK_ReadLobReply = 18"
| "part_kind_as_i8 PK_CommandInfo = 27"
| "part_kind_as_i8 PK_WriteLobRequest = 28"
| "part_kind_as_i8 PK_ClientContext = 29"
| "part_kind_as_i8 PK_WriteLobReply = 30"
| "part_kind_as_i8 PK_Parameters = 32"
| "part_kind_as_i8 PK_Authentication = 33"
| "part_kind_as_i8 PK_SessionContext = 34"
| "part_kind_as_i8 PK_StatementContext = 39"
| "part_kind_as_i8 PK_PartitionInformation = 40"
| "part_kind_as_i8 PK_OutputParameters = 41"
| "part_kind_as_i8 PK_ConnectOptions = 42"
| "part_kind_as_i8 PK_CommitOptions = 43"
| "part_kind_as_i8 PK_FetchOptions = 44"
| "part_kind_as_i8 PK_FetchSize = 45"
| "part_kind_as_i8 PK_ParameterMetadata = 47"
| "part_kind_as_i8 PK_ResultSetMetadata = 48"
| "part_kind_as_i8 PK_FindLobRequest = 49"
| "part_kind_as_i8 PK_FindLobReply = 50"
| "part_kind_as_i8 PK_ClientInfo = 57"
| "part_kind_as_i8 PK_TransactionFlags = 64"
| "part_kind_as_i8 PK_LobFlags = 68"
| "part_kind_as_i8 PK_ResultsetOptions = 69"
| "part_kind_as_i8 PK_XatOptions = 70"
| "part_kind_as_i8 PK_SessionVariable = 71"
| "part_kind_as_i8 PK_WorkloadReplayContext = 72"
| "part_kind_as_i8 PK_SQLReplyOptions = 73"
| "part_kind_as_i8 PK_PrintOptions = 74"

definition part_kind_from_i8 :: "i8 \<Rightarrow> (part_kind, ioerr) res" where
  "part_kind_from_i8 v =
     (if v = 3 then Ok PK_Command
      else if v = 5 then Ok PK_ResultSet
      else if v = 6 then Ok PK_Error
      else if v = 10 then Ok PK_StatementId
      else if v = 11 then Ok PK_TransactionId
      else if v = 12 then Ok PK_ExecutionResult
      else if v = 13 then Ok PK_ResultSetId
      else if v = 15 then Ok PK_TopologyInformation
      else if v = 16 then Ok PK_TableLocation
      else if v = 17 then Ok PK_ReadLobRequest
      else if v = 18 then Ok PK_ReadLobReply
      else if v = 27 then Ok PK_CommandInfo
      else if v = 28 then Ok PK_WriteLobRequest
      else if v = 29 then Ok PK_ClientContext
      else if v = 30 then Ok PK_WriteLobReply
      else if v = 32 then Ok PK_Parameters
      else if v = 33 then Ok PK_Authentication
      else if v = 34 then Ok PK_SessionContext
      else if v = 39 then Ok PK_StatementContext
      else if v = 40 then Ok PK_PartitionInformation
      else if v = 41 then Ok PK_OutputParameters
      else if v = 42 then Ok PK_ConnectOptions
      else if v = 43 then Ok PK_CommitOptions
      else if v = 44 then Ok PK_FetchOptions
      else if v = 45 then Ok PK_FetchSize
      else if v = 47 then Ok PK_ParameterMetadata
      else if v = 48 then Ok PK_ResultSetMetadata
      else if v = 49 then Ok PK_FindLobRequest
      else if v = 50 then Ok PK_FindLobReply
      else if v = 57 then Ok PK_ClientInfo
      else if v = 64 then Ok PK_TransactionFlags
      else if v = 68 then Ok PK_LobFlags
      else if v = 69 then Ok PK_ResultsetOptions
      else if v = 70 then Ok PK_XatOptions
      else if v = 71 then Ok PK_SessionVariable
      else if v = 72 then Ok PK_WorkloadReplayContext
      else if v = 73 then Ok PK_SQLReplyOptions
      else if v = 74 then Ok PK_PrintOptions
      else Err (io_error ''PartKind {} not implemented''))"

lemma part_kind_roundtrip: "part_kind_from_i8 (part_kind_as_i8 k) = Ok k"
  by (cases k; hypsubst; code_simp)

lemma part_kind_as_i8_inj: "part_kind_as_i8 k = part_kind_as_i8 k' \<Longrightarrow> k = k'"
  by (metis part_kind_roundtrip res.inject(1))

section \<open>Result sets\<close>

text \<open>\<^verbatim>\<open>ResultSetCore\<close>; the prepared statement it keeps alive is given by its id.\<close>

record rs_core =
  rsc_pscore :: "u64 option"
  rsc_attributes :: part_attributes
  rsc_resultset_id :: u64

record rs_state =
  rss_core :: "rs_core option"
  rss_next_rows :: "row list"
  rss_row_iter :: "row list"
  rss_server_usage :: server_usage

record result_set =
  rs_metadata :: resultset_metadata
  rs_state :: rs_state

definition usage_of_stmt_ctx :: "statement_context \<Rightarrow> server_usage \<Rightarrow> server_usage" where
  "usage_of_stmt_ctx sc u =
     server_usage_update (server_processing_time sc) (server_cpu_time sc) (server_memory_usage sc) u"

definition result_set_new ::
    "part_attributes \<Rightarrow> u64 \<Rightarrow> resultset_metadata \<Rightarrow> statement_context option \<Rightarrow> result_set" where
  "result_set_new attrs rs_id rsmd o_stmt_ctx =
     \<lparr>rs_metadata = rsmd,
      rs_state = \<lparr>rss_core = Some \<lparr>rsc_pscore = None, rsc_attributes = attrs, rsc_resultset_id = rs_id\<rparr>,
        rss_next_rows = [], rss_row_iter = [],
        rss_server_usage = (case o_stmt_ctx of
          Some sc \<Rightarrow> usage_of_stmt_ctx sc server_usage_default | None \<Rightarrow> server_usage_default)\<rparr>\<rparr>"

text \<open>\<^verbatim>\<open>reserve\<close> panics on a negative number of rows. Without a core nothing is read.\<close>

definition parse_rows ::
    "cesu8_lib \<Rightarrow> num_lib \<Rightarrow> nat \<Rightarrow> resultset_metadata \<Rightarrow> rs_state \<Rightarrow> rs_state rd" where
  "parse_rows c8 nl no_of_rows md st =
     (if no_of_rows > isize_max then rd_panic
      else case rss_core st of
        None \<Rightarrow> rd_return st
      | Some core \<Rightarrow>
          rd_bind (rd_repeat no_of_rows (row_parse c8 nl md (Some (rsc_resultset_id core)))) (\<lambda>rows.
          rd_return (st\<lparr>rss_next_rows := rss_next_rows st @ rows\<rparr>)))"

section \<open>Parts\<close>

datatype part =
    P_Auth "auth_field list"
  | P_ClientContext client_context
  | P_ClientInfo client_info
  | P_Command rstring
  | P_CommandInfo command_info
  | P_ConnectOptions connect_options
  | P_Error "server_error list"
  | P_FetchSize u32
  | P_LobFlags lob_flags
  | P_OutputParameters output_parameters
  | P_ParameterMetadata "parameter_descriptor list"
  | P_Parameters "parameter_row list"
  | P_ReadLobRequest read_lob_request
  | P_ReadLobReply read_lob_reply
  | P_WriteLobRequest write_lob_request
  | P_WriteLobReply write_lob_reply
  | P_ResultSet "result_set option"
  | P_ResultSetId u64
  | P_ResultSetMetadata resultset_metadata
  | P_ExecutionResult "execution_result list"
  | P_SessionContext session_context
  | P_StatementContext statement_context
  | P_StatementId u64
  | P_PartitionInformation partition_information
  | P_TableLocation "i32 list"
  | P_TopologyInformation "topology_line list"
  | P_TransactionFlags transaction_flags
  | P_XatOptions xat_options

fun part_kind_of :: "part \<Rightarrow> part_kind" where
  "part_kind_of (P_Auth _) = PK_Authentication"
| "part_kind_of (P_ClientContext _) = PK_ClientContext"
| "part_kind_of (P_ClientInfo _) = PK_ClientInfo"
| "part_kind_of (P_Command _) = PK_Command"
| "part_kind_of (P_CommandInfo _) = PK_CommandInfo"
| "part_kind_of (P_ConnectOptions _) = PK_ConnectOptions"
| "part_kind_of (P_Error _) = PK_Error"
| "part_kind_of (P_FetchSize _) = PK_FetchSize"
| "part_kind_of (P_LobFlags _) = PK_LobFlags"
| "part_kind_of (P_OutputParameters _) = PK_OutputParameters"
| "part_kind_of (P_ParameterMetadata _) = PK_ParameterMetadata"
| "part_kind_of (P_Parameters _) = PK_Parameters"
| "part_kind_of (P_ReadLobRequest _) = PK_ReadLobRequest"
| "part_kind_of (P_ReadLobReply _) = PK_ReadLobReply"
| "part_kind_of (P_WriteLobRequest _) = PK_WriteLobRequest"
| "part_kind_of (P_WriteLobReply _) = PK_WriteLobReply"
| "part_kind_of (P_ResultSet _) = PK_ResultSet"
| "part_kind_of (P_ResultSetId _) = PK_ResultSetId"
| "part_kind_of (P_ResultSetMetadata _) = PK_ResultSetMetadata"
| "part_kind_of (P_ExecutionResult _) = PK_ExecutionResult"
| "part_kind_of (P_SessionContext _) = PK_SessionContext"
| "part_kind_of (P_StatementContext _) = PK_StatementContext"
| "part_kind_of (P_StatementId _) = PK_StatementId"
| "part_kind_of (P_PartitionInformation _) = PK_PartitionInformation"
| "part_kind_of (P_TableLocation _) = PK_TableLocation"
| "part_kind_of (P_TopologyInformation _) = PK_TopologyInformation"
| "part_kind_of (P_TransactionFlags _) = PK_TransactionFlags"
| "part_kind_of (P_XatOptions _) = PK_XatOptions"

text \<open>Only parts that are sent have a count and a size.\<close>

definition part_count :: "part \<Rightarrow> (nat, ioerr) res" where
  "part_count p =
     (case p of
        P_Auth _ \<Rightarrow> Ok 1
      | P_ClientContext _ \<Rightarrow> Ok 1
      | P_Command _ \<Rightarrow> Ok 1
      | P_FetchSize _ \<Rightarrow> Ok 1
      | P_ResultSetId _ \<Rightarrow> Ok 1
      | P_StatementId _ \<Rightarrow> Ok 1
      | P_ReadLobRequest _ \<Rightarrow> Ok 1
      | P_WriteLobRequest _ \<Rightarrow> Ok 1
      | P_ClientInfo ci \<Rightarrow> Ok (client_info_count ci)
      | P_CommandInfo opts \<Rightarrow> Ok (op_len opts)
      | P_ConnectOptions opts \<Rightarrow> Ok (op_len opts)
      | P_LobFlags opts \<Rightarrow> Ok (op_len opts)
      | P_Parameters rows \<Rightarrow> Ok (parameter_rows_count rows)
      | P_SessionContext opts \<Rightarrow> Ok (op_len opts)
      | P_StatementContext sc \<Rightarrow> Ok (op_len sc)
      | P_TransactionFlags opts \<Rightarrow> Ok (op_len opts)
      | P_XatOptions xat \<Rightarrow> Ok (op_len xat)
      | _ \<Rightarrow> Err (io_error ''count() called on {:?}''))"

definition padsize :: "nat \<Rightarrow> nat" where
  "padsize n = (if n = 0 then 0 else 7 - (n - 1) mod 8)"

definition part_raw_size :: "part \<Rightarrow> parameter_descriptor list option \<Rightarrow> (nat, ioerr) res" where
  "part_raw_size p o_a_descriptors =
     (case p of
        P_Auth af \<Rightarrow> Ok (auth_fields_size af)
      | P_ClientContext opts \<Rightarrow> Ok (op_size opts)
      | P_ClientInfo ci \<Rightarrow> Ok (client_info_size ci)
      | P_Command s \<Rightarrow> Ok (cesu8_length s)
      | P_CommandInfo opts \<Rightarrow> Ok (op_size opts)
      | P_ConnectOptions opts \<Rightarrow> Ok (op_size opts)
      | P_FetchSize _ \<Rightarrow> Ok 4
      | P_LobFlags opts \<Rightarrow> Ok (op_size opts)
      | P_Parameters rows \<Rightarrow>
          res_bind (ok_or o_a_descriptors (io_error ''Part::body_size(): No parameter descriptors''))
            (\<lambda>descriptors. parameter_rows_size descriptors rows)
      | P_ReadLobRequest _ \<Rightarrow> Ok read_lob_request_size
      | P_WriteLobRequest r \<Rightarrow> Ok (write_lob_request_size r)
      | P_ResultSetId _ \<Rightarrow> Ok 8
      | P_StatementId _ \<Rightarrow> Ok 8
      | P_SessionContext opts \<Rightarrow> Ok (op_size opts)
      | P_StatementContext sc \<Rightarrow> Ok (op_size sc)
      | P_TransactionFlags opts \<Rightarrow> Ok (op_size opts)
      | P_XatOptions xat \<Rightarrow> Ok (op_size xat)
      | _ \<Rightarrow> Err (io_error ''size() called on {:?}''))"

definition part_body_size ::
    "part \<Rightarrow> bool \<Rightarrow> parameter_descriptor list option \<Rightarrow> (nat, ioerr) res" where
  "part_body_size p with_padding o_a_descriptors =
     res_map (\<lambda>size. if with_padding then size + padsize size else size)
       (part_raw_size p o_a_descriptors)"

definition part_size :: "part \<Rightarrow> bool \<Rightarrow> parameter_descriptor list option \<Rightarrow> (nat, ioerr) res" where
  "part_size p with_padding o_a_descriptors =
     res_map (\<lambda>n. 16 + n) (part_body_size p with_padding o_a_descriptors)"

section \<open>Emitting parts\<close>

definition part_emit_raw ::
    "cesu8_lib \<Rightarrow> num_lib \<Rightarrow> part \<Rightarrow> parameter_descriptor list option \<Rightarrow> wr" where
  "part_emit_raw c8 nl p o_a_descriptors =
     (case p of
        P_Auth af \<Rightarrow> auth_fields_emit af
      | P_ClientContext opts \<Rightarrow> op_emit c8 client_context_id_to_u8 opts
      | P_ClientInfo ci \<Rightarrow> Ok (client_info_emit c8 ci)
      | P_Command s \<Rightarrow> Ok (to_cesu8 c8 s)
      | P_CommandInfo opts \<Rightarrow> op_emit c8 command_info_id_to_u8 opts
      | P_ConnectOptions opts \<Rightarrow> op_emit c8 conn_opt_id_to_u8 opts
      | P_FetchSize fs \<Rightarrow> Ok (write_u32 fs)
      | P_LobFlags opts \<Rightarrow> op_emit c8 lob_flags_id_to_u8 opts
      | P_Parameters rows \<Rightarrow>
          res_bind (ok_or o_a_descriptors (io_error ''Part::Parameters::emit(): No metadata''))
            (\<lambda>descriptors. parameter_rows_emit c8 nl descriptors rows)
      | P_ReadLobRequest r \<Rightarrow> Ok (read_lob_request_emit r)
      | P_ResultSetId rs_id \<Rightarrow> Ok (write_u64 rs_id)
      | P_SessionContext opts \<Rightarrow> op_emit c8 session_context_id_to_u8 opts
      | P_StatementId stmt_id \<Rightarrow> Ok (write_u64 stmt_id)
      | P_StatementContext sc \<Rightarrow> op_emit c8 statement_context_id_to_u8 sc
      | P_TransactionFlags opts \<Rightarrow> op_emit c8 ta_flag_id_to_u8 opts
      | P_WriteLobRequest r \<Rightarrow> Ok (write_lob_request_emit r)
      | P_XatOptions xat \<Rightarrow> op_emit c8 xat_option_id_to_u8 xat
      | _ \<Rightarrow> Err (io_error ''emit() called on {:?}''))"

text \<open>The subtractions on \<^verbatim>\<open>u32\<close> can underflow; the sizes are cast to \<^verbatim>\<open>u32\<close> first.\<close>

definition sub_u32 :: "u32 \<Rightarrow> u32 \<Rightarrow> (u32, 'e) res" where
  "sub_u32 a b = (if b \<le> a then Ok (a - b) else Panic)"

definition part_emit_body ::
    "cesu8_lib \<Rightarrow> num_lib \<Rightarrow> part \<Rightarrow> u32 \<Rightarrow> parameter_descriptor list option \<Rightarrow> (bytes \<times> u32, ioerr) res" where
  "part_emit_body c8 nl p remaining_bufsize o_a_descriptors =
     res_bind (part_emit_raw c8 nl p o_a_descriptors) (\<lambda>bs.
     res_bind (part_body_size p False o_a_descriptors) (\<lambda>size.
     res_bind (sub_u32 remaining_bufsize (word_of_nat size)) (\<lambda>r1.
     res_bind (sub_u32 r1 (word_of_nat (padsize size))) (\<lambda>r2.
     Ok (bs @ replicate (padsize size) 0, r2)))))"

definition part_header_count :: "nat \<Rightarrow> wr" where
  "part_header_count i =
     (if int i < 32767 then Ok (write_i16 (word_of_nat i) @ write_i32 0)
      else if int i < 2 ^ 31 then Ok (write_i16 (- 1) @ write_i32 (word_of_nat i))
      else Err (io_error ''part count bigger than i32::MAX''))"

definition part_emit ::
    "cesu8_lib \<Rightarrow> num_lib \<Rightarrow> part \<Rightarrow> u32 \<Rightarrow> parameter_descriptor list option \<Rightarrow> (bytes \<times> u32, ioerr) res" where
  "part_emit c8 nl p remaining_bufsize o_a_descriptors =
     res_bind (part_count p) (\<lambda>count.
     res_bind (part_header_count count) (\<lambda>cnt.
     res_bind (part_body_size p False o_a_descriptors) (\<lambda>size.
     res_bind (sub_u32 remaining_bufsize 16) (\<lambda>r.
     res_bind (part_emit_body c8 nl p r o_a_descriptors) (\<lambda>(body, r').
     Ok ([part_kind_as_i8 (part_kind_of p), 0] @ cnt @ write_i32 (word_of_nat size)
       @ write_i32 remaining_bufsize @ body, r'))))))"

section \<open>Collections of parts\<close>

definition parts_pop :: "part list \<Rightarrow> part option \<times> part list" where
  "parts_pop ps = (if ps = [] then (None, []) else (Some (last ps), butlast ps))"

definition pop_if_kind :: "part_kind \<Rightarrow> part list \<Rightarrow> part option \<times> part list" where
  "pop_if_kind k ps =
     (if ps \<noteq> [] \<and> part_kind_as_i8 (part_kind_of (last ps)) = part_kind_as_i8 k
      then (Some (last ps), butlast ps) else (None, ps))"

fun remove_first_of_kind :: "part_kind \<Rightarrow> part list \<Rightarrow> part option \<times> part list" where
  "remove_first_of_kind k [] = (None, [])"
| "remove_first_of_kind k (p # ps) =
     (if part_kind_of p = k then (Some p, ps)
      else case remove_first_of_kind k ps of (r, ps') \<Rightarrow> (r, p # ps'))"

definition drop_parts_of_kind :: "part_kind \<Rightarrow> part list \<Rightarrow> part list" where
  "drop_parts_of_kind k ps = filter (\<lambda>p. part_kind_as_i8 (part_kind_of p) \<noteq> part_kind_as_i8 k) ps"

lemma remove_first_of_kind_Some:
  "remove_first_of_kind k ps = (Some p, ps') \<Longrightarrow>
     \<exists>xs ys. ps = xs @ p # ys \<and> ps' = xs @ ys \<and> part_kind_of p = k \<and> (\<forall>x \<in> set xs. part_kind_of x \<noteq> k)"
proof (induction ps arbitrary: ps')
  case (Cons q ps)
  show ?case
  proof (cases "part_kind_of q = k")
    case True
    then show ?thesis using Cons.prems by (intro exI [of _ "[]"] exI [of _ ps]) auto
  next
    case False
    then obtain ps'' where "remove_first_of_kind k ps = (Some p, ps'')" "ps' = q # ps''"
      using Cons.prems by (auto split: prod.splits)
    with Cons.IH obtain xs ys where "ps = xs @ p # ys" "ps'' = xs @ ys" "part_kind_of p = k"
      "\<forall>x \<in> set xs. part_kind_of x \<noteq> k" by blast
    then show ?thesis using False \<open>ps' = q # ps''\<close> by (intro exI [of _ "q # xs"] exI [of _ ys]) auto
  qed
qed simp

lemma remove_first_of_kind_None:
  "remove_first_of_kind k ps = (None, ps') \<Longrightarrow> ps' = ps \<and> (\<forall>x \<in> set ps. part_kind_of x \<noteq> k)"
  by (induction ps arbitrary: ps') (auto split: if_splits prod.splits)

section \<open>Parsing parts\<close>

text \<open>
  \<^verbatim>\<open>ResultSet::parse\<close>: for a fresh result set the parts before it are, from the last, an optional
  statement context, the id, and the metadata unless they are known; for a fetch the state
  of the result set is extended.
\<close>

definition result_set_parse ::
    "cesu8_lib \<Rightarrow> num_lib \<Rightarrow> nat \<Rightarrow> part_attributes \<Rightarrow> part list \<Rightarrow> resultset_metadata option
      \<Rightarrow> rs_state option \<Rightarrow> (result_set option \<times> part list \<times> rs_state option) rd" where
  "result_set_parse c8 nl no_of_rows attributes parts o_a_rsmd o_rs =
     (case o_rs of
        None \<Rightarrow>
          (case pop_if_kind PK_StatementContext parts of (o_sc, parts1) \<Rightarrow>
           case parts_pop parts1 of (o_id, parts2) \<Rightarrow>
           case o_id of
             Some (P_ResultSetId rs_id) \<Rightarrow>
               (case pop_if_kind PK_ResultSetMetadata parts2 of (o_md, parts3) \<Rightarrow>
                rd_bind
                  (case o_md of
                     Some (P_ResultSetMetadata rsmd) \<Rightarrow> rd_return rsmd
                   | Some _ \<Rightarrow> rd_fail (io_error ''Inconsistent metadata part found for ResultSet'')
                   | None \<Rightarrow>
                       (case o_a_rsmd of
                          Some rsmd \<Rightarrow> rd_return rsmd
                        | None \<Rightarrow> rd_fail (io_error ''No metadata provided for ResultSet''))) (\<lambda>rsmd.
                let rs = result_set_new attributes rs_id rsmd
                      (case o_sc of Some (P_StatementContext sc) \<Rightarrow> Some sc | _ \<Rightarrow> None)
                in rd_bind (parse_rows c8 nl no_of_rows rsmd (rs_state rs)) (\<lambda>st.
                   rd_return (Some (rs\<lparr>rs_state := st\<rparr>), parts3, None))))
           | _ \<Rightarrow> rd_fail (io_error ''ResultSetId missing''))
      | Some st \<Rightarrow>
          (case pop_if_kind PK_StatementContext parts of (o_sc, parts1) \<Rightarrow>
           let st1 = (case o_sc of
                        Some (P_StatementContext sc) \<Rightarrow>
                          st\<lparr>rss_server_usage := usage_of_stmt_ctx sc (rss_server_usage st)\<rparr>
                      | _ \<Rightarrow> st);
               st2 = st1\<lparr>rss_core := map_option (\<lambda>c. c\<lparr>rsc_attributes := attributes\<rparr>) (rss_core st1)\<rparr>
           in case o_a_rsmd of
                None \<Rightarrow> rd_fail (io_error ''RsState provided without RsMetadata'')
              | Some rsmd \<Rightarrow>
                  rd_bind (parse_rows c8 nl no_of_rows rsmd st2) (\<lambda>st3.
                  rd_return (None, parts1, Some st3))))"

definition lift_part ::
    "part list \<Rightarrow> rs_state option \<Rightarrow> part rd \<Rightarrow> (part \<times> part list \<times> rs_state option) rd" where
  "lift_part parts o_rs p = rd_bind p (\<lambda>x. rd_return (x, parts, o_rs))"

definition rd_map :: "('a \<Rightarrow> 'b) \<Rightarrow> 'a rd \<Rightarrow> 'b rd" where
  "rd_map f p = rd_bind p (\<lambda>x. rd_return (f x))"

definition part_parse_body ::
    "cesu8_lib \<Rightarrow> num_lib \<Rightarrow> part_kind \<Rightarrow> part_attributes \<Rightarrow> nat \<Rightarrow> part list \<Rightarrow> bool
      \<Rightarrow> resultset_metadata option \<Rightarrow> parameter_descriptor list option \<Rightarrow> rs_state option
      \<Rightarrow> (part \<times> part list \<times> rs_state option) rd" where
  "part_parse_body c8 nl kind attributes n parts has_conn o_a_rsmd o_a_descriptors o_rs =
     (case kind of
        PK_ResultSet \<Rightarrow>
          (if \<not> has_conn then rd_fail (io_error ''ResultSet parsing requires a conn_core'')
           else rd_map (\<lambda>(rs, parts', o_rs'). (P_ResultSet rs, parts', o_rs'))
                  (result_set_parse c8 nl n attributes parts o_a_rsmd o_rs))
      | _ \<Rightarrow> lift_part parts o_rs
          (case kind of
             PK_Authentication \<Rightarrow> rd_map P_Auth auth_fields_parse
           | PK_CommandInfo \<Rightarrow> rd_map P_CommandInfo (op_parse c8 command_info_id_from_u8 n)
           | PK_ConnectOptions \<Rightarrow> rd_map P_ConnectOptions (op_parse c8 conn_opt_id_from_u8 n)
           | PK_Error \<Rightarrow> rd_map P_Error (parse_server_errors c8 n)
           | PK_OutputParameters \<Rightarrow>
               (case o_a_descriptors of
                  None \<Rightarrow> rd_fail (io_error ''Parsing output parameters needs metadata'')
                | Some ds \<Rightarrow> rd_map P_OutputParameters (output_parameters_parse c8 nl has_conn ds))
           | PK_ParameterMetadata \<Rightarrow> rd_map P_ParameterMetadata (parse_descriptors c8 n)
           | PK_ReadLobReply \<Rightarrow> rd_map P_ReadLobReply read_lob_reply_parse
           | PK_WriteLobReply \<Rightarrow> rd_map P_WriteLobReply (write_lob_reply_parse n)
           | PK_ResultSetId \<Rightarrow> rd_map P_ResultSetId read_u64
           | PK_ResultSetMetadata \<Rightarrow> rd_map P_ResultSetMetadata (resultset_metadata_parse c8 n)
           | PK_ExecutionResult \<Rightarrow> rd_map P_ExecutionResult (parse_execution_results n)
           | PK_StatementContext \<Rightarrow> rd_map P_StatementContext (op_parse c8 statement_context_id_from_u8 n)
           | PK_StatementId \<Rightarrow> rd_map P_StatementId read_u64
           | PK_SessionContext \<Rightarrow> rd_map P_SessionContext (op_parse c8 session_context_id_from_u8 n)
           | PK_TableLocation \<Rightarrow> rd_map P_TableLocation (rd_repeat n read_i32)
           | PK_TopologyInformation \<Rightarrow> rd_map P_TopologyInformation (topology_parse c8 n)
           | PK_PartitionInformation \<Rightarrow> rd_map P_PartitionInformation partition_information_parse
           | PK_TransactionFlags \<Rightarrow> rd_map P_TransactionFlags (op_parse c8 ta_flag_id_from_u8 n)
           | PK_XatOptions \<Rightarrow> rd_map P_XatOptions (op_parse c8 xat_option_id_from_u8 n)
           | _ \<Rightarrow> rd_fail (io_error ''No handling implemented for received partkind {:?}'')))"

definition parse_part_header :: "(part_kind \<times> part_attributes \<times> nat \<times> nat) rd" where
  "parse_part_header =
     rd_bind (rd_bind read_u8 (\<lambda>b. rd_lift (part_kind_from_i8 b))) (\<lambda>kind.
     rd_bind read_u8 (\<lambda>attributes.
     rd_bind read_i16 (\<lambda>no_of_argsi16.
     rd_bind read_i32 (\<lambda>no_of_argsi32.
     rd_bind read_i32 (\<lambda>arg_size.
     rd_bind read_i32 (\<lambda>_.
     let no_of_args = (if sint no_of_argsi32 \<ge> sint no_of_argsi16 then no_of_argsi32
                       else scast no_of_argsi16)
     in rd_return (kind, attributes, usize_of arg_size, usize_of no_of_args)))))))"

text \<open>\<^verbatim>\<open>arg_size + 7\<close> overflows for a negative size close to zero.\<close>

definition part_parse ::
    "cesu8_lib \<Rightarrow> num_lib \<Rightarrow> part list \<Rightarrow> bool \<Rightarrow> resultset_metadata option
      \<Rightarrow> parameter_descriptor list option \<Rightarrow> rs_state option \<Rightarrow> bool
      \<Rightarrow> (part \<times> part list \<times> rs_state option) rd" where
  "part_parse c8 nl parts has_conn o_a_rsmd o_a_descriptors o_rs is_last =
     rd_bind parse_part_header (\<lambda>(kind, attributes, arg_size, no_of_args).
     rd_bind (part_parse_body c8 nl kind attributes no_of_args parts has_conn o_a_rsmd o_a_descriptors o_rs)
       (\<lambda>r.
       if int arg_size + 7 \<ge> 2 ^ 64 then rd_panic
       else if kind = PK_Error \<or> is_last \<and> kind \<in> {PK_ResultSet, PK_ResultSetId, PK_ReadLobReply}
       then rd_return r
       else rd_bind (rd_repeat (7 - (arg_size + 7) mod 8) read_u8) (\<lambda>_. rd_return r)))"

end
