(* ===== verification/Hdb_Params.thy ===== *)
theory Hdb_Params
  imports Hdb_Errors "HOL-Library.AList"
begin

text \<open>
  Connection parameters (conn/params/): \<^verbatim>\<open>ConnectParams\<close>, its builder, and the conversion of a URL
  into a builder. The crate \<^verbatim>\<open>url\<close> is outside the repository: a parsed \<^verbatim>\<open>Url\<close> is the record of what
  its accessors return (the host, the port, the percent-decoded query pairs, and so on), and the
  environment is a function.
\<close>

section \<open>Server certificates\<close>

datatype server_certs =
    SC_Directory rstring
  | SC_Environment rstring
  | SC_Direct rstring
  | SC_RootCertificates
  | SC_None

definition option_cert_dir :: rstring where "option_cert_dir = ascii ''tls_certificate_dir''"
definition option_cert_env :: rstring where "option_cert_env = ascii ''tls_certificate_env''"
definition option_cert_direct :: rstring where "option_cert_direct = ascii ''tls_certificate_direct''"
definition option_cert_mozilla :: rstring where
  "option_cert_mozilla = ascii ''use_mozillas_root_certificates''"
definition option_insecure_no_check :: rstring where
  "option_insecure_no_check = ascii ''insecure_omit_server_certificate_check''"
definition option_client_locale :: rstring where "option_client_locale = ascii ''client_locale''"
definition option_client_locale_from_env :: rstring where
  "option_client_locale_from_env = ascii ''client_locale_from_env''"
definition option_nonblocking :: rstring where "option_nonblocking = ascii ''nonblocking''"

fun server_certs_string :: "server_certs \<Rightarrow> rstring" where
  "server_certs_string (SC_Directory s) = option_cert_dir @ ascii ''='' @ s"
| "server_certs_string (SC_Environment s) = option_cert_env @ ascii ''='' @ s"
| "server_certs_string (SC_Direct _) = option_cert_direct @ ascii ''=<...>''"
| "server_certs_string SC_RootCertificates = option_cert_mozilla"
| "server_certs_string SC_None = option_insecure_no_check"

section \<open>ConnectParams\<close>

record connect_params =
  cp_host :: rstring
  cp_addr :: rstring
  cp_dbuser :: rstring
  cp_password :: bytes
  cp_clientlocale :: "rstring option"
  cp_server_certs :: "server_certs list"

definition use_tls :: "connect_params \<Rightarrow> bool" where
  "use_tls p \<longleftrightarrow> cp_server_certs p \<noteq> []"

text \<open>The assignments, joined by \<^verbatim>\<open>&\<close>.\<close>

fun join_amp :: "rstring list \<Rightarrow> rstring" where
  "join_amp [] = []"
| "join_amp [s] = s"
| "join_amp (s # t # ss) = s @ ascii ''&'' @ join_amp (t # ss)"

definition locale_assignment :: "rstring option \<Rightarrow> rstring list" where
  "locale_assignment o_cl =
     (case o_cl of Some cl \<Rightarrow> [option_client_locale @ ascii ''='' @ cl] | None \<Rightarrow> [])"

definition option_string :: "connect_params \<Rightarrow> rstring" where
  "option_string p =
     (if cp_server_certs p = [] \<and> cp_clientlocale p = None then []
      else join_amp (map server_certs_string (cp_server_certs p) @ locale_assignment (cp_clientlocale p)))"

definition connect_params_display :: "connect_params \<Rightarrow> rstring" where
  "connect_params_display p =
     (let os = option_string p
      in ascii ''hdbsql'' @ (if use_tls p then ascii ''s'' else []) @ ascii ''://'' @ cp_dbuser p
         @ ascii ''@'' @ cp_addr p @ (if os = [] then [] else ascii ''?'') @ os)"

section \<open>The builder\<close>

record connect_params_builder =
  cb_hostname :: "rstring option"
  cb_port :: "u16 option"
  cb_dbuser :: "rstring option"
  cb_password :: "bytes option"
  cb_clientlocale :: "rstring option"
  cb_server_certs :: "server_certs list"
  cb_options :: "(rstring \<times> rstring) list"

definition builder_new :: connect_params_builder where
  "builder_new = \<lparr>cb_hostname = None, cb_port = None, cb_dbuser = None, cb_password = None,
     cb_clientlocale = None, cb_server_certs = [], cb_options = []\<rparr>"

definition builder_hostname :: "rstring \<Rightarrow> connect_params_builder \<Rightarrow> connect_params_builder" where
  "builder_hostname h b = b\<lparr>cb_hostname := Some h\<rparr>"

definition builder_port :: "u16 \<Rightarrow> connect_params_builder \<Rightarrow> connect_params_builder" where
  "builder_port p b = b\<lparr>cb_port := Some p\<rparr>"

definition builder_dbuser :: "rstring \<Rightarrow> connect_params_builder \<Rightarrow> connect_params_builder" where
  "builder_dbuser u b = b\<lparr>cb_dbuser := Some u\<rparr>"

definition builder_password :: "rstring \<Rightarrow> connect_params_builder \<Rightarrow> connect_params_builder" where
  "builder_password pw b = b\<lparr>cb_password := Some pw\<rparr>"

definition builder_unset_password :: "connect_params_builder \<Rightarrow> connect_params_builder" where
  "builder_unset_password b = b\<lparr>cb_password := None\<rparr>"

definition builder_clientlocale :: "rstring \<Rightarrow> connect_params_builder \<Rightarrow> connect_params_builder" where
  "builder_clientlocale cl b = b\<lparr>cb_clientlocale := Some cl\<rparr>"

definition builder_clientlocale_from_env_lang ::
    "(rstring \<Rightarrow> rstring option) \<Rightarrow> connect_params_builder \<Rightarrow> connect_params_builder" where
  "builder_clientlocale_from_env_lang env b = b\<lparr>cb_clientlocale := env (ascii ''LANG'')\<rparr>"

definition builder_tls_with :: "server_certs \<Rightarrow> connect_params_builder \<Rightarrow> connect_params_builder" where
  "builder_tls_with sc b = b\<lparr>cb_server_certs := cb_server_certs b @ [sc]\<rparr>"

definition builder_option ::
    "rstring \<Rightarrow> rstring \<Rightarrow> connect_params_builder \<Rightarrow> connect_params_builder" where
  "builder_option name v b = b\<lparr>cb_options := cb_options b @ [(name, v)]\<rparr>"

function nat_digits :: "int \<Rightarrow> rstring" where
  "nat_digits n =
     (if n < 10 then [word_of_int (48 + n)] else nat_digits (n div 10) @ [word_of_int (48 + n mod 10)])"
  by pat_completeness auto
termination
  by (relation "measure nat") auto

declare nat_digits.simps [simp del]

definition builder_build :: "connect_params_builder \<Rightarrow> (connect_params, hdb_error) res" where
  "builder_build b =
     res_bind (ok_or (cb_hostname b) (Usage ''hostname is missing'')) (\<lambda>host.
     res_bind (ok_or (cb_port b) (Usage ''port is missing'')) (\<lambda>port.
     res_bind (ok_or (cb_dbuser b) (Usage ''dbuser is missing'')) (\<lambda>dbuser.
     res_bind (ok_or (cb_password b) (Usage ''password is missing'')) (\<lambda>password.
     Ok \<lparr>cp_host = host, cp_addr = host @ ascii '':'' @ nat_digits (uint port), cp_dbuser = dbuser,
         cp_password = password, cp_clientlocale = cb_clientlocale b,
         cp_server_certs = cb_server_certs b\<rparr>))))"

definition get_protocol_name :: "connect_params_builder \<Rightarrow> rstring" where
  "get_protocol_name b = (if cb_server_certs b = [] then ascii ''hdbsql'' else ascii ''hdbsqls'')"

fun number_options :: "bool \<Rightarrow> rstring list \<Rightarrow> rstring" where
  "number_options first [] = []"
| "number_options first (s # ss) =
     (if first then ascii ''?'' else ascii ''&'') @ s @ number_options False ss"

definition get_options_as_parameters :: "connect_params_builder \<Rightarrow> rstring" where
  "get_options_as_parameters b =
     number_options True
       (map (\<lambda>(k, v). if v = [] then k else k @ ascii ''='' @ v) (cb_options b)
        @ map server_certs_string (cb_server_certs b) @ locale_assignment (cb_clientlocale b))"

definition builder_to_url :: "connect_params_builder \<Rightarrow> (rstring, hdb_error) res" where
  "builder_to_url b =
     (case (cb_dbuser b, cb_hostname b, cb_port b) of
        (Some dbuser, Some hostname, Some port) \<Rightarrow>
          Ok (get_protocol_name b @ ascii ''://'' @ dbuser @ ascii ''@'' @ hostname @ ascii '':''
              @ nat_digits (uint port) @ get_options_as_parameters b)
      | _ \<Rightarrow> Err (Usage ''URL requires dbuser, hostname, and port''))"

text \<open>\<^verbatim>\<open>Into<String>\<close> removes the password and unwraps.\<close>

definition builder_into_string :: "connect_params_builder \<Rightarrow> (rstring, 'e) res" where
  "builder_into_string b = unwrap (builder_to_url (builder_unset_password b))"

section \<open>From a URL\<close>

record url =
  url_scheme :: rstring
  url_username :: rstring
  url_password :: "rstring option"
  url_host_str :: "rstring option"
  url_port :: "u16 option"
  url_query_pairs :: "(rstring \<times> rstring) list"

text \<open>
  The loop over the query pairs, with the certificates collected so far. \<^verbatim>\<open>nonblocking\<close> is an error
  without the cargo feature \<^verbatim>\<open>alpha_nonblocking\<close> (the model is that of the default features).
\<close>

fun url_options ::
    "(rstring \<Rightarrow> rstring option) \<Rightarrow> (rstring \<times> rstring) list \<Rightarrow> connect_params_builder
      \<Rightarrow> server_certs list \<Rightarrow> (connect_params_builder \<times> server_certs list, hdb_error) res" where
  "url_options env [] b certs = Ok (b, certs)"
| "url_options env ((name, v) # qs) b certs =
     (if name = option_client_locale then url_options env qs (builder_clientlocale v b) certs
      else if name = option_client_locale_from_env then
        url_options env qs (case env v of Some s \<Rightarrow> builder_clientlocale s b | None \<Rightarrow> b) certs
      else if name = option_cert_dir then url_options env qs b (certs @ [SC_Directory v])
      else if name = option_cert_env then url_options env qs b (certs @ [SC_Environment v])
      else if name = option_cert_mozilla then url_options env qs b (certs @ [SC_RootCertificates])
      else if name = option_insecure_no_check then url_options env qs b (certs @ [SC_None])
      else if name = option_nonblocking then
        Err (UsageDetailed ''url option {} requires feature alpha_nonblocking'')
      else url_options env qs b certs)"

definition url_into_builder ::
    "(rstring \<Rightarrow> rstring option) \<Rightarrow> url \<Rightarrow> (connect_params_builder, hdb_error) res" where
  "url_into_builder env u =
     (let b1 = (case url_host_str u of Some h \<Rightarrow> builder_hostname h builder_new | None \<Rightarrow> builder_new);
          b2 = (case url_port u of Some p \<Rightarrow> builder_port p b1 | None \<Rightarrow> b1);
          b3 = (if url_username u \<noteq> [] then builder_dbuser (url_username u) b2 else b2);
          b4 = (case url_password u of Some pw \<Rightarrow> builder_password pw b3 | None \<Rightarrow> b3)
      in res_bind
           (if url_scheme u = ascii ''hdbsql'' then Ok False
            else if url_scheme u = ascii ''hdbsqls'' then Ok True
            else Err (Usage ''Unknown protocol, only 'hdbsql' and 'hdbsqls' are supported'')) (\<lambda>use_tls.
         res_bind (url_options env (url_query_pairs u) b4 []) (\<lambda>(b5, certs).
           if use_tls \<and> certs = [] then
             Err (Usage ''Using 'hdbsqls' requires one of the url-options 'tls_certificate_dir', ...'')
           else Ok (foldl (\<lambda>b sc. builder_tls_with sc b) b5 certs))))"

definition url_into_connect_params ::
    "(rstring \<Rightarrow> rstring option) \<Rightarrow> url \<Rightarrow> (connect_params, hdb_error) res" where
  "url_into_connect_params env u = res_bind (url_into_builder env u) builder_build"

section \<open>Properties\<close>

lemma foldl_tls_with:
  "foldl (\<lambda>b sc. builder_tls_with sc b) b certs = b\<lparr>cb_server_certs := cb_server_certs b @ certs\<rparr>"
  by (induction certs arbitrary: b) (auto simp: builder_tls_with_def)

text \<open>The certificates a URL names, in order.\<close>

fun query_certs :: "(rstring \<times> rstring) list \<Rightarrow> server_certs list" where
  "query_certs [] = []"
| "query_certs ((name, v) # qs) =
     (if name = option_client_locale \<or> name = option_client_locale_from_env then []
      else if name = option_cert_dir then [SC_Directory v]
      else if name = option_cert_env then [SC_Environment v]
      else if name = option_cert_mozilla then [SC_RootCertificates]
      else if name = option_insecure_no_check then [SC_None] else []) @ query_certs qs"

lemma url_options_certs:
  "url_options env qs b certs = Ok (b', certs') \<Longrightarrow>
     certs' = certs @ query_certs qs \<and> cb_server_certs b' = cb_server_certs b
       \<and> cb_hostname b' = cb_hostname b \<and> cb_port b' = cb_port b \<and> cb_dbuser b' = cb_dbuser b
       \<and> cb_password b' = cb_password b"
proof (induction qs arbitrary: b certs)
  case (Cons q qs)
  obtain name v where q: "q = (name, v)" by (cases q)
  let ?b = "case env v of Some s \<Rightarrow> builder_clientlocale s b | None \<Rightarrow> b"
  have distinct: "option_cert_dir \<noteq> option_client_locale" "option_cert_env \<noteq> option_client_locale"
    "option_cert_mozilla \<noteq> option_client_locale" "option_insecure_no_check \<noteq> option_client_locale"
    "option_nonblocking \<noteq> option_client_locale" by code_simp+
  have fr: "cb_server_certs (builder_clientlocale s c) = cb_server_certs c"
    "cb_hostname (builder_clientlocale s c) = cb_hostname c"
    "cb_port (builder_clientlocale s c) = cb_port c"
    "cb_dbuser (builder_clientlocale s c) = cb_dbuser c"
    "cb_password (builder_clientlocale s c) = cb_password c" for s c
    by (simp_all add: builder_clientlocale_def)
  have fr': "cb_server_certs ?b = cb_server_certs b" "cb_hostname ?b = cb_hostname b"
    "cb_port ?b = cb_port b" "cb_dbuser ?b = cb_dbuser b" "cb_password ?b = cb_password b"
    by (simp_all add: fr split: option.splits)
  consider "name = option_client_locale" | "name \<noteq> option_client_locale" "name = option_client_locale_from_env"
    | "name \<noteq> option_client_locale" "name \<noteq> option_client_locale_from_env" by blast
  then show ?case
  proof cases
    case 1
    then have "url_options env qs (builder_clientlocale v b) certs = Ok (b', certs')"
      using Cons.prems by (simp add: q)
    from Cons.IH [OF this] 1 show ?thesis by (simp add: q fr)
  next
    case 2
    then have "url_options env qs ?b certs = Ok (b', certs')"
      using Cons.prems by (simp add: q)
    from Cons.IH [OF this] 2 show ?thesis by (simp add: q fr')
  next
    case 3
    then show ?thesis using Cons.prems
      by (auto simp: q split: if_splits dest!: Cons.IH)
  qed
qed simp

lemma url_into_builder_cases:
  assumes "url_into_builder env u = Ok b"
  obtains b4 t b5 certs where "url_options env (url_query_pairs u) b4 [] = Ok (b5, certs)"
    "cb_server_certs b4 = []" "t \<longleftrightarrow> url_scheme u = ascii ''hdbsqls''" "\<not> (t \<and> certs = [])"
    "b = b5\<lparr>cb_server_certs := cb_server_certs b5 @ certs\<rparr>"
proof -
  have scheme: "ascii ''hdbsql'' \<noteq> ascii ''hdbsqls''" by code_simp
  define b4 where "b4 = (let b1 = (case url_host_str u of Some h \<Rightarrow> builder_hostname h builder_new | None \<Rightarrow> builder_new);
          b2 = (case url_port u of Some p \<Rightarrow> builder_port p b1 | None \<Rightarrow> b1);
          b3 = (if url_username u \<noteq> [] then builder_dbuser (url_username u) b2 else b2)
      in (case url_password u of Some pw \<Rightarrow> builder_password pw b3 | None \<Rightarrow> b3))"
  have b4: "cb_server_certs b4 = []"
    by (auto simp: b4_def Let_def builder_new_def builder_hostname_def builder_port_def
        builder_dbuser_def builder_password_def split: option.splits)
  have "\<exists>t b5 certs. url_options env (url_query_pairs u) b4 [] = Ok (b5, certs) \<and>
      (t \<longleftrightarrow> url_scheme u = ascii ''hdbsqls'') \<and> \<not> (t \<and> certs = []) \<and>
      b = foldl (\<lambda>b sc. builder_tls_with sc b) b5 certs"
    using assms scheme unfolding url_into_builder_def Let_def b4_def
    by (fastforce simp: res_simps split: if_splits)
  then show ?thesis using that b4 by (auto simp: foldl_tls_with)
qed

lemma url_into_certs:
  assumes "url_into_connect_params env u = Ok p"
  shows "cp_server_certs p = query_certs (url_query_pairs u) \<and>
    (use_tls p \<longleftrightarrow> query_certs (url_query_pairs u) \<noteq> []) \<and>
    (url_scheme u = ascii ''hdbsqls'' \<longrightarrow> use_tls p)"
proof -
  obtain b where b: "url_into_builder env u = Ok b" "builder_build b = Ok p"
    using assms by (auto simp: url_into_connect_params_def res_simps)
  have p: "cp_server_certs p = cb_server_certs b"
    using b(2) by (auto simp: builder_build_def res_simps)
  obtain b4 t b5 certs where b5: "url_options env (url_query_pairs u) b4 [] = Ok (b5, certs)"
    "cb_server_certs b4 = []" "t \<longleftrightarrow> url_scheme u = ascii ''hdbsqls''" "\<not> (t \<and> certs = [])"
    "b = b5\<lparr>cb_server_certs := cb_server_certs b5 @ certs\<rparr>"
    using b(1) by (rule url_into_builder_cases)
  have "certs = query_certs (url_query_pairs u)" "cb_server_certs b5 = []"
    using url_options_certs [OF b5(1)] b5(2) by auto
  then show ?thesis using p b5 by (auto simp: use_tls_def)
qed

text \<open>The parameters made of a URL hold exactly the certificates the query names, in their order, and
  TLS is used if and only if there is one: always for the scheme hdbsqls, but also for hdbsql.\<close>

theorem url_tls_iff_certificates:
  assumes "url_into_connect_params env u = Ok p"
  shows "cp_server_certs p = query_certs (url_query_pairs u) \<and>
    (use_tls p \<longleftrightarrow> query_certs (url_query_pairs u) \<noteq> []) \<and>
    (url_scheme u = ascii ''hdbsqls'' \<longrightarrow> use_tls p)"
  using assms by (rule url_into_certs)

definition sample_url :: url where
  "sample_url = \<lparr>url_scheme = ascii ''hdbsqls'', url_username = ascii ''u'', url_password = Some (ascii ''p''),
     url_host_str = Some (ascii ''h''), url_port = Some 30015,
     url_query_pairs = [(option_cert_dir, ascii ''d''), (option_cert_mozilla, [])]\<rparr>"

definition sample_url_params :: connect_params where
  "sample_url_params = \<lparr>cp_host = ascii ''h'', cp_addr = ascii ''h:30015'', cp_dbuser = ascii ''u'',
     cp_password = ascii ''p'', cp_clientlocale = None,
     cp_server_certs = [SC_Directory (ascii ''d''), SC_RootCertificates]\<rparr>"

lemma sample_url_into: "url_into_connect_params (\<lambda>_. None) sample_url = Ok sample_url_params"
  by code_simp

lemma sample_url_scheme: "url_scheme sample_url = ascii ''hdbsqls''"
  by (simp add: sample_url_def)

theorem url_tls_iff_certificates_witness:
  "cp_server_certs sample_url_params = query_certs (url_query_pairs sample_url) \<and> use_tls sample_url_params"
  using url_tls_iff_certificates [OF sample_url_into] sample_url_scheme by blast

end
