(* ===== verification/Hdb_Messages.thy ===== *)
theory Hdb_Messages
  imports Hdb_Parts
begin

text \<open>
  Messages (protocol/request.rs, reply.rs, request\_type.rs, reply\_type.rs): a request is a message
  header of 32 bytes, a segment header of 24 bytes and the parts; a reply has the same shape. The
  numbers of the headers keep their width, every cast of the code is written out.
\<close>

section \<open>Message types\<close>

datatype reply_type =
    RT_Nil | RT_Ddl | RT_Insert | RT_Update | RT_Delete | RT_Select | RT_SelectForUpdate
    | RT_Explain | RT_DbProcedureCall | RT_DbProcedureCallWithResult | RT_Fetch | RT_Commit
    | RT_Rollback | RT_Connect | RT_WriteLob | RT_ReadLob | RT_Disconnect | RT_CloseCursor
    | RT_FindLob | RT_XaStart | RT_XaJoin | RT_XAControl | RT_XAPrepare | RT_XARecover

definition reply_type_from_i16 :: "i16 \<Rightarrow> (reply_type, ioerr) res" where
  "reply_type_from_i16 v =
     (if v = 0 then Ok RT_Nil
      else if v = 1 then Ok RT_Ddl
      else if v = 2 then Ok RT_Insert
      else if v = 3 then Ok RT_Update
      else if v = 4 then Ok RT_Delete
      else if v = 5 then Ok RT_Select
      else if v = 6 then Ok RT_SelectForUpdate
      else if v = 7 then Ok RT_Explain
      else if v = 8 then Ok RT_DbProcedureCall
      else if v = 9 then Ok RT_DbProcedureCallWithResult
      else if v = 10 then Ok RT_Fetch
      else if v = 11 then Ok RT_Commit
      else if v = 12 then Ok RT_Rollback
      else if v = 14 then Ok RT_Connect
      else if v = 15 then Ok RT_WriteLob
      else if v = 16 then Ok RT_ReadLob
      else if v = 18 then Ok RT_Disconnect
      else if v = 19 then Ok RT_CloseCursor
      else if v = 20 then Ok RT_FindLob
      else if v = 22 then Ok RT_XaStart
      else if v = 23 then Ok RT_XaJoin
      else if v = 25 then Ok RT_XAControl
      else if v = 26 then Ok RT_XAPrepare
      else if v = 27 then Ok RT_XARecover
      else Err (io_error ''found unexpected value {} for ReplyType''))"

datatype request_type =
    RQ_ExecuteDirect | RQ_Prepare | RQ_Execute | RQ_ReadLob | RQ_WriteLob | RQ_Authenticate
    | RQ_Connect | RQ_CloseResultSet | RQ_DropStatementId | RQ_FetchNext | RQ_Disconnect
    | RQ_XAStart | RQ_XAEnd | RQ_XAPrepare | RQ_XACommit | RQ_XARollback | RQ_XARecover
    | RQ_XAForget

fun request_type_as_i8 :: "request_type \<Rightarrow> i8" where
  "request_type_as_i8 RQ_ExecuteDirect = 2"
| "request_type_as_i8 RQ_Prepare = 3"
| "request_type_as_i8 RQ_Execute = 13"
| "request_type_as_i8 RQ_ReadLob = 16"
| "request_type_as_i8 RQ_WriteLob = 17"
| "request_type_as_i8 RQ_Authenticate = 65"
| "request_type_as_i8 RQ_Connect = 66"
| "request_type_as_i8 RQ_CloseResultSet = 69"
| "request_type_as_i8 RQ_DropStatementId = 70"
| "request_type_as_i8 RQ_FetchNext = 71"
| "request_type_as_i8 RQ_Disconnect = 77"
| "request_type_as_i8 RQ_XAStart = 83"
| "request_type_as_i8 RQ_XAEnd = 84"
| "request_type_as_i8 RQ_XAPrepare = 85"
| "request_type_as_i8 RQ_XACommit = 86"
| "request_type_as_i8 RQ_XARollback = 87"
| "request_type_as_i8 RQ_XARecover = 88"
| "request_type_as_i8 RQ_XAForget = 89"

lemma request_type_as_i8_inj: "request_type_as_i8 a = request_type_as_i8 b \<Longrightarrow> a = b"
  by (cases a; cases b) simp_all

section \<open>Requests\<close>

record request =
  rq_type :: request_type
  rq_command_options :: u8
  rq_parts :: "part list"

definition hold_cursors_over_commit :: u8 where
  "hold_cursors_over_commit = 8"

definition request_new :: "request_type \<Rightarrow> u8 \<Rightarrow> request" where
  "request_new t opts = \<lparr>rq_type = t, rq_command_options = opts, rq_parts = []\<rparr>"

definition request_new_for_disconnect :: request where
  "request_new_for_disconnect = request_new RQ_Disconnect 0"

definition request_push :: "part \<Rightarrow> request \<Rightarrow> request" where
  "request_push p r = r\<lparr>rq_parts := rq_parts r @ [p]\<rparr>"

definition add_statement_context :: "i64 \<Rightarrow> request \<Rightarrow> request" where
  "add_statement_context ssi_value r =
     request_push (P_StatementContext (set_statement_sequence_info ssi_value [])) r"

fun parts_size :: "parameter_descriptor list option \<Rightarrow> part list \<Rightarrow> (nat, ioerr) res" where
  "parts_size ds [] = Ok 0"
| "parts_size ds (p # ps) =
     res_bind (part_size p True ds) (\<lambda>n. res_map (\<lambda>m. n + m) (parts_size ds ps))"

definition seg_size :: "parameter_descriptor list option \<Rightarrow> request \<Rightarrow> (nat, ioerr) res" where
  "seg_size ds r = res_map (\<lambda>n. 24 + n) (parts_size ds (rq_parts r))"

definition varpart_size :: "parameter_descriptor list option \<Rightarrow> request \<Rightarrow> (u32, ioerr) res" where
  "varpart_size ds r = res_map word_of_nat (seg_size ds r)"

text \<open>The loop over the parts hands the remaining buffer size from one part to the next.\<close>

fun emit_parts ::
    "cesu8_lib \<Rightarrow> num_lib \<Rightarrow> parameter_descriptor list option \<Rightarrow> part list \<Rightarrow> u32
      \<Rightarrow> (bytes \<times> u32, ioerr) res" where
  "emit_parts c8 nl ds [] remaining = Ok ([], remaining)"
| "emit_parts c8 nl ds (p # ps) remaining =
     res_bind (part_emit c8 nl p remaining ds) (\<lambda>(bs, r).
     res_bind (emit_parts c8 nl ds ps r) (\<lambda>(cs, r'). Ok (bs @ cs, r')))"

definition message_header :: "i64 \<Rightarrow> i32 \<Rightarrow> u32 \<Rightarrow> u32 \<Rightarrow> bytes" where
  "message_header session_id seq_number varpart remaining =
     write_i64 session_id @ write_i32 seq_number @ write_u32 varpart @ write_u32 remaining
       @ write_i16 1 @ replicate 10 0"

definition segment_header :: "i32 \<Rightarrow> i16 \<Rightarrow> request_type \<Rightarrow> bool \<Rightarrow> u8 \<Rightarrow> bytes" where
  "segment_header sz parts_len t auto_commit command_options =
     write_i32 sz @ write_i32 0 @ write_i16 parts_len @ write_i16 1
       @ [1, request_type_as_i8 t, if auto_commit then 1 else 0, command_options] @ replicate 8 0"

text \<open>\<^verbatim>\<open>MESSAGE_HEADER_SIZE + varpart_size\<close> overflows for a message of more than \<open>2 ^ 32 - 33\<close> bytes.\<close>

definition request_emit ::
    "cesu8_lib \<Rightarrow> num_lib \<Rightarrow> i64 \<Rightarrow> i32 \<Rightarrow> bool \<Rightarrow> parameter_descriptor list option \<Rightarrow> request \<Rightarrow> wr" where
  "request_emit c8 nl session_id seq_number auto_commit ds r =
     res_bind (varpart_size ds r) (\<lambda>varpart.
     if 32 + int (unat varpart) \<ge> 2 ^ 32 then Panic
     else
       let remaining = (32 + varpart) - 32
       in res_bind (seg_size ds r) (\<lambda>sz.
          res_bind (sub_u32 remaining 24) (\<lambda>remaining'.
          res_bind (emit_parts c8 nl ds (rq_parts r) remaining') (\<lambda>(bs, _).
          Ok (message_header session_id seq_number varpart remaining
              @ segment_header (word_of_nat sz) (word_of_nat (length (rq_parts r))) (rq_type r)
                  auto_commit (rq_command_options r)
              @ bs)))))"

section \<open>Replies\<close>

record reply =
  rp_session_id :: i64
  rp_replytype :: reply_type
  rp_parts :: "part list"

definition reply_new :: "i64 \<Rightarrow> reply_type \<Rightarrow> reply" where
  "reply_new sid t = \<lparr>rp_session_id = sid, rp_replytype = t, rp_parts = []\<rparr>"

datatype seg_kind = SK_Request | SK_Reply | SK_Error

definition seg_kind_from_i8 :: "i8 \<Rightarrow> (seg_kind, ioerr) res" where
  "seg_kind_from_i8 v =
     (if v = 1 then Ok SK_Request
      else if v = 2 then Ok SK_Reply
      else if v = 5 then Ok SK_Error
      else Err (io_error ''reply::Kind {} not implemented''))"

definition parse_message_and_sequence_header :: "(i16 \<times> reply) rd" where
  "parse_message_and_sequence_header =
     rd_bind read_i64 (\<lambda>session_id.
     rd_bind read_i32 (\<lambda>packet_seq_number.
     rd_bind read_u32 (\<lambda>varpart.
     rd_bind read_u32 (\<lambda>remaining_bufsize.
     rd_bind read_i16 (\<lambda>no_of_segs.
     if no_of_segs = 0 then rd_fail (io_error ''empty response (is ok for drop connection)'')
     else if sint no_of_segs > 1 then rd_fail (io_error ''no_of_segs = {} > 1'')
     else
       rd_bind (skip_bytes 10) (\<lambda>_.
       rd_bind read_i32 (\<lambda>_.
       rd_bind read_i32 (\<lambda>_.
       rd_bind read_i16 (\<lambda>no_of_parts.
       rd_bind read_i16 (\<lambda>_.
       rd_bind (rd_bind read_u8 (\<lambda>b. rd_lift (seg_kind_from_i8 b))) (\<lambda>kind.
       if kind = SK_Request then rd_fail (io_error ''Cannot _parse_ a request'')
       else
         rd_bind (skip_bytes 1) (\<lambda>_.
         rd_bind (rd_bind read_i16 (\<lambda>i. rd_lift (reply_type_from_i16 i))) (\<lambda>reply_type.
         rd_bind (skip_bytes 8) (\<lambda>_.
         rd_return (no_of_parts, reply_new session_id reply_type)))))))))))))))"

text \<open>
  \<open>parse_parts\<close> reads the \<open>Suc n\<close> parts that are left; a part may take parts that were read before
  it (a result set takes its id and its metadata) before it is appended itself.
\<close>

primrec parse_parts ::
    "cesu8_lib \<Rightarrow> num_lib \<Rightarrow> resultset_metadata option \<Rightarrow> parameter_descriptor list option \<Rightarrow> bool
      \<Rightarrow> nat \<Rightarrow> part list \<Rightarrow> rs_state option \<Rightarrow> (part list \<times> rs_state option) rd" where
  "parse_parts c8 nl o_a_rsmd o_a_descriptors has_conn 0 parts o_rs = rd_return (parts, o_rs)"
| "parse_parts c8 nl o_a_rsmd o_a_descriptors has_conn (Suc n) parts o_rs =
     rd_bind (part_parse c8 nl parts has_conn o_a_rsmd o_a_descriptors o_rs (n = 0))
       (\<lambda>(p, parts', o_rs').
         parse_parts c8 nl o_a_rsmd o_a_descriptors has_conn n (parts' @ [p]) o_rs')"

definition reply_parse ::
    "cesu8_lib \<Rightarrow> num_lib \<Rightarrow> resultset_metadata option \<Rightarrow> parameter_descriptor list option
      \<Rightarrow> rs_state option \<Rightarrow> bool \<Rightarrow> (reply \<times> rs_state option) rd" where
  "reply_parse c8 nl o_a_rsmd o_a_descriptors o_rs has_conn =
     rd_bind parse_message_and_sequence_header (\<lambda>(no_of_parts, reply).
     rd_bind (parse_parts c8 nl o_a_rsmd o_a_descriptors has_conn (nat (sint no_of_parts)) [] o_rs)
       (\<lambda>(parts, o_rs'). rd_return (reply\<lparr>rp_parts := parts\<rparr>, o_rs')))"

definition assert_expected_reply_type :: "reply_type \<Rightarrow> reply \<Rightarrow> (unit, hdb_error) res" where
  "assert_expected_reply_type expected r =
     (if rp_replytype r = expected then Ok ()
      else Err (ImplDetailed ''Expected reply type {:?}, got {:?}''))"

lemma message_header_length [simp]: "length (message_header s n v r) = 32"
  by (simp add: message_header_def)

lemma segment_header_length [simp]: "length (segment_header z l t a c) = 24"
  by (simp add: segment_header_def)

end
