(* ===== verification/Hdb_Wire_Props.thy ===== *)
theory Hdb_Wire_Props
  imports Hdb_Messages
begin

text \<open>
  The wire format of parts and of messages: the size announced for a part is the number of bytes
  written for it, the accounting of the remaining buffer is exact, and what is written for a part
  that both sides use is read back as the same part.
\<close>

section \<open>Option parts of the model\<close>

interpretation ref_conn_opts: option_part_codec ref_cesu8 conn_opt_id_to_u8 conn_opt_id_from_u8
  by (rule option_part_codec.intro [OF ref.cesu8_crate_axioms conn_opt_ids.option_id_axioms])

interpretation ref_statement_context:
  option_part_codec ref_cesu8 statement_context_id_to_u8 statement_context_id_from_u8
  by (rule option_part_codec.intro [OF ref.cesu8_crate_axioms statement_context_ids.option_id_axioms])

section \<open>Sizes\<close>

abbreviation wf_options :: "'id option_part \<Rightarrow> bool" where
  "wf_options m \<equiv> list_all (\<lambda>(_, v). wf_option_value v) m"

text \<open>The parts whose length fields do not overflow.\<close>

fun wf_sent :: "num_lib \<Rightarrow> parameter_descriptor list option \<Rightarrow> part \<Rightarrow> bool" where
  "wf_sent nl ds (P_Auth af) \<longleftrightarrow> list_all (\<lambda>v. length v \<le> 250) af"
| "wf_sent nl ds (P_ClientContext m) \<longleftrightarrow> wf_options m"
| "wf_sent nl ds (P_ClientInfo ci) \<longleftrightarrow> (\<forall>(k, v) \<in> set ci. valid_utf8 v)"
| "wf_sent nl ds (P_Command s) \<longleftrightarrow> valid_utf8 s"
| "wf_sent nl ds (P_CommandInfo m) \<longleftrightarrow> wf_options m"
| "wf_sent nl ds (P_ConnectOptions m) \<longleftrightarrow> wf_options m"
| "wf_sent nl ds (P_LobFlags m) \<longleftrightarrow> wf_options m"
| "wf_sent nl ds (P_Parameters rows) \<longleftrightarrow>
     (case ds of Some d \<Rightarrow> \<forall>row \<in> set rows. wf_row nl row (iter_in d) | None \<Rightarrow> True)"
| "wf_sent nl ds (P_SessionContext m) \<longleftrightarrow> wf_options m"
| "wf_sent nl ds (P_StatementContext m) \<longleftrightarrow> wf_options m"
| "wf_sent nl ds (P_TransactionFlags m) \<longleftrightarrow> wf_options m"
| "wf_sent nl ds (P_XatOptions m) \<longleftrightarrow> wf_options m"
| "wf_sent nl ds _ \<longleftrightarrow> True"

lemma auth_fields_emit_size:
  assumes "list_all (\<lambda>v. length v \<le> 250) af" "auth_fields_emit af = Ok bs"
  shows "length bs = auth_fields_size af"
  using assms auth_field_short.size_emit_list
  by (auto simp: auth_fields_emit_def auth_fields_size_def res_simps)

lemma part_emit_raw_size:
  assumes c8: "cesu8_crate c8" and nl: "num_crates nl" and wf: "wf_sent nl ds p"
    and e: "part_emit_raw c8 nl p ds = Ok bs"
  shows "part_raw_size p ds = Ok (length bs)"
proof -
  note opt = cesu8_crate.op_size_emit [OF c8]
  show ?thesis
  proof (cases p)
    case (P_Parameters rows)
    then show ?thesis using wf e rows_emit_size [OF c8 nl]
      by (cases ds) (auto simp: part_emit_raw_def part_raw_size_def)
  next
    case (P_ClientInfo ci)
    then show ?thesis using wf e client_info_emit_size [OF c8]
      by (auto simp: part_emit_raw_def part_raw_size_def)
  next
    case (P_Command s)
    then show ?thesis using wf e cesu8_crate.cesu8_length_eq [OF c8, of s]
      by (auto simp: part_emit_raw_def part_raw_size_def)
  next
    case (P_Auth af)
    then show ?thesis using wf e auth_fields_emit_size
      by (auto simp: part_emit_raw_def part_raw_size_def)
  qed (use wf e in \<open>auto simp: part_emit_raw_def part_raw_size_def opt\<close>)
qed

lemma sub_u32_Ok: "sub_u32 a b = Ok c \<Longrightarrow> unat b \<le> unat a \<and> unat c = unat a - unat b"
  by (auto simp: sub_u32_def word_le_nat_alt unat_sub split: if_splits)

lemma part_header_count_length: "part_header_count i = Ok bs \<Longrightarrow> length bs = 6"
  by (auto simp: part_header_count_def split: if_splits)

text \<open>What \<^verbatim>\<open>Part::emit\<close> writes for a part of size \<open>n\<close>.\<close>

lemma part_emit_Ok:
  assumes "cesu8_crate c8" "num_crates nl" "wf_sent nl ds p" "part_emit c8 nl p r ds = Ok (bs, r')"
  obtains c cnt body where "part_count p = Ok c" "part_header_count c = Ok cnt"
    "part_emit_raw c8 nl p ds = Ok body"
    "bs = [part_kind_as_i8 (part_kind_of p), 0] @ cnt @ write_i32 (word_of_nat (length body))
       @ write_i32 r @ body @ replicate (padsize (length body)) 0"
    "part_size p True ds = Ok (length bs)"
    "(sub_u32 r 16 :: (u32, ioerr) res) = Ok (r - 16)"
    "(sub_u32 (r - 16) (word_of_nat (length body)) :: (u32, ioerr) res) = Ok (r - 16 - word_of_nat (length body))"
    "(sub_u32 (r - 16 - word_of_nat (length body)) (word_of_nat (padsize (length body))) :: (u32, ioerr) res) = Ok r'"
proof -
  from assms(4) obtain c cnt sz r1 body r2 where *: "part_count p = Ok c"
    "part_header_count c = Ok cnt" "part_body_size p False ds = Ok sz" "(sub_u32 r 16 :: (u32, ioerr) res) = Ok r1"
    "part_emit_raw c8 nl p ds = Ok body"
    "(sub_u32 r1 (word_of_nat sz) :: (u32, ioerr) res) = Ok r2" "(sub_u32 r2 (word_of_nat (padsize sz)) :: (u32, ioerr) res) = Ok r'"
    "bs = [part_kind_as_i8 (part_kind_of p), 0] @ cnt @ write_i32 (word_of_nat sz)
       @ write_i32 r @ body @ replicate (padsize sz) 0"
    by (auto simp: part_emit_def part_emit_body_def res_simps)
  have raw: "part_raw_size p ds = Ok (length body)"
    using part_emit_raw_size [OF assms(1-3) *(5)] .
  have sz: "sz = length body" using *(3) raw by (simp add: part_body_size_def)
  have "r1 = r - 16" "r2 = r - 16 - word_of_nat (length body)"
    using *(4,6) by (auto simp: sub_u32_def sz split: if_splits)
  moreover have "part_size p True ds = Ok (length bs)"
    using raw part_header_count_length [OF *(2)] by (simp add: part_size_def part_body_size_def *(8) sz)
  ultimately show ?thesis using that [of c cnt body] * sz by simp
qed

lemma part_emit_accounting:
  assumes "cesu8_crate c8" "num_crates nl" "wf_sent nl ds p" "part_emit c8 nl p r ds = Ok (bs, r')"
    and "length bs < 2 ^ 31"
  shows "part_size p True ds = Ok (length bs) \<and> unat r = unat r' + length bs"
proof -
  obtain c cnt body where *: "part_header_count c = Ok cnt"
    "bs = [part_kind_as_i8 (part_kind_of p), 0] @ cnt @ write_i32 (word_of_nat (length body))
       @ write_i32 r @ body @ replicate (padsize (length body)) 0"
    "part_size p True ds = Ok (length bs)" "(sub_u32 r 16 :: (u32, ioerr) res) = Ok (r - 16)"
    "(sub_u32 (r - 16) (word_of_nat (length body)) :: (u32, ioerr) res) = Ok (r - 16 - word_of_nat (length body))"
    "(sub_u32 (r - 16 - word_of_nat (length body)) (word_of_nat (padsize (length body))) :: (u32, ioerr) res) = Ok r'"
    using part_emit_Ok [OF assms(1-4)] by metis
  have len: "length bs = 16 + length body + padsize (length body)"
    using part_header_count_length [OF *(1)] by (simp add: *(2))
  have sixteen: "unat (16 :: u32) = 16" by simp
  have u: "unat (word_of_nat (length body) :: u32) = length body"
    "unat (word_of_nat (padsize (length body)) :: u32) = padsize (length body)"
    using assms(5) len by (simp_all add: unat_of_nat)
  have "unat r = unat r' + length bs"
    using len sub_u32_Ok [OF *(4)] sub_u32_Ok [OF *(5), unfolded u] sub_u32_Ok [OF *(6), unfolded u]
    unfolding sixteen by linarith
  then show ?thesis using *(3) by simp
qed

lemma emit_parts_accounting:
  assumes "cesu8_crate c8" "num_crates nl"
  shows "\<forall>p \<in> set ps. wf_sent nl ds p \<Longrightarrow> emit_parts c8 nl ds ps r = Ok (bs, r')
    \<Longrightarrow> length bs < 2 ^ 31 \<Longrightarrow> parts_size ds ps = Ok (length bs) \<and> unat r = unat r' + length bs"
proof (induction ps arbitrary: r bs)
  case (Cons p ps)
  from Cons.prems obtain b r1 cs where e: "part_emit c8 nl p r ds = Ok (b, r1)"
    "emit_parts c8 nl ds ps r1 = Ok (cs, r')" "bs = b @ cs"
    by (auto simp: res_simps)
  have p: "part_size p True ds = Ok (length b)" "unat r = unat r1 + length b"
    using part_emit_accounting [OF assms _ e(1)] Cons.prems e(3) by auto
  have "parts_size ds ps = Ok (length cs)" "unat r1 = unat r' + length cs"
    using Cons.IH [OF _ e(2)] Cons.prems e(3) by auto
  then show ?case using p e(3) by simp
qed simp

lemma parts_size_emit:
  assumes "cesu8_crate c8" "num_crates nl"
  shows "\<forall>p \<in> set ps. wf_sent nl ds p \<Longrightarrow> emit_parts c8 nl ds ps r = Ok (bs, r')
    \<Longrightarrow> parts_size ds ps = Ok (length bs)"
proof (induction ps arbitrary: r bs)
  case (Cons p ps)
  from Cons.prems obtain b r1 cs where e: "part_emit c8 nl p r ds = Ok (b, r1)"
    "emit_parts c8 nl ds ps r1 = Ok (cs, r')" "bs = b @ cs"
    by (auto simp: res_simps)
  have "part_size p True ds = Ok (length b)"
    using part_emit_Ok [OF assms _ e(1)] Cons.prems by (metis list.set_intros(1))
  then show ?case using Cons.IH [OF _ e(2)] Cons.prems e(3) by simp
qed simp

section \<open>Requests\<close>

text \<open>C1: A request of less than 2 GB is written as its two headers and its parts; both length fields of the
  message header hold the number of bytes that follow it, the segment length is the same number,
  and after the last part the remaining buffer size is exactly used up.\<close>

theorem request_emit_layout:
  assumes "cesu8_crate c8" "num_crates nl" "\<forall>p \<in> set (rq_parts r). wf_sent nl ds p"
    and "request_emit c8 nl sid nsn ac ds r = Ok bs" and "length bs < 2 ^ 31"
  shows "\<exists>body. emit_parts c8 nl ds (rq_parts r) (word_of_nat (length body)) = Ok (body, 0)
    \<and> bs = message_header sid nsn (word_of_nat (length bs - 32)) (word_of_nat (length bs - 32))
         @ segment_header (word_of_nat (length bs - 32)) (word_of_nat (length (rq_parts r)))
             (rq_type r) ac (rq_command_options r) @ body"
proof -
  obtain sz body r' where *: "seg_size ds r = Ok sz"
    "sub_u32 (word_of_nat sz) 24 = Ok (word_of_nat sz - 24)"
    "emit_parts c8 nl ds (rq_parts r) (word_of_nat sz - 24) = Ok (body, r')"
    "bs = message_header sid nsn (word_of_nat sz) (word_of_nat sz)
      @ segment_header (word_of_nat sz) (word_of_nat (length (rq_parts r))) (rq_type r) ac
          (rq_command_options r) @ body"
    using assms(4)
    by (auto simp: request_emit_def varpart_size_def res_simps Let_def sub_u32_def split: if_splits)
  have ps: "parts_size ds (rq_parts r) = Ok (length body)"
    using parts_size_emit [OF assms(1,2,3) *(3)] .
  then have sz: "sz = 24 + length body" using *(1) by (simp add: seg_size_def)
  have len: "length bs = 32 + sz" using sz by (simp add: *(4))
  have w: "word_of_nat sz - 24 = (word_of_nat (length body) :: u32)" by (simp add: sz)
  have "length body < 2 ^ 31" using assms(5) len sz by simp
  then have "unat (word_of_nat (length body) :: u32) = unat r' + length body"
    using emit_parts_accounting [OF assms(1,2,3) *(3)] by (simp add: w)
  then have "unat r' = 0"
    using \<open>length body < 2 ^ 31\<close> by (simp add: unat_of_nat)
  then have "r' = 0" by (simp add: unsigned_eq_0_iff)
  then show ?thesis using *(3,4) w len by auto
qed

definition sample_request :: request where
  "sample_request = request_push (P_Command (ascii ''SELECT 1 FROM DUMMY''))
     (add_statement_context 7 (request_new RQ_ExecuteDirect hold_cursors_over_commit))"

definition sample_request_bytes :: bytes where
  "sample_request_bytes =
     message_header 42 3 96 96 @ segment_header 96 2 RQ_ExecuteDirect True 8
       @ ([39, 0, 1, 0, 0, 0, 0, 0, 10, 0, 0, 0, 72, 0, 0, 0, 1, 4, 7, 0, 0, 0, 0, 0, 0, 0, 0, 0, 0, 0, 0, 0]
       @ [3, 0, 1, 0, 0, 0, 0, 0, 19, 0, 0, 0, 40, 0, 0, 0] @ ascii ''SELECT 1 FROM DUMMY''
       @ [0, 0, 0, 0, 0])"

lemma sample_request_emit:
  "request_emit ref_cesu8 ref_num 42 3 True None sample_request = Ok sample_request_bytes"
  by code_simp

theorem request_emit_layout_witness:
  "\<exists>body. emit_parts ref_cesu8 ref_num None (rq_parts sample_request) (word_of_nat (length body)) = Ok (body, 0)"
proof -
  have "\<forall>p \<in> set (rq_parts sample_request). wf_sent ref_num None p" by code_simp
  moreover have "length sample_request_bytes < 2 ^ 31"
    by (simp add: sample_request_bytes_def ascii_def)
  ultimately show ?thesis
    using request_emit_layout [OF ref.cesu8_crate_axioms ref_num.num_crates_axioms _ sample_request_emit]
    by blast
qed

section \<open>Round trip of the parts both sides use\<close>

text \<open>The options a parser can produce, with values whose length fits.\<close>

definition wf_option_part :: "('id \<Rightarrow> u8) \<Rightarrow> (u8 \<Rightarrow> 'id) \<Rightarrow> 'id option_part \<Rightarrow> bool" where
  "wf_option_part to_u8 from_u8 m \<longleftrightarrow>
     list_all (\<lambda>(k, v). from_u8 (to_u8 k) = k \<and> wf_option_value v) m \<and> distinct (map fst m)
       \<and> int (length m) < 2 ^ 31"

fun wf_echoed :: "part \<Rightarrow> bool" where
  "wf_echoed (P_Auth af) \<longleftrightarrow> list_all (\<lambda>v. length v \<le> 250) af \<and> length af < 2 ^ 16"
| "wf_echoed (P_CommandInfo m) \<longleftrightarrow> wf_option_part command_info_id_to_u8 command_info_id_from_u8 m"
| "wf_echoed (P_ConnectOptions m) \<longleftrightarrow> wf_option_part conn_opt_id_to_u8 conn_opt_id_from_u8 m"
| "wf_echoed (P_SessionContext m) \<longleftrightarrow> wf_option_part session_context_id_to_u8 session_context_id_from_u8 m"
| "wf_echoed (P_StatementContext m) \<longleftrightarrow>
     wf_option_part statement_context_id_to_u8 statement_context_id_from_u8 m"
| "wf_echoed (P_TransactionFlags m) \<longleftrightarrow> wf_option_part ta_flag_id_to_u8 ta_flag_id_from_u8 m"
| "wf_echoed (P_XatOptions m) \<longleftrightarrow> wf_option_part xat_option_id_to_u8 xat_option_id_from_u8 m"
| "wf_echoed (P_ResultSetId _) \<longleftrightarrow> True"
| "wf_echoed (P_StatementId _) \<longleftrightarrow> True"
| "wf_echoed _ \<longleftrightarrow> False"

lemma wf_option_part_options: "wf_option_part t f m \<Longrightarrow> wf_options m"
  by (auto simp: wf_option_part_def list_all_iff)

lemma wf_echoed_sent: "wf_echoed p \<Longrightarrow> wf_sent nl ds p"
  by (cases p) (auto dest: wf_option_part_options)

lemma option_part_back:
  assumes "cesu8_crate c8" "option_id to_u8 from_u8" "wf_option_part to_u8 from_u8 m"
    "op_emit c8 to_u8 m = Ok bs"
  shows "op_parse c8 from_u8 (op_len m) (bs @ rest) = Ok (m, rest)"
  using option_part_codec.op_parse_emit [OF option_part_codec.intro [OF assms(1,2)], of m bs rest] assms(3,4)
  by (simp add: wf_option_part_def op_len_def)

lemma auth_fields_back:
  assumes "list_all (\<lambda>v. length v \<le> 250) af" "length af < 2 ^ 16" "auth_fields_emit af = Ok bs"
  shows "auth_fields_parse (bs @ rest) = Ok (af, rest)"
proof -
  have "list_all (\<lambda>v. length v \<le> 65535) af" using assms(1) by (auto simp: list_all_iff)
  moreover have "unat (word_of_nat (length af) :: u16) = length af"
    using assms(2) by (simp add: unat_of_nat)
  ultimately show ?thesis using assms(3) auth_field.parse_repeat
    by (auto simp: auth_fields_emit_def auth_fields_parse_def res_simps rd_simps)
qed

lemma parse_part_header_emit:
  assumes "part_header_count c = Ok cnt" "int c < 2 ^ 31" "n < 2 ^ 31"
  shows "parse_part_header ([part_kind_as_i8 k, a] @ cnt @ write_i32 (word_of_nat n) @ write_i32 r @ rest)
    = Ok ((k, a, n, c), rest)"
proof -
  have n: "usize_of (word_of_nat n :: i32) = n" using assms(3) by (intro usize_of_nat) simp_all
  have c31: "c < 2 ^ 31" using assms(2) by simp
  have c32: "usize_of (word_of_nat c :: i32) = c" "sint (word_of_nat c :: i32) = int c"
    using c31 by (simp_all add: usize_of_nat sint_of_nat_small)
  show ?thesis
  proof (cases "int c < 32767")
    case True
    then have cnt: "cnt = write_i16 (word_of_nat c) @ write_i32 0"
      using assms(1) by (simp add: part_header_count_def)
    have s16: "sint (word_of_nat c :: i16) = int c" using True by (simp add: sint_of_nat_small)
    have sc: "scast (word_of_nat c :: i16) = (word_of_nat c :: i32)"
      unfolding scast_eq s16 by simp
    show ?thesis
      using n c32 s16 sc by (auto simp: parse_part_header_def cnt rd_simps part_kind_roundtrip Let_def)
  next
    case False
    then have cnt: "cnt = write_i16 (- 1) @ write_i32 (word_of_nat c)"
      using assms by (simp add: part_header_count_def)
    show ?thesis
      using n c32 by (simp add: parse_part_header_def cnt rd_simps part_kind_roundtrip Let_def)
  qed
qed

lemma padsize_skip: "7 - (n + 7) mod 8 = padsize n"
  by (cases n) (simp_all add: padsize_def)

lemma skip_padding: "rd_repeat k read_u8 (replicate k b @ rest) = Ok (replicate k b, rest)"
  by (induction k) (simp_all add: rd_simps)

lemma part_body_back:
  assumes c8: "cesu8_crate c8" and wf: "wf_echoed p" and c: "part_count p = Ok c"
    and e: "part_emit_raw c8 nl p ds = Ok body"
  shows "part_parse_body c8 nl (part_kind_of p) a c parts hc md dsr rs (body @ rest)
    = Ok ((p, parts, rs), rest)"
proof -
  note opt = option_part_back [OF c8 command_info_ids.option_id_axioms]
    option_part_back [OF c8 conn_opt_ids.option_id_axioms]
    option_part_back [OF c8 session_context_ids.option_id_axioms]
    option_part_back [OF c8 statement_context_ids.option_id_axioms]
    option_part_back [OF c8 ta_flag_ids.option_id_axioms]
    option_part_back [OF c8 xat_option_ids.option_id_axioms]
  show ?thesis
    using wf c e
    by (cases p) (auto simp: part_parse_body_def lift_part_def rd_map_def rd_simps part_emit_raw_def
        part_count_def opt auth_fields_back)
qed

lemma part_back:
  assumes c8: "cesu8_crate c8" and nl: "num_crates nl" and wf: "wf_echoed p"
    and e: "part_emit c8 nl p r ds = Ok (bs, r')" and len: "length bs < 2 ^ 31"
  shows "part_parse c8 nl parts hc md dsr rs l (bs @ rest) = Ok ((p, parts, rs), rest)"
proof -
  obtain c cnt body where *: "part_count p = Ok c" "part_header_count c = Ok cnt"
    "part_emit_raw c8 nl p ds = Ok body"
    "bs = [part_kind_as_i8 (part_kind_of p), 0] @ cnt @ write_i32 (word_of_nat (length body))
       @ write_i32 r @ body @ replicate (padsize (length body)) 0"
    using part_emit_Ok [OF c8 nl wf_echoed_sent [OF wf] e] by metis
  have c: "int c < 2 ^ 31"
    using wf *(1) by (cases p) (auto simp: part_count_def wf_option_part_def op_len_def)
  have n: "length body < 2 ^ 31" "\<not> 2 ^ 64 \<le> int (length body) + 7" using len by (simp_all add: *(4))
  have err: "part_kind_of p \<noteq> PK_Error" using wf by (cases p) auto
  have last: "padsize (length body) = 0" if "part_kind_of p \<in> {PK_ResultSet, PK_ResultSetId, PK_ReadLobReply}"
    using wf that *(3) by (cases p) (auto simp: part_emit_raw_def padsize_def)
  show ?thesis
    using parse_part_header_emit [OF *(2) c n(1), of "part_kind_of p" 0 r] part_body_back [OF c8 wf *(1,3)]
      n(2) err last
    by (auto simp: part_parse_def *(4) rd_bind_apply padsize_skip skip_padding rd_apply_simps)
qed

lemma parse_emitted_parts:
  assumes "cesu8_crate c8" "num_crates nl" "\<forall>p \<in> set ps. wf_echoed p"
    and "emit_parts c8 nl ds ps r = Ok (bs, r')" and "length bs < 2 ^ 31"
  shows "parse_parts c8 nl md dsr hc (length ps) acc rs (bs @ rest) = Ok ((acc @ ps, rs), rest)"
  using assms(3-5)
proof (induction ps arbitrary: r bs acc)
  case (Cons p ps)
  from Cons.prems obtain b r1 cs where e: "part_emit c8 nl p r ds = Ok (b, r1)"
    "emit_parts c8 nl ds ps r1 = Ok (cs, r')" "bs = b @ cs"
    by (auto simp: res_simps)
  have "part_parse c8 nl acc hc md dsr rs l (b @ cs @ rest) = Ok ((p, acc, rs), cs @ rest)" for l
    using part_back [OF assms(1,2) _ e(1)] Cons.prems e(3) by simp
  moreover have "parse_parts c8 nl md dsr hc (length ps) (acc @ [p]) rs (cs @ rest)
      = Ok (((acc @ [p]) @ ps, rs), rest)"
    using Cons.prems e by (intro Cons.IH [OF _ e(2)]) auto
  ultimately show ?case by (simp add: e(3) rd_bind_apply)
qed (simp add: rd_simps)

text \<open>C2: Parts that client and server both send (options of all kinds, authentication fields, the ids of a
  statement and of a result set) are read back by the reply parser as they were written, in
  order, for every iteration order of the option maps, and nothing of what follows is touched.\<close>

theorem parts_roundtrip:
  assumes "cesu8_crate c8" "num_crates nl" "\<forall>p \<in> set ps. wf_echoed p"
    and "emit_parts c8 nl ds ps r = Ok (bs, r')" and "length bs < 2 ^ 31"
  shows "parse_parts c8 nl md dsr hc (length ps) acc rs (bs @ rest) = Ok ((acc @ ps, rs), rest)"
  by (rule parse_emitted_parts [OF assms])

definition sample_parts :: "part list" where
  "sample_parts =
     [P_ConnectOptions [(DataFormatVersion2, OV_INT 8), (OSUser, OV_STRING (ascii ''me''))],
      P_Auth [ascii ''SCRAMSHA256'', [1, 2, 3]], P_StatementId 77]"

theorem parts_roundtrip_witness:
  "\<exists>bs r. emit_parts ref_cesu8 ref_num None sample_parts 200 = Ok (bs, r) \<and>
    parse_parts ref_cesu8 ref_num None None False 3 [] None bs = Ok ((sample_parts, None), [])"
proof -
  have ids: "conn_opt_id_from_u8 (conn_opt_id_to_u8 DataFormatVersion2) = DataFormatVersion2"
    "conn_opt_id_from_u8 (conn_opt_id_to_u8 OSUser) = OSUser"
    "valid_utf8 [109, 101]" "cesu8_length [109, 101] = 2" by code_simp+
  have "\<forall>p \<in> set sample_parts. wf_echoed p"
    by (simp add: sample_parts_def wf_option_part_def ids ascii_def del: conn_opt_id_to_u8.simps)
  moreover have "is_ok (emit_parts ref_cesu8 ref_num None sample_parts 200)" by code_simp
  then obtain bs r where e: "emit_parts ref_cesu8 ref_num None sample_parts 200 = Ok (bs, r)"
    by (auto elim: is_okE)
  moreover have "(case emit_parts ref_cesu8 ref_num None sample_parts 200 of Ok (bs, _) \<Rightarrow> length bs = 96 | _ \<Rightarrow> False)"
    by code_simp
  then have "length bs < 2 ^ 31" using e by simp
  moreover have "length sample_parts = 3" by (simp add: sample_parts_def)
  ultimately show ?thesis
    using parts_roundtrip [OF ref.cesu8_crate_axioms ref_num.num_crates_axioms, of sample_parts None 200 bs r
        None None False "[]" None "[]"] by auto
qed

end
