(* ===== verification/Hdb_Session.thy ===== *)
theory Hdb_Session
  imports Hdb_Messages Hdb_Params "HOL-Library.Multiset"
begin

text \<open>
  The state of a connection (conn/connection\_core.rs, conn/session\_state.rs) and what replies do to
  it: \<^verbatim>\<open>SessionState::update\<close>, \<^verbatim>\<open>evaluate_statement_context\<close>, \<^verbatim>\<open>evaluate_ta_flags\<close>,
  \<^verbatim>\<open>augment_request\<close>, \<^verbatim>\<open>Reply::handle_db_error\<close> (protocol/reply.rs) and
  \<^verbatim>\<open>Parts::into_internal_return_values\<close> (protocol/parts.rs). Methods with \<^verbatim>\<open>&mut self\<close> are functions
  from the old state to the result and the new state; an error keeps what was changed before it.
\<close>

section \<open>State passing\<close>

type_synonym ('s, 'a) st = "'s \<Rightarrow> ('a, hdb_error) res \<times> 's"

definition st_return :: "'a \<Rightarrow> ('s, 'a) st" where
  "st_return a = (\<lambda>s. (Ok a, s))"

definition st_lift :: "('a, hdb_error) res \<Rightarrow> ('s, 'a) st" where
  "st_lift r = (\<lambda>s. (r, s))"

definition st_bind :: "('s, 'a) st \<Rightarrow> ('a \<Rightarrow> ('s, 'b) st) \<Rightarrow> ('s, 'b) st" where
  "st_bind m f = (\<lambda>s. case m s of (Ok a, s') \<Rightarrow> f a s' | (Err e, s') \<Rightarrow> (Err e, s') | (Panic, s') \<Rightarrow> (Panic, s'))"

definition st_update :: "('s \<Rightarrow> 's) \<Rightarrow> ('s, unit) st" where
  "st_update f = (\<lambda>s. (Ok (), f s))"

named_theorems st_simps \<open>equations of state-passing functions\<close>

lemma st_apply_simps [st_simps]:
  "st_return a s = (Ok a, s)" "st_lift r s = (r, s)" "st_update f s = (Ok (), f s)"
  by (simp_all add: st_return_def st_lift_def st_update_def)

lemma st_bind_simps [st_simps]:
  "m s = (Ok a, s') \<Longrightarrow> st_bind m f s = f a s'"
  "m s = (Err e, s') \<Longrightarrow> st_bind m f s = (Err e, s')"
  "m s = (Panic, s') \<Longrightarrow> st_bind m f s = (Panic, s')"
  by (simp_all add: st_bind_def)

lemma st_bind_cases:
  assumes "st_bind m f s = (r, t)"
  obtains (ok) a u where "m s = (Ok a, u)" "f a u = (r, t)"
    | (err) e where "m s = (Err e, t)" "r = Err e"
    | (panic) "m s = (Panic, t)" "r = Panic"
  using assms by (auto simp: st_bind_def split: prod.splits res.splits)

section \<open>The session state\<close>

datatype transaction_state =
    TA_Initial | TA_RolledBack | TA_Committed | TA_ReadTransaction | TA_WriteTransaction

record session_state =
  ta_state :: transaction_state
  isolation_level :: u8
  ddl_commit_mode :: bool
  read_only_mode :: bool
  dead :: bool

definition session_state_default :: session_state where
  "session_state_default = \<lparr>ta_state = TA_Initial, isolation_level = 0, ddl_commit_mode = True,
     read_only_mode = False, dead = False\<rparr>"

definition session_flag :: "ta_flag_id \<Rightarrow> option_value \<Rightarrow> session_state \<Rightarrow> session_state" where
  "session_flag k v s =
     (case (k, v) of
        (RolledBack, OV_BOOLEAN True) \<Rightarrow> s\<lparr>ta_state := TA_RolledBack\<rparr>
      | (Committed, OV_BOOLEAN True) \<Rightarrow> s\<lparr>ta_state := TA_Committed\<rparr>
      | (WriteTaStarted, OV_BOOLEAN True) \<Rightarrow> s\<lparr>ta_state := TA_WriteTransaction\<rparr>
      | (NoWriteTaStarted, OV_BOOLEAN True) \<Rightarrow> s\<lparr>ta_state := TA_ReadTransaction\<rparr>
      | (NewIsolationlevel, OV_INT i) \<Rightarrow> s\<lparr>isolation_level := ucast i\<rparr>
      | (SessionclosingTaError, OV_BOOLEAN b) \<Rightarrow> s\<lparr>dead := b\<rparr>
      | (DdlCommitmodeChanged, OV_BOOLEAN b) \<Rightarrow> s\<lparr>ddl_commit_mode := b\<rparr>
      | (ReadOnlyMode, OV_BOOLEAN b) \<Rightarrow> s\<lparr>read_only_mode := b\<rparr>
      | _ \<Rightarrow> s)"

fun session_update :: "transaction_flags \<Rightarrow> session_state \<Rightarrow> session_state" where
  "session_update [] s = s"
| "session_update ((k, v) # flags) s = session_update flags (session_flag k v s)"

section \<open>The connection core\<close>

text \<open>\<open>'n\<close> is the state of the TCP connection; its parameters are those of the \<^verbatim>\<open>TcpClient\<close>.\<close>

record 'n conn_core =
  cc_authenticated :: bool
  cc_session_id :: i64
  cc_client_info :: client_info
  cc_client_info_touched :: bool
  cc_seq_number :: i32
  cc_auto_commit :: bool
  cc_server_usage :: server_usage
  cc_fetch_size :: u32
  cc_lob_read_length :: u32
  cc_lob_write_length :: nat
  cc_session_state :: session_state
  cc_statement_sequence :: "i64 option"
  cc_connect_options :: connect_options
  cc_topology :: "topology_line list option"
  cc_warnings :: "server_error list"
  cc_params :: connect_params
  cc_tcp :: 'n

definition default_fetch_size :: u32 where "default_fetch_size = 100000"
definition default_lob_read_length :: u32 where "default_lob_read_length = 16000000"
definition default_lob_write_length :: nat where "default_lob_write_length = 16000000"

definition set_client_info :: "client_info_key \<Rightarrow> rstring \<Rightarrow> 'n conn_core \<Rightarrow> 'n conn_core" where
  "set_client_info k v cc =
     cc\<lparr>cc_client_info := client_info_set k v (cc_client_info cc), cc_client_info_touched := True\<rparr>"

definition set_application :: "rstring \<Rightarrow> 'n conn_core \<Rightarrow> 'n conn_core" where
  "set_application s = set_client_info CI_Application s"

definition set_application_version :: "rstring \<Rightarrow> 'n conn_core \<Rightarrow> 'n conn_core" where
  "set_application_version s = set_client_info CI_ApplicationVersion s"

definition set_application_source :: "rstring \<Rightarrow> 'n conn_core \<Rightarrow> 'n conn_core" where
  "set_application_source s = set_client_info CI_ApplicationSource s"

definition set_application_user :: "rstring \<Rightarrow> 'n conn_core \<Rightarrow> 'n conn_core" where
  "set_application_user s = set_client_info CI_ApplicationUser s"

definition get_client_info_for_sending :: "'n conn_core \<Rightarrow> client_info \<times> 'n conn_core" where
  "get_client_info_for_sending cc = (cc_client_info cc, cc\<lparr>cc_client_info_touched := False\<rparr>)"

definition set_session_id :: "i64 \<Rightarrow> 'n conn_core \<Rightarrow> 'n conn_core" where
  "set_session_id sid cc = (if sid \<noteq> cc_session_id cc then cc\<lparr>cc_session_id := sid\<rparr> else cc)"

definition set_topology :: "topology_line list \<Rightarrow> 'n conn_core \<Rightarrow> 'n conn_core" where
  "set_topology t cc = cc\<lparr>cc_topology := Some t\<rparr>"

definition set_authenticated :: "'n conn_core \<Rightarrow> 'n conn_core" where
  "set_authenticated cc = cc\<lparr>cc_authenticated := True\<rparr>"

definition set_auto_commit :: "bool \<Rightarrow> 'n conn_core \<Rightarrow> 'n conn_core" where
  "set_auto_commit ac cc = cc\<lparr>cc_auto_commit := ac\<rparr>"

definition set_fetch_size :: "u32 \<Rightarrow> 'n conn_core \<Rightarrow> 'n conn_core" where
  "set_fetch_size n cc = cc\<lparr>cc_fetch_size := n\<rparr>"

definition set_lob_read_length :: "u32 \<Rightarrow> 'n conn_core \<Rightarrow> 'n conn_core" where
  "set_lob_read_length n cc = cc\<lparr>cc_lob_read_length := n\<rparr>"

definition set_lob_write_length :: "nat \<Rightarrow> 'n conn_core \<Rightarrow> 'n conn_core" where
  "set_lob_write_length n cc = cc\<lparr>cc_lob_write_length := n\<rparr>"

definition evaluate_statement_context :: "statement_context \<Rightarrow> 'n conn_core \<Rightarrow> 'n conn_core" where
  "evaluate_statement_context sc cc =
     cc\<lparr>cc_statement_sequence := statement_sequence_info sc,
        cc_server_usage := usage_of_stmt_ctx sc (cc_server_usage cc)\<rparr>"

definition evaluate_ta_flags :: "transaction_flags \<Rightarrow> ('n conn_core, unit) st" where
  "evaluate_ta_flags flags = (\<lambda>cc.
     let cc' = cc\<lparr>cc_session_state := session_update flags (cc_session_state cc)\<rparr>
     in (if dead (cc_session_state cc') then Err SessionClosingTransactionError else Ok (), cc'))"

definition pop_warnings :: "'n conn_core \<Rightarrow> server_error list option \<times> 'n conn_core" where
  "pop_warnings cc =
     (if cc_warnings cc = [] then (None, cc) else (Some (cc_warnings cc), cc\<lparr>cc_warnings := []\<rparr>))"

text \<open>\<^verbatim>\<open>self.seq_number += 1\<close> overflows at \<^verbatim>\<open>i32::MAX\<close>.\<close>

definition next_seq_number :: "('n conn_core, i32) st" where
  "next_seq_number = (\<lambda>cc.
     if cc_seq_number cc = 0x7FFFFFFF then (Panic, cc)
     else let n = cc_seq_number cc + 1 in (Ok n, cc\<lparr>cc_seq_number := n\<rparr>))"

definition augment_request :: "request \<Rightarrow> 'n conn_core \<Rightarrow> request \<times> 'n conn_core" where
  "augment_request r cc =
     (if cc_authenticated cc then
        let r1 = (case cc_statement_sequence cc of Some ssi \<Rightarrow> add_statement_context ssi r | None \<Rightarrow> r)
        in if cc_client_info_touched cc then
             case get_client_info_for_sending cc of (ci, cc') \<Rightarrow> (request_push (P_ClientInfo ci) r1, cc')
           else (r1, cc)
      else (r, cc))"

section \<open>Errors sent by the server\<close>

fun digest_error_parts ::
    "part list \<Rightarrow> execution_result list option \<Rightarrow> ('n conn_core, execution_result list option) st" where
  "digest_error_parts [] o_ers = st_return o_ers"
| "digest_error_parts (P_StatementContext sc # ps) o_ers =
     st_bind (st_update (evaluate_statement_context sc)) (\<lambda>_. digest_error_parts ps o_ers)"
| "digest_error_parts (P_TransactionFlags flags # ps) o_ers =
     st_bind (evaluate_ta_flags flags) (\<lambda>_. digest_error_parts ps o_ers)"
| "digest_error_parts (P_ExecutionResult ers # ps) o_ers = digest_error_parts ps (Some ers)"
| "digest_error_parts (_ # ps) o_ers = digest_error_parts ps o_ers"

text \<open>The server errors replace the failures one after the other; what is left is appended.\<close>

fun mix_errors :: "server_error list \<Rightarrow> execution_result list \<Rightarrow> execution_result list" where
  "mix_errors errs [] = map (\<lambda>e. Failure (Some e)) errs"
| "mix_errors [] (Failure _ # ers) = Failure None # mix_errors [] ers"
| "mix_errors (e # errs) (Failure _ # ers) = Failure (Some e) # mix_errors errs ers"
| "mix_errors errs (er # ers) = er # mix_errors errs ers"

definition handle_db_error :: "reply \<Rightarrow> ('n conn_core, reply) st" where
  "handle_db_error r = (\<lambda>cc0.
     let cc1 = cc0\<lparr>cc_warnings := []\<rparr>
     in case remove_first_of_kind PK_Error (rp_parts r) of
          (None, ps) \<Rightarrow> (Ok r, cc1)
        | (Some (P_Error ses), ps) \<Rightarrow>
            let warnings = filter (\<lambda>se. se_severity se = Sev_Warning) ses;
                errors = filter (\<lambda>se. se_severity se \<noteq> Sev_Warning) ses;
                cc2 = cc1\<lparr>cc_warnings := warnings\<rparr>
            in if errors = [] then (Ok (r\<lparr>rp_parts := ps\<rparr>), cc2)
               else st_bind (digest_error_parts ps None) (\<lambda>o_ers.
                 case o_ers of
                   Some ers \<Rightarrow> st_lift (Err (ExecutionResults (mix_errors errors ers)))
                 | None \<Rightarrow> st_lift (case errors of [e] \<Rightarrow> Err (DbError e) | _ \<Rightarrow> Panic)) cc2
        | (Some _, ps) \<Rightarrow> (Panic, cc1))"

section \<open>What a reply returns\<close>

datatype internal_return_value =
    IRV_ResultSet result_set
  | IRV_ExecutionResults "execution_result list"
  | IRV_OutputParameters output_parameters
  | IRV_ParameterMetadata "parameter_descriptor list"
  | IRV_WriteLobReply write_lob_reply

definition update_additional_usage :: "statement_context \<Rightarrow> server_usage option \<Rightarrow> server_usage option" where
  "update_additional_usage sc o_usage = map_option (usage_of_stmt_ctx sc) o_usage"

text \<open>The state is the connection core and the optional additional server usage of the caller.\<close>

fun into_internal_return_values ::
    "part list \<Rightarrow> ('n conn_core \<times> server_usage option, internal_return_value list) st" where
  "into_internal_return_values [] = st_return []"
| "into_internal_return_values (P_StatementContext sc # ps) =
     st_bind (st_update (\<lambda>(cc, u). (evaluate_statement_context sc cc, update_additional_usage sc u)))
       (\<lambda>_. into_internal_return_values ps)"
| "into_internal_return_values (P_TransactionFlags flags # ps) =
     st_bind (\<lambda>(cc, u). case evaluate_ta_flags flags cc of (r, cc') \<Rightarrow> (r, (cc', u)))
       (\<lambda>_. into_internal_return_values ps)"
| "into_internal_return_values (P_OutputParameters op # ps) =
     st_bind (into_internal_return_values ps) (\<lambda>vs. st_return (IRV_OutputParameters op # vs))"
| "into_internal_return_values (P_ParameterMetadata pm # ps) =
     st_bind (into_internal_return_values ps) (\<lambda>vs. st_return (IRV_ParameterMetadata pm # vs))"
| "into_internal_return_values (P_ResultSet (Some rs) # ps) =
     st_bind (into_internal_return_values ps) (\<lambda>vs. st_return (IRV_ResultSet rs # vs))"
| "into_internal_return_values (P_ResultSetMetadata rsmd # ps) =
     (case ps of
        P_ResultSetId rs_id # ps' \<Rightarrow>
          st_bind (into_internal_return_values ps') (\<lambda>vs.
            st_return (IRV_ResultSet (result_set_new 0b00000100 rs_id rsmd None) # vs))
      | _ \<Rightarrow> st_lift (Err (Impl ''Missing required part ResultSetID'')))"
| "into_internal_return_values (P_ExecutionResult ers # ps) =
     st_bind (into_internal_return_values ps) (\<lambda>vs. st_return (IRV_ExecutionResults ers # vs))"
| "into_internal_return_values (P_WriteLobReply wlr # ps) =
     st_bind (into_internal_return_values ps) (\<lambda>vs. st_return (IRV_WriteLobReply wlr # vs))"
| "into_internal_return_values (_ # ps) = into_internal_return_values ps"

definition reply_into_internal_return_values ::
    "reply \<Rightarrow> ('n conn_core \<times> server_usage option, internal_return_value list \<times> reply_type) st" where
  "reply_into_internal_return_values r =
     st_bind (into_internal_return_values (rp_parts r)) (\<lambda>vs. st_return (vs, rp_replytype r))"

section \<open>Properties\<close>

text \<open>The errors the failures of a list of execution results carry.\<close>

fun failure_errors :: "execution_result list \<Rightarrow> server_error list" where
  "failure_errors [] = []"
| "failure_errors (Failure (Some e) # ers) = e # failure_errors ers"
| "failure_errors (_ # ers) = failure_errors ers"

lemma failure_errors_map [simp]: "failure_errors (map (\<lambda>e. Failure (Some e)) errs) = errs"
  by (induction errs) auto

lemma mix_errors_errors: "failure_errors (mix_errors errs ers) = errs"
  by (induction errs ers rule: mix_errors.induct) auto

lemma mix_errors_others:
  "filter (\<lambda>er. \<not> is_failure er) (mix_errors errs ers) = filter (\<lambda>er. \<not> is_failure er) ers"
  by (induction errs ers rule: mix_errors.induct) auto

lemma mix_errors_positions:
  "take (length ers) (map is_failure (mix_errors errs ers)) = map is_failure ers"
  by (induction errs ers rule: mix_errors.induct) auto

lemma evaluate_ta_flags_cases:
  "evaluate_ta_flags flags cc = (r, cc') \<Longrightarrow> (r = Ok () \<or> r = Err SessionClosingTransactionError) \<and>
     cc_warnings cc' = cc_warnings cc"
  by (auto simp: evaluate_ta_flags_def Let_def split: if_splits)

lemma digest_error_parts_frame:
  "digest_error_parts ps o_ers cc = (r, cc') \<Longrightarrow> cc_warnings cc' = cc_warnings cc \<and>
     (r = Err SessionClosingTransactionError \<or> (\<exists>x. r = Ok x))"
proof (induction ps o_ers arbitrary: cc rule: digest_error_parts.induct)
  case (2 sc ps o_ers)
  then show ?case by (fastforce simp: st_bind_def st_simps evaluate_statement_context_def)
next
  case (3 flags ps o_ers)
  from 3(2) show ?case
    using 3(1) evaluate_ta_flags_cases by (fastforce simp: st_bind_def split: prod.splits res.splits)
qed (auto simp: st_simps)

subsection \<open>The outcome of a reply with an error part\<close>

text \<open>A transaction flag for the end of the session is the last one received, or the state before.\<close>

definition closing_flags :: "transaction_flags \<Rightarrow> bool list" where
  "closing_flags flags = [b. (k, OV_BOOLEAN b) \<leftarrow> flags, k = SessionclosingTaError]"

definition session_closed_by :: "bool \<Rightarrow> transaction_flags list \<Rightarrow> bool" where
  "session_closed_by d fs \<longleftrightarrow> (\<exists>n \<in> set [1..<length fs + 1]. last (d # concat (map closing_flags (take n fs))))"

definition flags_parts :: "part list \<Rightarrow> transaction_flags list" where
  "flags_parts ps = [f. P_TransactionFlags f \<leftarrow> ps]"

definition result_parts :: "part list \<Rightarrow> execution_result list list" where
  "result_parts ps = [ers. P_ExecutionResult ers \<leftarrow> ps]"

text \<open>The i-th failure gets the i-th error; errors without a failure of their own come at the end.\<close>

definition errors_at_failures :: "server_error list \<Rightarrow> execution_result list \<Rightarrow> execution_result list" where
  "errors_at_failures es ers =
     map (\<lambda>i. if is_failure (ers ! i)
              then let k = length (filter is_failure (take i ers))
                   in Failure (if k < length es then Some (es ! k) else None)
              else ers ! i) [0..<length ers]
     @ map (\<lambda>e. Failure (Some e)) (drop (length (filter is_failure ers)) es)"

lemma list_cases_3:
  obtains "xs = []" | a where "xs = [a]" | a b zs where "xs = a # b # zs"
  by (cases xs; cases "tl xs") auto

lemma upt_0_Suc: "[0..<Suc n] = 0 # map Suc [0..<n]"
  by (simp only: map_Suc_upt upt_conv_Cons zero_less_Suc)

lemma errors_at_failures_Cons:
  "errors_at_failures es (er # ers) =
     (if is_failure er
      then Failure (if es = [] then None else Some (hd es)) # errors_at_failures (tl es) ers
      else er # errors_at_failures es ers)"
  unfolding errors_at_failures_def length_Cons upt_0_Suc
  by (cases es) (auto simp: Let_def comp_def)

lemma mix_errors_at_failures: "mix_errors es ers = errors_at_failures es ers"
proof (induction es ers rule: mix_errors.induct)
  case (1 errs)
  then show ?case by (simp add: errors_at_failures_def)
qed (simp_all add: errors_at_failures_Cons)

lemma dead_session_flag:
  "dead (session_flag k v s) = last (dead s # closing_flags [(k, v)])"
  by (cases k; cases v) (auto simp: session_flag_def closing_flags_def split: bool.splits)

lemma closing_flags_Cons: "closing_flags (kv # flags) = closing_flags [kv] @ closing_flags flags"
  by (simp add: closing_flags_def)

lemma last_last_append: "last (last (a # xs) # ys) = last (a # xs @ ys)"
  by (cases ys) auto

lemma dead_session_update: "dead (session_update flags s) = last (dead s # closing_flags flags)"
proof (induction flags s rule: session_update.induct)
  case (1 s)
  then show ?case by (simp add: closing_flags_def)
next
  case (2 k v flags s)
  then show ?case
    unfolding session_update.simps 2 dead_session_flag closing_flags_Cons [of "(k, v)" flags]
      last_last_append ..
qed

lemma session_closed_by_Nil [simp]: "\<not> session_closed_by d []"
  by (simp add: session_closed_by_def)

lemma session_closed_by_Cons:
  "session_closed_by d (f # fs) \<longleftrightarrow>
     (let d' = last (d # closing_flags f) in d' \<or> session_closed_by d' fs)"
proof -
  have eq: "set [1..<length (f # fs) + 1] = insert 1 (Suc ` set [1..<length fs + 1])"
    unfolding set_upt image_Suc_atLeastLessThan by auto
  show ?thesis
    unfolding session_closed_by_def eq
    by (simp add: Let_def last_last_append del: set_upt upt_Suc last.simps)
qed

lemma part_lists_Cons:
  "flags_parts (p # ps) = (case p of P_TransactionFlags f \<Rightarrow> [f] | _ \<Rightarrow> []) @ flags_parts ps"
  "result_parts (p # ps) = (case p of P_ExecutionResult f \<Rightarrow> [f] | _ \<Rightarrow> []) @ result_parts ps"
  by (cases p; simp add: flags_parts_def result_parts_def)+

lemma dead_statement_context [simp]:
  "cc_session_state (evaluate_statement_context sc cc) = cc_session_state cc"
  by (simp add: evaluate_statement_context_def)

lemma digest_error_parts_outcome:
  "fst (digest_error_parts ps o_ers cc) =
     (if session_closed_by (dead (cc_session_state cc)) (flags_parts ps) then Err SessionClosingTransactionError
      else Ok (if result_parts ps = [] then o_ers else Some (last (result_parts ps))))"
proof (induction ps o_ers arbitrary: cc rule: digest_error_parts.induct)
  case (3 flags ps o_ers)
  then show ?case
    by (auto simp: st_bind_def evaluate_ta_flags_def Let_def part_lists_Cons session_closed_by_Cons
        dead_session_update simp del: last.simps)
qed (auto simp: part_lists_Cons flags_parts_def result_parts_def st_simps st_bind_def)

lemma remove_first_error:
  "(\<forall>p \<in> set pre. part_kind_of p \<noteq> PK_Error) \<Longrightarrow>
     remove_first_of_kind PK_Error (pre @ P_Error ses # post) = (Some (P_Error ses), pre @ post)"
  by (induction pre) auto

text \<open>C3: What the caller gets when a reply has an error part, exactly. The warnings become the
  connection's warnings. A reply with warnings only goes on without its error part. With errors, the
  remaining parts decide: a transaction flag that closes the session (or a session that is closed
  already, when there is any part with flags) wins over the server's errors; otherwise, if there are
  execution results, the last of them are returned with the i-th failure carrying the i-th error,
  every row count at its place and the errors in excess at the end, so that no server error is lost
  and none is moved; a single error without execution results is returned as such, and several
  errors without execution results panic.\<close>

theorem handle_db_error_complete:
  assumes "rp_parts r = pre @ P_Error ses # post" "\<forall>p \<in> set pre. part_kind_of p \<noteq> PK_Error"
  shows "let (res, cc') = handle_db_error r cc;
             errors = filter (\<lambda>se. se_severity se \<noteq> Sev_Warning) ses;
             results = result_parts (pre @ post)
         in cc_warnings cc' = filter (\<lambda>se. se_severity se = Sev_Warning) ses
          \<and> res = (if errors = [] then Ok (r\<lparr>rp_parts := pre @ post\<rparr>)
                   else if session_closed_by (dead (cc_session_state cc)) (flags_parts (pre @ post))
                   then Err SessionClosingTransactionError
                   else if results \<noteq> [] then Err (ExecutionResults (errors_at_failures errors (last results)))
                   else if length errors = 1 then Err (DbError (hd errors))
                   else Panic)
          \<and> (\<forall>ers. res = Err (ExecutionResults ers) \<longrightarrow> failure_errors ers = errors)"
proof -
  define ws where "ws = filter (\<lambda>se. se_severity se = Sev_Warning) ses"
  define es where "es = filter (\<lambda>se. se_severity se \<noteq> Sev_Warning) ses"
  define cc2 where "cc2 = cc\<lparr>cc_warnings := ws\<rparr>"
  note eq = handle_db_error_def Let_def assms(1) remove_first_error [OF assms(2)]
  obtain x u where d: "digest_error_parts (pre @ post) None cc2 = (x, u)" by fastforce
  have w: "cc_warnings u = ws" using digest_error_parts_frame [OF d] by (simp add: cc2_def)
  have w2: "cc_warnings cc2 = ws" by (simp add: cc2_def)
  have x: "x = (if session_closed_by (dead (cc_session_state cc)) (flags_parts (pre @ post))
      then Err SessionClosingTransactionError
      else Ok (if result_parts (pre @ post) = [] then None else Some (last (result_parts (pre @ post)))))"
    using digest_error_parts_outcome [of "pre @ post" None cc2] d by (simp add: cc2_def)
  have h: "handle_db_error r cc = (if es = [] then (Ok (r\<lparr>rp_parts := pre @ post\<rparr>), cc2)
      else st_bind (digest_error_parts (pre @ post) None) (\<lambda>o_ers. case o_ers of
          Some ers \<Rightarrow> st_lift (Err (ExecutionResults (mix_errors es ers)))
        | None \<Rightarrow> st_lift (case es of [e] \<Rightarrow> Err (DbError e) | _ \<Rightarrow> Panic)) cc2)"
    unfolding es_def ws_def cc2_def by (simp add: eq)
  have "failure_errors (errors_at_failures es ers) = es" for ers
    using mix_errors_errors [of es ers] by (simp add: mix_errors_at_failures)
  then show ?thesis
    unfolding h es_def [symmetric] ws_def [symmetric] Let_def
    by (cases es rule: list_cases_3)
      (auto simp: st_bind_def d x w w2 st_simps mix_errors_at_failures)
qed

definition sample_error :: "severity \<Rightarrow> server_error" where
  "sample_error sev = \<lparr>se_code = 259, se_position = 0, se_severity = sev, se_sqlstate = [], se_text = []\<rparr>"

definition sample_error_reply :: reply where
  "sample_error_reply = \<lparr>rp_session_id = 1, rp_replytype = RT_Nil,
     rp_parts = [P_Error [sample_error Sev_Warning, sample_error Sev_Error],
       P_ExecutionResult [RowsAffected 1, Failure None]]\<rparr>"

definition sample_conn_core :: "unit conn_core" where
  "sample_conn_core = \<lparr>cc_authenticated = True, cc_session_id = 1, cc_client_info = [],
     cc_client_info_touched = False, cc_seq_number = 1, cc_auto_commit = True,
     cc_server_usage = server_usage_default, cc_fetch_size = default_fetch_size,
     cc_lob_read_length = default_lob_read_length, cc_lob_write_length = 100,
     cc_session_state = session_state_default, cc_statement_sequence = None, cc_connect_options = [],
     cc_topology = None, cc_warnings = [], cc_params = sample_url_params, cc_tcp = ()\<rparr>"

theorem handle_db_error_complete_witness:
  "cc_warnings (snd (handle_db_error sample_error_reply sample_conn_core)) = [sample_error Sev_Warning] \<and>
   fst (handle_db_error sample_error_reply sample_conn_core) =
     Err (ExecutionResults [RowsAffected 1, Failure (Some (sample_error Sev_Error))])"
  using handle_db_error_complete [of sample_error_reply "[]"
      "[sample_error Sev_Warning, sample_error Sev_Error]" "[P_ExecutionResult [RowsAffected 1, Failure None]]"
      sample_conn_core]
  by (auto simp: sample_error_reply_def sample_error_def flags_parts_def result_parts_def
      errors_at_failures_def Let_def numeral_2_eq_2 split: prod.splits)

subsection \<open>Transaction flags\<close>

text \<open>The flags that set the transaction state; they compete if more than one of them is true.\<close>

definition sets_ta_state :: "ta_flag_id \<times> option_value \<Rightarrow> bool" where
  "sets_ta_state kv \<longleftrightarrow> fst kv \<in> {RolledBack, Committed, WriteTaStarted, NoWriteTaStarted}
     \<and> snd kv = OV_BOOLEAN True"

lemma session_update_fold: "session_update flags s = fold (\<lambda>(k, v). session_flag k v) flags s"
  by (induction flags s rule: session_update.induct) auto

definition flag_ta_state :: "ta_flag_id \<times> option_value \<Rightarrow> transaction_state \<Rightarrow> transaction_state" where
  "flag_ta_state kv t =
     (if sets_ta_state kv then
        (case fst kv of RolledBack \<Rightarrow> TA_RolledBack | Committed \<Rightarrow> TA_Committed
         | WriteTaStarted \<Rightarrow> TA_WriteTransaction | _ \<Rightarrow> TA_ReadTransaction)
      else t)"

definition flag_bool :: "ta_flag_id \<Rightarrow> ta_flag_id \<times> option_value \<Rightarrow> bool \<Rightarrow> bool" where
  "flag_bool k kv b = (if fst kv = k then (case snd kv of OV_BOOLEAN c \<Rightarrow> c | _ \<Rightarrow> b) else b)"

definition flag_isolation :: "ta_flag_id \<times> option_value \<Rightarrow> u8 \<Rightarrow> u8" where
  "flag_isolation kv b = (if fst kv = NewIsolationlevel then (case snd kv of OV_INT i \<Rightarrow> ucast i | _ \<Rightarrow> b) else b)"

lemma session_flag_fields:
  "session_flag k v s =
     \<lparr>ta_state = flag_ta_state (k, v) (ta_state s), isolation_level = flag_isolation (k, v) (isolation_level s),
      ddl_commit_mode = flag_bool DdlCommitmodeChanged (k, v) (ddl_commit_mode s),
      read_only_mode = flag_bool ReadOnlyMode (k, v) (read_only_mode s),
      dead = flag_bool SessionclosingTaError (k, v) (dead s)\<rparr>"
  by (cases k; cases v)
    (auto simp: session_flag_def flag_ta_state_def flag_bool_def flag_isolation_def sets_ta_state_def
      split: bool.split)

lemma session_flag_commute:
  assumes "k \<noteq> k'" "\<not> (sets_ta_state (k, v) \<and> sets_ta_state (k', v'))"
  shows "session_flag k v (session_flag k' v' s) = session_flag k' v' (session_flag k v s)"
proof -
  have "flag_bool j (k, v) (flag_bool j (k', v') b) = flag_bool j (k', v') (flag_bool j (k, v) b)" for j b
    using assms(1) by (auto simp: flag_bool_def)
  moreover have "flag_isolation (k, v) (flag_isolation (k', v') b) = flag_isolation (k', v') (flag_isolation (k, v) b)"
    for b using assms(1) by (auto simp: flag_isolation_def)
  moreover have "flag_ta_state (k, v) (flag_ta_state (k', v') t) = flag_ta_state (k', v') (flag_ta_state (k, v) t)"
    for t using assms(2) by (auto simp: flag_ta_state_def)
  ultimately show ?thesis by (simp add: session_flag_fields)
qed

text \<open>The order in which the flags of a reply are visited (that of a hash map) does not matter if at most one
  of them sets the transaction state.\<close>

theorem session_update_order:
  assumes "distinct (map fst flags)" "mset flags' = mset flags"
    and "length (filter sets_ta_state flags) \<le> 1"
  shows "session_update flags' s = session_update flags s"
proof -
  have comm: "(\<lambda>(k, v). session_flag k v) x \<circ> (\<lambda>(k, v). session_flag k v) y =
      (\<lambda>(k, v). session_flag k v) y \<circ> (\<lambda>(k, v). session_flag k v) x"
    if "x \<in> set flags" "y \<in> set flags" for x y
  proof (cases "x = y")
    case False
    then have ne: "fst x \<noteq> fst y" using that assms(1) by (metis distinct_map inj_on_def)
    have "\<not> (sets_ta_state x \<and> sets_ta_state y)"
    proof
      assume "sets_ta_state x \<and> sets_ta_state y"
      then have "{x, y} \<subseteq> set (filter sets_ta_state flags)" using that by simp
      then have "card {x, y} \<le> card (set (filter sets_ta_state flags))" by (intro card_mono) simp_all
      also have "\<dots> \<le> 1" using assms(3) card_length order.trans by blast
      finally show False using False by simp
    qed
    then show ?thesis using ne session_flag_commute by (cases x; cases y) (auto intro!: ext)
  qed simp
  have "fold (\<lambda>(k, v). session_flag k v) flags = fold (\<lambda>(k, v). session_flag k v) flags'"
    using comm assms(2) by (intro fold_multiset_equiv) auto
  then show ?thesis by (simp add: session_update_fold)
qed

theorem session_update_order_witness:
  "session_update [(ReadOnlyMode, OV_BOOLEAN True), (Committed, OV_BOOLEAN True)] session_state_default
   = session_update [(Committed, OV_BOOLEAN True), (ReadOnlyMode, OV_BOOLEAN True)] session_state_default"
  by (rule session_update_order) (auto simp: sets_ta_state_def)

text \<open>When two such flags are true in one reply, the transaction state depends on the iteration order of the
  map.\<close>

theorem ta_state_order_dependent:
  "ta_state (session_update [(Committed, OV_BOOLEAN True), (WriteTaStarted, OV_BOOLEAN True)] s) \<noteq>
   ta_state (session_update [(WriteTaStarted, OV_BOOLEAN True), (Committed, OV_BOOLEAN True)] s)"
  by (simp add: session_flag_def)

end
