(* ===== verification/Hdb_Auth.thy ===== *)
theory Hdb_Auth
  imports Hdb_Small_Parts
begin

text \<open>
  The authenticators (conn/authentication/): the SCRAM computations of crypto\_util.rs, the trait
  \<^verbatim>\<open>Authenticator\<close> and its implementations \<^verbatim>\<open>ScramSha256\<close> and \<^verbatim>\<open>ScramPbkdf2Sha256\<close>. HMAC, SHA-256 and
  PBKDF2 are third-party crates: they are the functions of the record \<open>crypto\<close>, of which the code
  relies on nothing but the length of the results (the locale \<open>crypto_crates\<close>). The random
  challenges are inputs.
\<close>

section \<open>Cryptographic functions\<close>

record crypto =
  hmac :: "bytes \<Rightarrow> bytes \<Rightarrow> bytes"
  sha256 :: "bytes \<Rightarrow> bytes"
  use_pbkdf2 :: "bytes \<Rightarrow> bytes \<Rightarrow> u32 \<Rightarrow> bytes"

locale crypto_crates =
  fixes cr :: crypto
  assumes hmac_length: "length (hmac cr k d) = 32"
    and sha256_length: "length (sha256 cr d) = 32"
    and pbkdf2_length: "length (use_pbkdf2 cr k s i) = 32"

text \<open>\<^verbatim>\<open>assert_eq!(a.len(), b.len())\<close>.\<close>

definition xor_bytes :: "bytes \<Rightarrow> bytes \<Rightarrow> (bytes, 'e) res" where
  "xor_bytes a b = (if length a = length b then Ok (map2 (XOR) a b) else Panic)"

definition scram_sha256 :: "crypto \<Rightarrow> bytes \<Rightarrow> bytes \<Rightarrow> bytes \<Rightarrow> bytes \<Rightarrow> (bytes \<times> bytes, 'e) res" where
  "scram_sha256 cr salt server_key client_challenge password =
     (let salted_password = hmac cr password salt;
          content = salt @ server_key @ client_challenge;
          client_key = sha256 cr salted_password;
          sig = hmac cr (sha256 cr client_key) content
      in res_bind (xor_bytes sig client_key) (\<lambda>client_proof.
         let content2 = client_key @ salt @ server_key;
             server_verifier = hmac cr salted_password salt
         in Ok (client_proof, hmac cr server_verifier content2)))"

definition scram_pdkdf2_sha256 ::
    "crypto \<Rightarrow> bytes \<Rightarrow> bytes \<Rightarrow> bytes \<Rightarrow> bytes \<Rightarrow> u32 \<Rightarrow> (bytes \<times> bytes, 'e) res" where
  "scram_pdkdf2_sha256 cr salt server_nonce client_nonce password iterations =
     (let salted_password = use_pbkdf2 cr password salt iterations;
          server_verifier = hmac cr salted_password salt;
          client_key = sha256 cr salted_password;
          client_verifier = sha256 cr client_key;
          shared_key = hmac cr client_verifier (salt @ server_nonce @ client_nonce)
      in res_bind (xor_bytes shared_key client_key) (\<lambda>client_proof.
         Ok (client_proof, hmac cr server_verifier (client_nonce @ salt @ server_nonce))))"

section \<open>Authenticators\<close>

datatype auth_method = ScramSha256 | ScramPbkdf2Sha256

record authenticator =
  au_method :: auth_method
  au_client_challenge :: bytes
  au_server_proof :: "bytes option"

definition boxed_authenticator :: "auth_method \<Rightarrow> bytes \<Rightarrow> authenticator" where
  "boxed_authenticator m challenge =
     \<lparr>au_method = m, au_client_challenge = challenge, au_server_proof = None\<rparr>"

fun auth_name :: "auth_method \<Rightarrow> rstring" where
  "auth_name ScramSha256 = ascii ''SCRAMSHA256''"
| "auth_name ScramPbkdf2Sha256 = ascii ''SCRAMPBKDF2SHA256''"

text \<open>The data come from a \<^verbatim>\<open>Cursor\<close>; what follows the fields is ignored.\<close>

definition auth_fields_of :: "bytes \<Rightarrow> (auth_field list, hdb_error) res" where
  "auth_fields_of data = tcp (res_map fst (auth_fields_parse data))"

definition parse_first_server_data :: "bytes \<Rightarrow> (bytes \<times> bytes, hdb_error) res" where
  "parse_first_server_data server_data =
     res_bind (auth_fields_of server_data) (\<lambda>af.
       case af of
         [salt, server_nonce] \<Rightarrow> Ok (salt, server_nonce)
       | _ \<Rightarrow> Err (Impl ''expected 2 auth fields''))"

text \<open>\<^verbatim>\<open>read_u32::<BigEndian>\<close>.\<close>

definition read_u32_be :: "u32 rd" where
  "read_u32_be = rd_bind (read_exact 4) (\<lambda>bs. rd_return (word_of_nat (le_nat (rev bs))))"

definition parse_first_server_data_pbkdf2 :: "bytes \<Rightarrow> (bytes \<times> bytes \<times> u32, hdb_error) res" where
  "parse_first_server_data_pbkdf2 server_data =
     res_bind (auth_fields_of server_data) (\<lambda>af.
       case af of
         [salt, server_nonce, it_bytes] \<Rightarrow>
           res_bind (tcp (res_map fst (read_u32_be it_bytes))) (\<lambda>iterations.
             if iterations < 15000 then Err (ImplDetailed ''not enough iterations: {}'')
             else if length salt < 16 then Err (ImplDetailed ''too little salt: {}'')
             else Ok (salt, server_nonce, iterations))
       | _ \<Rightarrow> Err (Impl ''expected 3 auth fields''))"

text \<open>The proof with its length: \<^verbatim>\<open>write_u16::<BigEndian>(1)\<close>, \<^verbatim>\<open>CLIENT_PROOF_SIZE\<close>, the bytes.\<close>

definition client_proof_buf :: "bytes \<Rightarrow> bytes" where
  "client_proof_buf proof = [0, 1, 32] @ proof"

definition client_proof ::
    "crypto \<Rightarrow> bytes \<Rightarrow> bytes \<Rightarrow> authenticator \<Rightarrow> (bytes \<times> authenticator, hdb_error) res" where
  "client_proof cr server_data password au =
     res_bind
       (case au_method au of
          ScramSha256 \<Rightarrow>
            res_bind (parse_first_server_data server_data) (\<lambda>(salt, server_nonce).
              scram_sha256 cr salt server_nonce (au_client_challenge au) password)
        | ScramPbkdf2Sha256 \<Rightarrow>
            res_bind (parse_first_server_data_pbkdf2 server_data) (\<lambda>(salt, server_nonce, iterations).
              scram_pdkdf2_sha256 cr salt server_nonce (au_client_challenge au) password iterations))
       (\<lambda>(cp, sp). Ok (client_proof_buf cp, au\<lparr>au_client_challenge := [], au_server_proof := Some sp\<rparr>))"

definition verify_server :: "authenticator \<Rightarrow> bytes \<Rightarrow> (unit, hdb_error) res" where
  "verify_server au server_proof =
     (case au_method au of
        ScramSha256 \<Rightarrow>
          (if server_proof = [] then Ok ()
           else Err (ImplDetailed ''verify_server(): non-empty server_proof: {:?}''))
      | ScramPbkdf2Sha256 \<Rightarrow>
          res_bind (auth_fields_of server_proof) (\<lambda>af.
          res_bind (ok_or (fst (auth_fields_pop af)) (Impl ''expected non-empty list of auth fields''))
            (\<lambda>srv_proof.
               if au_server_proof au = Some srv_proof then Ok ()
               else Err (Usage ''PBKDF2: Server proof failed - this indicates a severe security issue with the server's identity!''))))"

definition evaluate_second_response :: "authenticator \<Rightarrow> bytes \<Rightarrow> bytes \<Rightarrow> (unit, hdb_error) res" where
  "evaluate_second_response au meth server_proof =
     (if meth = auth_name (au_method au) then verify_server au server_proof
      else Err (ImplDetailed ''Wrong method name detected: {}''))"

section \<open>Properties\<close>

lemma xor_cancel: "xor_bytes a b = Ok c \<Longrightarrow> map2 (XOR) a c = b \<and> length c = length a"
proof -
  assume "xor_bytes a b = Ok c"
  then have len: "length a = length b" and c: "c = map2 (XOR) a b"
    by (auto simp: xor_bytes_def split: if_splits)
  have "map2 (XOR) a (map2 (XOR) a b) = b"
    using len by (induction a b rule: list_induct2) (simp_all flip: xor.assoc)
  then show ?thesis using len by (simp add: c)
qed

text \<open>
  The server's side of SCRAM: it knows \<open>stored_key\<close>, the hash of the client key, and recovers the
  client key from the proof.
\<close>

definition server_accepts :: "crypto \<Rightarrow> bytes \<Rightarrow> bytes \<Rightarrow> bytes \<Rightarrow> bool" where
  "server_accepts cr stored_key content proof \<longleftrightarrow>
     length proof = 32 \<and> sha256 cr (map2 (XOR) (hmac cr stored_key content) proof) = stored_key"

definition salted_password :: "crypto \<Rightarrow> authenticator \<Rightarrow> bytes \<Rightarrow> bytes \<Rightarrow> u32 \<Rightarrow> bytes" where
  "salted_password cr au password salt iterations =
     (case au_method au of
        ScramSha256 \<Rightarrow> hmac cr password salt
      | ScramPbkdf2Sha256 \<Rightarrow> use_pbkdf2 cr password salt iterations)"

lemma scram_sha256_proof:
  assumes "scram_sha256 cr salt nonce challenge password = (Ok (cp, sp) :: (_, hdb_error) res)"
    and "crypto_crates cr"
  shows "server_accepts cr (sha256 cr (sha256 cr (hmac cr password salt))) (salt @ nonce @ challenge) cp"
  using assms crypto_crates.hmac_length [OF assms(2)]
  by (auto simp: scram_sha256_def Let_def res_simps server_accepts_def dest!: xor_cancel)

lemma scram_pbkdf2_proof:
  assumes "scram_pdkdf2_sha256 cr salt nonce challenge password it = (Ok (cp, sp) :: (_, hdb_error) res)"
    and "crypto_crates cr"
  shows "server_accepts cr (sha256 cr (sha256 cr (use_pbkdf2 cr password salt it))) (salt @ nonce @ challenge) cp
    \<and> sp = hmac cr (hmac cr (use_pbkdf2 cr password salt it) salt) (challenge @ salt @ nonce)"
  using assms crypto_crates.hmac_length [OF assms(2)]
  by (auto simp: scram_pdkdf2_sha256_def Let_def res_simps server_accepts_def dest!: xor_cancel)

lemma parse_first_server_data_Ok:
  "parse_first_server_data d = Ok (salt, nonce) \<Longrightarrow> auth_fields_of d = Ok [salt, nonce]"
  by (cases "auth_fields_of d") (auto simp: parse_first_server_data_def split: list.splits)

lemma parse_first_server_data_pbkdf2_Ok:
  "parse_first_server_data_pbkdf2 d = Ok (salt, nonce, it) \<Longrightarrow>
     \<exists>it_bytes. auth_fields_of d = Ok [salt, nonce, it_bytes] \<and> 15000 \<le> it \<and> 16 \<le> length salt"
  by (cases "auth_fields_of d")
    (auto simp: parse_first_server_data_pbkdf2_def res_simps split: list.splits if_splits)

text \<open>C24: When the client computes a proof, it is the 35 bytes \<open>00 01 20\<close> and a proof that a server knowing only
  the hash of the client key accepts, for the salt and nonce the server sent and the client's
  own challenge; this holds for both authenticators.\<close>

theorem client_proof_accepted:
  assumes "crypto_crates cr" "client_proof cr server_data password au = Ok (buf, au')"
  shows "\<exists>salt nonce it fs proof. auth_fields_of server_data = Ok fs \<and>
    take 2 fs = [salt, nonce] \<and>
    (au_method au = ScramPbkdf2Sha256 \<longrightarrow> parse_first_server_data_pbkdf2 server_data = Ok (salt, nonce, it)) \<and>
    buf = [0, 1, 32] @ proof \<and> length buf = 35 \<and>
    server_accepts cr (sha256 cr (sha256 cr (salted_password cr au password salt it)))
      (salt @ nonce @ au_client_challenge au) proof"
proof (cases "au_method au")
  case ScramSha256
  then obtain salt nonce cp sp where "auth_fields_of server_data = Ok [salt, nonce]"
    "scram_sha256 cr salt nonce (au_client_challenge au) password = (Ok (cp, sp) :: (_, hdb_error) res)"
    "buf = client_proof_buf cp"
    using assms(2) by (auto simp: client_proof_def res_simps dest!: parse_first_server_data_Ok)
  then show ?thesis using scram_sha256_proof [OF _ assms(1)] ScramSha256
    by (fastforce simp: client_proof_buf_def salted_password_def server_accepts_def)
next
  case ScramPbkdf2Sha256
  then obtain salt nonce it cp sp where *: "parse_first_server_data_pbkdf2 server_data = Ok (salt, nonce, it)"
    "scram_pdkdf2_sha256 cr salt nonce (au_client_challenge au) password it = (Ok (cp, sp) :: (_, hdb_error) res)"
    "buf = client_proof_buf cp"
    using assms(2) by (auto simp: client_proof_def res_simps)
  moreover obtain itb where "auth_fields_of server_data = Ok [salt, nonce, itb]"
    using parse_first_server_data_pbkdf2_Ok [OF *(1)] by blast
  ultimately show ?thesis using scram_pbkdf2_proof [OF _ assms(1)] ScramPbkdf2Sha256
    by (fastforce simp: client_proof_buf_def salted_password_def server_accepts_def)
qed

text \<open>Stand-ins for the crates with the same result lengths, for evaluation.\<close>

definition ref_crypto :: crypto where
  "ref_crypto = \<lparr>hmac = \<lambda>k d. take 32 (k @ d @ replicate 32 7),
     sha256 = \<lambda>d. take 32 (d @ replicate 32 5), use_pbkdf2 = \<lambda>k s i. take 32 (k @ s @ replicate 32 3)\<rparr>"

interpretation ref_crypto: crypto_crates ref_crypto
  by unfold_locales (simp_all add: ref_crypto_def)

definition sample_challenge :: bytes where
  "sample_challenge = [2, 0, 2, 9, 8, 3, 1, 2, 3]"

definition sample_auth :: authenticator where
  "sample_auth = boxed_authenticator ScramSha256 [4, 5, 6]"

theorem client_proof_accepted_witness:
  "\<exists>buf au'. client_proof ref_crypto sample_challenge [1] sample_auth = Ok (buf, au') \<and> length buf = 35"
proof -
  have "is_ok (client_proof ref_crypto sample_challenge [1] sample_auth)" by code_simp
  then obtain buf au' where e: "client_proof ref_crypto sample_challenge [1] sample_auth = Ok (buf, au')"
    by (auto elim: is_okE)
  then show ?thesis using client_proof_accepted [OF ref_crypto.crypto_crates_axioms e] by blast
qed

text \<open>C25: With PBKDF2 the server is accepted if and only if the last field of its answer is the proof computed
  from the password, the salt, the nonces and the number of iterations.\<close>

theorem pbkdf2_server_verified:
  assumes "crypto_crates cr" "au_method au = ScramPbkdf2Sha256"
    and "client_proof cr server_data password au = Ok (buf, au')"
    and "auth_fields_of answer = Ok (fs @ [proof])"
  shows "\<exists>salt nonce it. parse_first_server_data_pbkdf2 server_data = Ok (salt, nonce, it) \<and>
    15000 \<le> it \<and> 16 \<le> length salt \<and>
    (evaluate_second_response au' (auth_name ScramPbkdf2Sha256) answer = Ok () \<longleftrightarrow>
      proof = hmac cr (hmac cr (use_pbkdf2 cr password salt it) salt) (au_client_challenge au @ salt @ nonce))"
proof -
  obtain salt nonce it cp sp where *: "parse_first_server_data_pbkdf2 server_data = Ok (salt, nonce, it)"
    "scram_pdkdf2_sha256 cr salt nonce (au_client_challenge au) password it = (Ok (cp, sp) :: (_, hdb_error) res)"
    "au' = au\<lparr>au_client_challenge := [], au_server_proof := Some sp\<rparr>"
    using assms(2,3) by (auto simp: client_proof_def res_simps)
  have "15000 \<le> it" "16 \<le> length salt"
    using parse_first_server_data_pbkdf2_Ok [OF *(1)] by auto
  moreover have "evaluate_second_response au' (auth_name ScramPbkdf2Sha256) answer = Ok () \<longleftrightarrow> proof = sp"
    using assms(2,4) *(3)
    by (auto simp: evaluate_second_response_def verify_server_def auth_fields_pop_def)
  ultimately show ?thesis using *(1) scram_pbkdf2_proof [OF *(2) assms(1)] by auto
qed

definition sample_pbkdf2_challenge :: bytes where
  "sample_pbkdf2_challenge = [3, 0, 16] @ replicate 16 9 @ [2, 1, 2, 4, 0, 0, 0x3A, 0x98]"

theorem pbkdf2_server_verified_witness:
  "\<exists>buf au'. client_proof ref_crypto sample_pbkdf2_challenge [1]
       (boxed_authenticator ScramPbkdf2Sha256 [4, 5, 6]) = Ok (buf, au') \<and>
     evaluate_second_response au' (auth_name ScramPbkdf2Sha256) [1, 0, 1, 66] \<noteq> Ok ()"
proof -
  let ?au = "boxed_authenticator ScramPbkdf2Sha256 [4, 5, 6]"
  have "is_ok (client_proof ref_crypto sample_pbkdf2_challenge [1] ?au)" by code_simp
  then obtain buf au' where e: "client_proof ref_crypto sample_pbkdf2_challenge [1] ?au = Ok (buf, au')"
    by (auto elim: is_okE)
  moreover have "au_method ?au = ScramPbkdf2Sha256" by (simp add: boxed_authenticator_def)
  moreover have "auth_fields_of [1, 0, 1, 66] = Ok ([] @ [[66]])" by code_simp
  moreover have "[66] \<noteq> hmac ref_crypto k d" for k d
    using ref_crypto.hmac_length [of k d] by (cases "hmac ref_crypto k d") auto
  ultimately show ?thesis
    using pbkdf2_server_verified [OF ref_crypto.crypto_crates_axioms, of ?au sample_pbkdf2_challenge "[1]" buf au'
      "[1, 0, 1, 66]" "[]" "[66]"] by blast
qed

end
