(* ===== verification/Hdb_Connection.thy ===== *)
theory Hdb_Connection
  imports Hdb_Session Hdb_Auth
begin

text \<open>
  The connection as a whole: the roundtrip, the initial handshake (conn/initial\_request.rs), the two
  authentication requests (conn/authentication/auth\_requests.rs, authenticate.rs), connecting and
  reconnecting, and sending with one reconnect (conn/connection\_core.rs, conn/am\_conn\_core.rs).

  The TCP stream and the server behind it are the record \<open>network\<close>: connecting, writing (with the
  flush), the bytes that arrive, and the i/o error with which reading beyond them fails. After a
  message that could not be written or parsed completely, \<open>net_abandon\<close> gives what is left in the
  buffers of the stream. A failed fetch keeps the rows the result set had before it.
\<close>

section \<open>The environment\<close>

record 'n network =
  net_connect :: "connect_params \<Rightarrow> 'n \<Rightarrow> ('n, ioerr) res \<times> 'n"
  net_write :: "bytes \<Rightarrow> 'n \<Rightarrow> (unit, ioerr) res \<times> 'n"
  net_input :: "'n \<Rightarrow> bytes"
  net_error :: "'n \<Rightarrow> ioerr"
  net_consume :: "nat \<Rightarrow> 'n \<Rightarrow> 'n"
  net_abandon :: "'n \<Rightarrow> 'n"

record 'n driver =
  dr_net :: "'n network"
  dr_c8 :: cesu8_lib
  dr_nl :: num_lib
  dr_crypto :: crypto
  dr_challenges :: "'n \<Rightarrow> bytes \<times> bytes"
  dr_version :: rstring
  dr_pkg_name :: rstring
  dr_program :: "rstring option"
  dr_os_user :: rstring

definition net_send :: "'n network \<Rightarrow> wr \<Rightarrow> 'n \<Rightarrow> (unit, ioerr) res \<times> 'n" where
  "net_send net w n =
     (case w of Ok bs \<Rightarrow> net_write net bs n | Err e \<Rightarrow> (Err e, net_abandon net n) | Panic \<Rightarrow> (Panic, n))"

definition net_read :: "'n network \<Rightarrow> 'a rd \<Rightarrow> 'n \<Rightarrow> ('a, ioerr) res \<times> 'n" where
  "net_read net p n =
     (case p (net_input net n) of
        Ok (a, rest) \<Rightarrow> (Ok a, net_consume net (length (net_input net n) - length rest) n)
      | Err e \<Rightarrow> (Err (if e = eof_error then net_error net n else e), net_abandon net n)
      | Panic \<Rightarrow> (Panic, n))"

section \<open>The initial request\<close>

definition write_be :: "nat \<Rightarrow> 'a::len word \<Rightarrow> bytes" where
  "write_be n w = rev (write_le n w)"

definition initial_request :: bytes where
  "initial_request =
     write_be 4 (- 1 :: i32) @ [4] @ write_be 2 (20 :: i16) @ [4] @ write_be 2 (1 :: i16) @ [0, 1, 1, 1]"

definition send_and_receive :: "'n network \<Rightarrow> 'n \<Rightarrow> (unit, ioerr) res \<times> 'n" where
  "send_and_receive net n =
     (case net_write net initial_request n of
        (Ok (), n') \<Rightarrow> net_read net (skip_bytes 8) n'
      | (Err e, n') \<Rightarrow> (Err e, n')
      | (Panic, n') \<Rightarrow> (Panic, n'))"

section \<open>The roundtrip\<close>

text \<open>The state is the connection core and the state of the result set that is being fetched, if any.\<close>

type_synonym 'n rt_state = "'n conn_core \<times> rs_state option"

definition on_core :: "('n conn_core, 'a) st \<Rightarrow> ('n rt_state, 'a) st" where
  "on_core m = (\<lambda>(cc, rs). case m cc of (r, cc') \<Rightarrow> (r, (cc', rs)))"

definition on_tcp :: "('n \<Rightarrow> ('a, ioerr) res \<times> 'n) \<Rightarrow> ('n conn_core, 'a) st" where
  "on_tcp f = (\<lambda>cc. case f (cc_tcp cc) of (r, n) \<Rightarrow> (tcp r, cc\<lparr>cc_tcp := n\<rparr>))"

definition request_numbers :: "request \<Rightarrow> ('n conn_core, i64 \<times> i32) st" where
  "request_numbers r =
     (if rq_type r = RQ_Authenticate then st_return (0, 1)
      else (\<lambda>cc. st_bind next_seq_number (\<lambda>nsn. st_return (cc_session_id cc, nsn)) cc))"

definition send_request ::
    "'n driver \<Rightarrow> request \<Rightarrow> parameter_descriptor list option \<Rightarrow> ('n conn_core, unit) st" where
  "send_request dr r ds =
     st_bind (request_numbers r) (\<lambda>(sid, nsn). \<lambda>cc.
       on_tcp (net_send (dr_net dr)
         (request_emit (dr_c8 dr) (dr_nl dr) sid nsn (cc_auto_commit cc) ds r)) cc)"

definition receive_reply ::
    "'n driver \<Rightarrow> bool \<Rightarrow> resultset_metadata option \<Rightarrow> parameter_descriptor list option
      \<Rightarrow> ('n rt_state, reply) st" where
  "receive_reply dr has_conn o_a_rsmd ds = (\<lambda>(cc, rs).
     case on_tcp (net_read (dr_net dr) (reply_parse (dr_c8 dr) (dr_nl dr) o_a_rsmd ds rs has_conn)) cc of
       (Ok (reply, rs'), cc') \<Rightarrow> (Ok reply, (cc', rs'))
     | (Err e, cc') \<Rightarrow> (Err e, (cc', rs))
     | (Panic, cc') \<Rightarrow> (Panic, (cc', rs)))"

definition roundtrip ::
    "'n driver \<Rightarrow> request \<Rightarrow> bool \<Rightarrow> resultset_metadata option \<Rightarrow> parameter_descriptor list option
      \<Rightarrow> ('n rt_state, reply) st" where
  "roundtrip dr r has_conn o_a_rsmd ds =
     st_bind (on_core (send_request dr r ds)) (\<lambda>_.
     st_bind (receive_reply dr has_conn o_a_rsmd ds) (\<lambda>reply.
     on_core (handle_db_error reply)))"

text \<open>A roundtrip without a result set and without access to the connection, as the authentication
  makes it.\<close>

definition plain_roundtrip :: "'n driver \<Rightarrow> request \<Rightarrow> ('n conn_core, reply) st" where
  "plain_roundtrip dr r = (\<lambda>cc.
     case roundtrip dr r False None None (cc, None) of (res, (cc', _)) \<Rightarrow> (res, cc'))"

section \<open>Authentication\<close>

text \<open>The authenticator is chosen by comparing its name with \<^verbatim>\<open>from_utf8_lossy\<close> of the raw name; since the
  names are ASCII and the replacement character is not, that is equality of the bytes.\<close>

fun chosen_challenge :: "part list \<Rightarrow> (rstring \<times> bytes) option \<Rightarrow> ((rstring \<times> bytes) option, hdb_error) res" where
  "chosen_challenge [] result = Ok result"
| "chosen_challenge (P_Auth af # ps) result =
     (case af of
        [raw_name, server_challenge_data] \<Rightarrow> chosen_challenge ps (Some (raw_name, server_challenge_data))
      | _ \<Rightarrow> Err (Impl ''expected 2 auth_fields''))"
| "chosen_challenge (_ # ps) result = chosen_challenge ps result"

definition first_auth_fields :: "rstring \<Rightarrow> authenticator list \<Rightarrow> auth_field list" where
  "first_auth_fields user aus =
     user # concat (map (\<lambda>au. [auth_name (au_method au), au_client_challenge au]) aus)"

definition first_auth_request ::
    "'n driver \<Rightarrow> authenticator list \<Rightarrow> ('n conn_core, rstring \<times> bytes) st" where
  "first_auth_request dr aus = (\<lambda>cc.
     let request1 = request_push (P_Auth (first_auth_fields (cp_dbuser (cc_params cc)) aus))
           (request_push (P_ClientContext (client_context_new (dr_version dr) (dr_program dr)))
             (request_new RQ_Authenticate 0))
     in st_bind (plain_roundtrip dr request1) (\<lambda>reply.
        st_bind (st_lift (assert_expected_reply_type RT_Nil reply)) (\<lambda>_.
        st_bind (st_lift (chosen_challenge (rp_parts reply) None)) (\<lambda>result.
        st_lift (ok_or result (Impl ''No Authentication part found''))))) cc)"

fun second_auth_parts :: "authenticator \<Rightarrow> part list \<Rightarrow> ('n conn_core, unit) st" where
  "second_auth_parts au [] = st_return ()"
| "second_auth_parts au (P_TopologyInformation topology # ps) =
     st_bind (st_update (set_topology topology)) (\<lambda>_. second_auth_parts au ps)"
| "second_auth_parts au (P_ConnectOptions received_co # ps) =
     st_bind (st_update (\<lambda>cc.
       cc\<lparr>cc_connect_options := digest_server_connect_options (cc_connect_options cc) received_co\<rparr>))
       (\<lambda>_. second_auth_parts au ps)"
| "second_auth_parts au (P_Auth af # ps) =
     (case af of
        [meth, server_proof] \<Rightarrow>
          st_bind (st_lift (evaluate_second_response au meth server_proof)) (\<lambda>_. second_auth_parts au ps)
      | _ \<Rightarrow> st_lift (Err (Impl ''Expected 2 authfields'')))"
| "second_auth_parts au (_ # ps) = second_auth_parts au ps"

definition second_auth_options :: "bool \<Rightarrow> connect_options \<Rightarrow> (connect_options, hdb_error) res" where
  "second_auth_options reconnect co =
     (if reconnect then
        res_map (\<lambda>i. op_insert OriginalAnchorConnectionID (OV_INT i) co) (get_connection_id co)
      else Ok co)"

definition second_auth_request ::
    "'n driver \<Rightarrow> authenticator \<Rightarrow> bytes \<Rightarrow> bool \<Rightarrow> ('n conn_core, unit) st" where
  "second_auth_request dr au server_challenge_data reconnect = (\<lambda>cc.
     st_bind (st_lift (client_proof (dr_crypto dr) server_challenge_data (cp_password (cc_params cc)) au))
       (\<lambda>(proof, au').
     st_bind (st_lift (second_auth_options reconnect (cc_connect_options cc))) (\<lambda>conn_opts.
     let request2 = request_push (P_ConnectOptions conn_opts)
           (request_push (P_Auth [cp_dbuser (cc_params cc), auth_name (au_method au), proof])
             (request_new RQ_Connect 0))
     in st_bind (plain_roundtrip dr request2) (\<lambda>reply.
        st_bind (st_lift (assert_expected_reply_type RT_Nil reply)) (\<lambda>_.
        st_bind (st_update (set_session_id (rp_session_id reply))) (\<lambda>_.
        second_auth_parts au' (rp_parts reply)))))) cc)"

definition authenticate :: "'n driver \<Rightarrow> bool \<Rightarrow> ('n conn_core, unit) st" where
  "authenticate dr reconnect = (\<lambda>cc.
     case dr_challenges dr (cc_tcp cc) of
       (challenge1, challenge2) \<Rightarrow>
         let aus = [boxed_authenticator ScramSha256 challenge1,
                    boxed_authenticator ScramPbkdf2Sha256 challenge2]
         in st_bind (first_auth_request dr aus) (\<lambda>(selected, server_challenge).
            st_bind (st_lift (ok_or (List.find (\<lambda>au. auth_name (au_method au) = selected) aus)
                (Impl ''None of the available authenticators was accepted''))) (\<lambda>au.
            st_bind (second_auth_request dr au server_challenge reconnect) (\<lambda>_.
            st_update set_authenticated))) cc)"

section \<open>Connecting and reconnecting\<close>

definition conn_core_new :: "'n driver \<Rightarrow> connect_params \<Rightarrow> 'n \<Rightarrow> 'n conn_core" where
  "conn_core_new dr params n =
     \<lparr>cc_authenticated = False, cc_session_id = 0,
      cc_client_info = client_info_default (dr_program dr) (dr_pkg_name dr) (dr_version dr),
      cc_client_info_touched = True, cc_seq_number = 0, cc_auto_commit = True,
      cc_server_usage = server_usage_default, cc_fetch_size = default_fetch_size,
      cc_lob_read_length = default_lob_read_length, cc_lob_write_length = default_lob_write_length,
      cc_session_state = session_state_default, cc_statement_sequence = None,
      cc_connect_options = connect_options_for_server False (cp_clientlocale params) (dr_os_user dr),
      cc_topology = None, cc_warnings = [], cc_params = params, cc_tcp = n\<rparr>"

definition conn_core_try_new ::
    "'n driver \<Rightarrow> connect_params \<Rightarrow> 'n \<Rightarrow> ('n conn_core, hdb_error) res" where
  "conn_core_try_new dr params n0 =
     res_bind (tcp (fst (net_connect (dr_net dr) params n0))) (\<lambda>n1.
     case send_and_receive (dr_net dr) n1 of
       (Ok (), n2) \<Rightarrow>
         (case authenticate dr False (conn_core_new dr params n2) of
            (Ok (), cc) \<Rightarrow> Ok cc | (Err e, _) \<Rightarrow> Err e | (Panic, _) \<Rightarrow> Panic)
     | (Err e, n2) \<Rightarrow> Err (Tcp e)
     | (Panic, n2) \<Rightarrow> Panic)"

definition reconnect :: "'n driver \<Rightarrow> ('n conn_core, unit) st" where
  "reconnect dr = (\<lambda>cc.
     case net_connect (dr_net dr) (cc_params cc) (cc_tcp cc) of
       (Ok n, n_old) \<Rightarrow>
         (case send_and_receive (dr_net dr) n of
            (Ok (), n') \<Rightarrow>
              authenticate dr True (cc\<lparr>cc_tcp := n', cc_authenticated := False, cc_session_id := 0\<rparr>)
          | (Err e, _) \<Rightarrow> (Err (Tcp e), cc\<lparr>cc_tcp := n_old\<rparr>)
          | (Panic, _) \<Rightarrow> (Panic, cc\<lparr>cc_tcp := n_old\<rparr>))
     | (Err e, n_old) \<Rightarrow> (Err (Tcp e), cc\<lparr>cc_tcp := n_old\<rparr>)
     | (Panic, n_old) \<Rightarrow> (Panic, cc\<lparr>cc_tcp := n_old\<rparr>))"

section \<open>Sending\<close>

definition is_connection_reset :: "('a, hdb_error) res \<Rightarrow> bool" where
  "is_connection_reset r = (case r of Err (Tcp (IoErr KindConnectionReset _)) \<Rightarrow> True | _ \<Rightarrow> False)"

definition full_send ::
    "'n driver \<Rightarrow> request \<Rightarrow> resultset_metadata option \<Rightarrow> parameter_descriptor list option
      \<Rightarrow> ('n rt_state, reply) st" where
  "full_send dr request o_a_rsmd ds = (\<lambda>(cc, rs).
     case augment_request request cc of
       (request', cc1) \<Rightarrow>
         (case roundtrip dr request' True o_a_rsmd ds (cc1, rs) of
            (r, s) \<Rightarrow>
              if is_connection_reset r then
                st_bind (on_core (reconnect dr)) (\<lambda>_. roundtrip dr request' True o_a_rsmd ds) s
              else (r, s)))"

definition send :: "'n driver \<Rightarrow> request \<Rightarrow> ('n conn_core, reply) st" where
  "send dr request = (\<lambda>cc. case full_send dr request None None (cc, None) of (r, (cc', _)) \<Rightarrow> (r, cc'))"

text \<open>\<^verbatim>\<open>Drop\<close>: a disconnect request is sent, its reply is not read, errors are ignored.\<close>

definition conn_core_drop :: "'n driver \<Rightarrow> 'n conn_core \<Rightarrow> 'n conn_core" where
  "conn_core_drop dr cc =
     (if cc_authenticated cc then
        snd (st_bind next_seq_number (\<lambda>nsn. on_tcp (net_send (dr_net dr)
          (request_emit (dr_c8 dr) (dr_nl dr) (cc_session_id cc) nsn False None request_new_for_disconnect))) cc)
      else cc)"

section \<open>What operations keep\<close>

text \<open>A reflexive and transitive relation that holds from the state before an operation to the state after
  it is kept by sequences of operations; errors and panics included.\<close>

locale step_rel =
  fixes R :: "'s \<Rightarrow> 's \<Rightarrow> bool"
  assumes refl: "R s s" and trans: "R s t \<Longrightarrow> R t u \<Longrightarrow> R s u"
begin

definition keeps :: "('s, 'a) st \<Rightarrow> bool" where
  "keeps m \<longleftrightarrow> (\<forall>s. R s (snd (m s)))"

lemma keeps_bind: "keeps m \<Longrightarrow> (\<And>a. keeps (f a)) \<Longrightarrow> keeps (st_bind m f)"
  unfolding keeps_def st_bind_def
  by (auto split: prod.splits res.splits) (metis snd_conv trans)+

lemma keeps_return: "keeps (st_return a)" and keeps_lift: "keeps (st_lift r)"
  by (simp_all add: keeps_def st_simps refl)

lemma keeps_update: "(\<And>s. R s (f s)) \<Longrightarrow> keeps (st_update f)"
  by (simp add: keeps_def st_simps)

lemma keepsI: "(\<And>s. R s (snd (m s))) \<Longrightarrow> keeps m"
  by (simp add: keeps_def)

lemma keeps_state: "(\<And>s. keeps (m s)) \<Longrightarrow> keeps (\<lambda>s. m s s)"
  by (simp add: keeps_def)

lemmas keeps_intros = keeps_bind keeps_return keeps_lift

end

text \<open>The user's settings are untouched and the sequence number does not decrease.\<close>

definition core_progress :: "'n conn_core \<Rightarrow> 'n conn_core \<Rightarrow> bool" where
  "core_progress cc cc' \<longleftrightarrow>
     cc_auto_commit cc' = cc_auto_commit cc \<and> cc_fetch_size cc' = cc_fetch_size cc \<and>
     cc_lob_read_length cc' = cc_lob_read_length cc \<and> cc_lob_write_length cc' = cc_lob_write_length cc \<and>
     cc_client_info cc' = cc_client_info cc \<and> cc_params cc' = cc_params cc \<and>
     sint (cc_seq_number cc) \<le> sint (cc_seq_number cc')"

text \<open>What the operations below keep, more precisely: the mark of a changed client info stays, too.\<close>

definition core_step :: "'n conn_core \<Rightarrow> 'n conn_core \<Rightarrow> bool" where
  "core_step cc cc' \<longleftrightarrow> core_progress cc cc' \<and> cc_client_info_touched cc' = cc_client_info_touched cc"

interpretation core: step_rel core_step
  by unfold_locales (auto simp: core_step_def core_progress_def)

interpretation rt: step_rel "\<lambda>s t. core_step (fst s) (fst t)"
  by unfold_locales (auto simp: core_step_def core_progress_def)

lemma core_step_updates:
  "core_step cc (cc\<lparr>cc_warnings := ws\<rparr>)" "core_step cc (cc\<lparr>cc_tcp := n\<rparr>)"
  "core_step cc (cc\<lparr>cc_tcp := n, cc_authenticated := False, cc_session_id := 0\<rparr>)"
  "core_step cc (cc\<lparr>cc_session_state := ss\<rparr>)" "core_step cc (cc\<lparr>cc_connect_options := co\<rparr>)"
  "core_step cc (evaluate_statement_context sc cc)" "core_step cc (set_topology t cc)"
  "core_step cc (set_session_id i cc)" "core_step cc (set_authenticated cc)"
  by (simp_all add: core_step_def core_progress_def evaluate_statement_context_def set_topology_def set_session_id_def
      set_authenticated_def)

lemma sint_Suc: "n \<noteq> (0x7FFFFFFF :: i32) \<Longrightarrow> sint (n + 1) = sint n + 1"
proof -
  assume n: "n \<noteq> (0x7FFFFFFF :: i32)"
  have "sint n \<noteq> sint (0x7FFFFFFF :: i32)" using n by (metis signed_word_eqI)
  moreover have "sint n < 2 ^ 31" "- (2 ^ 31) \<le> sint n"
    using sint_lt [of n] sint_ge [of n] by simp_all
  ultimately have "sint n + 1 < 2 ^ 31" "- (2 ^ 31) \<le> sint n + 1" by simp_all
  then show ?thesis
    using sint_word_ariths(1) [of n 1] by (simp add: signed_take_bit_int_eq_self)
qed

lemma keeps_next_seq: "core.keeps next_seq_number"
  by (rule core.keepsI) (simp add: next_seq_number_def Let_def core_step_def core_progress_def sint_Suc)

lemma keeps_on_tcp: "core.keeps (on_tcp f)"
  by (rule core.keepsI) (auto simp: on_tcp_def core_step_def core_progress_def split: prod.splits)

lemma keeps_on_core: "core.keeps m \<Longrightarrow> rt.keeps (on_core m)"
  by (auto simp: core.keeps_def rt.keeps_def on_core_def split: prod.splits) (metis snd_conv)

lemma keeps_send_request: "core.keeps (send_request dr r ds)"
proof -
  have "core.keeps (\<lambda>cc. st_bind next_seq_number (\<lambda>nsn. st_return (cc_session_id cc, nsn)) cc)"
    by (rule core.keeps_state) (intro core.keeps_intros keeps_next_seq)
  then have "core.keeps (request_numbers r)"
    by (auto simp: request_numbers_def core.keeps_return)
  moreover have "core.keeps (\<lambda>cc. on_tcp (g cc) cc)" for g :: "'n conn_core \<Rightarrow> 'n \<Rightarrow> (unit, ioerr) res \<times> 'n"
    by (rule core.keeps_state) (rule keeps_on_tcp)
  ultimately show ?thesis unfolding send_request_def by (intro core.keeps_bind) (auto split: prod.splits)
qed

lemma keeps_evaluate: "core.keeps (evaluate_ta_flags flags)"
  by (rule core.keepsI) (simp add: evaluate_ta_flags_def Let_def core_step_updates)

lemma keeps_core_updates:
  "core.keeps (st_update (evaluate_statement_context sc))" "core.keeps (st_update (set_topology t))"
  "core.keeps (st_update (set_session_id i))" "core.keeps (st_update set_authenticated)"
  "core.keeps (st_update (\<lambda>cc. cc\<lparr>cc_connect_options := g cc\<rparr>))"
  by (rule core.keeps_update; rule core_step_updates)+

lemmas keeps_core = core.keeps_intros keeps_evaluate keeps_core_updates

lemma keeps_digest_error_parts: "core.keeps (digest_error_parts ps o_ers)"
  by (induction ps o_ers rule: digest_error_parts.induct)
    (auto intro!: keeps_core)

lemma keeps_handle_db_error: "core.keeps (handle_db_error r)"
proof (rule core.keepsI)
  fix cc :: "'n conn_core"
  note upd = core_step_updates(1) [of cc]
  let ?k = "\<lambda>es o_ers. case o_ers of
      Some ers \<Rightarrow> st_lift (Err (ExecutionResults (mix_errors es ers)))
    | None \<Rightarrow> st_lift (case es of [e] \<Rightarrow> Err (DbError e) | _ \<Rightarrow> Panic)"
  have "core.keeps (st_bind (digest_error_parts ps None) (?k es))" for ps es
    by (intro core.keeps_bind keeps_digest_error_parts) (simp add: core.keeps_lift split: option.split)
  then have "core_step cc (snd (st_bind (digest_error_parts ps None) (?k es) (cc\<lparr>cc_warnings := ws\<rparr>)))"
    for ps es ws using core.trans [OF upd] unfolding core.keeps_def by blast
  then show "core_step cc (snd (handle_db_error r cc))"
    using upd unfolding handle_db_error_def Let_def
    by (auto split: prod.split option.split part.split)
qed

lemma keeps_roundtrip:
  fixes dr :: "'n driver"
  shows "rt.keeps (roundtrip dr r hc md ds)"
proof -
  have "rt.keeps (receive_reply dr hc md ds)"
  proof (rule rt.keepsI)
    fix s :: "'n conn_core \<times> rs_state option"
    obtain cc rs where s: "s = (cc, rs)" by (cases s)
    have "core_step cc (snd (on_tcp f cc))" for f :: "'n \<Rightarrow> (reply \<times> rs_state option, ioerr) res \<times> 'n"
      using keeps_on_tcp [of f] unfolding core.keeps_def by blast
    then show "core_step (fst s) (fst (snd (receive_reply dr hc md ds s)))"
      by (auto simp: s receive_reply_def split: prod.splits res.splits) (metis snd_conv)+
  qed
  then show ?thesis unfolding roundtrip_def
    by (intro rt.keeps_bind keeps_on_core keeps_send_request keeps_handle_db_error)
qed

lemma keeps_plain_roundtrip:
  fixes dr :: "'n driver"
  shows "core.keeps (plain_roundtrip dr r)"
proof (rule core.keepsI)
  fix cc :: "'n conn_core"
  have "core_step cc (fst (snd (roundtrip dr r False None None (cc, None))))"
    using keeps_roundtrip [of dr r False None None] by (metis rt.keeps_def fst_conv)
  then show "core_step cc (snd (plain_roundtrip dr r cc))"
    by (cases "roundtrip dr r False None None (cc, None)") (auto simp: plain_roundtrip_def)
qed

lemma keeps_second_auth_parts: "core.keeps (second_auth_parts au ps)"
  by (induction au ps rule: second_auth_parts.induct)
    (auto intro!: keeps_core split: list.split)

lemma keeps_authenticate:
  fixes dr :: "'n driver"
  shows "core.keeps (authenticate dr rec)"
proof -
  have first: "core.keeps (first_auth_request dr aus)" for aus
    unfolding first_auth_request_def Let_def
    by (rule core.keeps_state) (intro core.keeps_intros keeps_plain_roundtrip)
  have "core.keeps (second_auth_request dr au c rec)" for au c
    unfolding second_auth_request_def Let_def
    by (rule core.keeps_state)
      (auto intro!: keeps_core keeps_plain_roundtrip keeps_second_auth_parts split: prod.splits)
  note second = this
  show ?thesis
  proof (rule core.keepsI)
    fix cc :: "'n conn_core"
    obtain c1 c2 where c: "dr_challenges dr (cc_tcp cc) = (c1, c2)" by (cases "dr_challenges dr (cc_tcp cc)")
    have "core.keeps (st_bind (first_auth_request dr aus) (\<lambda>(selected, server_challenge).
            st_bind (st_lift (ok_or (List.find (\<lambda>au. auth_name (au_method au) = selected) aus) e)) (\<lambda>au.
            st_bind (second_auth_request dr au server_challenge rec) (\<lambda>_. st_update set_authenticated))))"
      for aus e
      by (auto intro!: keeps_core first second split: prod.splits)
    then show "core_step cc (snd (authenticate dr rec cc))"
      unfolding authenticate_def c Let_def core.keeps_def prod.case by blast
  qed
qed

lemma keeps_reconnect:
  fixes dr :: "'n driver"
  shows "core.keeps (reconnect dr)"
proof (rule core.keepsI)
  fix cc :: "'n conn_core"
  note upd = core_step_updates(2,3) [of cc]
  have "core_step cc (snd (authenticate dr True
      (cc\<lparr>cc_tcp := n, cc_authenticated := False, cc_session_id := 0\<rparr>)))" for n
    using keeps_authenticate [of dr True] core.trans [OF upd(2)] unfolding core.keeps_def by blast
  then show "core_step cc (snd (reconnect dr cc))"
    by (simp add: reconnect_def upd(1) split: prod.split res.split unit.split)
qed

lemma full_send_step:
  fixes dr :: "'n driver"
  assumes "augment_request r cc = (r', cc1)"
  shows "core_step cc1 (fst (snd (full_send dr r md ds (cc, rs))))"
proof -
  obtain x s where t: "roundtrip dr r' True md ds (cc1, rs) = (x, s)" by (cases "roundtrip dr r' True md ds (cc1, rs)")
  have s: "core_step cc1 (fst s)"
    using keeps_roundtrip [of dr r' True md ds] t by (metis rt.keeps_def fst_conv snd_conv)
  have "rt.keeps (st_bind (on_core (reconnect dr)) (\<lambda>_. roundtrip dr r' True md ds))"
    by (intro rt.keeps_bind keeps_on_core keeps_reconnect keeps_roundtrip)
  then have "core_step (fst s) (fst (snd (st_bind (on_core (reconnect dr)) (\<lambda>_. roundtrip dr r' True md ds) s)))"
    unfolding rt.keeps_def by blast
  then show ?thesis using s by (auto simp: full_send_def assms t intro: core.trans)
qed

text \<open>C4: Whatever happens while a request is sent (server errors, a reset and the reconnect with its two
  authentication requests, even a panic): the settings of the user are kept and the sequence
  number of the connection does not go back.\<close>

theorem full_send_progress:
  fixes dr :: "'n driver"
  shows "core_progress cc (fst (snd (full_send dr r md ds (cc, rs))))"
proof -
  obtain r' cc1 where a: "augment_request r cc = (r', cc1)" by (cases "augment_request r cc")
  have "core_progress cc (snd (augment_request r cc))"
    by (simp add: augment_request_def get_client_info_for_sending_def Let_def core_progress_def)
  then have cc1: "core_progress cc cc1" by (simp add: a)
  have "core_progress cc1 (fst (snd (full_send dr r md ds (cc, rs))))"
    using full_send_step [OF a] by (simp add: core_step_def)
  with cc1 show ?thesis unfolding core_progress_def by auto
qed

section \<open>The server's proof\<close>

lemma st_bind_lift: "st_bind (st_lift r) f s = (case r of Ok a \<Rightarrow> f a s | Err e \<Rightarrow> (Err e, s) | Panic \<Rightarrow> (Panic, s))"
  by (simp add: st_bind_def st_simps split: res.split)

text \<open>C20: The answer to the connect request is accepted if and only if each of its authentication parts holds two
  fields that verify; an answer without an authentication part is therefore accepted without any
  proof of the server, whatever authenticator was chosen.\<close>

theorem server_proof_checked_iff:
  "fst (second_auth_parts au ps cc) = Ok () \<longleftrightarrow>
     (\<forall>af. P_Auth af \<in> set ps \<longrightarrow> (\<exists>meth sp. af = [meth, sp] \<and> evaluate_second_response au meth sp = Ok ()))"
proof (induction au ps arbitrary: cc rule: second_auth_parts.induct)
  case (4 au af ps)
  show ?case
  proof (cases "\<exists>meth sp. af = [meth, sp]")
    case True
    then obtain meth sp where "af = [meth, sp]" by blast
    then show ?thesis using "4.IH"
      by (cases "evaluate_second_response au meth sp") (auto simp: st_bind_lift)
  next
    case False
    then have "fst (second_auth_parts au (P_Auth af # ps) cc) \<noteq> Ok ()"
      by (auto simp: st_simps split: list.splits)
    then show ?thesis using False by auto
  qed
qed (auto simp: st_bind_def st_simps)

theorem server_proof_checked_iff_witness:
  "fst (second_auth_parts sample_auth [P_StatementId 3, P_Auth [auth_name ScramSha256, []]] sample_conn_core) = Ok () \<and>
   fst (second_auth_parts sample_auth [P_Auth [auth_name ScramSha256, [1]]] sample_conn_core) \<noteq> Ok () \<and>
   fst (second_auth_parts sample_auth [] sample_conn_core) = Ok ()"
proof -
  have "evaluate_second_response sample_auth (auth_name ScramSha256) [] = Ok ()"
    "evaluate_second_response sample_auth (auth_name ScramSha256) [1] \<noteq> Ok ()"
    by (simp_all add: evaluate_second_response_def verify_server_def sample_auth_def boxed_authenticator_def)
  then show ?thesis by (simp add: server_proof_checked_iff del: auth_name.simps second_auth_parts.simps)
qed

end
