(* ===== verification/Hdb_Loops.thy ===== *)
theory Hdb_Loops
  imports Hdb_Session
begin

text \<open>
  Loops of the form \<^verbatim>\<open>while cond { step()?; }\<close>, as the client runs them until the server has sent
  everything: \<^verbatim>\<open>fetch_all\<close>, \<^verbatim>\<open>load_complete\<close>, the loops in the \<^verbatim>\<open>read\<close> functions. Whether they end
  depends on the server; \<open>None\<close> is the loop that does not.
\<close>

partial_function (option) st_while ::
    "('s \<Rightarrow> bool) \<Rightarrow> ('s, unit) st \<Rightarrow> 's \<Rightarrow> ((unit, hdb_error) res \<times> 's) option" where
  "st_while c m s =
     (if c s then
        case fst (m s) of
          Ok _ \<Rightarrow> st_while c m (snd (m s))
        | Err e \<Rightarrow> Some (Err e, snd (m s))
        | Panic \<Rightarrow> Some (Panic, snd (m s))
      else Some (Ok (), s))"

declare st_while.simps [code]

text \<open>What every step keeps holds at the end, and a loop that ends without an error has falsified its
  condition.\<close>

lemma st_while_invariant:
  assumes step: "\<And>s r s'. I s \<Longrightarrow> c s \<Longrightarrow> m s = (r, s') \<Longrightarrow> I s'"
    and "st_while c m s = Some (r, s')" and "I s"
  shows "I s' \<and> (r = Ok () \<longrightarrow> \<not> c s')"
proof -
  have I: "I (snd (m s))" if "I s" "c s" for s using step [OF that] by (metis prod.collapse)
  have "c' = c \<longrightarrow> m' = m \<longrightarrow> I s \<longrightarrow> I (snd x) \<and> (fst x = Ok () \<longrightarrow> \<not> c (snd x))"
    if "st_while c' m' s = Some x" for c' m' s x
    by (rule st_while.raw_induct [OF _ that]) (use I in \<open>auto split: res.splits if_splits\<close>)
  from this [OF assms(2)] assms(3) show ?thesis by simp
qed

text \<open>A loop whose steps succeed and decrease a measure ends.\<close>

lemma st_while_total:
  fixes f :: "'s \<Rightarrow> nat"
  assumes step: "\<And>s. I s \<Longrightarrow> c s \<Longrightarrow> \<exists>s'. m s = (Ok (), s') \<and> I s' \<and> f s' < f s"
  shows "I s \<Longrightarrow> \<exists>s'. st_while c m s = Some (Ok (), s') \<and> I s' \<and> \<not> c s'"
proof (induction "f s" arbitrary: s rule: less_induct)
  case less
  show ?case
  proof (cases "c s")
    case True
    then obtain t where t: "m s = (Ok (), t)" "I t" "f t < f s" using step less.prems by blast
    then obtain s' where "st_while c m t = Some (Ok (), s')" "I s'" "\<not> c s'" using less.hyps by blast
    then show ?thesis using True t by (subst st_while.simps) auto
  next
    case False
    then show ?thesis using less.prems by (subst st_while.simps) auto
  qed
qed

end
