(* ===== verification/Hdb_Lob.thy ===== *)
theory Hdb_Lob
  imports Hdb_Connection Hdb_Loops
begin

text \<open>
  Reading LOBs (types\_impl/lob/fetch.rs, blob.rs, clob.rs, nclob.rs): a handle holds what was
  transferred so far and fetches the rest in chunks through its connection. The operations of a
  handle use the connection for two things, to fetch a chunk and to ask for the configured chunk
  size: the record \<open>lob_source\<close>; \<open>conn_source\<close> is the source that the connection core is.
\<close>

section \<open>Fetching a chunk\<close>

definition on_conn :: "('n conn_core, 'a) st \<Rightarrow> ('n conn_core \<times> server_usage, 'a) st" where
  "on_conn m = (\<lambda>(cc, u). case m cc of (r, cc') \<Rightarrow> (r, (cc', u)))"

text \<open>The parts of the reply: the last matching \<^verbatim>\<open>ReadLobReply\<close> counts, a statement context updates the
  server usage of the handle.\<close>

fun lob_reply_parts ::
    "u64 \<Rightarrow> part list \<Rightarrow> read_lob_reply option \<Rightarrow> ('n conn_core \<times> server_usage, read_lob_reply option) st" where
  "lob_reply_parts locator_id [] o_reply = st_return o_reply"
| "lob_reply_parts locator_id (P_ReadLobReply r # ps) o_reply =
     (if rr_locator_id r \<noteq> locator_id then st_lift (Err (Impl ''locator ids do not match''))
      else lob_reply_parts locator_id ps (Some r))"
| "lob_reply_parts locator_id (P_StatementContext sc # ps) o_reply =
     st_bind (st_update (\<lambda>(cc, u). (cc, usage_of_stmt_ctx sc u))) (\<lambda>_. lob_reply_parts locator_id ps o_reply)"
| "lob_reply_parts locator_id (_ # ps) o_reply = lob_reply_parts locator_id ps o_reply"

text \<open>\<^verbatim>\<open>offset + 1\<close> on \<^verbatim>\<open>u64\<close>.\<close>

definition fetch_a_lob_chunk ::
    "'n driver \<Rightarrow> u64 \<Rightarrow> nat \<Rightarrow> u32 \<Rightarrow> ('n conn_core \<times> server_usage, bytes \<times> bool) st" where
  "fetch_a_lob_chunk dr locator_id offset len =
     (if int offset \<ge> 2 ^ 64 - 1 then st_lift Panic
      else
        let request = request_push (P_ReadLobRequest \<lparr>rl_locator_id = locator_id,
              rl_offset = word_of_nat (offset + 1), rl_length = len\<rparr>) (request_new RQ_ReadLob 0)
        in st_bind (on_conn (send dr request)) (\<lambda>reply.
           st_bind (st_lift (assert_expected_reply_type RT_ReadLob reply)) (\<lambda>_.
           st_bind (lob_reply_parts locator_id (rp_parts reply) None) (\<lambda>o_reply.
           case o_reply of
             Some r \<Rightarrow> st_return (rr_data r, rr_is_last_data r)
           | None \<Rightarrow> st_lift (Err (Impl ''dsdadasd''))))))"

record 's lob_source =
  ls_fetch :: "u64 \<Rightarrow> nat \<Rightarrow> u32 \<Rightarrow> ('s \<times> server_usage, bytes \<times> bool) st"
  ls_read_length :: "'s \<Rightarrow> u32"

definition conn_source :: "'n driver \<Rightarrow> 'n conn_core lob_source" where
  "conn_source dr = \<lparr>ls_fetch = fetch_a_lob_chunk dr, ls_read_length = cc_lob_read_length\<rparr>"

section \<open>Binary LOBs\<close>

text \<open>\<^verbatim>\<open>total - acc\<close> can underflow, and is then cut to 32 bits.\<close>

definition chunk_length :: "u32 \<Rightarrow> u64 \<Rightarrow> nat \<Rightarrow> (u32, hdb_error) res" where
  "chunk_length lob_read_length total_len acc =
     (if unat total_len < acc then Panic else Ok (min lob_read_length (word_of_nat (unat total_len - acc))))"

definition blob_fetch_next_chunk :: "'s lob_source \<Rightarrow> (blob_handle \<times> 's, unit) st" where
  "blob_fetch_next_chunk src = (\<lambda>(h, s).
     if bl_complete h then (Err (Impl ''fetch_next_chunk(): already complete''), (h, s))
     else
       case chunk_length (ls_read_length src s) (bl_total_byte_length h) (bl_acc_byte_length h) of
         Ok read_length \<Rightarrow>
           (case ls_fetch src (bl_locator_id h) (bl_acc_byte_length h) read_length (s, bl_server_usage h) of
              (Ok (data, is_last), (s', u)) \<Rightarrow>
                let h' = h\<lparr>bl_acc_byte_length := bl_acc_byte_length h + length data,
                           bl_data := bl_data h @ data, bl_complete := is_last,
                           bl_max_buf_len := max (length (bl_data h @ data)) (bl_max_buf_len h),
                           bl_server_usage := u\<rparr>
                in (if bl_complete h' \<longleftrightarrow> unat (bl_total_byte_length h') = bl_acc_byte_length h'
                    then Ok () else Panic, (h', s'))
            | (Err e, (s', u)) \<Rightarrow> (Err e, (h\<lparr>bl_server_usage := u\<rparr>, s'))
            | (Panic, (s', u)) \<Rightarrow> (Panic, (h\<lparr>bl_server_usage := u\<rparr>, s')))
       | _ \<Rightarrow> (Panic, (h, s)))"

definition blob_load_complete ::
    "'s lob_source \<Rightarrow> blob_handle \<times> 's \<Rightarrow> ((unit, hdb_error) res \<times> blob_handle \<times> 's) option" where
  "blob_load_complete src = st_while (\<lambda>(h, s). \<not> bl_complete h) (blob_fetch_next_chunk src)"

definition blob_into_bytes ::
    "'s lob_source \<Rightarrow> blob_handle \<times> 's \<Rightarrow> ((bytes, hdb_error) res \<times> 's) option" where
  "blob_into_bytes src x =
     map_option (\<lambda>(r, (h, s)). (res_map (\<lambda>_. bl_data h) r, s)) (blob_load_complete src x)"

definition blob_read_slice :: "'s lob_source \<Rightarrow> nat \<Rightarrow> u32 \<Rightarrow> (blob_handle \<times> 's, bytes) st" where
  "blob_read_slice src offset len = (\<lambda>(h, s).
     case ls_fetch src (bl_locator_id h) offset len (s, bl_server_usage h) of
       (r, (s', u)) \<Rightarrow> (res_map fst r, (h\<lparr>bl_server_usage := u\<rparr>, s')))"

text \<open>\<^verbatim>\<open>Read::read\<close> with a buffer of \<open>n\<close> bytes; the result is what is written to the buffer.\<close>

definition as_read_error :: "io_kind \<Rightarrow> ('a, hdb_error) res \<Rightarrow> ('a, ioerr) res" where
  "as_read_error k r = res_map_err (\<lambda>e. IoErr k (hdb_error_text e)) r"

definition blob_read ::
    "'s lob_source \<Rightarrow> nat \<Rightarrow> blob_handle \<times> 's \<Rightarrow> ((bytes, ioerr) res \<times> blob_handle \<times> 's) option" where
  "blob_read src n x =
     map_option (\<lambda>(r, (h, s)).
         case r of
           Ok _ \<Rightarrow>
             let count = min (length (bl_data h)) n
             in (Ok (take count (bl_data h)), (h\<lparr>bl_data := drop count (bl_data h)\<rparr>, s))
         | Err e \<Rightarrow> (as_read_error KindUnexpectedEof (Err e), (h, s))
         | Panic \<Rightarrow> (Panic, (h, s)))
       (st_while (\<lambda>(h, s). \<not> bl_complete h \<and> n > length (bl_data h)) (blob_fetch_next_chunk src) x)"

section \<open>Character LOBs\<close>

definition clob_fetch_next_chunk :: "'s lob_source \<Rightarrow> (clob_handle \<times> 's, unit) st" where
  "clob_fetch_next_chunk src = (\<lambda>(h, s).
     if cl_complete h then (Err (Impl ''fetch_next_chunk(): already complete''), (h, s))
     else
       case chunk_length (ls_read_length src s) (cl_total_byte_length h) (cl_acc_byte_length h) of
         Ok read_length \<Rightarrow>
           (case ls_fetch src (cl_locator_id h) (cl_acc_byte_length h) read_length (s, cl_server_usage h) of
              (Ok (data, is_last), (s', u)) \<Rightarrow>
                let cesu8 = cl_cesu8 h @ data;
                    h1 = h\<lparr>cl_acc_byte_length := cl_acc_byte_length h + length data, cl_cesu8 := cesu8,
                           cl_server_usage := u\<rparr>
                in (case tcp (get_cesu8_tail_len cesu8 (length cesu8)) of
                      Ok tail_len \<Rightarrow>
                        let h2 = h1\<lparr>cl_cesu8_tail_len := tail_len, cl_complete := is_last,
                                   cl_max_buf_len := max (length cesu8) (cl_max_buf_len h1)\<rparr>
                        in (if cl_complete h2 \<longleftrightarrow> unat (cl_total_byte_length h2) = cl_acc_byte_length h2
                            then Ok () else Panic, (h2, s'))
                    | Err e \<Rightarrow> (Err e, (h1, s'))
                    | Panic \<Rightarrow> (Panic, (h1, s')))
            | (Err e, (s', u)) \<Rightarrow> (Err e, (h\<lparr>cl_server_usage := u\<rparr>, s'))
            | (Panic, (s', u)) \<Rightarrow> (Panic, (h\<lparr>cl_server_usage := u\<rparr>, s')))
       | _ \<Rightarrow> (Panic, (h, s)))"

definition clob_load_complete ::
    "'s lob_source \<Rightarrow> clob_handle \<times> 's \<Rightarrow> ((unit, hdb_error) res \<times> clob_handle \<times> 's) option" where
  "clob_load_complete src = st_while (\<lambda>(h, s). \<not> cl_complete h) (clob_fetch_next_chunk src)"

definition clob_into_string ::
    "cesu8_lib \<Rightarrow> 's lob_source \<Rightarrow> clob_handle \<times> 's \<Rightarrow> ((rstring, hdb_error) res \<times> 's) option" where
  "clob_into_string c8 src x =
     map_option (\<lambda>(r, (h, s)). (res_bind r (\<lambda>_. hdb_string c8 (cl_cesu8 h)), s)) (clob_load_complete src x)"

definition clob_read_slice ::
    "cesu8_lib \<Rightarrow> 's lob_source \<Rightarrow> nat \<Rightarrow> u32 \<Rightarrow> (clob_handle \<times> 's, char_lob_slice) st" where
  "clob_read_slice c8 src offset len = (\<lambda>(h, s).
     case ls_fetch src (cl_locator_id h) offset len (s, cl_server_usage h) of
       (r, (s', u)) \<Rightarrow>
         (res_bind r (\<lambda>(data, _). split_off_orphaned_bytes c8 data), (h\<lparr>cl_server_usage := u\<rparr>, s')))"

text \<open>
  What \<^verbatim>\<open>read\<close> does once enough is there: at most \<open>n\<close> bytes are taken out of the buffer, cut at the
  last character start, the tail is pushed back and the characters are written as UTF-8. On an error
  the bytes that were taken out are gone.
\<close>

definition read_chars :: "cesu8_lib \<Rightarrow> nat \<Rightarrow> bytes \<Rightarrow> (bytes, ioerr) res \<times> bytes" where
  "read_chars c8 n cesu8 =
     (let drain_len = min n (length cesu8);
          buf = take drain_len cesu8;
          rest = drop drain_len cesu8
      in case get_cesu8_tail_len buf (length buf) of
           Ok tail_len \<Rightarrow>
             let cut_off_position = length buf - tail_len
             in (case from_cesu8 c8 (take cut_off_position buf) of
                   Some utf8 \<Rightarrow>
                     (if length utf8 \<le> n then Ok utf8 else Err (io_error ''failed to write whole buffer''),
                      drop cut_off_position buf @ rest)
                 | None \<Rightarrow> (Err (io_error ''CESU-8 decoding error''), rest))
         | Err e \<Rightarrow> (Err e, rest)
         | Panic \<Rightarrow> (Panic, rest))"

text \<open>The loop of \<^verbatim>\<open>read\<close>: \<^verbatim>\<open>cesu8.len() - cesu8_tail_len\<close> may underflow.\<close>

definition clob_fill :: "'s lob_source \<Rightarrow> (clob_handle \<times> 's, unit) st" where
  "clob_fill src = (\<lambda>(h, s).
     if length (cl_cesu8 h) < cl_cesu8_tail_len h then (Panic, (h, s)) else clob_fetch_next_chunk src (h, s))"

definition clob_wants :: "nat \<Rightarrow> clob_handle \<Rightarrow> bool" where
  "clob_wants n h \<longleftrightarrow> \<not> cl_complete h \<and>
     (length (cl_cesu8 h) < cl_cesu8_tail_len h \<or> n > length (cl_cesu8 h) - cl_cesu8_tail_len h)"

definition clob_read ::
    "cesu8_lib \<Rightarrow> 's lob_source \<Rightarrow> nat \<Rightarrow> clob_handle \<times> 's
      \<Rightarrow> ((bytes, ioerr) res \<times> clob_handle \<times> 's) option" where
  "clob_read c8 src n x =
     map_option (\<lambda>(r, (h, s)).
         case r of
           Ok _ \<Rightarrow> (case read_chars c8 n (cl_cesu8 h) of (w, cesu8) \<Rightarrow> (w, (h\<lparr>cl_cesu8 := cesu8\<rparr>, s)))
         | Err e \<Rightarrow> (as_read_error KindOther (Err e), (h, s))
         | Panic \<Rightarrow> (Panic, (h, s)))
       (st_while (\<lambda>(h, s). clob_wants n h) (clob_fill src) x)"

section \<open>National character LOBs\<close>

text \<open>Offsets and lengths count characters, a surrogate pair as two; the assertion is about bytes.\<close>

definition nclob_fetch_next_chunk :: "'s lob_source \<Rightarrow> (nclob_handle \<times> 's, unit) st" where
  "nclob_fetch_next_chunk src = (\<lambda>(h, s).
     if nc_complete h then (Err (Impl ''already complete''), (h, s))
     else
       case chunk_length (ls_read_length src s) (nc_total_char_length h) (nc_acc_char_length h) of
         Ok read_length \<Rightarrow>
           (case ls_fetch src (nc_locator_id h) (nc_acc_char_length h) read_length (s, nc_server_usage h) of
              (Ok (data, is_last), (s', u)) \<Rightarrow>
                let cesu8 = nc_cesu8 h @ data;
                    h1 = h\<lparr>nc_acc_byte_length := nc_acc_byte_length h + length data,
                           nc_acc_char_length := nc_acc_char_length h + count_1_2_3_sequence_starts data,
                           nc_cesu8 := cesu8, nc_server_usage := u\<rparr>
                in (case tcp (get_cesu8_tail_len cesu8 (length cesu8)) of
                      Ok tail_len \<Rightarrow>
                        let h2 = h1\<lparr>nc_cesu8_tail_len := tail_len, nc_complete := is_last,
                                   nc_max_buf_len := max (length cesu8) (nc_max_buf_len h1)\<rparr>
                        in (if nc_complete h2 \<longleftrightarrow> unat (nc_total_byte_length h2) = nc_acc_byte_length h2
                            then Ok () else Panic, (h2, s'))
                    | Err e \<Rightarrow> (Err e, (h1, s'))
                    | Panic \<Rightarrow> (Panic, (h1, s')))
            | (Err e, (s', u)) \<Rightarrow> (Err e, (h\<lparr>nc_server_usage := u\<rparr>, s'))
            | (Panic, (s', u)) \<Rightarrow> (Panic, (h\<lparr>nc_server_usage := u\<rparr>, s')))
       | _ \<Rightarrow> (Panic, (h, s)))"

definition nclob_load_complete ::
    "'s lob_source \<Rightarrow> nclob_handle \<times> 's \<Rightarrow> ((unit, hdb_error) res \<times> nclob_handle \<times> 's) option" where
  "nclob_load_complete src = st_while (\<lambda>(h, s). \<not> nc_complete h) (nclob_fetch_next_chunk src)"

definition nclob_into_string ::
    "cesu8_lib \<Rightarrow> 's lob_source \<Rightarrow> nclob_handle \<times> 's \<Rightarrow> ((rstring, hdb_error) res \<times> 's) option" where
  "nclob_into_string c8 src x =
     map_option (\<lambda>(r, (h, s)). (res_bind r (\<lambda>_. hdb_string c8 (nc_cesu8 h)), s)) (nclob_load_complete src x)"

definition nclob_read_slice ::
    "cesu8_lib \<Rightarrow> 's lob_source \<Rightarrow> nat \<Rightarrow> u32 \<Rightarrow> (nclob_handle \<times> 's, char_lob_slice) st" where
  "nclob_read_slice c8 src offset len = (\<lambda>(h, s).
     case ls_fetch src (nc_locator_id h) offset len (s, nc_server_usage h) of
       (r, (s', u)) \<Rightarrow>
         (res_bind r (\<lambda>(data, _). split_off_orphaned_surrogates c8 data), (h\<lparr>nc_server_usage := u\<rparr>, s')))"

definition nclob_fill :: "'s lob_source \<Rightarrow> (nclob_handle \<times> 's, unit) st" where
  "nclob_fill src = (\<lambda>(h, s).
     if length (nc_cesu8 h) < nc_cesu8_tail_len h then (Panic, (h, s)) else nclob_fetch_next_chunk src (h, s))"

definition nclob_wants :: "nat \<Rightarrow> nclob_handle \<Rightarrow> bool" where
  "nclob_wants n h \<longleftrightarrow> \<not> nc_complete h \<and>
     (length (nc_cesu8 h) < nc_cesu8_tail_len h \<or> n > length (nc_cesu8 h) - nc_cesu8_tail_len h)"

definition nclob_read ::
    "cesu8_lib \<Rightarrow> 's lob_source \<Rightarrow> nat \<Rightarrow> nclob_handle \<times> 's
      \<Rightarrow> ((bytes, ioerr) res \<times> nclob_handle \<times> 's) option" where
  "nclob_read c8 src n x =
     map_option (\<lambda>(r, (h, s)).
         case r of
           Ok _ \<Rightarrow> (case read_chars c8 n (nc_cesu8 h) of (w, cesu8) \<Rightarrow> (w, (h\<lparr>nc_cesu8 := cesu8\<rparr>, s)))
         | Err e \<Rightarrow> (as_read_error KindOther (Err e), (h, s))
         | Panic \<Rightarrow> (Panic, (h, s)))
       (st_while (\<lambda>(h, s). nclob_wants n h) (nclob_fill src) x)"

end
