(* ===== verification/Hdb_Lob_Props.thy ===== *)
theory Hdb_Lob_Props
  imports Hdb_Lob
begin

text \<open>
  What the operations of a LOB handle deliver when the server serves its content: the contract of
  the server is the locale \<open>lob_server\<close>, its instance on the wire format of the model follows below.
\<close>

section \<open>The length that is asked for\<close>

lemma chunk_length_bounded:
  assumes "unat t = whole" "acc < whole" "whole < 2 ^ 32" "2 \<le> r"
  obtains l where "chunk_length r t acc = Ok l" "2 \<le> unat l \<or> acc + unat l = whole"
    "0 < unat l" "acc + unat l \<le> whole" "unat l \<le> unat r"
proof -
  let ?r = "word_of_nat (whole - acc) :: u32"
  let ?l = "min r ?r"
  have r: "unat ?r = whole - acc" using assms(3) by (simp add: unat_of_nat)
  have "2 \<le> unat r" using assms(4) by (simp add: word_le_nat_alt)
  moreover have u: "unat ?l = min (unat r) (whole - acc)"
    by (simp add: min_def word_le_nat_alt r)
  ultimately have l: "2 \<le> unat ?l \<or> acc + unat ?l = whole" "0 < unat ?l" "acc + unat ?l \<le> whole"
    using assms(2) by linarith+
  show ?thesis by (rule that [of ?l]) (use l u assms(1,2) in \<open>auto simp: chunk_length_def\<close>)
qed

section \<open>The tail\<close>

lemma tail_scan_le: "tail_scan bs len i = Ok k \<Longrightarrow> k \<le> len"
  by (induction i) (auto simp: res_bind_Ok_iff tail_from_def split: option.splits)

lemma tail_len_le: "get_cesu8_tail_len bs len = Ok k \<Longrightarrow> k \<le> len"
  by (auto simp: get_cesu8_tail_len_def res_bind_Ok_iff dest: tail_scan_le split: if_splits)

lemma tail_len_small:
  assumes "list_all cesu_char cs" "i \<le> length (concat cs)" "get_cesu8_tail_len (take i (concat cs)) i = Ok k"
  shows "k \<le> i \<and> k < 6"
  using tail_len_le [OF assms(3)] cut_position [OF assms(1,2)] assms(3) by (cases "i = 1") auto

section \<open>The contract of a server that holds the content\<close>

text \<open>\<open>ready n s\<close>: in the state \<open>s\<close> of the connection at least \<open>n\<close> further chunks can be requested.\<close>

locale lob_server =
  fixes src :: "'s lob_source" and ready :: "nat \<Rightarrow> 's \<Rightarrow> bool" and locator :: u64 and content :: bytes
  assumes read_length_pos: "ready n s \<Longrightarrow> 2 \<le> ls_read_length src s"
    and serve: "length content + 16 < 2 ^ 31 \<Longrightarrow> ready (Suc n) s \<Longrightarrow> i < length content \<Longrightarrow>
      \<exists>s' u'. ls_fetch src locator i l (s, u) =
        (Ok (take (unat l) (drop i content), length content \<le> i + unat l), (s', u')) \<and> ready n s'
        \<and> ls_read_length src s' = ls_read_length src s"
begin

lemma chunk_length_ok:
  assumes "length content + 16 < 2 ^ 31" "unat t = length content" "acc < length content" "ready n s"
  obtains l where "chunk_length (ls_read_length src s) t acc = Ok l" "2 \<le> unat l \<or> acc + unat l = length content"
    "0 < unat l" "acc + unat l \<le> length content"
  using chunk_length_bounded [OF assms(2,3) _ read_length_pos [OF assms(4)]] assms(1) by auto

text \<open>The state of a handle of which \<open>p\<close> bytes were read.\<close>

definition blob_at :: "nat \<Rightarrow> blob_handle \<Rightarrow> bool" where
  "blob_at p h \<longleftrightarrow> bl_locator_id h = locator \<and> unat (bl_total_byte_length h) = length content \<and>
     bl_acc_byte_length h \<le> length content \<and> (bl_complete h \<longleftrightarrow> bl_acc_byte_length h = length content) \<and>
     p \<le> bl_acc_byte_length h \<and> bl_data h = drop p (take (bl_acc_byte_length h) content)"

definition blob_ready :: "nat \<Rightarrow> blob_handle \<times> 's \<Rightarrow> bool" where
  "blob_ready p = (\<lambda>(h, s). blob_at p h \<and> (\<exists>n \<ge> length content - bl_acc_byte_length h. ready n s))"

lemma take_chunk: "p \<le> a \<Longrightarrow> a \<le> length content \<Longrightarrow>
    drop p (take a content) @ take l (drop a content) = drop p (take (a + l) content)"
  by (simp add: take_add)

lemma blob_step:
  assumes len: "length content + 16 < 2 ^ 31" and r: "blob_ready p x" and "\<not> bl_complete (fst x)"
  shows "\<exists>x'. blob_fetch_next_chunk src x = (Ok (), x') \<and> blob_ready p x' \<and>
    length content - bl_acc_byte_length (fst x') < length content - bl_acc_byte_length (fst x)"
proof -
  obtain h s where x: "x = (h, s)" by (cases x)
  have h: "blob_at p h" "\<not> bl_complete h" using r assms(3) by (auto simp: blob_ready_def x)
  then have acc: "bl_acc_byte_length h < length content" by (auto simp: blob_at_def)
  obtain m where m: "length content - bl_acc_byte_length h \<le> m" "ready m s"
    using r by (auto simp: blob_ready_def x)
  then obtain n where n: "m = Suc n" using acc by (cases m) auto
  obtain l where l: "chunk_length (ls_read_length src s) (bl_total_byte_length h) (bl_acc_byte_length h) = Ok l"
    "0 < unat l" "bl_acc_byte_length h + unat l \<le> length content"
    using chunk_length_ok [OF len, of "bl_total_byte_length h" "bl_acc_byte_length h"] h(1) acc m(2)
    by (metis blob_at_def)
  obtain s' u' where f: "ls_fetch src locator (bl_acc_byte_length h) l (s, bl_server_usage h) =
      (Ok (take (unat l) (drop (bl_acc_byte_length h) content), length content \<le> bl_acc_byte_length h + unat l),
       (s', u'))" "ready n s'"
    using serve [OF len, of n s "bl_acc_byte_length h" l "bl_server_usage h"] m(2) n acc by auto
  let ?data = "take (unat l) (drop (bl_acc_byte_length h) content)"
  define h' where "h' = h\<lparr>bl_acc_byte_length := bl_acc_byte_length h + length ?data,
    bl_data := bl_data h @ ?data, bl_complete := (length content \<le> bl_acc_byte_length h + unat l),
    bl_max_buf_len := max (length (bl_data h @ ?data)) (bl_max_buf_len h), bl_server_usage := u'\<rparr>"
  have "unat l \<le> length content - bl_acc_byte_length h" using l(3) by linarith
  then have dl: "length ?data = unat l" unfolding length_take length_drop by (rule min_absorb2)
  have at: "blob_at p h'"
    using h(1) l(2,3) take_chunk [of p "bl_acc_byte_length h" "unat l"]
    by (auto simp: blob_at_def h'_def dl)
  have ok: "bl_complete h' \<longleftrightarrow> unat (bl_total_byte_length h') = bl_acc_byte_length h'"
    using at by (auto simp: blob_at_def)
  have "blob_fetch_next_chunk src x = (Ok (), (h', s'))"
    using h l(1) f(1) ok unfolding x blob_fetch_next_chunk_def blob_at_def h'_def by (simp add: Let_def)
  moreover have acc': "bl_acc_byte_length h' = bl_acc_byte_length h + unat l" using dl by (simp add: h'_def)
  moreover have "length content - (bl_acc_byte_length h + unat l) \<le> n" using m(1) n l(2) by linarith
  then have "blob_ready p (h', s')"
    using at f(2) unfolding blob_ready_def acc' by (auto simp: acc')
  ultimately show ?thesis using l(2,3) by (auto simp: x)
qed

lemma blob_while:
  assumes "length content + 16 < 2 ^ 31" "blob_ready p x"
  shows "\<exists>x'. st_while (\<lambda>(h, s). \<not> bl_complete h \<and> c h) (blob_fetch_next_chunk src) x = Some (Ok (), x')
    \<and> blob_ready p x' \<and> \<not> (\<not> bl_complete (fst x') \<and> c (fst x'))"
proof -
  have "\<exists>x'. st_while (\<lambda>(h, s). \<not> bl_complete h \<and> c h) (blob_fetch_next_chunk src) x = Some (Ok (), x')
    \<and> blob_ready p x' \<and> \<not> (case x' of (h, s) \<Rightarrow> \<not> bl_complete h \<and> c h)"
    by (rule st_while_total [where I = "blob_ready p" and f = "\<lambda>x. length content - bl_acc_byte_length (fst x)"])
      (use assms blob_step [OF assms(1)] in auto)
  then show ?thesis by (auto split: prod.splits)
qed

lemma blob_into_bytes_content:
  assumes "length content + 16 < 2 ^ 31" "blob_ready 0 x"
  shows "\<exists>s'. blob_into_bytes src x = Some (Ok content, s')"
proof -
  obtain h s where "st_while (\<lambda>(h, s). \<not> bl_complete h) (blob_fetch_next_chunk src) x = Some (Ok (), (h, s))"
    "blob_ready 0 (h, s)" "bl_complete h"
    using blob_while [OF assms, of "\<lambda>_. True"] by auto
  then show ?thesis
    by (auto simp: blob_into_bytes_def blob_load_complete_def blob_ready_def blob_at_def)
qed

lemma blob_read_content:
  assumes "length content + 16 < 2 ^ 31" "blob_ready p x"
  shows "\<exists>x'. blob_read src n x = Some (Ok (take n (drop p content)), x') \<and>
    blob_ready (p + length (take n (drop p content))) x'"
proof -
  obtain h s where w: "st_while (\<lambda>(h, s). \<not> bl_complete h \<and> n > length (bl_data h)) (blob_fetch_next_chunk src) x
      = Some (Ok (), (h, s))"
    and r: "blob_ready p (h, s)" and c: "bl_complete h \<or> n \<le> length (bl_data h)"
    using blob_while [OF assms, of "\<lambda>h. n > length (bl_data h)"] by auto
  have at: "blob_at p h" using r by (simp add: blob_ready_def)
  have data: "take n (bl_data h) = take n (drop p content)"
    using at c by (auto simp: blob_at_def take_drop min_def)
  have res: "blob_read src n x = Some (Ok (take n (bl_data h)), (h\<lparr>bl_data := drop n (bl_data h)\<rparr>, s))"
    using w by (simp add: blob_read_def Let_def min_def)
  have "blob_at (p + length (take n (drop p content))) (h\<lparr>bl_data := drop n (bl_data h)\<rparr>)"
    using at c by (auto simp: blob_at_def min_def add.commute)
  then have "blob_ready (p + length (take n (drop p content))) (h\<lparr>bl_data := drop n (bl_data h)\<rparr>, s)"
    using r by (auto simp: blob_ready_def)
  then show ?thesis using res data by auto
qed

text \<open>Character LOBs of which \<open>p\<close> bytes were read: each chunk ends at a position where the scan for the last
  character succeeds.\<close>

definition clob_at :: "nat \<Rightarrow> clob_handle \<Rightarrow> bool" where
  "clob_at p h \<longleftrightarrow> cl_locator_id h = locator \<and> unat (cl_total_byte_length h) = length content \<and>
     cl_acc_byte_length h \<le> length content \<and> (cl_complete h \<longleftrightarrow> cl_acc_byte_length h = length content) \<and>
     p \<le> cl_acc_byte_length h \<and> cl_cesu8 h = drop p (take (cl_acc_byte_length h) content) \<and>
     (cl_complete h \<or> cl_cesu8_tail_len h \<le> length (cl_cesu8 h)) \<and> cl_cesu8_tail_len h < 6"

definition clob_ready :: "nat \<Rightarrow> clob_handle \<times> 's \<Rightarrow> bool" where
  "clob_ready p = (\<lambda>(h, s). clob_at p h \<and> (\<exists>n \<ge> length content - cl_acc_byte_length h. ready n s))"

lemma clob_step:
  assumes len: "length content + 16 < 2 ^ 31" and chars: "list_all cesu_char cs" "drop p content = concat cs"
    and r: "clob_ready p x" and "\<not> cl_complete (fst x)"
  shows "\<exists>x'. clob_fetch_next_chunk src x = (Ok (), x') \<and> clob_ready p x' \<and>
    ls_read_length src (snd x') = ls_read_length src (snd x) \<and>
    cl_max_buf_len (fst x') \<le>
      max (cl_max_buf_len (fst x)) (length (cl_cesu8 (fst x)) + unat (ls_read_length src (snd x))) \<and>
    length content - cl_acc_byte_length (fst x') < length content - cl_acc_byte_length (fst x)"
proof -
  obtain h s where x: "x = (h, s)" by (cases x)
  let ?acc = "cl_acc_byte_length h"
  have h: "cl_locator_id h = locator" "unat (cl_total_byte_length h) = length content" "\<not> cl_complete h"
      "?acc < length content" "cl_cesu8 h = drop p (take ?acc content)" "p \<le> ?acc"
    using r assms(5) by (auto simp: clob_ready_def clob_at_def x)
  obtain m where m: "length content - ?acc \<le> m" "ready m s"
    using r by (auto simp: clob_ready_def x)
  then obtain n where n: "m = Suc n" using h(4) by (cases m) auto
  have "length content < 2 ^ 32" using len by simp
  from chunk_length_bounded [OF h(2,4) this read_length_pos [OF m(2)]]
  obtain l where l: "chunk_length (ls_read_length src s) (cl_total_byte_length h) ?acc = Ok l"
    "2 \<le> unat l \<or> ?acc + unat l = length content" "0 < unat l" "?acc + unat l \<le> length content"
    "unat l \<le> unat (ls_read_length src s)" by metis
  let ?data = "take (unat l) (drop ?acc content)"
  let ?pos = "?acc + unat l"
  obtain s' u' where f: "ls_fetch src locator ?acc l (s, cl_server_usage h) =
      (Ok (?data, length content \<le> ?pos), (s', u'))" "ready n s'" "ls_read_length src s' = ls_read_length src s"
    using serve [OF len, of n s ?acc l "cl_server_usage h"] m(2) n h(4) by auto
  have "unat l \<le> length content - ?acc" using l(4) by linarith
  then have dl: "length ?data = unat l" unfolding length_take length_drop by (rule min_absorb2)
  have cesu8: "cl_cesu8 h @ ?data = drop p (take ?pos content)" using h(5) take_chunk [OF h(6)] h(4) by simp
  have buf: "drop p (take ?pos content) = take (?pos - p) (concat cs)" by (simp add: drop_take chars(2))
  have i: "?pos - p \<le> length (concat cs)" using l(4) unfolding chars(2) [symmetric] by simp
  have acc: "length (cl_cesu8 h) = ?acc - p" using h(4,5) by simp
  have plen: "length (drop p (take ?pos content)) = ?pos - p" using l(4) by simp
  have "\<not> (?pos - p = 1 \<and> 2 < length (hd cs))"
  proof
    assume a: "?pos - p = 1 \<and> 2 < length (hd cs)"
    then have "length (concat cs) = 1" using l(2,3) h(6) unfolding chars(2) [symmetric] by auto
    then show False using a by (cases cs) auto
  qed
  then obtain k where k: "get_cesu8_tail_len (drop p (take ?pos content)) (?pos - p) = Ok k" "k \<le> ?pos - p" "k < 6"
    using cut_position [OF chars(1) i] unfolding buf by blast
  then have k': "tcp (get_cesu8_tail_len (drop p (take ?pos content)) (length (drop p (take ?pos content)))) = Ok k"
    unfolding plen by simp
  define h' where "h' = h\<lparr>cl_acc_byte_length := ?pos, cl_cesu8 := drop p (take ?pos content), cl_server_usage := u',
    cl_cesu8_tail_len := k, cl_complete := (length content \<le> ?pos),
    cl_max_buf_len := max (length (drop p (take ?pos content))) (cl_max_buf_len h)\<rparr>"
  have step: "clob_fetch_next_chunk src x = (Ok (), (h', s'))"
    using h(1-3) l(1,4) f(1) k' dl unfolding x clob_fetch_next_chunk_def h'_def
    by (simp add: Let_def cesu8 del: length_append length_drop length_take)
  have "clob_at p h'" using h(1,2,6) l(4) k(2,3) plen by (auto simp: clob_at_def h'_def)
  moreover have "length content - ?pos \<le> n" using m(1) n l(3) by linarith
  ultimately have "clob_ready p (h', s')" using f(2) unfolding clob_ready_def by (auto simp: h'_def)
  moreover have "cl_max_buf_len h' \<le> max (cl_max_buf_len h) (length (cl_cesu8 h) + unat (ls_read_length src s))"
    using plen acc h(6) l(5) by (simp add: h'_def)
  ultimately show ?thesis using step f(3) l(3,4) by (auto simp: x h'_def)
qed

lemma clob_into_string_content:
  assumes "cesu8_crate c8" "length content + 16 < 2 ^ 31" "valid_utf8 txt" "content = to_cesu8 c8 txt" "clob_ready 0 x"
  shows "\<exists>s'. clob_into_string c8 src x = Some (Ok txt, s')"
proof -
  obtain cs where cs: "list_all cesu_char cs" "content = concat cs"
    using cesu8_crate.to_cesu8_chars [OF assms(1,3)] assms(4) by auto
  have "\<exists>x'. st_while (\<lambda>(h, s). \<not> cl_complete h) (clob_fetch_next_chunk src) x = Some (Ok (), x')
    \<and> clob_ready 0 x' \<and> \<not> (case x' of (h, s) \<Rightarrow> \<not> cl_complete h)"
    by (rule st_while_total [where I = "clob_ready 0" and f = "\<lambda>x. length content - cl_acc_byte_length (fst x)"])
      (use assms(5) clob_step [OF assms(2) cs(1), of 0] cs(2) in fastforce)+
  then obtain h s where "st_while (\<lambda>(h, s). \<not> cl_complete h) (clob_fetch_next_chunk src) x = Some (Ok (), h, s)"
    "clob_ready 0 (h, s)" "cl_complete h" by auto
  moreover from this have "cl_cesu8 h = content" by (simp add: clob_ready_def clob_at_def)
  ultimately show ?thesis
    using cesu8_crate.hdb_string_to_cesu8 [OF assms(1,3)] assms(4)
    by (simp add: clob_into_string_def clob_load_complete_def)
qed

end

section \<open>Reading in portions\<close>

text \<open>A client that reads with buffers of the given sizes, one after the other.\<close>

fun blob_reads ::
    "'s lob_source \<Rightarrow> nat list \<Rightarrow> blob_handle \<times> 's \<Rightarrow> ((bytes list, ioerr) res \<times> blob_handle \<times> 's) option" where
  "blob_reads src [] x = Some (Ok [], x)"
| "blob_reads src (n # ns) x =
     (case blob_read src n x of
        None \<Rightarrow> None
      | Some (Ok bs, x') \<Rightarrow> map_option (\<lambda>(r, x''). (res_map ((#) bs) r, x'')) (blob_reads src ns x')
      | Some (Err e, x') \<Rightarrow> Some (Err e, x')
      | Some (Panic, x') \<Rightarrow> Some (Panic, x'))"

context lob_server
begin

lemma blob_reads_content:
  assumes "length content + 16 < 2 ^ 31"
  shows "blob_ready p x \<Longrightarrow> \<exists>bss x'. blob_reads src ns x = Some (Ok bss, x') \<and>
    concat bss = take (sum_list ns) (drop p content)"
proof (induction ns arbitrary: p x)
  case (Cons n ns)
  obtain x1 where x1: "blob_read src n x = Some (Ok (take n (drop p content)), x1)"
    "blob_ready (p + length (take n (drop p content))) x1"
    using blob_read_content [OF assms Cons.prems] by blast
  obtain bss x2 where "blob_reads src ns x1 = Some (Ok bss, x2)"
    "concat bss = take (sum_list ns) (drop (p + length (take n (drop p content))) content)"
    using Cons.IH [OF x1(2)] by blast
  moreover have "drop (p + length (take n (drop p content))) content = drop n (drop p content)"
    by (cases "n \<le> length content - p") (auto simp: add.commute min_def)
  ultimately show ?case using x1(1) by (auto simp: take_add)
qed simp

end

end
