(* ===== verification/Hdb_Server.thy ===== *)
theory Hdb_Server
  imports Hdb_Connection Hdb_Wire_Props
begin

text \<open>
  Servers for statements about whole exchanges: a server is a function from the bytes of a request
  and its own state to the bytes of the reply and its new state; \<open>serving_driver\<close> is the driver whose
  network leads to it. \<open>served_full_send\<close> is the roundtrip of the client with such a server.
\<close>

type_synonym 's server = "bytes \<Rightarrow> 's \<Rightarrow> bytes \<times> 's"

definition serving_network :: "'s server \<Rightarrow> ('s \<times> bytes) network" where
  "serving_network server = \<lparr>net_connect = \<lambda>p n. (Ok n, n),
     net_write = \<lambda>bs (s, input). case server bs s of (reply, s') \<Rightarrow> (Ok (), (s', input @ reply)),
     net_input = snd, net_error = \<lambda>_. eof_error, net_consume = \<lambda>k (s, input). (s, drop k input),
     net_abandon = \<lambda>(s, input). (s, [])\<rparr>"

definition serving_driver :: "('s \<times> bytes) driver \<Rightarrow> 's server \<Rightarrow> ('s \<times> bytes) driver" where
  "serving_driver dr server = dr\<lparr>dr_net := serving_network server\<rparr>"

lemma serving_driver_simps [simp]:
  "dr_net (serving_driver dr server) = serving_network server" "dr_c8 (serving_driver dr server) = dr_c8 dr"
  "dr_nl (serving_driver dr server) = dr_nl dr"
  by (simp_all add: serving_driver_def)

text \<open>No reply pending, no statement context and no client info to be sent, sequence numbers for \<open>n\<close> requests
  left: the requests of the driver are sent as they are.\<close>

definition idle :: "nat \<Rightarrow> ('s \<times> bytes) conn_core \<Rightarrow> bool" where
  "idle n cc \<longleftrightarrow> snd (cc_tcp cc) = [] \<and> cc_statement_sequence cc = None \<and> \<not> cc_client_info_touched cc \<and>
     sint (cc_seq_number cc) + int n < 2 ^ 31"

definition server_state :: "('s \<times> bytes) conn_core \<Rightarrow> 's" where
  "server_state cc = fst (cc_tcp cc)"

definition served :: "'s \<Rightarrow> ('s \<times> bytes) conn_core \<Rightarrow> ('s \<times> bytes) conn_core" where
  "served s cc = cc\<lparr>cc_seq_number := cc_seq_number cc + 1, cc_tcp := (s, []), cc_warnings := []\<rparr>"

lemma served_simps [simp]:
  "server_state (served s cc) = s" "cc_fetch_size (served s cc) = cc_fetch_size cc"
  "cc_lob_read_length (served s cc) = cc_lob_read_length cc" "cc_session_id (served s cc) = cc_session_id cc"
  "cc_auto_commit (served s cc) = cc_auto_commit cc"
  by (simp_all add: served_def server_state_def)

lemma idle_served: "idle (Suc n) cc \<Longrightarrow> idle n (served s cc)"
proof -
  assume a: "idle (Suc n) cc"
  then have "cc_seq_number cc \<noteq> 0x7FFFFFFF" by (auto simp: idle_def)
  from sint_Suc [OF this] a show "idle n (served s cc)" by (simp add: idle_def served_def)
qed

lemma handle_no_error:
  "\<forall>p \<in> set (rp_parts r). part_kind_of p \<noteq> PK_Error \<Longrightarrow> handle_db_error r cc = (Ok r, cc\<lparr>cc_warnings := []\<rparr>)"
proof -
  have "\<forall>p \<in> set ps. part_kind_of p \<noteq> PK_Error \<Longrightarrow> remove_first_of_kind PK_Error ps = (None, ps)" for ps
    by (induction ps) auto
  then show "\<forall>p \<in> set (rp_parts r). part_kind_of p \<noteq> PK_Error \<Longrightarrow>
      handle_db_error r cc = (Ok r, cc\<lparr>cc_warnings := []\<rparr>)"
    by (simp add: handle_db_error_def)
qed

lemma served_full_send:
  assumes idle: "idle (Suc n) cc" and type: "rq_type r \<noteq> RQ_Authenticate"
    and emit: "request_emit (dr_c8 dr) (dr_nl dr) (cc_session_id cc) (cc_seq_number cc + 1) (cc_auto_commit cc) ds r
      = Ok bs"
    and server: "server bs (server_state cc) = (msg, s)"
    and parse: "reply_parse (dr_c8 dr) (dr_nl dr) md ds rs True msg = Ok ((reply, rs'), [])"
    and parts: "\<forall>p \<in> set (rp_parts reply). part_kind_of p \<noteq> PK_Error"
  shows "full_send (serving_driver dr server) r md ds (cc, rs) = (Ok reply, (served s cc, rs'))"
proof -
  have seq: "cc_seq_number cc \<noteq> 0x7FFFFFFF" and input: "snd (cc_tcp cc) = []"
    using idle by (auto simp: idle_def)
  let ?dr = "serving_driver dr server"
  define cc1 where "cc1 = cc\<lparr>cc_seq_number := cc_seq_number cc + 1, cc_tcp := (s, msg)\<rparr>"
  have aug: "augment_request r cc = (r, cc)" using idle by (simp add: augment_request_def idle_def)
  have sent: "send_request ?dr r ds cc = (Ok (), cc1)"
    using seq input type emit server
    by (cases "cc_tcp cc") (simp add: send_request_def request_numbers_def st_bind_def st_simps
        next_seq_number_def Let_def on_tcp_def net_send_def serving_network_def cc1_def server_state_def)
  have recv: "receive_reply ?dr True md ds (cc1, rs) = (Ok reply, (cc1\<lparr>cc_tcp := (s, [])\<rparr>, rs'))"
    by (simp add: receive_reply_def on_tcp_def net_read_def serving_network_def parse cc1_def)
  have "served s cc = cc1\<lparr>cc_tcp := (s, []), cc_warnings := []\<rparr>" by (simp add: served_def cc1_def)
  then have "roundtrip ?dr r True md ds (cc, rs) = (Ok reply, (served s cc, rs'))"
    by (simp add: roundtrip_def st_bind_def on_core_def sent recv handle_no_error [OF parts])
  then show ?thesis by (simp add: full_send_def aug is_connection_reset_def)
qed

lemma served_send:
  assumes "idle (Suc n) cc" "rq_type r \<noteq> RQ_Authenticate"
    "request_emit (dr_c8 dr) (dr_nl dr) (cc_session_id cc) (cc_seq_number cc + 1) (cc_auto_commit cc) None r = Ok bs"
    "server bs (server_state cc) = (msg, s)"
    "reply_parse (dr_c8 dr) (dr_nl dr) None None None True msg = Ok ((reply, None), [])"
    "\<forall>p \<in> set (rp_parts reply). part_kind_of p \<noteq> PK_Error"
  shows "send (serving_driver dr server) r cc = (Ok reply, served s cc)"
proof -
  have "full_send (serving_driver dr server) r None None (cc, None) = (Ok reply, (served s cc, None))"
    by (rule served_full_send [where n = n and bs = bs and msg = msg]) (fact assms)+
  then show ?thesis by (simp add: send_def)
qed

section \<open>Replies of one part\<close>

text \<open>A reply of one segment with one part. The client reads neither the lengths in the message header nor
  the segment number, and no padding after the last part of the kinds used here.\<close>

definition reply_header :: "i16 \<Rightarrow> bytes" where
  "reply_header reply_type =
     write_i64 0 @ write_i32 1 @ write_u32 0 @ write_u32 0 @ write_i16 1 @ replicate 10 0
     @ write_i32 0 @ write_i32 0 @ write_i16 1 @ write_i16 1 @ [2] @ [0] @ write_i16 reply_type @ replicate 8 0"

definition arg_count :: "nat \<Rightarrow> bytes" where
  "arg_count n = (if int n < 32767 then write_i16 (word_of_nat n) @ write_i32 0
                  else write_i16 (- 1) @ write_i32 (word_of_nat n))"

definition one_part_reply :: "i16 \<Rightarrow> part_kind \<Rightarrow> part_attributes \<Rightarrow> nat \<Rightarrow> bytes \<Rightarrow> bytes" where
  "one_part_reply reply_type kind attributes argc body =
     reply_header reply_type @ [part_kind_as_i8 kind, attributes] @ arg_count argc
       @ write_i32 (word_of_nat (length body)) @ write_i32 0 @ body"

lemma reply_header_parsed:
  assumes "reply_type_from_i16 c = Ok t"
  shows "parse_message_and_sequence_header (reply_header c @ rest) = Ok ((1, reply_new 0 t), rest)"
  using assms by (simp add: parse_message_and_sequence_header_def reply_header_def rd_simps seg_kind_from_i8_def
      skip_bytes_append [of "[0]" 1, simplified])

lemma one_part_reply_parsed:
  assumes t: "reply_type_from_i16 c = Ok t" and len: "length body < 2 ^ 31" and argc: "int argc < 2 ^ 31"
    and kind: "kind \<in> {PK_ResultSet, PK_ResultSetId, PK_ReadLobReply} \<or> length body mod 8 = 0"
    and body: "part_parse_body c8 nl kind attrs argc [] hc md ds rs body = Ok ((p, [], rs'), [])"
  shows "reply_parse c8 nl md ds rs hc (one_part_reply c kind attrs argc body) =
    Ok ((\<lparr>rp_session_id = 0, rp_replytype = t, rp_parts = [p]\<rparr>, rs'), [])"
proof -
  let ?part = "[part_kind_as_i8 kind, attrs] @ arg_count argc
       @ write_i32 (word_of_nat (length body)) @ write_i32 0 @ body"
  have cnt: "part_header_count argc = Ok (arg_count argc)"
    using argc by (simp add: part_header_count_def arg_count_def)
  have hdr: "parse_part_header ?part = Ok ((kind, attrs, length body, argc), body)"
    using parse_part_header_emit [OF cnt, of "length body"] len argc by simp
  have part: "part_parse c8 nl [] hc md ds rs True ?part = Ok ((p, [], rs'), [])"
  proof (cases "length body mod 8 = 0")
    case True
    then have "7 - (length body + 7) mod 8 = 0" by presburger
    then show ?thesis
      using len unfolding part_parse_def rd_bind_apply hdr by (simp add: rd_bind_apply body rd_apply_simps)
  next
    case False
    then show ?thesis
      using len kind unfolding part_parse_def rd_bind_apply hdr by (simp add: rd_bind_apply body rd_apply_simps)
  qed
  show ?thesis
    unfolding reply_parse_def one_part_reply_def rd_bind_apply reply_header_parsed [OF t]
    using part by (simp add: rd_bind_apply rd_apply_simps reply_new_def del: append_Cons append.simps)
qed

section \<open>A connection for witnesses\<close>

definition served_core :: "'s \<Rightarrow> ('s \<times> bytes) conn_core" where
  "served_core s = \<lparr>cc_authenticated = True, cc_session_id = 1, cc_client_info = [],
     cc_client_info_touched = False, cc_seq_number = 1, cc_auto_commit = True,
     cc_server_usage = server_usage_default, cc_fetch_size = default_fetch_size,
     cc_lob_read_length = default_lob_read_length, cc_lob_write_length = default_lob_write_length,
     cc_session_state = session_state_default, cc_statement_sequence = None, cc_connect_options = [],
     cc_topology = None, cc_warnings = [], cc_params = sample_url_params, cc_tcp = (s, [])\<rparr>"

definition sample_driver :: "('s \<times> bytes) driver" where
  "sample_driver = \<lparr>dr_net = serving_network (\<lambda>_ s. ([], s)), dr_c8 = ref_cesu8, dr_nl = ref_num,
     dr_crypto = ref_crypto, dr_challenges = \<lambda>_. ([], []), dr_version = [], dr_pkg_name = [], dr_program = None,
     dr_os_user = []\<rparr>"

lemma idle_served_core: "n < 1000 \<Longrightarrow> idle n (served_core s)"
  by (simp add: idle_def served_core_def)

lemma served_core_simps [simp]:
  "server_state (served_core s) = s" "cc_lob_read_length (served_core s) = default_lob_read_length"
  "cc_fetch_size (served_core s) = default_fetch_size"
  by (simp_all add: served_core_def server_state_def)

end
