(* ===== verification/Hdb_Lob_Server.thy ===== *)
theory Hdb_Lob_Server
  imports Hdb_Lob_Props Hdb_Server
begin

text \<open>
  A server that holds the content of one LOB: it decodes the bytes of the READLOB request it is sent
  and answers with the bytes of a reply. On it the model's own \<open>fetch_a_lob_chunk\<close> (request, emission,
  transport, parsing, error handling) meets the contract \<open>lob_server\<close>, so the lemmas about LOB handles
  hold end to end on the wire format.
\<close>

section \<open>The server\<close>

definition lob_reply_body :: "u64 \<Rightarrow> bytes \<Rightarrow> bool \<Rightarrow> bytes" where
  "lob_reply_body locator data is_last =
     write_u64 locator @ [if is_last then 4 else 0] @ write_i32 (word_of_nat (length data)) @ [0, 0, 0] @ data"

definition read_lob_request_parse :: "(u64 \<times> u64 \<times> u32) rd" where
  "read_lob_request_parse =
     rd_bind read_u64 (\<lambda>locator. rd_bind read_u64 (\<lambda>offset. rd_bind read_u32 (\<lambda>len.
       rd_return (locator, offset, len))))"

text \<open>The state of the server is the content. Offsets on the wire begin with one.\<close>

definition lob_answer :: "bytes server" where
  "lob_answer req content =
     (case read_lob_request_parse (drop 72 req) of
        Ok ((locator, offset, len), _) \<Rightarrow>
          (one_part_reply 16 PK_ReadLobReply 0 1
            (lob_reply_body locator (take (unat len) (drop (unat offset - 1) content))
              (length content \<le> unat offset - 1 + unat len)), content)
      | _ \<Rightarrow> ([], content))"

definition lob_ready :: "bytes \<Rightarrow> nat \<Rightarrow> (bytes \<times> bytes) conn_core \<Rightarrow> bool" where
  "lob_ready content n cc \<longleftrightarrow> idle n cc \<and> server_state cc = content \<and> 2 \<le> cc_lob_read_length cc"

section \<open>The reply\<close>

lemma lob_reply_parsed:
  assumes "length data + 16 < 2 ^ 31"
  shows "reply_parse c8 nl None None None True (one_part_reply 16 PK_ReadLobReply 0 1 (lob_reply_body locator data is_last)) =
    Ok ((\<lparr>rp_session_id = 0, rp_replytype = RT_ReadLob,
          rp_parts = [P_ReadLobReply \<lparr>rr_locator_id = locator, rr_is_last_data = is_last, rr_data = data\<rparr>]\<rparr>, None), [])"
proof (rule one_part_reply_parsed)
  have len: "usize_of (word_of_nat (length data) :: i32) = length data" "length data \<le> isize_max"
    using assms by (auto intro!: usize_of_nat simp: isize_max_def)
  have "read_lob_reply_parse (lob_reply_body locator data is_last) =
      Ok (\<lparr>rr_locator_id = locator, rr_is_last_data = is_last, rr_data = data\<rparr>, [])"
    using len skip_bytes_append [of "[0, 0, 0]" 3 data] parse_bytes_append [of data "length data" "[]"]
    by (simp add: read_lob_reply_parse_def lob_reply_body_def rd_simps)
  then show "part_parse_body c8 nl PK_ReadLobReply 0 1 [] True None None None (lob_reply_body locator data is_last) =
      Ok ((P_ReadLobReply \<lparr>rr_locator_id = locator, rr_is_last_data = is_last, rr_data = data\<rparr>, [], None), [])"
    by (simp add: part_parse_body_def lift_part_def rd_map_def rd_bind_apply rd_apply_simps)
qed (use assms in \<open>simp_all add: reply_type_from_i16_def lob_reply_body_def\<close>)

section \<open>The request\<close>

lemma lob_request_bytes:
  "request_emit c8 nl sid nsn ac None (request_push (P_ReadLobRequest r) (request_new RQ_ReadLob 0)) =
    Ok (message_header sid nsn 64 64 @ segment_header 64 1 RQ_ReadLob ac 0
      @ [17, 0] @ (write_i16 1 @ write_i32 0) @ write_i32 24 @ write_i32 40 @ read_lob_request_emit r)"
  by (simp add: request_emit_def request_push_def request_new_def varpart_size_def seg_size_def part_size_def
      part_body_size_def part_raw_size_def read_lob_request_size_def padsize_def part_emit_def part_count_def
      part_header_count_def sub_u32_def part_emit_body_def part_emit_raw_def)

text \<open>What the server reads out of the request.\<close>

lemma request_parsed:
  "read_lob_request_parse (drop 72 (message_header sid nsn 64 64 @ segment_header 64 1 RQ_ReadLob ac 0
      @ [17, 0] @ (write_i16 1 @ write_i32 0) @ write_i32 24 @ write_i32 40 @ read_lob_request_emit r)) =
    Ok ((rl_locator_id r, rl_offset r, rl_length r), write_u32 0)"
  by (simp add: read_lob_request_parse_def read_lob_request_emit_def rd_simps)

lemma offset_on_wire: "int offset < 2 ^ 64 - 1 \<Longrightarrow> unat (word_of_nat (offset + 1) :: u64) = offset + 1"
  unfolding unat_of_nat by simp

section \<open>The roundtrip\<close>

text \<open>Whatever a server answers with a part of a LOB is what the client fetches.\<close>

lemma read_lob_served:
  assumes idle: "idle (Suc n) cc" and i: "int i < 2 ^ 64 - 1" and len: "length data + 16 < 2 ^ 31"
    and answer: "\<And>req rest. read_lob_request_parse (drop 72 req) = Ok ((locator, word_of_nat (i + 1), l), rest) \<Longrightarrow>
      server req (server_state cc) = (one_part_reply 16 PK_ReadLobReply 0 1 (lob_reply_body locator data is_last), s)"
  shows "fetch_a_lob_chunk (serving_driver dr server) locator i l (cc, u) = (Ok (data, is_last), (served s cc, u))"
proof -
  define r where "r = \<lparr>rl_locator_id = locator, rl_offset = word_of_nat (i + 1), rl_length = l\<rparr>"
  have "send (serving_driver dr server) (request_push (P_ReadLobRequest r) (request_new RQ_ReadLob 0)) cc =
    (Ok \<lparr>rp_session_id = 0, rp_replytype = RT_ReadLob, rp_parts = [P_ReadLobReply
      \<lparr>rr_locator_id = locator, rr_is_last_data = is_last, rr_data = data\<rparr>]\<rparr>, served s cc)"
  proof (rule served_send [where n = n and server = server and cc = cc, OF _ _ lob_request_bytes answer lob_reply_parsed [OF len]])
    show "read_lob_request_parse (drop 72 (message_header (cc_session_id cc) (cc_seq_number cc + 1) 64 64
        @ segment_header 64 1 RQ_ReadLob (cc_auto_commit cc) 0
        @ [17, 0] @ (write_i16 1 @ write_i32 0) @ write_i32 24 @ write_i32 40 @ read_lob_request_emit r)) =
      Ok ((locator, word_of_nat (i + 1), l), write_u32 0)"
      unfolding request_parsed by (simp add: r_def)
  qed (use idle in \<open>simp_all add: request_push_def request_new_def\<close>)
  then show ?thesis
    using i by (simp add: fetch_a_lob_chunk_def Let_def r_def on_conn_def st_bind_def st_simps
        assert_expected_reply_type_def)
qed

lemma lob_fetch_served:
  assumes ready: "lob_ready content (Suc n) cc" and len: "length content + 16 < 2 ^ 31" and "i < length content"
  shows "fetch_a_lob_chunk (serving_driver dr lob_answer) locator i l (cc, u) =
    (Ok (take (unat l) (drop i content), length content \<le> i + unat l), (served content cc, u))"
proof (rule read_lob_served)
  show "idle (Suc n) cc" using ready by (simp add: lob_ready_def)
  show i: "int i < 2 ^ 64 - 1" "length (take (unat l) (drop i content)) + 16 < 2 ^ 31" using len assms(3) by simp_all
  show "lob_answer req (server_state cc) =
      (one_part_reply 16 PK_ReadLobReply 0 1 (lob_reply_body locator (take (unat l) (drop i content))
        (length content \<le> i + unat l)), content)"
    if "read_lob_request_parse (drop 72 req) = Ok ((locator, word_of_nat (i + 1), l), rest)" for req rest
    using that offset_on_wire [OF i(1)] ready by (simp add: lob_answer_def lob_ready_def del: of_nat_add)
qed

interpretation lob_wire: lob_server "conn_source (serving_driver dr lob_answer)" "lob_ready content" locator content
  for dr locator content
proof unfold_locales
  show "2 \<le> ls_read_length (conn_source (serving_driver dr lob_answer)) s" if "lob_ready content n s" for n s
    using that by (simp add: conn_source_def lob_ready_def)
next
  fix n :: nat and s :: "(bytes \<times> bytes) conn_core" and i l u
  assume "length content + 16 < 2 ^ 31" "lob_ready content (Suc n) s" "i < length content"
  from lob_fetch_served [OF this(2,1,3)]
  show "\<exists>s' u'. ls_fetch (conn_source (serving_driver dr lob_answer)) locator i l (s, u) =
      (Ok (take (unat l) (drop i content), length content \<le> i + unat l), s', u') \<and> lob_ready content n s'
      \<and> ls_read_length (conn_source (serving_driver dr lob_answer)) s' =
        ls_read_length (conn_source (serving_driver dr lob_answer)) s"
    using \<open>lob_ready content (Suc n) s\<close> by (auto simp: conn_source_def lob_ready_def idle_served)
qed

section \<open>Properties\<close>

lemma blob_handle_ready:
  assumes "length content + 16 < 2 ^ 31" "lob_ready content n cc" "length content \<le> n + k" "k \<le> length content"
  shows "lob_wire.blob_ready content locator 0
    (blob_handle_new rs (k = length content) (word_of_nat (length content)) locator (take k content), cc)"
proof -
  have "unat (word_of_nat (length content) :: u64) = length content" using assms(1) by (simp add: unat_of_nat)
  moreover have "length content - k \<le> n" using assms(3) by linarith
  ultimately show ?thesis
    using assms(2,4) by (auto simp: lob_wire.blob_ready_def lob_wire.blob_at_def blob_handle_new_def)
qed

text \<open>C9: A binary LOB of less than 2 GB of which the server sent the first k bytes with the row (all, some or
  none) is read completely: if the connection is idle, chunks of at least two bytes are configured and
  the sequence numbers suffice, the loop of requests ends and exactly the content is returned.\<close>

theorem blob_read_completely:
  assumes "length content + 16 < 2 ^ 31" "lob_ready content n cc" "length content \<le> n + k" "k \<le> length content"
  shows "\<exists>cc'. blob_into_bytes (conn_source (serving_driver dr lob_answer))
      (blob_handle_new rs (k = length content) (word_of_nat (length content)) locator (take k content), cc)
    = Some (Ok content, cc')"
  by (rule lob_wire.blob_into_bytes_content [OF assms(1) blob_handle_ready [OF assms]])

theorem blob_read_completely_witness:
  "\<exists>cc'. blob_into_bytes (conn_source (serving_driver sample_driver lob_answer))
      (blob_handle_new (Some 7) (2 = length [1, 2, 3, 4, 5 :: u8]) (word_of_nat (length [1, 2, 3, 4, 5 :: u8])) 9
        (take 2 [1, 2, 3, 4, 5]), served_core [1, 2, 3, 4, 5])
    = Some (Ok [1, 2, 3, 4, 5], cc')"
  by (rule blob_read_completely [of _ 5])
    (simp_all add: lob_ready_def idle_served_core default_lob_read_length_def)

text \<open>C15: Reading a binary LOB with buffers of any sizes, one read after the other, delivers the content in
  order, without a gap or a repetition, and stops at its end.\<close>

theorem blob_reads_stream:
  assumes "length content + 16 < 2 ^ 31" "lob_ready content n cc" "length content \<le> n + k" "k \<le> length content"
  shows "\<exists>bss x'. blob_reads (conn_source (serving_driver dr lob_answer)) ns
      (blob_handle_new rs (k = length content) (word_of_nat (length content)) locator (take k content), cc)
    = Some (Ok bss, x') \<and> concat bss = take (sum_list ns) content"
  using lob_wire.blob_reads_content [OF assms(1) blob_handle_ready [OF assms], where ns = ns] by simp

theorem blob_reads_stream_witness:
  "\<exists>bss x'. blob_reads (conn_source (serving_driver sample_driver lob_answer)) [2, 0, 2, 2]
      (blob_handle_new (Some 7) (0 = length [1, 2, 3, 4, 5 :: u8]) (word_of_nat (length [1, 2, 3, 4, 5 :: u8])) 9
        (take 0 [1, 2, 3, 4, 5]), served_core [1, 2, 3, 4, 5])
    = Some (Ok bss, x') \<and> concat bss = take (sum_list [2, 0, 2, 2]) [1, 2, 3, 4, 5]"
  by (rule blob_reads_stream [of _ 5])
    (simp_all add: lob_ready_def idle_served_core default_lob_read_length_def)

lemma clob_handle_ready:
  assumes "cesu8_crate c8" "valid_utf8 txt" "length (to_cesu8 c8 txt) + 16 < 2 ^ 31"
    and "lob_ready (to_cesu8 c8 txt) n cc" "length (to_cesu8 c8 txt) \<le> n + k" "k \<le> length (to_cesu8 c8 txt)"
    and "clob_handle_new rs (k = length (to_cesu8 c8 txt)) chars (word_of_nat (length (to_cesu8 c8 txt))) locator
      (take k (to_cesu8 c8 txt)) = Ok h"
  shows "lob_wire.clob_ready (to_cesu8 c8 txt) locator 0 (h, cc)"
proof -
  let ?content = "to_cesu8 c8 txt"
  obtain cs where cs: "list_all cesu_char cs" "?content = concat cs"
    using cesu8_crate.to_cesu8_chars [OF assms(1,2)] by auto
  have "get_cesu8_tail_len (take k ?content) k = Ok (cl_cesu8_tail_len h)" and h: "cl_cesu8 h = take k ?content"
    "cl_locator_id h = locator" "cl_total_byte_length h = word_of_nat (length ?content)" "cl_acc_byte_length h = k"
    "cl_complete h \<longleftrightarrow> k = length ?content"
    using assms(6,7) by (auto simp: clob_handle_new_def res_bind_Ok_iff res_simps split: res.splits)
  from tail_len_small [OF cs(1), of k, folded cs(2), OF assms(6) this(1)]
  have "cl_cesu8_tail_len h \<le> k" "cl_cesu8_tail_len h < 6" by simp_all
  moreover have "unat (word_of_nat (length ?content) :: u64) = length ?content"
    using assms(3) by (simp add: unat_of_nat)
  moreover have "length ?content - k \<le> n" using assms(5) by linarith
  ultimately show ?thesis
    using assms(4,6) h by (auto simp: lob_wire.clob_ready_def lob_wire.clob_at_def)
qed

text \<open>C10: A character LOB whose CESU-8 form is shorter than 2 GB and of which the server sent the first k bytes
  with the row is read completely and gives the text, wherever the chunks cut its characters.\<close>

theorem clob_read_completely:
  assumes "cesu8_crate c8" "valid_utf8 txt" "length (to_cesu8 c8 txt) + 16 < 2 ^ 31"
    and "lob_ready (to_cesu8 c8 txt) n cc" "length (to_cesu8 c8 txt) \<le> n + k" "k \<le> length (to_cesu8 c8 txt)"
    and "clob_handle_new rs (k = length (to_cesu8 c8 txt)) chars (word_of_nat (length (to_cesu8 c8 txt))) locator
      (take k (to_cesu8 c8 txt)) = Ok h"
  shows "\<exists>cc'. clob_into_string c8 (conn_source (serving_driver dr lob_answer)) (h, cc) = Some (Ok txt, cc')"
  by (rule lob_wire.clob_into_string_content [OF assms(1,3,2) refl clob_handle_ready [OF assms]])

definition sample_text :: bytes where
  "sample_text = [0x61, 0xE2, 0x82, 0xAC, 0xF0, 0x9F, 0x98, 0x80]"

definition sample_cesu8 :: bytes where
  "sample_cesu8 = [0x61, 0xE2, 0x82, 0xAC, 0xED, 0xA0, 0xBD, 0xED, 0xB8, 0x80]"

theorem clob_read_completely_witness:
  "\<exists>h cc'. clob_handle_new (Some 7) (6 = length sample_cesu8) 4 (word_of_nat (length sample_cesu8)) 9 (take 6 sample_cesu8) = Ok h
    \<and> clob_into_string ref_cesu8 (conn_source (serving_driver sample_driver lob_answer)) (h, served_core sample_cesu8)
    = Some (Ok sample_text, cc')"
proof -
  have "is_ok (clob_handle_new (Some 7) (6 = length sample_cesu8) 4 (word_of_nat (length sample_cesu8)) 9 (take 6 sample_cesu8))"
    by code_simp
  then obtain h where h: "clob_handle_new (Some 7) (6 = length sample_cesu8) 4 (word_of_nat (length sample_cesu8)) 9
      (take 6 sample_cesu8) = Ok h" by (auto elim: is_okE)
  have enc: "to_cesu8 ref_cesu8 sample_text = sample_cesu8" "valid_utf8 sample_text" by code_simp+
  have "\<exists>cc'. clob_into_string ref_cesu8 (conn_source (serving_driver sample_driver lob_answer)) (h, served_core sample_cesu8)
    = Some (Ok sample_text, cc')"
    by (rule clob_read_completely [OF ref.cesu8_crate_axioms enc(2), unfolded enc(1), of 10, OF _ _ _ _ h])
      (simp_all add: lob_ready_def idle_served_core default_lob_read_length_def sample_cesu8_def)
  then show ?thesis using h by blast
qed

end
