(* ===== verification/Hdb_ResultSet.thy ===== *)
theory Hdb_ResultSet
  imports Hdb_Connection Hdb_Loops
begin

text \<open>
  Result sets (protocol/parts/resultset.rs): delivering rows and fetching further packets. The state of
  an operation is the connection core and the \<^verbatim>\<open>RsState\<close>; the metadata are an argument, as in the code.

  The cores of result sets and prepared statements are reference counted. Which of them other handles
  (LOBs, the prepared statement itself) still hold is the record \<open>holders\<close>; a core nobody else holds is
  dropped when its reference is given up, with the requests that its \<^verbatim>\<open>Drop\<close> sends.
\<close>

section \<open>Dropping the cores\<close>

record holders =
  ho_rscore :: "u64 \<Rightarrow> bool"
  ho_pscore :: "u64 \<Rightarrow> bool"

text \<open>Errors are ignored, a reply is not evaluated.\<close>

definition ps_core_drop :: "'n driver \<Rightarrow> u64 \<Rightarrow> 'n conn_core \<Rightarrow> 'n conn_core" where
  "ps_core_drop dr statement_id cc =
     snd (send dr (request_push (P_StatementId statement_id) (request_new RQ_DropStatementId 0)) cc)"

definition rs_core_drop :: "'n driver \<Rightarrow> rs_core \<Rightarrow> 'n conn_core \<Rightarrow> 'n conn_core" where
  "rs_core_drop dr core cc =
     (if \<not> resultset_is_closed (rsc_attributes core) then
        snd (send dr (request_push (P_ResultSetId (rsc_resultset_id core)) (request_new RQ_CloseResultSet 0)) cc)
      else cc)"

text \<open>Giving up a reference to a core: its own drop, then that of the statement core it holds.\<close>

definition rs_core_release :: "'n driver \<Rightarrow> holders \<Rightarrow> rs_core \<Rightarrow> 'n conn_core \<Rightarrow> 'n conn_core" where
  "rs_core_release dr ho core cc =
     (if ho_rscore ho (rsc_resultset_id core) then cc
      else
        let cc1 = rs_core_drop dr core cc
        in case rsc_pscore core of
             Some statement_id \<Rightarrow> if ho_pscore ho statement_id then cc1 else ps_core_drop dr statement_id cc1
           | None \<Rightarrow> cc1)"

section \<open>Fetching\<close>

definition rs_is_complete :: "rs_state \<Rightarrow> (bool, hdb_error) res" where
  "rs_is_complete st =
     (case rss_core st of
        Some core \<Rightarrow>
          let a = rsc_attributes core
          in if \<not> is_last_packet a \<and> (row_not_found a \<or> resultset_is_closed a) then
               Err (Impl ''ResultSet attributes inconsistent: incomplete, but already closed on server'')
             else Ok (is_last_packet a)
      | None \<Rightarrow> Ok True)"

definition fetch_next_request :: "u64 \<Rightarrow> u32 \<Rightarrow> request" where
  "fetch_next_request resultset_id fetch_size =
     request_push (P_FetchSize fetch_size) (request_push (P_ResultSetId resultset_id) (request_new RQ_FetchNext 0))"

definition rs_fetch_next ::
    "'n driver \<Rightarrow> holders \<Rightarrow> resultset_metadata \<Rightarrow> ('n conn_core \<times> rs_state, unit) st" where
  "rs_fetch_next dr ho md = (\<lambda>(cc, st).
     case rss_core st of
       None \<Rightarrow> (Err (Impl ''Fetch no more possible''), (cc, st))
     | Some core \<Rightarrow>
         (case full_send dr (fetch_next_request (rsc_resultset_id core) (cc_fetch_size cc)) (Some md) None
              (cc, Some st) of
            (r, (cc', o_st)) \<Rightarrow>
              let st' = (case o_st of Some s \<Rightarrow> s | None \<Rightarrow> st)
              in case res_bind r (assert_expected_reply_type RT_Fetch) of
                   Ok _ \<Rightarrow>
                     (case rss_core st' of
                        Some core' \<Rightarrow>
                          if is_last_packet (rsc_attributes core')
                          then (Ok (), (rs_core_release dr ho core' cc', st'\<lparr>rss_core := None\<rparr>))
                          else (Ok (), (cc', st'))
                      | None \<Rightarrow> (Ok (), (cc', st')))
                 | Err e \<Rightarrow> (Err e, (cc', st'))
                 | Panic \<Rightarrow> (Panic, (cc', st'))))"

text \<open>\<^verbatim>\<open>while !self.is_complete()? { self.fetch_next(..)?; }\<close>\<close>

definition rs_fetch_all ::
    "'n driver \<Rightarrow> holders \<Rightarrow> resultset_metadata \<Rightarrow> 'n conn_core \<times> rs_state
      \<Rightarrow> ((unit, hdb_error) res \<times> 'n conn_core \<times> rs_state) option" where
  "rs_fetch_all dr ho md =
     st_while (\<lambda>(cc, st). rs_is_complete st \<noteq> Ok True)
       (\<lambda>(cc, st). case rs_is_complete st of
          Ok _ \<Rightarrow> rs_fetch_next dr ho md (cc, st)
        | Err e \<Rightarrow> (Err e, (cc, st))
        | Panic \<Rightarrow> (Panic, (cc, st)))"

definition rs_len :: "rs_state \<Rightarrow> nat" where
  "rs_len st = length (rss_next_rows st) + length (rss_row_iter st)"

definition rs_total_number_of_rows ::
    "'n driver \<Rightarrow> holders \<Rightarrow> resultset_metadata \<Rightarrow> 'n conn_core \<times> rs_state
      \<Rightarrow> ((nat, hdb_error) res \<times> 'n conn_core \<times> rs_state) option" where
  "rs_total_number_of_rows dr ho md x =
     map_option (\<lambda>(r, (cc, st)). (res_map (\<lambda>_. rs_len st) r, (cc, st))) (rs_fetch_all dr ho md x)"

section \<open>Delivering rows\<close>

text \<open>The rows that were fetched become the rows of the iterator.\<close>

definition rs_swap_rows :: "('n conn_core \<times> rs_state, row option) st" where
  "rs_swap_rows = (\<lambda>(cc, st).
     case rss_next_rows st of
       [] \<Rightarrow> (Ok None, (cc, st\<lparr>rss_next_rows := [], rss_row_iter := []\<rparr>))
     | r # rs \<Rightarrow> (Ok (Some r), (cc, st\<lparr>rss_next_rows := [], rss_row_iter := rs\<rparr>)))"

definition rs_next_row ::
    "'n driver \<Rightarrow> holders \<Rightarrow> resultset_metadata \<Rightarrow> ('n conn_core \<times> rs_state, row option) st" where
  "rs_next_row dr ho md = (\<lambda>(cc, st).
     case rss_row_iter st of
       r # rs \<Rightarrow> (Ok (Some r), (cc, st\<lparr>rss_row_iter := rs\<rparr>))
     | [] \<Rightarrow>
         if rss_next_rows st = [] then
           (case rs_is_complete st of
              Ok True \<Rightarrow> (Ok None, (cc, st))
            | Ok False \<Rightarrow> st_bind (rs_fetch_next dr ho md) (\<lambda>_. rs_swap_rows) (cc, st)
            | Err e \<Rightarrow> (Err e, (cc, st))
            | Panic \<Rightarrow> (Panic, (cc, st)))
         else rs_swap_rows (cc, st))"

definition rs_has_multiple_rows :: "rs_state \<Rightarrow> bool" where
  "rs_has_multiple_rows st \<longleftrightarrow>
     rs_is_complete st \<noteq> Ok True \<or> length (rss_next_rows st) + length (rss_row_iter st) > 1"

text \<open>\<^verbatim>\<open>ResultSet\<close> is consumed: its reference to the core is given up at the end.\<close>

definition result_set_drop :: "'n driver \<Rightarrow> holders \<Rightarrow> rs_state \<Rightarrow> 'n conn_core \<Rightarrow> 'n conn_core" where
  "result_set_drop dr ho st cc =
     (case rss_core st of Some core \<Rightarrow> rs_core_release dr ho core cc | None \<Rightarrow> cc)"

definition into_single_row ::
    "'n driver \<Rightarrow> holders \<Rightarrow> result_set \<Rightarrow> ('n conn_core, row) st" where
  "into_single_row dr ho rs = (\<lambda>cc.
     if rs_has_multiple_rows (rs_state rs) then
       (Err (Usage ''Resultset has more than one row''), result_set_drop dr ho (rs_state rs) cc)
     else
       (case rs_next_row dr ho (rs_metadata rs) (cc, rs_state rs) of
          (r, (cc', st)) \<Rightarrow>
            (res_bind r (\<lambda>o_row. ok_or o_row (Usage ''Resultset is empty'')), result_set_drop dr ho st cc')))"

text \<open>\<^verbatim>\<open>Iterator::next\<close>\<close>

definition rs_iter_next ::
    "'n driver \<Rightarrow> holders \<Rightarrow> resultset_metadata \<Rightarrow> 'n conn_core \<times> rs_state
      \<Rightarrow> (row, hdb_error) res option \<times> 'n conn_core \<times> rs_state" where
  "rs_iter_next dr ho md x =
     (case rs_next_row dr ho md x of
        (Ok (Some r), x') \<Rightarrow> (Some (Ok r), x')
      | (Ok None, x') \<Rightarrow> (None, x')
      | (Err e, x') \<Rightarrow> (Some (Err e), x')
      | (Panic, x') \<Rightarrow> (Some Panic, x'))"

definition inject_statement_id :: "u64 \<Rightarrow> result_set \<Rightarrow> result_set" where
  "inject_statement_id statement_id rs =
     rs\<lparr>rs_state := (rs_state rs)\<lparr>rss_core :=
       map_option (\<lambda>core. core\<lparr>rsc_pscore := Some statement_id\<rparr>) (rss_core (rs_state rs))\<rparr>\<rparr>"

section \<open>The contract of a server that delivers rows\<close>

text \<open>
  \<open>fetch\<close> is the fetch of the next packet, \<open>remaining s\<close> the rows that were not sent, \<open>ready n s\<close> says that
  \<open>n\<close> packets can be fetched from \<open>s\<close>, \<open>open_core\<close> describes the core while rows are missing.
\<close>

locale rows_server =
  fixes fetch :: "('s \<times> rs_state, unit) st" and remaining :: "'s \<Rightarrow> row list"
    and ready :: "nat \<Rightarrow> 's \<Rightarrow> bool" and open_core :: "rs_core \<Rightarrow> bool"
  assumes open_incomplete: "open_core core \<Longrightarrow> rss_core st = Some core \<Longrightarrow> rs_is_complete st = Ok False"
    and packet: "ready (Suc n) s \<Longrightarrow> remaining s \<noteq> [] \<Longrightarrow> rss_core st = Some core \<Longrightarrow> open_core core \<Longrightarrow>
      \<exists>k s' core'. 0 < k \<and> ready n s' \<and> remaining s' = drop k (remaining s) \<and>
        (remaining s' = [] \<longleftrightarrow> core' = None) \<and> (\<forall>c. core' = Some c \<longrightarrow> open_core c) \<and>
        fetch (s, st) = (Ok (), (s', st\<lparr>rss_core := core', rss_next_rows := rss_next_rows st @ take k (remaining s)\<rparr>))"
begin

text \<open>All rows a result set still delivers.\<close>

definition all_rows :: "'s \<times> rs_state \<Rightarrow> row list" where
  "all_rows = (\<lambda>(s, st). rss_row_iter st @ rss_next_rows st @ remaining s)"

definition rs_ok :: "'s \<times> rs_state \<Rightarrow> bool" where
  "rs_ok = (\<lambda>(s, st). (\<exists>n \<ge> length (remaining s). ready n s) \<and>
     (case rss_core st of
        None \<Rightarrow> remaining s = []
      | Some core \<Rightarrow> if open_core core then remaining s \<noteq> [] else remaining s = [] \<and> rs_is_complete st = Ok True))"

lemma complete_iff: "rs_ok (s, st) \<Longrightarrow> rs_is_complete st = Ok (remaining s = [])"
proof (cases "rss_core st")
  case None
  then show "rs_ok (s, st) \<Longrightarrow> ?thesis" by (simp add: rs_ok_def rs_is_complete_def)
next
  case (Some core)
  then show "rs_ok (s, st) \<Longrightarrow> ?thesis" by (auto simp: rs_ok_def open_incomplete split: if_splits)
qed

lemma fetch_step:
  assumes "rs_ok (s, st)" "remaining s \<noteq> []"
  shows "\<exists>s' st'. fetch (s, st) = (Ok (), (s', st')) \<and> rs_ok (s', st') \<and> all_rows (s', st') = all_rows (s, st) \<and>
    length (remaining s') < length (remaining s) \<and> rss_next_rows st' \<noteq> [] \<and> rss_row_iter st' = rss_row_iter st"
proof -
  obtain core where core: "rss_core st = Some core" "open_core core"
    using assms by (auto simp: rs_ok_def split: option.splits if_splits)
  obtain m where m: "length (remaining s) \<le> m" "ready m s" using assms(1) by (auto simp: rs_ok_def)
  then obtain n where n: "m = Suc n" using assms(2) by (cases m) auto
  obtain k s' core' where k: "0 < k" "ready n s'" "remaining s' = drop k (remaining s)"
    "remaining s' = [] \<longleftrightarrow> core' = None" "\<forall>c. core' = Some c \<longrightarrow> open_core c"
    "fetch (s, st) = (Ok (), (s', st\<lparr>rss_core := core', rss_next_rows := rss_next_rows st @ take k (remaining s)\<rparr>))"
    using packet [OF _ assms(2) core] m(2) n by blast
  let ?st = "st\<lparr>rss_core := core', rss_next_rows := rss_next_rows st @ take k (remaining s)\<rparr>"
  have less: "length (remaining s') < length (remaining s)" using k(1,3) assms(2) by (cases "remaining s") auto
  then have "length (remaining s') \<le> n" using m(1) n by linarith
  then have "rs_ok (s', ?st)" using k(2,4,5) by (auto simp: rs_ok_def split: option.splits)
  moreover have "all_rows (s', ?st) = all_rows (s, st)" by (simp add: all_rows_def k(3))
  ultimately show ?thesis using k(1,6) less assms(2) by auto
qed

lemma fetch_all_rows:
  assumes "rs_ok (s, st)"
  shows "\<exists>s' st'. st_while (\<lambda>(s, st). rs_is_complete st \<noteq> Ok True)
      (\<lambda>(s, st). case rs_is_complete st of
         Ok _ \<Rightarrow> fetch (s, st) | Err e \<Rightarrow> (Err e, (s, st)) | Panic \<Rightarrow> (Panic, (s, st))) (s, st)
    = Some (Ok (), (s', st')) \<and> rs_ok (s', st') \<and> remaining s' = [] \<and> all_rows (s', st') = all_rows (s, st)"
proof -
  let ?c = "\<lambda>(s, st). rs_is_complete st \<noteq> Ok True"
  let ?m = "\<lambda>(s, st). case rs_is_complete st of
         Ok _ \<Rightarrow> fetch (s, st) | Err e \<Rightarrow> (Err e, (s, st)) | Panic \<Rightarrow> (Panic, (s, st))"
  let ?I = "\<lambda>x. rs_ok x \<and> all_rows x = all_rows (s, st)"
  have "\<exists>x'. ?m x = (Ok (), x') \<and> ?I x' \<and> length (remaining (fst x')) < length (remaining (fst x))"
    if "?I x" "?c x" for x
  proof -
    obtain t u where x: "x = (t, u)" by (cases x)
    have ok: "rs_ok (t, u)" "remaining t \<noteq> []" using that complete_iff [of t u] by (auto simp: x)
    from fetch_step [OF this] obtain t' u' where f: "fetch (t, u) = (Ok (), (t', u'))" "rs_ok (t', u')"
      "all_rows (t', u') = all_rows (t, u)" "length (remaining t') < length (remaining t)" by blast
    have "?m x = (Ok (), (t', u'))" using f(1) complete_iff [OF ok(1)] by (simp add: x)
    then show ?thesis using f(2-4) that(1) by (intro exI [of _ "(t', u')"]) (simp add: x)
  qed
  then have "\<exists>x'. st_while ?c ?m (s, st) = Some (Ok (), x') \<and> ?I x' \<and> \<not> ?c x'"
    by (rule st_while_total [where f = "\<lambda>x. length (remaining (fst x))"]) (use assms in auto)
  then obtain t u where "st_while ?c ?m (s, st) = Some (Ok (), (t, u))" "?I (t, u)" "\<not> ?c (t, u)" by auto
  then show ?thesis using complete_iff [of t u] by auto
qed

end

end
