(* ===== verification/Hdb_ResultSet_Server.thy ===== *)
theory Hdb_ResultSet_Server
  imports Hdb_ResultSet Hdb_Server
begin

text \<open>
  A server that holds the rows of one result set: it decodes the FETCHNEXT requests and answers with
  packets of as many rows as asked for. On it \<open>rs_fetch_next\<close> meets the contract \<open>rows_server\<close>; the
  properties say what a result set delivers end to end.
\<close>

section \<open>The server\<close>

text \<open>Its state is the list of the rows, encoded, that were not sent. The id is the first part of the
  request, the number of rows the second.\<close>

definition fetch_request_parse :: "u32 rd" where
  "fetch_request_parse =
     rd_bind read_u64 (\<lambda>_. rd_bind (skip_bytes 16) (\<lambda>_. read_u32))"

definition packet_attributes :: "bool \<Rightarrow> part_attributes" where
  "packet_attributes is_last = (if is_last then 0b10001 else 0b00010)"

definition rows_answer :: "bytes list server" where
  "rows_answer req encs =
     (case fetch_request_parse (drop 72 req) of
        Ok (n, _) \<Rightarrow>
          (one_part_reply 10 PK_ResultSet (packet_attributes (length encs \<le> unat n)) (min (unat n) (length encs))
             (concat (take (unat n) encs)), drop (unat n) encs)
      | _ \<Rightarrow> ([], encs))"

text \<open>An encoded row is what the row parser accepts, whatever follows.\<close>

definition decoded :: "cesu8_lib \<Rightarrow> num_lib \<Rightarrow> resultset_metadata \<Rightarrow> u64 \<Rightarrow> bytes \<Rightarrow> row" where
  "decoded c8 nl md rid bs = (case row_parse c8 nl md (Some rid) bs of Ok (r, _) \<Rightarrow> r | _ \<Rightarrow> row_new md [])"

definition encodes_row :: "cesu8_lib \<Rightarrow> num_lib \<Rightarrow> resultset_metadata \<Rightarrow> u64 \<Rightarrow> bytes \<Rightarrow> bool" where
  "encodes_row c8 nl md rid bs \<longleftrightarrow> (\<forall>rest. row_parse c8 nl md (Some rid) (bs @ rest) = Ok (decoded c8 nl md rid bs, rest))"

definition rows_ready ::
    "('s \<times> bytes) driver \<Rightarrow> resultset_metadata \<Rightarrow> u64 \<Rightarrow> nat \<Rightarrow> (bytes list \<times> bytes) conn_core \<Rightarrow> bool" where
  "rows_ready dr md rid n cc \<longleftrightarrow> idle n cc \<and> 0 < cc_fetch_size cc \<and>
     (\<forall>bs \<in> set (server_state cc). encodes_row (dr_c8 dr) (dr_nl dr) md rid bs) \<and>
     length (concat (server_state cc)) < 2 ^ 31 \<and> length (server_state cc) < 2 ^ 31"

definition open_core :: "holders \<Rightarrow> u64 \<Rightarrow> rs_core \<Rightarrow> bool" where
  "open_core ho rid core \<longleftrightarrow> rsc_resultset_id core = rid \<and> \<not> is_last_packet (rsc_attributes core) \<and>
     \<not> row_not_found (rsc_attributes core) \<and> \<not> resultset_is_closed (rsc_attributes core) \<and>
     (\<forall>sid. rsc_pscore core = Some sid \<longrightarrow> ho_pscore ho sid)"

section \<open>The request\<close>

lemma fetch_request_bytes:
  "request_emit c8 nl sid nsn ac ds (fetch_next_request rid n) =
    Ok (message_header sid nsn 72 72 @ segment_header 72 2 RQ_FetchNext ac 0
      @ ([13, 0] @ (write_i16 1 @ write_i32 0) @ write_i32 8 @ write_i32 48) @ write_u64 rid
      @ ([45, 0] @ (write_i16 1 @ write_i32 0) @ write_i32 4 @ write_i32 24) @ write_u32 n @ replicate 4 0)"
  by (simp add: fetch_next_request_def request_emit_def request_push_def request_new_def varpart_size_def seg_size_def
      part_size_def part_body_size_def part_raw_size_def padsize_def part_emit_def part_count_def
      part_header_count_def sub_u32_def part_emit_body_def part_emit_raw_def)

lemma rows_answer_request:
  "rows_answer (message_header sid nsn 72 72 @ segment_header 72 2 RQ_FetchNext ac 0
      @ ([13, 0] @ (write_i16 1 @ write_i32 0) @ write_i32 8 @ write_i32 48) @ write_u64 rid
      @ ([45, 0] @ (write_i16 1 @ write_i32 0) @ write_i32 4 @ write_i32 24) @ write_u32 n @ replicate 4 0) encs =
    (one_part_reply 10 PK_ResultSet (packet_attributes (length encs \<le> unat n)) (min (unat n) (length encs))
       (concat (take (unat n) encs)), drop (unat n) encs)"
proof -
  let ?ph = "[45, 0] @ (write_i16 1 @ write_i32 0) @ write_i32 4 @ write_i32 24"
  have "skip_bytes 16 (?ph @ bs) = Ok ((), bs)" for bs
    by (rule skip_bytes_append) simp_all
  then have "fetch_request_parse (write_u64 rid @ ?ph @ write_u32 n @ replicate 4 0) = Ok (n, replicate 4 0)"
    unfolding fetch_request_parse_def rd_bind_apply by (simp add: rd_bind_apply rd_simps)
  then show ?thesis by (simp add: rows_answer_def)
qed

section \<open>The reply\<close>

lemma rows_parsed:
  assumes "\<forall>bs \<in> set encs. encodes_row c8 nl md rid bs"
  shows "rd_repeat (length encs) (row_parse c8 nl md (Some rid)) (concat encs @ rest) =
    Ok (map (decoded c8 nl md rid) encs, rest)"
  using assms by (induction encs) (simp_all add: rd_simps encodes_row_def)

lemma packet_parsed:
  assumes core: "rss_core st = Some core" and encs: "\<forall>bs \<in> set encs. encodes_row c8 nl md (rsc_resultset_id core) bs"
    and len: "length (concat encs) < 2 ^ 31" "length encs < 2 ^ 31"
  shows "reply_parse c8 nl (Some md) ds (Some st) True
      (one_part_reply 10 PK_ResultSet attrs (length encs) (concat encs)) =
    Ok ((\<lparr>rp_session_id = 0, rp_replytype = RT_Fetch, rp_parts = [P_ResultSet None]\<rparr>,
         Some (st\<lparr>rss_core := Some (core\<lparr>rsc_attributes := attrs\<rparr>),
           rss_next_rows := rss_next_rows st @ map (decoded c8 nl md (rsc_resultset_id core)) encs\<rparr>)), [])"
proof (rule one_part_reply_parsed)
  have "\<not> length encs > isize_max" using len(2) by (simp add: isize_max_def)
  then show "part_parse_body c8 nl PK_ResultSet attrs (length encs) [] True (Some md) ds (Some st) (concat encs) =
      Ok ((P_ResultSet None, [], Some (st\<lparr>rss_core := Some (core\<lparr>rsc_attributes := attrs\<rparr>),
           rss_next_rows := rss_next_rows st @ map (decoded c8 nl md (rsc_resultset_id core)) encs\<rparr>)), [])"
    using core rows_parsed [OF encs, of "[]"]
    by (simp add: part_parse_body_def rd_map_def rd_bind_apply rd_apply_simps result_set_parse_def pop_if_kind_def
        parse_rows_def)
qed (use len in \<open>simp_all add: reply_type_from_i16_def\<close>)

section \<open>The roundtrip\<close>

lemma packet_attributes_simps [simp]:
  "is_last_packet (packet_attributes l) \<longleftrightarrow> l" "resultset_is_closed (packet_attributes l) \<longleftrightarrow> l"
  "\<not> row_not_found (packet_attributes l)"
  by (simp_all add: packet_attributes_def is_last_packet_def resultset_is_closed_def row_not_found_def)

lemma fetch_next_served:
  fixes dr :: "(bytes list \<times> bytes) driver"
  assumes ready: "rows_ready dr md rid (Suc n) cc" and core: "rss_core st = Some core" "open_core ho rid core"
  defines "k \<equiv> unat (cc_fetch_size cc)"
  shows "rs_fetch_next (serving_driver dr rows_answer) ho md (cc, st) = (Ok (), (served (drop k (server_state cc)) cc,
    st\<lparr>rss_core := (if length (server_state cc) \<le> k then None else Some (core\<lparr>rsc_attributes := packet_attributes False\<rparr>)),
       rss_next_rows := rss_next_rows st @ map (decoded (dr_c8 dr) (dr_nl dr) md rid) (take k (server_state cc))\<rparr>))"
proof -
  let ?st = "st\<lparr>rss_core := Some (core\<lparr>rsc_attributes := packet_attributes (length (server_state cc) \<le> k)\<rparr>),
       rss_next_rows := rss_next_rows st @ map (decoded (dr_c8 dr) (dr_nl dr) md rid) (take k (server_state cc))\<rparr>"
  let ?msg = "one_part_reply 10 PK_ResultSet (packet_attributes (length (server_state cc) \<le> k)) (min k (length (server_state cc)))
    (concat (take k (server_state cc)))"
  have id: "rsc_resultset_id core = rid" using core(2) by (simp add: open_core_def)
  have "length (concat (take k (server_state cc))) \<le> length (concat (server_state cc))"
    by (metis append_take_drop_id concat_append le_add1 length_append)
  then have len: "length (concat (take k (server_state cc))) < 2 ^ 31" "length (take k (server_state cc)) < 2 ^ 31"
    using ready by (auto simp: rows_ready_def min_def)
  have "\<forall>bs \<in> set (take k (server_state cc)). encodes_row (dr_c8 dr) (dr_nl dr) md (rsc_resultset_id core) bs"
    using ready id by (auto simp: rows_ready_def dest: in_set_takeD)
  from packet_parsed [OF core(1) this len, of None "packet_attributes (length (server_state cc) \<le> k)"]
  have parsed: "reply_parse (dr_c8 dr) (dr_nl dr) (Some md) None (Some st) True ?msg =
      Ok ((\<lparr>rp_session_id = 0, rp_replytype = RT_Fetch, rp_parts = [P_ResultSet None]\<rparr>, Some ?st), [])"
    by (simp add: id min.commute)
  have "full_send (serving_driver dr rows_answer) (fetch_next_request rid (cc_fetch_size cc)) (Some md) None (cc, Some st) =
      (Ok \<lparr>rp_session_id = 0, rp_replytype = RT_Fetch, rp_parts = [P_ResultSet None]\<rparr>, (served (drop k (server_state cc)) cc, Some ?st))"
    by (rule served_full_send [where n = n and server = rows_answer and cc = cc, OF _ _ fetch_request_bytes
        rows_answer_request [of _ _ _ rid "cc_fetch_size cc" "server_state cc", folded k_def] parsed])
      (use ready in \<open>simp_all add: rows_ready_def fetch_next_request_def request_push_def request_new_def\<close>)
  moreover have "rs_core_release (serving_driver dr rows_answer) ho (core\<lparr>rsc_attributes := packet_attributes True\<rparr>) c = c" for c
    using core(2) by (auto simp: rs_core_release_def rs_core_drop_def open_core_def Let_def split: option.split)
  ultimately show ?thesis
    using core(1) by (simp add: rs_fetch_next_def id assert_expected_reply_type_def Let_def)
qed

interpretation rows: rows_server "rs_fetch_next (serving_driver dr rows_answer) ho md"
  "\<lambda>cc. map (decoded (dr_c8 dr) (dr_nl dr) md rid) (server_state cc)" "rows_ready dr md rid" "open_core ho rid"
  for dr :: "(bytes list \<times> bytes) driver" and ho md rid
proof
  show "open_core ho rid core \<Longrightarrow> rss_core st = Some core \<Longrightarrow> rs_is_complete st = Ok False" for core st
    by (simp add: rs_is_complete_def open_core_def Let_def)
next
  fix n and cc :: "(bytes list \<times> bytes) conn_core" and st :: rs_state and core :: rs_core
  let ?dec = "decoded (dr_c8 dr) (dr_nl dr) md rid" and ?k = "unat (cc_fetch_size cc)"
  let ?core = "if length (server_state cc) \<le> ?k then None else Some (core\<lparr>rsc_attributes := packet_attributes False\<rparr>)"
  assume a: "rows_ready dr md rid (Suc n) cc" "map ?dec (server_state cc) \<noteq> []" "rss_core st = Some core"
    "open_core ho rid core"
  have "0 < ?k" using a(1) by (auto simp: rows_ready_def unat_gt_0 word_gt_0)
  moreover have "length (concat (drop ?k (server_state cc))) \<le> length (concat (server_state cc))"
    by (metis append_take_drop_id concat_append le_add2 length_append)
  then have "rows_ready dr md rid n (served (drop ?k (server_state cc)) cc)"
    using a(1) by (auto simp: rows_ready_def idle_served dest: in_set_dropD)
  ultimately show "\<exists>k s' core'. 0 < k \<and> rows_ready dr md rid n s' \<and>
      map ?dec (server_state s') = drop k (map ?dec (server_state cc)) \<and>
      (map ?dec (server_state s') = [] \<longleftrightarrow> core' = None) \<and> (\<forall>c. core' = Some c \<longrightarrow> open_core ho rid c) \<and>
      rs_fetch_next (serving_driver dr rows_answer) ho md (cc, st) = (Ok (), (s', st\<lparr>rss_core := core',
        rss_next_rows := rss_next_rows st @ take k (map ?dec (server_state cc))\<rparr>))"
    using fetch_next_served [OF a(1,3,4)] a(4)
    by (intro exI [of _ ?k] exI [of _ "served (drop ?k (server_state cc)) cc"] exI [of _ ?core])
      (auto simp: drop_map take_map open_core_def)
qed

section \<open>Properties\<close>

text \<open>A result set over the server: what was transferred and is not delivered, then what the server holds.\<close>

definition undelivered ::
    "cesu8_lib \<Rightarrow> num_lib \<Rightarrow> resultset_metadata \<Rightarrow> u64 \<Rightarrow> (bytes list \<times> bytes) conn_core \<times> rs_state \<Rightarrow> row list" where
  "undelivered c8 nl md rid = (\<lambda>(cc, st).
     rss_row_iter st @ rss_next_rows st @ map (decoded c8 nl md rid) (server_state cc))"

text \<open>The server can be asked for the rest, and the core of the result set says whether there is a rest.\<close>

definition rs_sound ::
    "(bytes list \<times> bytes) driver \<Rightarrow> holders \<Rightarrow> resultset_metadata \<Rightarrow> u64
      \<Rightarrow> (bytes list \<times> bytes) conn_core \<times> rs_state \<Rightarrow> bool" where
  "rs_sound dr ho md rid = (\<lambda>(cc, st). (\<exists>n \<ge> length (server_state cc). rows_ready dr md rid n cc) \<and>
     (case rss_core st of
        None \<Rightarrow> server_state cc = []
      | Some core \<Rightarrow> if open_core ho rid core then server_state cc \<noteq> []
                    else server_state cc = [] \<and> rs_is_complete st = Ok True))"

lemma rs_sound_iff: "rs_sound dr ho md rid = rows.rs_ok dr md rid ho"
  by (rule ext) (simp add: rs_sound_def rows.rs_ok_def split: prod.splits option.splits)

lemma rs_sound_rows [simp]:
  "rs_sound dr ho md rid (cc, st\<lparr>rss_row_iter := xs\<rparr>) = rs_sound dr ho md rid (cc, st)"
  "rs_sound dr ho md rid (cc, st\<lparr>rss_next_rows := xs\<rparr>) = rs_sound dr ho md rid (cc, st)"
  by (simp_all add: rs_sound_def rs_is_complete_def split: option.splits)

lemma undelivered_iff: "undelivered (dr_c8 dr) (dr_nl dr) md rid = rows.all_rows dr md rid"
  by (rule ext) (simp add: undelivered_def rows.all_rows_def split: prod.splits)

text \<open>C8: Fetching everything ends, and the number of rows reported is the number of all rows that were not
  delivered, those still on the server included; afterwards nothing is left on the server and the rows
  to be delivered are the same, in the same order.\<close>

theorem total_number_of_rows_counts:
  assumes "rs_sound dr ho md rid (cc, st)"
  shows "\<exists>cc' st'. rs_total_number_of_rows (serving_driver dr rows_answer) ho md (cc, st)
      = Some (Ok (length (undelivered (dr_c8 dr) (dr_nl dr) md rid (cc, st))), (cc', st'))
    \<and> server_state cc' = [] \<and> rs_sound dr ho md rid (cc', st')
    \<and> rss_row_iter st' @ rss_next_rows st' = undelivered (dr_c8 dr) (dr_nl dr) md rid (cc, st)"
proof -
  obtain cc' st' where *: "rs_fetch_all (serving_driver dr rows_answer) ho md (cc, st) = Some (Ok (), (cc', st'))"
    "rs_sound dr ho md rid (cc', st')" "server_state cc' = []"
    "undelivered (dr_c8 dr) (dr_nl dr) md rid (cc', st') = undelivered (dr_c8 dr) (dr_nl dr) md rid (cc, st)"
    using rows.fetch_all_rows [OF assms [unfolded rs_sound_iff]]
    unfolding rs_fetch_all_def rs_sound_iff undelivered_iff by auto
  then have rows: "rss_row_iter st' @ rss_next_rows st' = undelivered (dr_c8 dr) (dr_nl dr) md rid (cc, st)"
    by (simp add: undelivered_def)
  then have "rs_len st' = length (undelivered (dr_c8 dr) (dr_nl dr) md rid (cc, st))"
    unfolding rs_len_def by (metis add.commute length_append)
  then show ?thesis using * rows by (simp add: rs_total_number_of_rows_def)
qed

text \<open>C7: \<open>next_row\<close> takes the first of the rows that are not delivered, wherever it is (in the iterator, fetched,
  or still on the server), and reports the end exactly if there is none; soundness is kept.\<close>

theorem next_row_refines:
  assumes "rs_sound dr ho md rid (cc, st)"
  shows "\<exists>cc' st'. rs_next_row (serving_driver dr rows_answer) ho md (cc, st)
      = (Ok (case undelivered (dr_c8 dr) (dr_nl dr) md rid (cc, st) of [] \<Rightarrow> None | r # _ \<Rightarrow> Some r), (cc', st'))
    \<and> undelivered (dr_c8 dr) (dr_nl dr) md rid (cc', st') = tl (undelivered (dr_c8 dr) (dr_nl dr) md rid (cc, st))
    \<and> rs_sound dr ho md rid (cc', st')"
proof -
  show ?thesis
  proof (cases "rss_row_iter st = [] \<and> rss_next_rows st = []")
    case False
    then show ?thesis using assms
      by (auto simp: rs_next_row_def rs_swap_rows_def undelivered_def split: list.splits)
  next
    case True
    have complete: "rs_is_complete st = Ok (server_state cc = [])"
      using rows.complete_iff [OF assms [unfolded rs_sound_iff]] by simp
    show ?thesis
    proof (cases "server_state cc = []")
      case end_of_rows: True
      then show ?thesis using True assms complete by (simp add: rs_next_row_def undelivered_def)
    next
      case more: False
      then obtain cc' st' where f: "rs_fetch_next (serving_driver dr rows_answer) ho md (cc, st) = (Ok (), (cc', st'))"
        "rs_sound dr ho md rid (cc', st')" "rss_next_rows st' \<noteq> []" "rss_row_iter st' = []"
        "undelivered (dr_c8 dr) (dr_nl dr) md rid (cc', st') = undelivered (dr_c8 dr) (dr_nl dr) md rid (cc, st)"
        using rows.fetch_step [OF assms [unfolded rs_sound_iff]] True
        unfolding rs_sound_iff undelivered_iff by auto
      then obtain r rs where "rss_next_rows st' = r # rs" by (cases "rss_next_rows st'") auto
      then show ?thesis using True more complete f
        by (auto simp: rs_next_row_def rs_swap_rows_def st_bind_def undelivered_def)
    qed
  qed
qed

definition sample_metadata :: resultset_metadata where
  "sample_metadata = \<lparr>rsmd_fields = [\<lparr>fm_schemaname_idx = 0, fm_tablename_idx = 0, fm_columnname_idx = 0,
     fm_displayname_idx = 0, fm_column_options = 2, fm_type_id = TY_TINYINT, fm_scale = 0, fm_precision = 3\<rparr>],
     rsmd_names = [(0, ascii ''N'')]\<rparr>"

definition sample_rs :: rs_state where
  "sample_rs = \<lparr>rss_core = Some \<lparr>rsc_pscore = None, rsc_attributes = 0b110, rsc_resultset_id = 9\<rparr>,
     rss_next_rows = [], rss_row_iter = [row_new sample_metadata [HV_TINYINT 7]],
     rss_server_usage = server_usage_default\<rparr>"

definition no_holders :: holders where
  "no_holders = \<lparr>ho_rscore = \<lambda>_. False, ho_pscore = \<lambda>_. False\<rparr>"

lemma sample_row_parse:
  "row_parse c8 nl sample_metadata rs (1 # b # rest) = Ok (row_new sample_metadata [HV_TINYINT b], rest)"
  by (simp add: row_parse_def sample_metadata_def number_of_fields_def typeid_nullable_scale_def field_metadata_at_def
      parse_from_reply_def rd_simps io_of_hdb_def parse_tinyint_def parse_null_def
      fm_is_nullable_def)

lemma sample_rs_sound: "rs_sound sample_driver no_holders sample_metadata 9 (served_core [[1, 8], [1, 9]], sample_rs)"
proof -
  have "rows_ready sample_driver sample_metadata 9 2 (served_core [[1, 8], [1, 9]])"
    by (simp add: rows_ready_def idle_served_core default_fetch_size_def encodes_row_def decoded_def sample_row_parse)
  then show ?thesis
    by (auto simp: rs_sound_def sample_rs_def open_core_def is_last_packet_def row_not_found_def resultset_is_closed_def
        intro!: exI [of _ 2])
qed

lemma sample_undelivered: "undelivered c8 nl sample_metadata 9 (served_core [[1, 8], [1, 9]], sample_rs) =
    map (\<lambda>b. row_new sample_metadata [HV_TINYINT b]) [7, 8, 9]"
  by (simp add: undelivered_def sample_rs_def decoded_def sample_row_parse)

theorem total_number_of_rows_counts_witness:
  "\<exists>x'. rs_total_number_of_rows (serving_driver sample_driver rows_answer) no_holders sample_metadata
      (served_core [[1, 8], [1, 9]], sample_rs) = Some (Ok 3, x')"
  using total_number_of_rows_counts [OF sample_rs_sound] by (auto simp: sample_undelivered)

theorem next_row_refines_witness:
  "fst (rs_next_row (serving_driver sample_driver rows_answer) no_holders sample_metadata
      (served_core [[1, 8], [1, 9]], sample_rs)) = Ok (Some (row_new sample_metadata [HV_TINYINT 7]))"
  using next_row_refines [OF sample_rs_sound] by (auto simp: sample_undelivered)

section \<open>An empty packet\<close>

definition empty_answer :: "bytes list server" where
  "empty_answer req encs = (one_part_reply 10 PK_ResultSet (packet_attributes False) 0 [], encs)"

text \<open>C40: When a packet without rows arrives that is not the last one, \<open>next_row\<close> reports the end of the result
  set although rows remain on the server and the result set itself knows that it is not complete.\<close>

theorem empty_packet_ends_early:
  assumes "idle (Suc n) cc" "rss_core st = Some core" "open_core ho rid core"
    and "rss_row_iter st = []" "rss_next_rows st = []"
  shows "\<exists>cc' st'. rs_next_row (serving_driver dr empty_answer) ho md (cc, st) = (Ok None, (cc', st'))
    \<and> server_state cc' = server_state cc \<and> rs_is_complete st' = Ok False"
proof -
  let ?st = "st\<lparr>rss_core := Some (core\<lparr>rsc_attributes := packet_attributes False\<rparr>)\<rparr>"
  let ?reply = "\<lparr>rp_session_id = 0, rp_replytype = RT_Fetch, rp_parts = [P_ResultSet None]\<rparr>"
  have parsed: "reply_parse (dr_c8 dr) (dr_nl dr) (Some md) None (Some st) True
      (one_part_reply 10 PK_ResultSet (packet_attributes False) 0 []) = Ok ((?reply, Some ?st), [])"
    using packet_parsed [OF assms(2), of "[]"] by simp
  have send: "full_send (serving_driver dr empty_answer) (fetch_next_request rid k) (Some md) None (cc, Some st) =
      (Ok ?reply, (served (server_state cc) cc, Some ?st))" for k
    by (rule served_full_send [where n = n and server = empty_answer and cc = cc, OF _ _ fetch_request_bytes _ parsed])
      (use assms(1) in \<open>simp_all add: fetch_next_request_def request_push_def request_new_def empty_answer_def\<close>)
  have incomplete: "rs_is_complete st = Ok False" "rs_is_complete ?st = Ok False"
    using assms(2,3) by (simp_all add: rs_is_complete_def open_core_def Let_def)
  have "rs_fetch_next (serving_driver dr empty_answer) ho md (cc, st) = (Ok (), (served (server_state cc) cc, ?st))"
    using assms(2,3) send by (simp add: rs_fetch_next_def open_core_def assert_expected_reply_type_def Let_def)
  then show ?thesis
    using assms(4,5) incomplete by (auto simp: rs_next_row_def st_bind_def rs_swap_rows_def rs_is_complete_def)
qed

theorem empty_packet_ends_early_witness:
  "\<exists>cc' st'. rs_next_row (serving_driver sample_driver empty_answer) no_holders sample_metadata
      (served_core [[1, 8]], sample_rs\<lparr>rss_row_iter := []\<rparr>) = (Ok None, (cc', st'))
    \<and> server_state cc' = server_state (served_core [[1, 8 :: u8]]) \<and> rs_is_complete st' = Ok False"
  by (rule empty_packet_ends_early [where n = 0 and rid = 9 and core = "\<lparr>rsc_pscore = None, rsc_attributes = 6, rsc_resultset_id = 9\<rparr>"])
    (simp_all add: idle_served_core sample_rs_def open_core_def is_last_packet_def row_not_found_def
      resultset_is_closed_def)

end
