(* ===== verification/Hdb_Response.thy ===== *)
theory Hdb_Response
  imports Hdb_Session
begin

text \<open>
  What the caller of a statement gets (hdb\_response.rs, hdb\_return\_value.rs): the internal return
  values of a reply become the return values of a response, in a way that depends on the type of the
  reply; the response is then taken apart by the caller.
\<close>

section \<open>Return values\<close>

text \<open>Ids of XA transactions are values of the crate \<^verbatim>\<open>dist_tx\<close>; only their list is passed on.\<close>

datatype 'xid hdb_return_value =
    RV_ResultSet result_set
  | RV_AffectedRows "nat list"
  | RV_OutputParameters output_parameters
  | RV_Success
  | RV_XaTransactionIds "'xid list"

definition rv_is_success :: "'xid hdb_return_value \<Rightarrow> bool" where
  "rv_is_success rv =
     (case rv of RV_Success \<Rightarrow> True | RV_AffectedRows vec \<Rightarrow> length vec = 1 \<and> vec ! 0 = 0 | _ \<Rightarrow> False)"

definition rv_into_resultset :: "'xid hdb_return_value \<Rightarrow> (result_set, hdb_error) res" where
  "rv_into_resultset rv =
     (case rv of RV_ResultSet rs \<Rightarrow> Ok rs | _ \<Rightarrow> Err (Evaluation ''Not a HdbReturnValue::ResultSet''))"

definition rv_into_affected_rows :: "'xid hdb_return_value \<Rightarrow> (nat list, hdb_error) res" where
  "rv_into_affected_rows rv =
     (case rv of RV_AffectedRows ns \<Rightarrow> Ok ns | _ \<Rightarrow> Err (Evaluation ''Not a HdbReturnValue::AffectedRows''))"

definition rv_into_output_parameters :: "'xid hdb_return_value \<Rightarrow> (output_parameters, hdb_error) res" where
  "rv_into_output_parameters rv =
     (case rv of RV_OutputParameters op \<Rightarrow> Ok op
      | _ \<Rightarrow> Err (Evaluation ''Not a HdbReturnValue::OutputParameters''))"

definition rv_into_success :: "'xid hdb_return_value \<Rightarrow> (unit, hdb_error) res" where
  "rv_into_success rv =
     (case rv of
        RV_Success \<Rightarrow> Ok ()
      | RV_AffectedRows _ \<Rightarrow>
          if rv_is_success rv then Ok ()
          else Err (Evaluation ''HdbReturnValue::AffectedRows contained value > 0'')
      | _ \<Rightarrow> Err (Evaluation ''Not a HdbReturnValue::AffectedRows or ::Success''))"

section \<open>Building a response\<close>

type_synonym 'xid hdb_response = "'xid hdb_return_value list"

definition is_parameter_metadata :: "internal_return_value \<Rightarrow> bool" where
  "is_parameter_metadata irv = (case irv of IRV_ParameterMetadata _ \<Rightarrow> True | _ \<Rightarrow> False)"

text \<open>Parameter metadata are dropped, then exactly one value must be left.\<close>

definition single :: "internal_return_value list \<Rightarrow> (internal_return_value, hdb_error) res" where
  "single irvs =
     (case filter (\<lambda>irv. \<not> is_parameter_metadata irv) irvs of
        [] \<Rightarrow> Err (Impl ''Nothing found, but a single Resultset was expected'')
      | [irv] \<Rightarrow> Ok irv
      | _ \<Rightarrow> Err (ImplDetailed ''resultset(): Too many InternalReturnValue(s) received: {:?}''))"

fun affected_rows :: "string \<Rightarrow> execution_result list \<Rightarrow> (nat list, hdb_error) res" where
  "affected_rows msg [] = Ok []"
| "affected_rows msg (RowsAffected i # ers) = res_map ((#) i) (affected_rows msg ers)"
| "affected_rows msg (SuccessNoInfo # ers) = res_map ((#) 0) (affected_rows msg ers)"
| "affected_rows msg (Failure _ # ers) = Err (Impl msg)"

definition response_resultset :: "internal_return_value list \<Rightarrow> ('xid hdb_response, hdb_error) res" where
  "response_resultset irvs =
     res_bind (single irvs) (\<lambda>irv.
       case irv of IRV_ResultSet rs \<Rightarrow> Ok [RV_ResultSet rs]
       | _ \<Rightarrow> Err (Impl ''Wrong InternalReturnValue, a single ResultSet was expected''))"

definition response_rows_affected :: "internal_return_value list \<Rightarrow> ('xid hdb_response, hdb_error) res" where
  "response_rows_affected irvs =
     res_bind (single irvs) (\<lambda>irv.
       case irv of
         IRV_ExecutionResults ers \<Rightarrow>
           res_map (\<lambda>ns. [RV_AffectedRows ns]) (affected_rows ''Found unexpected ExecutionResult::Failure'' ers)
       | _ \<Rightarrow> Err (Impl ''Wrong InternalReturnValue, a single ResultSet was expected''))"

definition response_success :: "internal_return_value list \<Rightarrow> ('xid hdb_response, hdb_error) res" where
  "response_success irvs =
     res_bind (single irvs) (\<lambda>irv.
       case irv of
         IRV_ExecutionResults ers \<Rightarrow>
           (case ers of
              [er] \<Rightarrow>
                (case er of
                   RowsAffected i \<Rightarrow>
                     if i > 0 then Err (Impl ''found an affected-row-count > 0, expected a single Success'')
                     else Ok [RV_Success]
                 | SuccessNoInfo \<Rightarrow> Ok [RV_Success]
                 | Failure _ \<Rightarrow> Err (Impl ''Found unexpected returnvalue ExecutionFailed''))
            | _ \<Rightarrow> Err (Impl ''Expected a single Execution Result, found none or multiple ones''))
       | _ \<Rightarrow> Err (Impl ''Wrong InternalReturnValue, a single Execution Result was expected''))"

fun return_values :: "internal_return_value list \<Rightarrow> ('xid hdb_response, hdb_error) res" where
  "return_values [] = Ok []"
| "return_values (IRV_ExecutionResults ers # irvs) =
     res_bind (affected_rows (''Found unexpected returnvalue '' @ [CHR 0x27] @ ''ExecutionFailed'' @ [CHR 0x27]) ers) (\<lambda>ns.
     res_map ((#) (RV_AffectedRows ns)) (return_values irvs))"
| "return_values (IRV_OutputParameters op # irvs) =
     res_map ((#) (RV_OutputParameters op)) (return_values irvs)"
| "return_values (IRV_ParameterMetadata _ # irvs) = return_values irvs"
| "return_values (IRV_ResultSet rs # irvs) = res_map ((#) (RV_ResultSet rs)) (return_values irvs)"
| "return_values (IRV_WriteLobReply _ # irvs) =
     Err (Impl ''found WriteLobReply in multiple_return_values()'')"

definition multiple_return_values :: "internal_return_value list \<Rightarrow> ('xid hdb_response, hdb_error) res" where
  "multiple_return_values irvs = return_values (rev irvs)"

definition hdb_response_try_new ::
    "internal_return_value list \<Rightarrow> reply_type \<Rightarrow> ('xid hdb_response, hdb_error) res" where
  "hdb_response_try_new irvs replytype =
     (if replytype \<in> {RT_Select, RT_SelectForUpdate} then response_resultset irvs
      else if replytype \<in> {RT_Connect, RT_Ddl, RT_Commit, RT_Rollback} then response_success irvs
      else if replytype \<in> {RT_Nil, RT_Explain, RT_Insert, RT_Update, RT_Delete} then response_rows_affected irvs
      else if replytype \<in> {RT_DbProcedureCall, RT_DbProcedureCallWithResult} then multiple_return_values irvs
      else Err (ImplDetailed ''unexpected reply type {:?} in HdbResponse::try_new()''))"

section \<open>Taking a response apart\<close>

definition into_single_retval :: "'xid hdb_response \<Rightarrow> ('xid hdb_return_value, hdb_error) res" where
  "into_single_retval rvs =
     (if length rvs > 1 then Err (Evaluation ''More than one HdbReturnValue'')
      else ok_or (if rvs = [] then None else Some (last rvs)) (Evaluation ''No HdbReturnValue''))"

definition into_resultset :: "'xid hdb_response \<Rightarrow> (result_set, hdb_error) res" where
  "into_resultset rvs = res_bind (into_single_retval rvs) rv_into_resultset"

definition into_affected_rows :: "'xid hdb_response \<Rightarrow> (nat list, hdb_error) res" where
  "into_affected_rows rvs = res_bind (into_single_retval rvs) rv_into_affected_rows"

definition into_output_parameters :: "'xid hdb_response \<Rightarrow> (output_parameters, hdb_error) res" where
  "into_output_parameters rvs = res_bind (into_single_retval rvs) rv_into_output_parameters"

definition into_success :: "'xid hdb_response \<Rightarrow> (unit, hdb_error) res" where
  "into_success rvs = res_bind (into_single_retval rvs) rv_into_success"

text \<open>\<^verbatim>\<open>iter().enumerate().rev()\<close>: the last value that satisfies the condition.\<close>

definition find_from_end :: "('a \<Rightarrow> bool) \<Rightarrow> 'a list \<Rightarrow> nat option" where
  "find_from_end p xs = List.find (\<lambda>i. p (xs ! i)) (rev [0..<length xs])"

definition remove_at :: "nat \<Rightarrow> 'a list \<Rightarrow> 'a list" where
  "remove_at i xs = take i xs @ drop (Suc i) xs"

definition find_success :: "'xid hdb_response \<Rightarrow> nat option" where
  "find_success rvs = find_from_end rv_is_success rvs"

definition find_resultset :: "'xid hdb_response \<Rightarrow> nat option" where
  "find_resultset rvs = find_from_end (\<lambda>rv. case rv of RV_ResultSet _ \<Rightarrow> True | _ \<Rightarrow> False) rvs"

definition find_affected_rows :: "'xid hdb_response \<Rightarrow> nat option" where
  "find_affected_rows rvs = find_from_end (\<lambda>rv. case rv of RV_AffectedRows _ \<Rightarrow> True | _ \<Rightarrow> False) rvs"

definition find_output_parameters :: "'xid hdb_response \<Rightarrow> nat option" where
  "find_output_parameters rvs = find_from_end (\<lambda>rv. case rv of RV_OutputParameters _ \<Rightarrow> True | _ \<Rightarrow> False) rvs"

fun kind_text :: "'xid hdb_return_value \<Rightarrow> string" where
  "kind_text (RV_ResultSet _) = ''ResultSet, ''"
| "kind_text (RV_AffectedRows _) = ''AffectedRows, ''"
| "kind_text (RV_OutputParameters _) = ''OutputParameters, ''"
| "kind_text RV_Success = ''Success, ''"
| "kind_text (RV_XaTransactionIds _) = ''XaTransactionIds, ''"

definition get_err :: "string \<Rightarrow> 'xid hdb_response \<Rightarrow> hdb_error" where
  "get_err type_s rvs =
     UsageDetailed (''No '' @ type_s @ '' found in this HdbResponse ['' @ concat (map kind_text rvs) @ '']'')"

text \<open>The response keeps what was not taken.\<close>

definition get_at ::
    "('xid hdb_response \<Rightarrow> nat option) \<Rightarrow> ('xid hdb_return_value \<Rightarrow> ('a, hdb_error) res) \<Rightarrow> string
      \<Rightarrow> ('xid hdb_response, 'a) st" where
  "get_at finder into type_s = (\<lambda>rvs.
     case finder rvs of
       Some i \<Rightarrow> (into (rvs ! i), remove_at i rvs)
     | None \<Rightarrow> (Err (get_err type_s rvs), rvs))"

definition get_success :: "('xid hdb_response, unit) st" where
  "get_success = get_at find_success rv_into_success ''success''"

definition get_resultset :: "('xid hdb_response, result_set) st" where
  "get_resultset = get_at find_resultset rv_into_resultset ''resultset''"

definition get_affected_rows :: "('xid hdb_response, nat list) st" where
  "get_affected_rows = get_at find_affected_rows rv_into_affected_rows ''affected_rows''"

definition get_output_parameters :: "('xid hdb_response, output_parameters) st" where
  "get_output_parameters = get_at find_output_parameters rv_into_output_parameters ''output_parameters''"

section \<open>Properties\<close>

lemma find_from_end_Some:
  assumes "find_from_end p xs = Some i"
  shows "i < length xs \<and> p (xs ! i) \<and> (\<forall>j. i < j \<and> j < length xs \<longrightarrow> \<not> p (xs ! j))"
proof -
  have "List.find p' (rev [0..<n]) = Some i \<Longrightarrow> i < n \<and> p' i \<and> (\<forall>j. i < j \<and> j < n \<longrightarrow> \<not> p' j)" for p' n
  proof (induction n)
    case (Suc n)
    then show ?case by (cases "p' n") (auto simp: less_Suc_eq)
  qed simp
  then show ?thesis using assms unfolding find_from_end_def by blast
qed

lemma find_from_end_None: "find_from_end p xs = None \<longleftrightarrow> (\<forall>x \<in> set xs. \<not> p x)"
  unfolding find_from_end_def find_None_iff by (simp add: all_set_conv_all_nth)

text \<open>The result sets of a response and of a reply, in order, and the other values of a response.\<close>

definition result_sets :: "'xid hdb_response \<Rightarrow> result_set list" where
  "result_sets rvs = concat (map (\<lambda>rv. case rv of RV_ResultSet rs \<Rightarrow> [rs] | _ \<Rightarrow> []) rvs)"

definition sent_result_sets :: "internal_return_value list \<Rightarrow> result_set list" where
  "sent_result_sets irvs = concat (map (\<lambda>irv. case irv of IRV_ResultSet rs \<Rightarrow> [rs] | _ \<Rightarrow> []) irvs)"

definition other_values :: "'xid hdb_response \<Rightarrow> 'xid hdb_response" where
  "other_values rvs = filter (\<lambda>rv. case rv of RV_ResultSet _ \<Rightarrow> False | _ \<Rightarrow> True) rvs"

lemma return_values_result_sets: "return_values irvs = Ok rvs \<Longrightarrow> result_sets rvs = sent_result_sets irvs"
proof (induction irvs arbitrary: rvs rule: return_values.induct)
  case (2 ers irvs)
  then show ?case by (auto simp: res_simps result_sets_def sent_result_sets_def)
qed (auto simp: res_simps result_sets_def sent_result_sets_def)

lemma sent_result_sets_rev: "sent_result_sets (rev irvs) = rev (sent_result_sets irvs)"
proof -
  have "rev (case irv of IRV_ResultSet rs \<Rightarrow> [rs] | _ \<Rightarrow> []) = (case irv of IRV_ResultSet rs \<Rightarrow> [rs] | _ \<Rightarrow> [])" for irv
    by (cases irv) auto
  then show ?thesis by (simp add: sent_result_sets_def rev_concat rev_map o_def)
qed

lemma get_resultset_last:
  assumes "result_sets rvs = rss @ [rs]"
  shows "\<exists>rvs'. get_resultset rvs = (Ok rs, rvs') \<and> result_sets rvs' = rss \<and> other_values rvs' = other_values rvs"
proof -
  have app: "result_sets (xs @ ys) = result_sets xs @ result_sets ys" for xs ys :: "'a hdb_response"
    by (simp add: result_sets_def)
  let ?p = "\<lambda>rv :: 'a hdb_return_value. case rv of RV_ResultSet _ \<Rightarrow> True | _ \<Rightarrow> False"
  have none: "\<forall>x \<in> set xs. \<not> ?p x \<Longrightarrow> result_sets xs = []" for xs
    by (auto simp: result_sets_def split: hdb_return_value.splits)
  then have "\<not> (\<forall>x \<in> set rvs. \<not> ?p x)" using assms by force
  then have "find_resultset rvs \<noteq> None" by (simp add: find_resultset_def find_from_end_None)
  then obtain i where i: "find_resultset rvs = Some i" by blast
  then have p: "i < length rvs" "?p (rvs ! i)" "\<forall>j. i < j \<and> j < length rvs \<longrightarrow> \<not> ?p (rvs ! j)"
    using find_from_end_Some [of ?p rvs i] by (simp_all add: find_resultset_def)
  then obtain x where x: "rvs ! i = RV_ResultSet x" by (auto split: hdb_return_value.splits)
  have split: "rvs = take i rvs @ RV_ResultSet x # drop (Suc i) rvs" using id_take_nth_drop [OF p(1)] x by simp
  have "\<forall>y \<in> set (drop (Suc i) rvs). \<not> ?p y"
    using p(3) by (auto simp: in_set_conv_nth)
  then have "result_sets (drop (Suc i) rvs) = []" by (rule none)
  then have "result_sets rvs = result_sets (take i rvs) @ [x]"
    by (subst split) (simp add: app result_sets_def)
  then have "x = rs" "result_sets (remove_at i rvs) = rss"
    using assms \<open>result_sets (drop (Suc i) rvs) = []\<close> by (simp_all add: remove_at_def app)
  moreover have "other_values (remove_at i rvs) = other_values rvs"
    by (subst (2) split) (simp add: remove_at_def other_values_def)
  moreover have "get_resultset rvs = (Ok x, remove_at i rvs)"
    by (simp add: get_resultset_def get_at_def i x rv_into_resultset_def)
  ultimately show ?thesis by simp
qed

text \<open>A caller that asks \<open>n\<close> times.\<close>

fun get_resultsets :: "nat \<Rightarrow> ('xid hdb_response, result_set list) st" where
  "get_resultsets 0 = st_return []"
| "get_resultsets (Suc n) = st_bind get_resultset (\<lambda>rs. st_bind (get_resultsets n) (\<lambda>rss. st_return (rs # rss)))"

text \<open>C27: Although a response to a procedure call stores the values of the reply in reverse, a caller that asks
  for the result sets one after the other gets all of them in the order in which the server sent them,
  and the other values stay in the response.\<close>

theorem resultsets_in_order:
  assumes "multiple_return_values irvs = Ok rvs"
  shows "\<exists>rvs'. get_resultsets (length (sent_result_sets irvs)) rvs = (Ok (sent_result_sets irvs), rvs')
    \<and> rvs' = other_values rvs"
proof -
  have drained: "result_sets rvs = [] \<Longrightarrow> rvs = other_values rvs" for rvs :: "'a hdb_response"
    by (induction rvs) (auto simp: result_sets_def other_values_def split: hdb_return_value.splits)
  have "result_sets rvs = rev rss \<Longrightarrow> get_resultsets (length rss) rvs = (Ok rss, other_values rvs)" for rss
  proof (induction rss arbitrary: rvs)
    case Nil
    then show ?case using drained [of rvs] by (simp add: st_simps)
  next
    case (Cons rs rss)
    then obtain rvs1 where "get_resultset rvs = (Ok rs, rvs1)" "result_sets rvs1 = rev rss"
      "other_values rvs1 = other_values rvs" using get_resultset_last [of rvs "rev rss" rs] by auto
    then show ?case using Cons.IH [of rvs1] by (simp add: st_bind_def st_simps)
  qed
  moreover have "result_sets rvs = rev (sent_result_sets irvs)"
    using return_values_result_sets [OF assms [unfolded multiple_return_values_def]] by (simp add: sent_result_sets_rev)
  ultimately show ?thesis by blast
qed

definition sample_result_set :: "u64 \<Rightarrow> result_set" where
  "sample_result_set i = result_set_new 1 i \<lparr>rsmd_fields = [], rsmd_names = []\<rparr> None"

theorem resultsets_in_order_witness:
  "\<exists>rvs. get_resultsets 2 [RV_ResultSet (sample_result_set 2), RV_ResultSet (sample_result_set 1), RV_AffectedRows [3]] =
    (Ok [sample_result_set 1, sample_result_set 2], rvs :: unit hdb_response)"
  using resultsets_in_order [of "[IRV_ExecutionResults [RowsAffected 3], IRV_ParameterMetadata [],
      IRV_ResultSet (sample_result_set 1), IRV_ResultSet (sample_result_set 2)]"
      "[RV_ResultSet (sample_result_set 2), RV_ResultSet (sample_result_set 1), RV_AffectedRows [3]] :: unit hdb_response"]
  by (simp add: multiple_return_values_def sent_result_sets_def numeral_2_eq_2 del: get_resultsets.simps)

text \<open>C31: The response to an INSERT, UPDATE or DELETE has one number for each execution result of the reply, in
  order, 0 where the server gave none; it is an error exactly if the reply is not one list of execution
  results (and parameter metadata), or if one of them is a failure.\<close>

theorem dml_response_iff:
  assumes "t \<in> {RT_Insert, RT_Update, RT_Delete}"
  shows "hdb_response_try_new irvs t = Ok rvs \<longleftrightarrow>
    (\<exists>ers. filter (\<lambda>irv. \<not> is_parameter_metadata irv) irvs = [IRV_ExecutionResults ers] \<and>
       (\<forall>er \<in> set ers. \<not> is_failure er) \<and>
       rvs = [RV_AffectedRows (map (\<lambda>er. case er of RowsAffected i \<Rightarrow> i | _ \<Rightarrow> 0) ers)])"
proof -
  have rows: "affected_rows msg ers = Ok ns \<longleftrightarrow>
    (\<forall>er \<in> set ers. \<not> is_failure er) \<and> ns = map (\<lambda>er. case er of RowsAffected i \<Rightarrow> i | _ \<Rightarrow> 0) ers" for msg ers ns
    by (induction msg ers arbitrary: ns rule: affected_rows.induct) (auto simp: res_simps)
  have sgl: "single irvs = Ok irv \<longleftrightarrow> filter (\<lambda>irv. \<not> is_parameter_metadata irv) irvs = [irv]" for irv
    unfolding single_def by (auto split: list.split)
  have "hdb_response_try_new irvs t = Ok rvs \<longleftrightarrow> response_rows_affected irvs = Ok rvs"
    using assms by (auto simp: hdb_response_try_new_def)
  also have "\<dots> \<longleftrightarrow> (\<exists>ers. single irvs = Ok (IRV_ExecutionResults ers) \<and>
      (\<exists>ns. affected_rows ''Found unexpected ExecutionResult::Failure'' ers = Ok ns \<and> rvs = [RV_AffectedRows ns]))"
  proof (cases "single irvs")
    case (Ok irv)
    then show ?thesis by (cases irv) (auto simp: response_rows_affected_def res_simps)
  qed (simp_all add: response_rows_affected_def)
  finally show ?thesis by (auto simp: rows sgl)
qed

theorem dml_response_iff_witness:
  "hdb_response_try_new [IRV_ParameterMetadata [], IRV_ExecutionResults [RowsAffected 2, SuccessNoInfo]] RT_Update =
    Ok [RV_AffectedRows [2, 0] :: unit hdb_return_value]"
  using dml_response_iff [of RT_Update "[IRV_ParameterMetadata [], IRV_ExecutionResults [RowsAffected 2, SuccessNoInfo]]"
      "[RV_AffectedRows [2, 0]] :: unit hdb_response"] by (simp add: is_parameter_metadata_def)

end
