(* ===== verification/Hdb_Lob_Writer.thy ===== *)
theory Hdb_Lob_Writer
  imports Hdb_Connection
begin

text \<open>
  Writing LOBs (types\_impl/lob/lob\_writer.rs): the writer buffers what it is given and sends it in
  chunks; for character LOBs a chunk is cut behind the last complete UTF-8 character and converted to
  CESU-8, the cut-off tail stays in the buffer.
\<close>

section \<open>Cutting UTF-8\<close>

datatype utf8_char_type = U8_Empty | U8_Illegal | U8_NotAStart | U8_One | U8_Two | U8_Three | U8_Four

definition get_utf8_char_start :: "bytes \<Rightarrow> utf8_char_type" where
  "get_utf8_char_start bs =
     (case bs of
        [] \<Rightarrow> U8_Empty
      | b # _ \<Rightarrow>
          if in_range 0x00 0x7F b then U8_One
          else if in_range 0x80 0xBF b then U8_NotAStart
          else if in_range 0xC0 0xDF b then U8_Two
          else if in_range 0xE0 0xEF b then U8_Three
          else if in_range 0xF0 0xF7 b then U8_Four
          else U8_Illegal)"

fun utf8_start_len :: "utf8_char_type \<Rightarrow> nat option" where
  "utf8_start_len U8_One = Some 1"
| "utf8_start_len U8_Two = Some 2"
| "utf8_start_len U8_Three = Some 3"
| "utf8_start_len U8_Four = Some 4"
| "utf8_start_len _ = None"

text \<open>The loop over \<^verbatim>\<open>index = len - 2 - i\<close>; the argument is the index plus one.\<close>

fun utf8_tail_scan :: "bytes \<Rightarrow> nat \<Rightarrow> (nat, ioerr) res" where
  "utf8_tail_scan bs 0 = Err (io_error ''no valid utf8 cutoff point found!'')"
| "utf8_tail_scan bs (Suc idx) =
     (case utf8_start_len (get_utf8_char_start (drop idx bs)) of
        Some char_len \<Rightarrow>
          Ok (if idx + char_len > length bs then length bs - idx
              else if idx + char_len = length bs then 0
              else length bs - idx - char_len)
      | None \<Rightarrow> utf8_tail_scan bs idx)"

definition get_utf8_tail_len :: "bytes \<Rightarrow> (nat, ioerr) res" where
  "get_utf8_tail_len bs =
     (if bs = [] \<or> in_range 0 127 (last bs) then Ok 0
      else if in_range 0xC0 0xDF (last bs) then Ok 1
      else utf8_tail_scan bs (length bs - 1))"

definition utf8_to_cesu8_and_utf8_tail :: "cesu8_lib \<Rightarrow> bytes \<Rightarrow> (bytes \<times> bytes, ioerr) res" where
  "utf8_to_cesu8_and_utf8_tail c8 utf8 =
     res_bind (get_utf8_tail_len utf8) (\<lambda>tail_len.
     res_bind (res_map_err (\<lambda>_. io_error ''invalid utf-8'') (from_utf8 (take (length utf8 - tail_len) utf8)))
       (\<lambda>s. Ok (to_cesu8 c8 s, drop (length utf8 - tail_len) utf8)))"

section \<open>The writer\<close>

record lob_writer =
  lw_locator_id :: u64
  lw_type_id :: type_id
  lw_server_usage :: server_usage
  lw_buffer :: bytes
  lw_write_length :: nat
  lw_proc_result :: "internal_return_value list option"

text \<open>The capacity of the buffer is \<^verbatim>\<open>lob_write_length + 8200\<close>, which \<^verbatim>\<open>Vec::with_capacity\<close> must be able to
  allocate.\<close>

definition lob_writer_new :: "u64 \<Rightarrow> type_id \<Rightarrow> 'n conn_core \<Rightarrow> (lob_writer, hdb_error) res" where
  "lob_writer_new locator_id t cc =
     (if t \<notin> {TY_BLOB, TY_CLOB, TY_NCLOB} then Err (ImplDetailed ''Unsupported type-id {:?}'')
      else if isize_max < cc_lob_write_length cc + 8200 then Panic
      else Ok \<lparr>lw_locator_id = locator_id, lw_type_id = t, lw_server_usage = server_usage_default,
        lw_buffer = [], lw_write_length = cc_lob_write_length cc, lw_proc_result = None\<rparr>)"

fun write_lob_reply_parts :: "part list \<Rightarrow> server_usage \<Rightarrow> u64 list option \<Rightarrow> u64 list option \<times> server_usage" where
  "write_lob_reply_parts [] u result = (result, u)"
| "write_lob_reply_parts (P_StatementContext sc # ps) u result =
     write_lob_reply_parts ps (usage_of_stmt_ctx sc u) result"
| "write_lob_reply_parts (P_WriteLobReply ids # ps) u result = write_lob_reply_parts ps u (Some ids)"
| "write_lob_reply_parts (_ # ps) u result = write_lob_reply_parts ps u result"

definition evaluate_write_lob_reply :: "reply \<Rightarrow> ('n conn_core \<times> lob_writer, u64 list) st" where
  "evaluate_write_lob_reply reply = (\<lambda>(cc, w).
     case write_lob_reply_parts (rp_parts reply) (lw_server_usage w) None of
       (result, u) \<Rightarrow> (ok_or result (Impl ''No WriteLobReply part found''), (cc, w\<lparr>lw_server_usage := u\<rparr>)))"

text \<open>The parts are looked at from the end; what is left are the results of the procedure.\<close>

definition evaluate_dbprocedure_call_reply :: "reply \<Rightarrow> ('n conn_core \<times> lob_writer, u64 list) st" where
  "evaluate_dbprocedure_call_reply reply = (\<lambda>(cc, w).
     case pop_if_kind PK_StatementContext (rp_parts reply) of (o_sc, ps1) \<Rightarrow>
     let u = (case o_sc of
                Some (P_StatementContext sc) \<Rightarrow> usage_of_stmt_ctx sc (lw_server_usage w)
              | _ \<Rightarrow> server_usage_update None None None (lw_server_usage w))
     in case pop_if_kind PK_TransactionFlags ps1 of (_, ps2) \<Rightarrow>
        case pop_if_kind PK_WriteLobReply ps2 of (o_wlr, ps3) \<Rightarrow>
        let locator_ids = (case o_wlr of Some (P_WriteLobReply ids) \<Rightarrow> ids | _ \<Rightarrow> [])
        in case remove_first_of_kind PK_WriteLobReply ps3 of (_, ps4) \<Rightarrow>
           case into_internal_return_values ps4 (cc, Some u) of
             (r, (cc', o_u)) \<Rightarrow>
               let w1 = w\<lparr>lw_server_usage := (case o_u of Some u' \<Rightarrow> u' | None \<Rightarrow> u)\<rparr>
               in case r of
                    Ok irvs \<Rightarrow> (Ok locator_ids, (cc', w1\<lparr>lw_proc_result := Some irvs\<rparr>))
                  | Err e \<Rightarrow> (Err e, (cc', w1))
                  | Panic \<Rightarrow> (Panic, (cc', w1)))"

text \<open>\<open>is_last\<close>: \<^verbatim>\<open>LobWriteMode::Last\<close> or \<^verbatim>\<open>LobWriteMode::Append\<close>; the offset is always \<open>-1\<close>.\<close>

definition lob_chunk_request :: "u64 \<Rightarrow> bytes \<Rightarrow> bool \<Rightarrow> request" where
  "lob_chunk_request locator_id buf is_last =
     request_push (P_WriteLobRequest \<lparr>wl_locator_id = locator_id, wl_offset = - 1, wl_buf = buf,
       wl_last_data = is_last\<rparr>) (request_new RQ_WriteLob 0)"

definition write_a_lob_chunk ::
    "'n driver \<Rightarrow> resultset_metadata option \<Rightarrow> parameter_descriptor list option \<Rightarrow> bool \<Rightarrow> bytes
      \<Rightarrow> ('n conn_core \<times> lob_writer, u64 list) st" where
  "write_a_lob_chunk dr o_a_rsmd ds is_last buf = (\<lambda>(cc, w).
     case full_send dr (lob_chunk_request (lw_locator_id w) buf is_last) o_a_rsmd ds (cc, None) of
       (Ok reply, (cc', _)) \<Rightarrow>
         if rp_replytype reply = RT_WriteLob then evaluate_write_lob_reply reply (cc', w)
         else if rp_replytype reply = RT_DbProcedureCall then evaluate_dbprocedure_call_reply reply (cc', w)
         else (Err (ImplDetailed ''LobWriter::write_a_lob_chunk got a reply of type {:?}''), (cc', w))
     | (Err e, (cc', _)) \<Rightarrow> (Err e, (cc', w))
     | (Panic, (cc', _)) \<Rightarrow> (Panic, (cc', w)))"

text \<open>What of the raw payload is sent, and what stays.\<close>

definition lob_payload :: "cesu8_lib \<Rightarrow> type_id \<Rightarrow> bytes \<Rightarrow> (bytes \<times> bytes, ioerr) res" where
  "lob_payload c8 t payload_raw =
     (if t = TY_CLOB \<or> t = TY_NCLOB then utf8_to_cesu8_and_utf8_tail c8 payload_raw else Ok (payload_raw, []))"

type_synonym ('n, 'a) wst = "'n conn_core \<times> lob_writer \<Rightarrow> ('a, ioerr) res \<times> 'n conn_core \<times> lob_writer"

definition lob_write ::
    "'n driver \<Rightarrow> resultset_metadata option \<Rightarrow> parameter_descriptor list option \<Rightarrow> bytes \<Rightarrow> ('n, nat) wst" where
  "lob_write dr o_a_rsmd ds input = (\<lambda>(cc, w).
     if length input + length (lw_buffer w) < lw_write_length w then
       (Ok (length input), (cc, w\<lparr>lw_buffer := lw_buffer w @ input\<rparr>))
     else
       let w1 = w\<lparr>lw_buffer := []\<rparr>
       in case lob_payload (dr_c8 dr) (lw_type_id w) (lw_buffer w @ input) of
            Ok (payload, tail) \<Rightarrow>
              (case write_a_lob_chunk dr o_a_rsmd ds False payload (cc, w1\<lparr>lw_buffer := tail\<rparr>) of
                 (r, s) \<Rightarrow> (io_of_hdb (res_map (\<lambda>_. length input) r), s))
          | Err e \<Rightarrow> (Err e, (cc, w1))
          | Panic \<Rightarrow> (Panic, (cc, w1)))"

definition lob_flush ::
    "'n driver \<Rightarrow> resultset_metadata option \<Rightarrow> parameter_descriptor list option \<Rightarrow> ('n, unit) wst" where
  "lob_flush dr o_a_rsmd ds = (\<lambda>(cc, w).
     let w1 = w\<lparr>lw_buffer := []\<rparr>
     in case lob_payload (dr_c8 dr) (lw_type_id w) (lw_buffer w) of
          Ok (payload, tail) \<Rightarrow>
            if tail \<noteq> [] then (Err (io_error ''stream is ending with invalid utf-8''), (cc, w1))
            else (case write_a_lob_chunk dr o_a_rsmd ds True payload (cc, w1) of
                    (r, s) \<Rightarrow> (io_of_hdb (res_map (\<lambda>_. ()) r), s))
        | Err e \<Rightarrow> (Err e, (cc, w1))
        | Panic \<Rightarrow> (Panic, (cc, w1)))"

text \<open>\<^verbatim>\<open>std::io::copy\<close> from a reader that delivers the given non-empty slices.\<close>

fun lob_copy ::
    "'n driver \<Rightarrow> resultset_metadata option \<Rightarrow> parameter_descriptor list option \<Rightarrow> bytes list \<Rightarrow> ('n, unit) wst" where
  "lob_copy dr o_a_rsmd ds [] s = (Ok (), s)"
| "lob_copy dr o_a_rsmd ds (input # inputs) s =
     (case lob_write dr o_a_rsmd ds input s of
        (Ok _, s') \<Rightarrow> lob_copy dr o_a_rsmd ds inputs s'
      | (Err e, s') \<Rightarrow> (Err e, s')
      | (Panic, s') \<Rightarrow> (Panic, s'))"

section \<open>Where UTF-8 is cut\<close>

lemma utf8_scan_conts:
  assumes "\<forall>i. n \<le> i \<and> i < m \<longrightarrow> is_cont (bs ! i)" "m \<le> length bs" "n \<le> m"
  shows "utf8_tail_scan bs m = utf8_tail_scan bs n"
  using assms(3,1,2)
proof (induction m rule: dec_induct)
  case (step m)
  then have "is_cont (bs ! m)" "drop m bs = bs ! m # drop (Suc m) bs" by (auto simp: Cons_nth_drop_Suc)
  then have "utf8_start_len (get_utf8_char_start (drop m bs)) = None"
    by (auto simp: get_utf8_char_start_def in_range_def)
  then show ?case using step by simp
qed simp

lemma utf8_char_shape:
  assumes "utf8_char d"
  shows "utf8_start_len (get_utf8_char_start (d @ r)) = Some (length d)"
    "\<forall>i. 0 < i \<and> i < length d \<longrightarrow> is_cont (d ! i)" "0 < length d" "length d \<le> 4"
  using assms
  by (cases rule: utf8_char_cases;
      auto simp: get_utf8_char_start_def byte_defs nth_Cons split: nat.split)+

text \<open>The scan finds the first byte of the last character, complete or not.\<close>

lemma utf8_scan_at_char:
  assumes d: "utf8_char d" and j: "0 < j" "j \<le> length d" and k: "0 < k" "k \<le> j"
    and bs: "bs = xs @ take j d @ ys" "j < length d \<Longrightarrow> ys = []"
  shows "utf8_tail_scan bs (length xs + k) = Ok (if j < length d then j else length ys)"
proof -
  have c: "drop (length xs) bs = take j d @ ys" by (simp add: bs)
  have conts: "\<forall>i. length xs + 1 \<le> i \<and> i < length xs + k \<longrightarrow> is_cont (bs ! i)"
    using utf8_char_shape(2) [OF d] j k by (auto simp: bs nth_append)
  have "utf8_start_len (get_utf8_char_start (take j d @ ys)) = Some (length d)"
    using utf8_char_shape(1) [OF d, of "[]"] j by (cases d; cases j) (auto simp: get_utf8_char_start_def)
  moreover have "length bs = length xs + j + length ys" using j by (simp add: bs)
  ultimately have "utf8_tail_scan bs (Suc (length xs)) = Ok (if j < length d then j else length ys)"
    using c j bs(2) by auto
  then show ?thesis using utf8_scan_conts [OF conts] j k by (simp add: bs)
qed

lemma utf8_tail_at_char:
  assumes d: "utf8_char d" and j: "0 < j" "j \<le> length d"
    and ok: "j = 1 \<Longrightarrow> 2 < length d \<Longrightarrow> \<exists>ys e. xs = ys @ e \<and> utf8_char e"
  shows "get_utf8_tail_len (xs @ take j d) = Ok (if j < length d then j else 0)"
proof -
  consider "j = 1" "length d \<le> 2" | "j = 1" "2 < length d" | "1 < j" using j by linarith
  then show ?thesis
  proof cases
    case 1
    from d show ?thesis using 1 by (cases rule: utf8_char_cases) (auto simp: get_utf8_tail_len_def byte_defs)
  next
    case 2
    then obtain ys e where xs: "xs = ys @ e" "utf8_char e" using ok by blast
    have "take 1 d \<noteq> [] \<and> \<not> in_range 0 127 (last (take 1 d)) \<and> \<not> in_range 0xC0 0xDF (last (take 1 d))"
      using d 2(2) by (cases rule: utf8_char_cases) (auto simp: byte_defs)
    then have "get_utf8_tail_len (xs @ take 1 d) = utf8_tail_scan (ys @ take (length e) e @ take 1 d) (length ys + length e)"
      using 2 xs(1) by (auto simp: get_utf8_tail_len_def)
    also have "\<dots> = Ok 1"
      using utf8_scan_at_char [OF xs(2), of "length e" "length e" _ ys "take 1 d"] utf8_char_shape(3) [OF xs(2)] 2 by simp
    finally show ?thesis using 2 by simp
  next
    case 3
    then have ne: "take j d \<noteq> []" "length (take j d) = j" using j by auto
    then have "last (xs @ take j d) = take j d ! (j - 1)" by (metis last_appendR last_conv_nth)
    then have "last (xs @ take j d) = d ! (j - 1)" using 3 by simp
    moreover have "is_cont (d ! (j - 1))" using utf8_char_shape(2) [OF d] 3 j by simp
    ultimately have "get_utf8_tail_len (xs @ take j d) = utf8_tail_scan (xs @ take j d @ []) (length xs + (j - 1))"
      using 3 j by (auto simp: get_utf8_tail_len_def in_range_def)
    then show ?thesis
      using utf8_scan_at_char [OF d j, of "j - 1" _ xs "[]"] 3 by simp
  qed
qed

lemma utf8_cut_position:
  assumes cs: "list_all utf8_char cs" and i: "i \<le> length (concat cs)" and ok: "\<not> (i = 1 \<and> 2 < length (hd cs))"
  shows "\<exists>k n. get_utf8_tail_len (take i (concat cs)) = Ok k \<and> k \<le> i \<and> k < 4 \<and> n \<le> length cs
    \<and> take (i - k) (concat cs) = concat (take n cs) \<and> (n < length cs \<longrightarrow> k < length (cs ! n))"
proof -
  have ne: "list_all (\<lambda>c. c \<noteq> []) cs" using cs utf8_char_shape(3) by (auto simp: list_all_iff)
  obtain n j where nj: "n \<le> length cs" "i = length (concat (take n cs)) + j"
    "take i (concat cs) = concat (take n cs) @ (if n < length cs then take j (cs ! n) else [])"
    "if n < length cs then j < length (cs ! n) else j = 0"
    using take_concat [OF i ne] by blast
  have pre: "take (i - j) (concat cs) = concat (take n cs)"
    using nj(2) by (metis add_diff_cancel_right' append_eq_conv_conj append_take_drop_id concat_append)
  have prev: "\<exists>ys e. concat (take n cs) = ys @ e \<and> utf8_char e" if "n \<noteq> 0"
  proof -
    obtain m where m: "n = Suc m" using \<open>n \<noteq> 0\<close> by (cases n) auto
    then have "concat (take n cs) = concat (take m cs) @ cs ! m" "utf8_char (cs ! m)"
      using nj(1) cs by (simp_all add: take_Suc_conv_app_nth list_all_length)
    then show ?thesis by blast
  qed
  show ?thesis
  proof (cases "j = 0")
    case True
    have "get_utf8_tail_len (take i (concat cs)) = Ok 0"
    proof (cases "n = 0")
      case False
      then obtain ys e where e: "concat (take n cs) = ys @ e" "utf8_char e" using prev by blast
      then show ?thesis
      proof (cases "length e = 1")
        case single: True
        from e(2) show ?thesis using single True nj(3) e(1)
          by (cases rule: utf8_char_cases) (auto simp: get_utf8_tail_len_def byte_defs)
      next
        case False
        then show ?thesis using utf8_tail_at_char [OF e(2), of "length e" ys] utf8_char_shape(3) [OF e(2)]
          True nj(3) e(1) by auto
      qed
    qed (use nj True in \<open>simp add: get_utf8_tail_len_def\<close>)
    then show ?thesis using True pre nj(1) cs utf8_char_shape(3)
      by (intro exI [of _ 0] exI [of _ n]) (auto simp: list_all_length)
  next
    case False
    then have n: "n < length cs" "j < length (cs ! n)" using nj(4) by (auto split: if_splits)
    then have d: "utf8_char (cs ! n)" using cs by (simp add: list_all_length)
    have "n \<noteq> 0" if "j = 1" "2 < length (cs ! n)"
      using ok nj(2) n(1) that by (cases n) (auto simp: hd_conv_nth)
    then have "get_utf8_tail_len (concat (take n cs) @ take j (cs ! n)) = Ok j"
      using utf8_tail_at_char [OF d, of j "concat (take n cs)"] False n(2) prev by auto
    then show ?thesis using pre nj n utf8_char_shape(4) [OF d]
      by (intro exI [of _ j] exI [of _ n]) auto
  qed
qed

end
