(* ===== verification/Hdb_Lob_Writer_Server.thy ===== *)
theory Hdb_Lob_Writer_Server
  imports Hdb_Lob_Writer Hdb_Server
begin

text \<open>
  A server that collects the chunks of one LOB that is written. On it the writer delivers exactly the
  content it was given, in whatever slices it was given: binary content as it is, text as CESU-8.
\<close>

section \<open>The server\<close>

definition write_lob_request_parse :: "(u64 \<times> u8 \<times> bytes) rd" where
  "write_lob_request_parse =
     rd_bind read_u64 (\<lambda>locator_id. rd_bind read_u8 (\<lambda>options. rd_bind read_u64 (\<lambda>_. rd_bind read_u32 (\<lambda>len.
       rd_bind (parse_bytes (unat len)) (\<lambda>data. rd_return (locator_id, options, data))))))"

text \<open>Its state is the content received so far and whether the last chunk was among it.\<close>

definition lob_sink :: "(bytes \<times> bool) server" where
  "lob_sink req st =
     (case write_lob_request_parse (drop 72 req) of
        Ok ((locator_id, options, data), _) \<Rightarrow>
          (one_part_reply 15 PK_WriteLobReply 0 1 (write_u64 locator_id), (fst st @ data, options AND 4 \<noteq> 0))
      | _ \<Rightarrow> ([], st))"

section \<open>One chunk\<close>

lemma sub_u32_nat:
  assumes "b \<le> a" "a < 2 ^ 32"
  shows "sub_u32 (word_of_nat a) (word_of_nat b) = Ok (word_of_nat (a - b))"
proof -
  have "unat (word_of_nat a :: u32) = a" "unat (word_of_nat b :: u32) = b" using assms by (simp_all add: unat_of_nat)
  then show ?thesis using assms(1) by (simp add: sub_u32_def word_le_nat_alt of_nat_diff)
qed

lemma write_request_bytes:
  assumes "length buf + 100 < 2 ^ 31"
  shows "\<exists>pre. length pre = 72 \<and> request_emit c8 nl sid nsn ac ds (lob_chunk_request loc buf is_last) =
    Ok (pre @ write_lob_request_emit \<lparr>wl_locator_id = loc, wl_offset = - 1, wl_buf = buf, wl_last_data = is_last\<rparr>
      @ replicate (padsize (21 + length buf)) 0)"
proof -
  define n where "n = 21 + length buf"
  define pad where "pad = padsize n"
  have pad: "pad \<le> 7" by (simp add: pad_def padsize_def)
  then have small: "n + pad + 40 < 2 ^ 31" using assms by (simp add: n_def)
  have u: "uint (word_of_nat (40 + (n + pad)) :: u32) = 40 + (int n + int pad)"
    unfolding uint_nat unat_of_nat using small by simp
  have subs: "sub_u32 (word_of_nat (40 + (n + pad))) 24 = Ok (word_of_nat (16 + (n + pad)))"
    "sub_u32 (word_of_nat (16 + (n + pad))) 16 = Ok (word_of_nat (n + pad))"
    "sub_u32 (word_of_nat (n + pad)) (word_of_nat n) = Ok (word_of_nat pad)"
    "sub_u32 (word_of_nat pad) (word_of_nat pad) = Ok 0"
    using sub_u32_nat [of 24 "40 + (n + pad)"] sub_u32_nat [of 16 "16 + (n + pad)"]
      sub_u32_nat [of n "n + pad"] sub_u32_nat [of pad pad] small by simp_all
  have pad_raw: "padsize (21 + length buf) = pad" by (simp add: pad_def n_def)
  have len: "write_lob_request_size \<lparr>wl_locator_id = loc, wl_offset = - 1, wl_buf = buf, wl_last_data = is_last\<rparr> = n"
    by (simp add: write_lob_request_size_def n_def)
  have "seg_size ds (lob_chunk_request loc buf is_last) = Ok (40 + (n + pad))"
    by (simp add: lob_chunk_request_def request_push_def request_new_def seg_size_def part_size_def
        part_body_size_def part_raw_size_def len pad_def)
  moreover have "32 + (40 + (int n + int pad)) < 2 ^ 32" using small by simp
  moreover have "rq_parts (lob_chunk_request loc buf is_last) =
      [P_WriteLobRequest \<lparr>wl_locator_id = loc, wl_offset = - 1, wl_buf = buf, wl_last_data = is_last\<rparr>]"
    by (simp add: lob_chunk_request_def request_push_def request_new_def)
  ultimately show ?thesis
    unfolding request_emit_def varpart_size_def
    by (simp add: u subs pad_raw part_emit_def part_count_def part_header_count_def part_body_size_def part_raw_size_def len
        part_emit_body_def part_emit_raw_def pad_def [symmetric] Let_def del: of_nat_add)
qed

lemma lob_sink_request:
  assumes "length pre = 72" "wl_buf r = buf" "wl_last_data r = is_last" "length buf < 2 ^ 31"
  shows "lob_sink (pre @ write_lob_request_emit r @ rest) st =
    (one_part_reply 15 PK_WriteLobReply 0 1 (write_u64 (wl_locator_id r)), (fst st @ buf, is_last))"
proof -
  have len: "unat (word_of_nat (length buf) :: u32) = length buf" "length buf \<le> isize_max"
    using assms(4) by (simp_all add: unat_of_nat isize_max_def)
  have "parse_bytes (length buf) (buf @ rest) = Ok (buf, rest)"
    using len by (intro parse_bytes_append) simp_all
  then have "write_lob_request_parse (write_lob_request_emit r @ rest) =
      Ok ((wl_locator_id r, if is_last then 6 else 2, buf), rest)"
    using assms(2,3) len by (simp add: write_lob_request_parse_def write_lob_request_emit_def rd_simps)
  then show ?thesis using assms(1) by (simp add: lob_sink_def)
qed

lemma write_lob_reply_parsed:
  "reply_parse c8 nl md ds None True (one_part_reply 15 PK_WriteLobReply 0 1 (write_u64 loc)) =
    Ok ((\<lparr>rp_session_id = 0, rp_replytype = RT_WriteLob, rp_parts = [P_WriteLobReply [loc]]\<rparr>, None), [])"
proof (rule one_part_reply_parsed)
  have "read_u64 (write_u64 loc @ []) = Ok (loc, [])" by (rule read_write)
  then have read: "read_u64 (write_u64 loc) = Ok (loc, [])" by simp
  show "part_parse_body c8 nl PK_WriteLobReply 0 1 [] True md ds None (write_u64 loc) =
      Ok ((P_WriteLobReply [loc], [], None), [])"
    using read
    by (simp add: part_parse_body_def lift_part_def rd_map_def rd_bind_apply rd_apply_simps write_lob_reply_parse_def
        rd_simps)
qed (simp_all add: reply_type_from_i16_def)

lemma write_chunk_served:
  assumes "idle (Suc n) cc" "length buf + 100 < 2 ^ 31"
  shows "write_a_lob_chunk (serving_driver dr lob_sink) md ds is_last buf (cc, w) =
    (Ok [lw_locator_id w], (served (fst (server_state cc) @ buf, is_last) cc, w))"
proof -
  let ?r = "\<lparr>wl_locator_id = lw_locator_id w, wl_offset = - 1, wl_buf = buf, wl_last_data = is_last\<rparr>"
  let ?reply = "\<lparr>rp_session_id = 0, rp_replytype = RT_WriteLob, rp_parts = [P_WriteLobReply [lw_locator_id w]]\<rparr>"
  obtain pre where pre: "length pre = 72"
    "request_emit (dr_c8 dr) (dr_nl dr) (cc_session_id cc) (cc_seq_number cc + 1) (cc_auto_commit cc) ds
      (lob_chunk_request (lw_locator_id w) buf is_last) =
      Ok (pre @ write_lob_request_emit ?r @ replicate (padsize (21 + length buf)) 0)"
    using write_request_bytes [OF assms(2)] by blast
  have answer: "lob_sink (pre @ write_lob_request_emit ?r @ replicate (padsize (21 + length buf)) 0) (server_state cc) =
      (one_part_reply 15 PK_WriteLobReply 0 1 (write_u64 (lw_locator_id w)), (fst (server_state cc) @ buf, is_last))"
    using lob_sink_request [OF pre(1), of ?r buf is_last] assms(2) by simp
  have "full_send (serving_driver dr lob_sink) (lob_chunk_request (lw_locator_id w) buf is_last) md ds (cc, None) =
      (Ok ?reply, (served (fst (server_state cc) @ buf, is_last) cc, None))"
    by (rule served_full_send [where n = n and server = lob_sink and cc = cc, OF _ _ pre(2) answer write_lob_reply_parsed])
      (use assms(1) in \<open>simp_all add: lob_chunk_request_def request_push_def request_new_def\<close>)
  then show ?thesis by (simp add: write_a_lob_chunk_def evaluate_write_lob_reply_def)
qed

section \<open>Text\<close>

lemma to_cesu8_valid_append:
  assumes "cesu8_crate c8"
  shows "valid_utf8 s \<Longrightarrow> valid_utf8 t \<Longrightarrow> to_cesu8 c8 (s @ t) = to_cesu8 c8 s @ to_cesu8 c8 t"
proof (induction rule: valid_utf8_induct)
  case (Char c r)
  then show ?case using cesu8_crate.to_cesu8_append [OF assms] by (simp add: valid_utf8_append)
qed (simp add: cesu8_crate.to_cesu8_Nil [OF assms])

text \<open>The characters of the text before position \<open>m\<close> were sent, the rest of the first \<open>i\<close> bytes is buffered.\<close>

definition text_sent ::
    "cesu8_lib \<Rightarrow> bytes list \<Rightarrow> nat \<Rightarrow> ((bytes \<times> bool) \<times> bytes) conn_core \<times> lob_writer \<Rightarrow> bool" where
  "text_sent c8 cs i = (\<lambda>(cc, w). i \<le> length (concat cs) \<and> lw_type_id w \<in> {TY_CLOB, TY_NCLOB} \<and>
     2 \<le> lw_write_length w \<and>
     (\<exists>m \<le> length cs. fst (server_state cc) = to_cesu8 c8 (concat (take m cs)) \<and>
        concat (take m cs) @ lw_buffer w = take i (concat cs)))"

text \<open>What is cut off the payload, for any payload but a single byte.\<close>

lemma payload_cut:
  assumes c8: "cesu8_crate c8" and cs: "list_all utf8_char cs" and t: "t \<in> {TY_CLOB, TY_NCLOB}"
    and m: "m \<le> length cs" "concat (take m cs) @ payload = take i (concat cs)" "i \<le> length (concat cs)"
    and long: "length payload \<noteq> 1 \<or> i = length (concat cs)"
  shows "\<exists>m' out tail. lob_payload c8 t payload = Ok (out, tail) \<and> m' \<le> length cs \<and>
    to_cesu8 c8 (concat (take m cs)) @ out = to_cesu8 c8 (concat (take m' cs)) \<and>
    concat (take m' cs) @ tail = take i (concat cs) \<and> (i = length (concat cs) \<longrightarrow> tail = [])"
proof -
  let ?cs = "drop m cs" and ?j = "length payload"
  have split: "concat cs = concat (take m cs) @ concat ?cs" by (metis append_take_drop_id concat_append)
  then have "length (concat (take m cs)) \<le> i"
    using m(2,3) by (metis length_append length_take le_add1 min_absorb2)
  then have payload: "payload = take (i - length (concat (take m cs))) (concat ?cs)"
    using m(2) split by (metis append_eq_conv_conj append_take_drop_id drop_take take_append)
  then have j: "payload = take ?j (concat ?cs)" "?j \<le> length (concat ?cs)"
    by (metis append_eq_conv_conj append_take_drop_id) (use payload in simp)
  have whole: "?j = length (concat ?cs)" if "i = length (concat cs)"
    using m(2) split that by (metis append_same_eq same_append_eq take_all order_refl)
  have cs': "list_all utf8_char ?cs" using cs by (auto simp: list_all_iff dest: in_set_dropD)
  have "\<not> (?j = 1 \<and> 2 < length (hd ?cs))"
  proof
    assume a: "?j = 1 \<and> 2 < length (hd ?cs)"
    then have "length (concat ?cs) = 1" using long whole by auto
    then show False using a by (cases ?cs) auto
  qed
  then obtain k n where k0: "get_utf8_tail_len (take ?j (concat ?cs)) = Ok k" "k \<le> ?j" "n \<le> length ?cs"
    "take (?j - k) (concat ?cs) = concat (take n ?cs)" "n < length ?cs \<longrightarrow> k < length (?cs ! n)"
    using utf8_cut_position [OF cs' j(2)] by blast
  have "take (?j - k) (take ?j (concat ?cs)) = concat (take n ?cs)" using k0(4) by (simp add: min_def)
  then have k: "get_utf8_tail_len payload = Ok k" "k \<le> ?j" "n \<le> length ?cs"
    "take (?j - k) payload = concat (take n ?cs)" "n < length ?cs \<longrightarrow> k < length (?cs ! n)"
    using k0(1,2,3,5) j(1) [symmetric] by simp_all
  have valid: "valid_utf8 (concat (take n ?cs))" "valid_utf8 (concat (take m cs))"
    using cs by (auto intro!: valid_utf8_concat simp: list_all_iff dest!: in_set_takeD in_set_dropD)
  have "take (m + n) cs = take m cs @ take n ?cs" by (simp add: take_add)
  moreover have "concat (take n ?cs) @ drop (?j - k) payload = payload" using k(4) by (metis append_take_drop_id)
  moreover have "drop (?j - k) payload = []" if "i = length (concat cs)"
  proof -
    have "n = length ?cs"
    proof (rule ccontr)
      assume "n \<noteq> length ?cs"
      then have n: "n < length ?cs" using k(3) by simp
      then have "length (concat (take n ?cs)) + length (?cs ! n) \<le> length (concat ?cs)"
      proof -
        have "concat ?cs = concat (take (Suc n) ?cs) @ concat (drop (Suc n) ?cs)"
          by (metis append_take_drop_id concat_append)
        then have "length (concat (take (Suc n) ?cs)) \<le> length (concat ?cs)"
          by (metis length_append le_add1)
        then show ?thesis using n by (simp add: take_Suc_conv_app_nth)
      qed
      moreover have "length (concat (take n ?cs)) = ?j - k" using arg_cong [OF k(4), of length] by simp
      ultimately show False using k(2,5) n whole [OF that] by linarith
    qed
    then have "take (?j - k) payload = concat ?cs" using k(4) by simp
    also have "\<dots> = payload" using j(1) whole [OF that] by simp
    finally show ?thesis by (metis append_take_drop_id self_append_conv)
  qed
  moreover have "lob_payload c8 t payload = Ok (to_cesu8 c8 (concat (take n ?cs)), drop (?j - k) payload)"
    using t k(1,4) valid(1) by (auto simp: lob_payload_def utf8_to_cesu8_and_utf8_tail_def from_utf8_def)
  ultimately show ?thesis
    using m(1,2) k(3) to_cesu8_valid_append [OF c8 valid(2,1)]
    by (intro exI [of _ "m + n"] exI [of _ "to_cesu8 c8 (concat (take n ?cs))"] exI [of _ "drop (?j - k) payload"])
      auto
qed

lemma idle_less: "idle (Suc n) cc \<Longrightarrow> idle n cc"
  by (simp add: idle_def)

lemma cesu8_prefix_length:
  assumes "cesu8_crate c8" "list_all utf8_char cs"
  shows "length (to_cesu8 c8 (concat (take m cs))) \<le> length (to_cesu8 c8 (concat cs))"
proof -
  have "concat cs = concat (take m cs) @ concat (drop m cs)" by (metis append_take_drop_id concat_append)
  moreover have "valid_utf8 (concat (take m cs))" "valid_utf8 (concat (drop m cs))"
    using assms(2) by (auto intro!: valid_utf8_concat simp: list_all_iff dest!: in_set_takeD in_set_dropD)
  ultimately show ?thesis using to_cesu8_valid_append [OF assms(1)] by (metis length_append le_add1)
qed

lemma lob_write_text:
  assumes c8: "cesu8_crate (dr_c8 dr)" and cs: "list_all utf8_char cs"
    and len: "length (to_cesu8 (dr_c8 dr) (concat cs)) + 100 < 2 ^ 31"
    and sent: "text_sent (dr_c8 dr) cs i (cc, w)" and idle: "idle (Suc n) cc"
    and input: "take (i + length input) (concat cs) = take i (concat cs) @ input" "i + length input \<le> length (concat cs)"
  shows "\<exists>s'. lob_write (serving_driver dr lob_sink) md ds input (cc, w) = (Ok (length input), s')
    \<and> text_sent (dr_c8 dr) cs (i + length input) s' \<and> idle n (fst s')"
proof -
  obtain m where m: "m \<le> length cs" "fst (server_state cc) = to_cesu8 (dr_c8 dr) (concat (take m cs))"
    "concat (take m cs) @ lw_buffer w = take i (concat cs)"
    and w: "lw_type_id w \<in> {TY_CLOB, TY_NCLOB}" "2 \<le> lw_write_length w"
    using sent by (auto simp: text_sent_def)
  let ?payload = "lw_buffer w @ input"
  have payload: "concat (take m cs) @ ?payload = take (i + length input) (concat cs)"
    using m(3) input(1) by (metis append_assoc)
  show ?thesis
  proof (cases "length input + length (lw_buffer w) < lw_write_length w")
    case True
    then have "lob_write (serving_driver dr lob_sink) md ds input (cc, w) =
        (Ok (length input), (cc, w\<lparr>lw_buffer := ?payload\<rparr>))" by (simp add: lob_write_def)
    moreover have "text_sent (dr_c8 dr) cs (i + length input) (cc, w\<lparr>lw_buffer := ?payload\<rparr>)"
      using m(1,2) w input(2) payload by (auto simp: text_sent_def)
    ultimately show ?thesis using idle_less [OF idle] by simp
  next
    case False
    then have "length ?payload \<noteq> 1" using w(2) by simp
    then obtain m' out tail where cut: "lob_payload (dr_c8 dr) (lw_type_id w) ?payload = Ok (out, tail)" "m' \<le> length cs"
      "to_cesu8 (dr_c8 dr) (concat (take m cs)) @ out = to_cesu8 (dr_c8 dr) (concat (take m' cs))"
      "concat (take m' cs) @ tail = take (i + length input) (concat cs)"
      using payload_cut [OF c8 cs w(1) m(1) payload input(2)] by blast
    have "length out \<le> length (to_cesu8 (dr_c8 dr) (concat (take m' cs)))"
      using arg_cong [OF cut(3), of length] by simp
    then have "length out + 100 < 2 ^ 31" using cesu8_prefix_length [OF c8 cs, of m'] len by simp
    from write_chunk_served [OF idle this, of dr md ds False "w\<lparr>lw_buffer := tail\<rparr>"]
    have "lob_write (serving_driver dr lob_sink) md ds input (cc, w) = (Ok (length input),
        (served (fst (server_state cc) @ out, False) cc, w\<lparr>lw_buffer := tail\<rparr>))"
      using False cut(1) by (simp add: lob_write_def)
    moreover have "text_sent (dr_c8 dr) cs (i + length input)
        (served (fst (server_state cc) @ out, False) cc, w\<lparr>lw_buffer := tail\<rparr>)"
      using m(2) cut(2-4) w input(2) by (auto simp: text_sent_def)
    ultimately show ?thesis using idle_served [OF idle] by auto
  qed
qed

lemma lob_copy_text:
  assumes c8: "cesu8_crate (dr_c8 dr)" and cs: "list_all utf8_char cs"
    and len: "length (to_cesu8 (dr_c8 dr) (concat cs)) + 100 < 2 ^ 31"
  shows "text_sent (dr_c8 dr) cs i s \<Longrightarrow> idle (n + length inputs) (fst s) \<Longrightarrow> concat inputs = drop i (concat cs) \<Longrightarrow>
    \<exists>s'. lob_copy (serving_driver dr lob_sink) md ds inputs s = (Ok (), s')
      \<and> text_sent (dr_c8 dr) cs (length (concat cs)) s' \<and> idle n (fst s')"
proof (induction inputs arbitrary: i s)
  case Nil
  then have "i = length (concat cs)" by (auto simp: text_sent_def split: prod.splits)
  then show ?case using Nil by simp
next
  case (Cons input inputs)
  have i: "i \<le> length (concat cs)" using Cons.prems(1) by (auto simp: text_sent_def split: prod.splits)
  obtain X where X: "take i (concat cs) = X" "length X = i" using i by simp
  then have split: "concat cs = X @ input @ concat inputs"
    using Cons.prems(3) by (metis append_take_drop_id concat.simps(2))
  have "take (i + length input) (concat cs) = take i (concat cs) @ input"
    "drop (i + length input) (concat cs) = concat inputs" "i + length input \<le> length (concat cs)"
    unfolding X(1) split using X(2) by simp_all
  moreover obtain cc w where s: "s = (cc, w)" by (cases s)
  ultimately obtain s1 where s1: "lob_write (serving_driver dr lob_sink) md ds input (cc, w) = (Ok (length input), s1)"
    "text_sent (dr_c8 dr) cs (i + length input) s1" "idle (n + length inputs) (fst s1)"
    using lob_write_text [OF c8 cs len, of i cc w "n + length inputs" input md ds] Cons.prems(1,2) by auto
  then show ?case using Cons.IH [OF s1(2,3)] \<open>drop (i + length input) (concat cs) = concat inputs\<close> by (simp add: s)
qed

text \<open>C14: A text that is written to a CLOB or NCLOB parameter in any slices, which may cut its characters
  anywhere, arrives completely: copying and flushing succeed, and the server has received exactly the
  CESU-8 form of the text and the mark of the last chunk.\<close>

theorem text_written_completely:
  assumes "cesu8_crate (dr_c8 dr)" "valid_utf8 txt" "length (to_cesu8 (dr_c8 dr) txt) + 100 < 2 ^ 31"
    and "concat inputs = txt" "t \<in> {TY_CLOB, TY_NCLOB}" "lob_writer_new loc t cc = Ok w"
    and "idle (Suc (length inputs)) cc" "fst (server_state cc) = []" "2 \<le> cc_lob_write_length cc"
  shows "\<exists>s s'. lob_copy (serving_driver dr lob_sink) md ds inputs (cc, w) = (Ok (), s)
    \<and> lob_flush (serving_driver dr lob_sink) md ds s = (Ok (), s')
    \<and> server_state (fst s') = (to_cesu8 (dr_c8 dr) txt, True)"
proof -
  have "\<exists>cs. list_all utf8_char cs \<and> txt = concat cs"
    using assms(2)
  proof (induction rule: valid_utf8_induct)
    case Nil
    show ?case by (rule exI [of _ "[]"]) simp
  next
    case (Char c r)
    then obtain cs where "list_all utf8_char cs" "r = concat cs" by blast
    then show ?case using Char(1) by (intro exI [of _ "c # cs"]) simp
  qed
  then obtain cs where cs: "list_all utf8_char cs" "txt = concat cs" by blast
  have len: "length (to_cesu8 (dr_c8 dr) (concat cs)) + 100 < 2 ^ 31" using assms(3) cs(2) by simp
  have "text_sent (dr_c8 dr) cs 0 (cc, w)"
    using assms(5,6,8,9) cesu8_crate.to_cesu8_Nil [OF assms(1)]
    by (auto simp: text_sent_def lob_writer_new_def split: if_splits intro!: exI [of _ 0])
  then obtain cc1 w1 where c: "lob_copy (serving_driver dr lob_sink) md ds inputs (cc, w) = (Ok (), (cc1, w1))"
    "text_sent (dr_c8 dr) cs (length (concat cs)) (cc1, w1)" "idle 1 cc1"
    using lob_copy_text [OF assms(1) cs(1) len, of 0 "(cc, w)" 1 inputs md ds] assms(4,7) cs(2) by auto
  obtain m where m: "m \<le> length cs" "fst (server_state cc1) = to_cesu8 (dr_c8 dr) (concat (take m cs))"
    "concat (take m cs) @ lw_buffer w1 = take (length (concat cs)) (concat cs)"
    and t: "lw_type_id w1 \<in> {TY_CLOB, TY_NCLOB}" using c(2) by (auto simp: text_sent_def)
  obtain m' out where cut: "lob_payload (dr_c8 dr) (lw_type_id w1) (lw_buffer w1) = Ok (out, [])"
    "to_cesu8 (dr_c8 dr) (concat (take m cs)) @ out = to_cesu8 (dr_c8 dr) (concat (take m' cs))"
    "concat (take m' cs) = concat cs"
    using payload_cut [OF assms(1) cs(1) t m(1,3)] by auto
  have "length out + 100 < 2 ^ 31" using arg_cong [OF cut(2), of length] cut(3) len by simp
  moreover have "idle (Suc 0) cc1" using c(3) by simp
  ultimately have "lob_flush (serving_driver dr lob_sink) md ds (cc1, w1) =
      (Ok (), (served (fst (server_state cc1) @ out, True) cc1, w1\<lparr>lw_buffer := []\<rparr>))"
    using cut(1) write_chunk_served [of 0 cc1 out dr md ds True "w1\<lparr>lw_buffer := []\<rparr>"] by (simp add: lob_flush_def)
  moreover have "fst (server_state cc1) @ out = to_cesu8 (dr_c8 dr) txt" using m(2) cut(2,3) cs(2) by simp
  ultimately show ?thesis using c(1) by auto
qed

definition sample_slices :: "bytes list" where
  "sample_slices = [[0x61, 0xE2], [0x82, 0xAC, 0xF0], [0x9F, 0x98, 0x80]]"

definition sample_writer :: "type_id \<Rightarrow> lob_writer" where
  "sample_writer t = \<lparr>lw_locator_id = 9, lw_type_id = t, lw_server_usage = server_usage_default, lw_buffer = [],
     lw_write_length = 3, lw_proc_result = None\<rparr>"

definition sample_sink_core :: "((bytes \<times> bool) \<times> bytes) conn_core" where
  "sample_sink_core = (served_core ([], False))\<lparr>cc_lob_write_length := 3\<rparr>"

lemma sample_sink_simps:
  "n < 1000 \<Longrightarrow> idle n sample_sink_core" "server_state sample_sink_core = ([], False)"
  "cc_lob_write_length sample_sink_core = 3"
  using idle_served_core [of n] by (simp_all add: sample_sink_core_def idle_def server_state_def served_core_def)

lemma sample_writer_new: "t \<in> {TY_BLOB, TY_CLOB, TY_NCLOB} \<Longrightarrow> lob_writer_new 9 t sample_sink_core = Ok (sample_writer t)"
  by (auto simp: lob_writer_new_def sample_writer_def sample_sink_simps isize_max_def)

theorem text_written_completely_witness:
  "\<exists>s s'. lob_copy (serving_driver sample_driver lob_sink) None None sample_slices (sample_sink_core, sample_writer TY_CLOB)
      = (Ok (), s)
    \<and> lob_flush (serving_driver sample_driver lob_sink) None None s = (Ok (), s')
    \<and> server_state (fst s') = ([0x61, 0xE2, 0x82, 0xAC, 0xED, 0xA0, 0xBD, 0xED, 0xB8, 0x80], True)"
proof -
  have c8: "dr_c8 (sample_driver :: ((bytes \<times> bool) \<times> bytes) driver) = ref_cesu8" by (simp add: sample_driver_def)
  have enc: "to_cesu8 ref_cesu8 [0x61, 0xE2, 0x82, 0xAC, 0xF0, 0x9F, 0x98, 0x80] =
      [0x61, 0xE2, 0x82, 0xAC, 0xED, 0xA0, 0xBD, 0xED, 0xB8, 0x80]"
    "valid_utf8 [0x61, 0xE2, 0x82, 0xAC, 0xF0, 0x9F, 0x98, 0x80]" by code_simp+
  have inputs: "concat sample_slices = [0x61, 0xE2, 0x82, 0xAC, 0xF0, 0x9F, 0x98, 0x80]" by (simp add: sample_slices_def)
  show ?thesis
    using text_written_completely [of sample_driver, unfolded c8, OF ref.cesu8_crate_axioms enc(2) _ inputs _
        sample_writer_new [of TY_CLOB], of None None]
    by (simp add: enc sample_sink_simps sample_slices_def)
qed

section \<open>Binary content\<close>

lemma binary_copied:
  assumes "length (concat inputs) + length (fst (server_state cc)) + length (lw_buffer w) + 100 < 2 ^ 31"
    and "lw_type_id w = TY_BLOB" "idle (n + length inputs) cc"
  shows "\<exists>cc' w'. lob_copy (serving_driver dr lob_sink) md ds inputs (cc, w) = (Ok (), (cc', w')) \<and> idle n cc' \<and>
    lw_type_id w' = TY_BLOB \<and>
    fst (server_state cc') @ lw_buffer w' = fst (server_state cc) @ lw_buffer w @ concat inputs"
  using assms
proof (induction inputs arbitrary: cc w)
  case (Cons input inputs)
  have idle: "idle (Suc (n + length inputs)) cc" using Cons.prems(3) by simp
  show ?case
  proof (cases "length input + length (lw_buffer w) < lw_write_length w")
    case True
    then have "lob_write (serving_driver dr lob_sink) md ds input (cc, w) =
        (Ok (length input), (cc, w\<lparr>lw_buffer := lw_buffer w @ input\<rparr>))" by (simp add: lob_write_def)
    moreover have "\<exists>cc' w'. lob_copy (serving_driver dr lob_sink) md ds inputs (cc, w\<lparr>lw_buffer := lw_buffer w @ input\<rparr>) =
        (Ok (), (cc', w')) \<and> idle n cc' \<and> lw_type_id w' = TY_BLOB \<and> fst (server_state cc') @ lw_buffer w' =
        fst (server_state cc) @ lw_buffer (w\<lparr>lw_buffer := lw_buffer w @ input\<rparr>) @ concat inputs"
      using Cons.prems idle_less [OF idle] by (intro Cons.IH) simp_all
    ultimately show ?thesis by auto
  next
    case False
    let ?cc = "served (fst (server_state cc) @ lw_buffer w @ input, False) cc"
    have "length (lw_buffer w @ input) + 100 < 2 ^ 31" using Cons.prems(1) by simp
    from write_chunk_served [OF idle this, of dr md ds False "w\<lparr>lw_buffer := []\<rparr>"]
    have "lob_write (serving_driver dr lob_sink) md ds input (cc, w) = (Ok (length input), (?cc, w\<lparr>lw_buffer := []\<rparr>))"
      using False Cons.prems(2) by (simp add: lob_write_def lob_payload_def)
    moreover have "\<exists>cc' w'. lob_copy (serving_driver dr lob_sink) md ds inputs (?cc, w\<lparr>lw_buffer := []\<rparr>) =
        (Ok (), (cc', w')) \<and> idle n cc' \<and> lw_type_id w' = TY_BLOB \<and> fst (server_state cc') @ lw_buffer w' =
        fst (server_state ?cc) @ lw_buffer (w\<lparr>lw_buffer := []\<rparr>) @ concat inputs"
      using Cons.prems idle_served [OF idle] by (intro Cons.IH) simp_all
    ultimately show ?thesis by auto
  qed
qed simp

text \<open>C19: Binary content that is written to a BLOB parameter in any slices arrives unchanged, whatever chunk
  length is configured (zero included).\<close>

theorem binary_written_completely:
  assumes "length (concat inputs) + 100 < 2 ^ 31" "lob_writer_new loc TY_BLOB cc = Ok w"
    and "idle (Suc (length inputs)) cc" "fst (server_state cc) = []"
  shows "\<exists>s s'. lob_copy (serving_driver dr lob_sink) md ds inputs (cc, w) = (Ok (), s)
    \<and> lob_flush (serving_driver dr lob_sink) md ds s = (Ok (), s')
    \<and> server_state (fst s') = (concat inputs, True)"
proof -
  have w: "lw_buffer w = []" "lw_type_id w = TY_BLOB"
    using assms(2) by (auto simp: lob_writer_new_def split: if_splits)
  obtain cc1 w1 where c: "lob_copy (serving_driver dr lob_sink) md ds inputs (cc, w) = (Ok (), (cc1, w1))" "idle 1 cc1"
    "lw_type_id w1 = TY_BLOB" "fst (server_state cc1) @ lw_buffer w1 = concat inputs"
    using binary_copied [of inputs cc w 1 dr md ds] assms w by auto
  have "length (lw_buffer w1) + 100 < 2 ^ 31" using assms(1) arg_cong [OF c(4), of length] by simp
  then have "lob_flush (serving_driver dr lob_sink) md ds (cc1, w1) =
      (Ok (), (served (fst (server_state cc1) @ lw_buffer w1, True) cc1, w1\<lparr>lw_buffer := []\<rparr>))"
    using write_chunk_served [of 0 cc1 "lw_buffer w1" dr md ds True "w1\<lparr>lw_buffer := []\<rparr>"] c(2,3)
    by (simp add: lob_flush_def lob_payload_def)
  then show ?thesis using c(1,4) by auto
qed

theorem binary_written_completely_witness:
  "\<exists>s s'. lob_copy (serving_driver sample_driver lob_sink) None None sample_slices (sample_sink_core, sample_writer TY_BLOB)
      = (Ok (), s)
    \<and> lob_flush (serving_driver sample_driver lob_sink) None None s = (Ok (), s')
    \<and> server_state (fst s') = ([0x61, 0xE2, 0x82, 0xAC, 0xF0, 0x9F, 0x98, 0x80], True)"
  using binary_written_completely [of sample_slices, OF _ sample_writer_new [of TY_BLOB], of sample_driver None None]
  by (simp add: sample_sink_simps sample_slices_def)

end
