(* ===== verification/Hdb_Statements.thy ===== *)
theory Hdb_Statements
  imports Hdb_ResultSet Hdb_Response Hdb_Lob_Writer Hdb_Server
begin

text \<open>
  Statements (sync\_connection.rs, sync\_prepared\_statement.rs, sync\_connection\_manager.rs): direct
  execution and what \<^verbatim>\<open>Connection\<close> offers on top of it, preparing, executing with parameters, batches and
  the streaming of LOB parameters.

  The conversion of a serializable value to a row of parameters (crate \<^verbatim>\<open>serde_db\<close>) is an input: the values
  or the error it returns. So is the way \<^verbatim>\<open>std::io::copy\<close> gets the content of a reader in slices. Result
  sets of a response that is dropped close their cursors, in the order of the list; those of a reply that
  fails to be digested (\<^verbatim>\<open>into_internal_return_values\<close>, LOB streaming) do not here.
\<close>

section \<open>Direct execution\<close>

definition execute_request :: "u32 \<Rightarrow> command_info option \<Rightarrow> rstring \<Rightarrow> request" where
  "execute_request fetch_size o_command_info stmt =
     (let r1 = request_push (P_FetchSize fetch_size) (request_new RQ_ExecuteDirect hold_cursors_over_commit);
          r2 = (case o_command_info of Some ci \<Rightarrow> request_push (P_CommandInfo ci) r1 | None \<Rightarrow> r1)
      in request_push (P_Command stmt) r2)"

text \<open>\<^verbatim>\<open>reply.into_internal_return_values(&mut am_conn_core, None)?\<close> without its reply type.\<close>

definition return_values_of :: "part list \<Rightarrow> ('n conn_core, internal_return_value list) st" where
  "return_values_of ps = (\<lambda>cc.
     case into_internal_return_values ps (cc, None) of (r, (cc', _)) \<Rightarrow> (r, cc'))"

text \<open>Values that are dropped, and a step that consumes them and drops them if it fails.\<close>

definition result_sets_drop :: "'n driver \<Rightarrow> holders \<Rightarrow> result_set list \<Rightarrow> 'n conn_core \<Rightarrow> 'n conn_core" where
  "result_sets_drop dr ho rss cc = fold (\<lambda>rs. result_set_drop dr ho (rs_state rs)) rss cc"

definition consume ::
    "'n driver \<Rightarrow> holders \<Rightarrow> ('v list \<Rightarrow> result_set list) \<Rightarrow> ('v list \<Rightarrow> ('a, hdb_error) res) \<Rightarrow> 'v list
      \<Rightarrow> ('n conn_core, 'a) st" where
  "consume dr ho rss_of f vs = (\<lambda>cc. (f vs, if is_ok (f vs) then cc else result_sets_drop dr ho (rss_of vs) cc))"

definition build_response ::
    "'n driver \<Rightarrow> holders \<Rightarrow> internal_return_value list \<Rightarrow> reply_type \<Rightarrow> ('n conn_core, 'xid hdb_response) st" where
  "build_response dr ho irvs t = consume dr ho sent_result_sets (\<lambda>vs. hdb_response_try_new vs t) irvs"

definition conn_execute ::
    "'n driver \<Rightarrow> holders \<Rightarrow> rstring \<Rightarrow> command_info option \<Rightarrow> ('n conn_core, 'xid hdb_response) st" where
  "conn_execute dr ho stmt o_command_info = (\<lambda>cc.
     st_bind (send dr (execute_request (cc_fetch_size cc) o_command_info stmt)) (\<lambda>reply.
     st_bind (return_values_of (rp_parts reply)) (\<lambda>irvs.
     build_response dr ho irvs (rp_replytype reply))) cc)"

definition conn_statement :: "'n driver \<Rightarrow> holders \<Rightarrow> rstring \<Rightarrow> ('n conn_core, 'xid hdb_response) st" where
  "conn_statement dr ho stmt = conn_execute dr ho stmt None"

definition conn_execute_with_debuginfo ::
    "'n driver \<Rightarrow> holders \<Rightarrow> rstring \<Rightarrow> rstring \<Rightarrow> i32 \<Rightarrow> ('n conn_core, 'xid hdb_response) st" where
  "conn_execute_with_debuginfo dr ho stmt module line =
     conn_execute dr ho stmt (Some (command_info_new line module))"

text \<open>The type of XA ids does not matter where only one return value is taken out.\<close>

definition conn_query :: "'n driver \<Rightarrow> holders \<Rightarrow> rstring \<Rightarrow> ('n conn_core, result_set) st" where
  "conn_query dr ho stmt =
     st_bind (conn_statement dr ho stmt) (\<lambda>rvs :: unit hdb_response. consume dr ho result_sets into_resultset rvs)"

definition conn_dml :: "'n driver \<Rightarrow> holders \<Rightarrow> rstring \<Rightarrow> ('n conn_core, nat) st" where
  "conn_dml dr ho stmt =
     st_bind (conn_statement dr ho stmt) (\<lambda>rvs :: unit hdb_response.
     st_bind (consume dr ho result_sets into_affected_rows rvs) (\<lambda>vec.
     st_lift (case vec of [n] \<Rightarrow> Ok n | _ \<Rightarrow> Err (Usage ''number of affected-rows-counts <> 1''))))"

definition conn_exec :: "'n driver \<Rightarrow> holders \<Rightarrow> rstring \<Rightarrow> ('n conn_core, unit) st" where
  "conn_exec dr ho stmt =
     st_bind (conn_statement dr ho stmt) (\<lambda>rvs :: unit hdb_response. consume dr ho result_sets into_success rvs)"

definition conn_commit :: "'n driver \<Rightarrow> holders \<Rightarrow> ('n conn_core, unit) st" where
  "conn_commit dr ho = conn_exec dr ho (ascii ''commit'')"

definition conn_rollback :: "'n driver \<Rightarrow> holders \<Rightarrow> ('n conn_core, unit) st" where
  "conn_rollback dr ho = conn_exec dr ho (ascii ''rollback'')"

text \<open>The responses are dropped.\<close>

definition response_drop :: "'n driver \<Rightarrow> holders \<Rightarrow> 'xid hdb_response \<Rightarrow> 'n conn_core \<Rightarrow> 'n conn_core" where
  "response_drop dr ho rvs = result_sets_drop dr ho (result_sets rvs)"

fun multiple_statements :: "'n driver \<Rightarrow> holders \<Rightarrow> rstring list \<Rightarrow> ('n conn_core, unit) st" where
  "multiple_statements dr ho [] = st_return ()"
| "multiple_statements dr ho (s # stmts) =
     st_bind (conn_statement dr ho s) (\<lambda>rvs :: unit hdb_response.
     st_bind (st_update (response_drop dr ho rvs)) (\<lambda>_. multiple_statements dr ho stmts))"

text \<open>Errors are ignored, a panic is not.\<close>

fun multiple_statements_ignore_err :: "'n driver \<Rightarrow> holders \<Rightarrow> rstring list \<Rightarrow> ('n conn_core, unit) st" where
  "multiple_statements_ignore_err dr ho [] = st_return ()"
| "multiple_statements_ignore_err dr ho (s # stmts) = (\<lambda>cc.
     case conn_statement dr ho s cc of
       (Ok (rvs :: unit hdb_response), cc') \<Rightarrow> multiple_statements_ignore_err dr ho stmts (response_drop dr ho rvs cc')
     | (Err e, cc') \<Rightarrow> multiple_statements_ignore_err dr ho stmts cc'
     | (Panic, cc') \<Rightarrow> (Panic, cc'))"

text \<open>A new connection: connecting takes the parameters, the settings are copied; the length of the chunks in
  which LOBs are written is not.\<close>

definition conn_new :: "'n driver \<Rightarrow> (connect_params, hdb_error) res \<Rightarrow> 'n \<Rightarrow> ('n conn_core, hdb_error) res" where
  "conn_new dr params n = res_bind params (\<lambda>p. conn_core_try_new dr p n)"

definition conn_spawn :: "'n driver \<Rightarrow> 'n \<Rightarrow> 'n conn_core \<Rightarrow> ('n conn_core, hdb_error) res" where
  "conn_spawn dr n cc =
     res_bind (conn_new dr (Ok (cc_params cc)) n) (\<lambda>other.
     Ok (set_lob_read_length (cc_lob_read_length cc)
          (set_fetch_size (cc_fetch_size cc) (set_auto_commit (cc_auto_commit cc) other))))"

text \<open>\<^verbatim>\<open>client_info()\<close>; the number is formatted by \<open>show_int\<close>.\<close>

definition conn_client_info ::
    "(i32 \<Rightarrow> rstring) \<Rightarrow> rstring \<Rightarrow> rstring option \<Rightarrow> 'n conn_core \<Rightarrow> (rstring \<times> rstring) list" where
  "conn_client_info show_int version program cc =
     (let ctx = client_context_new version program;
          entry = (\<lambda>k name. case op_get ctx k of Some (OV_STRING s) \<Rightarrow> [(ascii name, s)] | _ \<Rightarrow> [])
      in entry ClientType ''ClientType'' @ entry ClientVersion ''ClientVersion''
         @ entry ClientApplicationProgramm ''ClientApplicationProgram''
         @ (case op_get (cc_connect_options cc) OSUser of Some (OV_STRING s) \<Rightarrow> [(ascii ''OSUser'', s)] | _ \<Rightarrow> [])
         @ (case op_get (cc_connect_options cc) ConnectionID of
              Some (OV_INT i) \<Rightarrow> [(ascii ''ConnectionID'', show_int i)] | _ \<Rightarrow> []))"

text \<open>The connection pool asks whether a connection is alive with a query.\<close>

definition manager_is_valid :: "'n driver \<Rightarrow> holders \<Rightarrow> ('n conn_core, unit) st" where
  "manager_is_valid dr ho = st_bind
     (conn_query dr ho (ascii (''SELECT '' @ [CHR 0x27] @ ''IsConnectionStillAlive'' @ [CHR 0x27] @ '' from dummy'')))
     (\<lambda>rs. st_update (result_set_drop dr ho (rs_state rs)))"

section \<open>Preparing\<close>

record prepared_statement =
  ps_statement_id :: u64
  ps_server_usage :: server_usage
  ps_descriptors :: "parameter_descriptor list"
  ps_rsmd :: "resultset_metadata option"
  ps_batch :: "parameter_row list"
  ps_table_location :: "i32 list option"

record prepare_result =
  pr_descriptors :: "parameter_descriptor list"
  pr_stmt_id :: "u64 option"
  pr_table_location :: "i32 list option"
  pr_rsmd :: "resultset_metadata option"
  pr_server_usage :: server_usage

fun prepare_parts :: "part list \<Rightarrow> prepare_result \<Rightarrow> ('n conn_core, prepare_result) st" where
  "prepare_parts [] pr = st_return pr"
| "prepare_parts (P_ParameterMetadata descriptors # ps) pr = prepare_parts ps (pr\<lparr>pr_descriptors := descriptors\<rparr>)"
| "prepare_parts (P_StatementId i # ps) pr = prepare_parts ps (pr\<lparr>pr_stmt_id := Some i\<rparr>)"
| "prepare_parts (P_TransactionFlags flags # ps) pr =
     st_bind (evaluate_ta_flags flags) (\<lambda>_. prepare_parts ps pr)"
| "prepare_parts (P_TableLocation v # ps) pr = prepare_parts ps (pr\<lparr>pr_table_location := Some v\<rparr>)"
| "prepare_parts (P_ResultSetMetadata md # ps) pr = prepare_parts ps (pr\<lparr>pr_rsmd := Some md\<rparr>)"
| "prepare_parts (P_StatementContext sc # ps) pr =
     st_bind (st_update (evaluate_statement_context sc)) (\<lambda>_.
     prepare_parts ps (pr\<lparr>pr_server_usage := usage_of_stmt_ctx sc (pr_server_usage pr)\<rparr>))"
| "prepare_parts (_ # ps) pr = prepare_parts ps pr"

definition prepared_statement_try_new :: "'n driver \<Rightarrow> rstring \<Rightarrow> ('n conn_core, prepared_statement) st" where
  "prepared_statement_try_new dr stmt =
     st_bind (send dr (request_push (P_Command stmt) (request_new RQ_Prepare hold_cursors_over_commit))) (\<lambda>reply.
     st_bind (prepare_parts (rp_parts reply) \<lparr>pr_descriptors = [], pr_stmt_id = None, pr_table_location = None,
        pr_rsmd = None, pr_server_usage = server_usage_default\<rparr>) (\<lambda>pr.
     st_bind (st_lift (ok_or (pr_stmt_id pr) (Impl ''No StatementId received''))) (\<lambda>statement_id.
     st_return \<lparr>ps_statement_id = statement_id, ps_server_usage = pr_server_usage pr,
       ps_descriptors = pr_descriptors pr, ps_rsmd = pr_rsmd pr, ps_batch = [],
       ps_table_location = pr_table_location pr\<rparr>)))"

section \<open>Executing with parameters\<close>

definition inject_ids :: "u64 \<Rightarrow> internal_return_value list \<Rightarrow> internal_return_value list" where
  "inject_ids statement_id irvs =
     map (\<lambda>irv. case irv of IRV_ResultSet rs \<Rightarrow> IRV_ResultSet (inject_statement_id statement_id rs) | _ \<Rightarrow> irv) irvs"

definition execute_rows_request :: "u64 \<Rightarrow> parameter_row list option \<Rightarrow> request" where
  "execute_rows_request statement_id o_rows =
     (let r1 = request_push (P_StatementId statement_id) (request_new RQ_Execute hold_cursors_over_commit)
      in case o_rows of Some rows \<Rightarrow> request_push (P_Parameters rows) r1 | None \<Rightarrow> r1)"

definition ps_send :: "'n driver \<Rightarrow> prepared_statement \<Rightarrow> request \<Rightarrow> ('n conn_core, reply) st" where
  "ps_send dr ps request = (\<lambda>cc.
     case full_send dr request (ps_rsmd ps) (Some (ps_descriptors ps)) (cc, None) of (r, (cc', _)) \<Rightarrow> (r, cc'))"

definition execute_parameter_rows ::
    "'n driver \<Rightarrow> holders \<Rightarrow> prepared_statement \<Rightarrow> parameter_row list option \<Rightarrow> ('n conn_core, 'xid hdb_response) st" where
  "execute_parameter_rows dr ho ps o_rows =
     st_bind (ps_send dr ps (execute_rows_request (ps_statement_id ps) o_rows)) (\<lambda>reply.
     st_bind (return_values_of (rp_parts reply)) (\<lambda>irvs.
     build_response dr ho (inject_ids (ps_statement_id ps) irvs) (rp_replytype reply)))"

text \<open>\<open>params\<close> is what \<^verbatim>\<open>to_params\<close> makes of the input.\<close>

definition ps_execute ::
    "'n driver \<Rightarrow> holders \<Rightarrow> prepared_statement \<Rightarrow> (hdb_value list, hdb_error) res \<Rightarrow> ('n conn_core, 'xid hdb_response) st" where
  "ps_execute dr ho ps params =
     (if has_in (ps_descriptors ps) then
        st_bind (st_lift (res_bind params (\<lambda>vs. push_hdb_values vs (ps_descriptors ps) []))) (\<lambda>rows.
        execute_parameter_rows dr ho ps (Some rows))
      else execute_parameter_rows dr ho ps None)"

text \<open>The batch of the statement is part of the state.\<close>

definition add_row_to_batch :: "hdb_value list \<Rightarrow> (prepared_statement, unit) st" where
  "add_row_to_batch hdb_values = (\<lambda>ps.
     if has_in (ps_descriptors ps) then
       (case push_hdb_values hdb_values (ps_descriptors ps) (ps_batch ps) of
          Ok rows \<Rightarrow> (Ok (), ps\<lparr>ps_batch := rows\<rparr>)
        | Err e \<Rightarrow> (Err e, ps)
        | Panic \<Rightarrow> (Panic, ps))
     else (Err (Usage ''Batch not possible, PreparedStatement has no input parameter''), ps))"

definition add_batch :: "(hdb_value list, hdb_error) res \<Rightarrow> (prepared_statement, unit) st" where
  "add_batch params = (\<lambda>ps.
     if has_in (ps_descriptors ps) then
       (case res_bind params (\<lambda>vs. push_hdb_values vs (ps_descriptors ps) (ps_batch ps)) of
          Ok rows \<Rightarrow> (Ok (), ps\<lparr>ps_batch := rows\<rparr>)
        | Err e \<Rightarrow> (Err e, ps)
        | Panic \<Rightarrow> (Panic, ps))
     else (Err (Usage ''Batch not usable for PreparedStatements without input parameter''), ps))"

definition execute_batch :: "'n driver \<Rightarrow> holders \<Rightarrow> ('n conn_core \<times> prepared_statement, 'xid hdb_response) st" where
  "execute_batch dr ho = (\<lambda>(cc, ps).
     if ps_batch ps = [] \<and> has_in (ps_descriptors ps) then
       (Err (Usage ''Empty batch cannot be executed''), (cc, ps))
     else
       let ps' = ps\<lparr>ps_batch := []\<rparr>
       in case execute_parameter_rows dr ho ps' (Some (ps_batch ps)) cc of (r, cc') \<Rightarrow> (r, (cc', ps')))"

section \<open>LOB parameters\<close>

text \<open>The values are zipped with the IN descriptors, which ends with the shorter one; readers are taken out.\<close>

fun pick_readers :: "hdb_value list \<Rightarrow> parameter_descriptor list \<Rightarrow> hdb_value list \<times> (bytes \<times> type_id) list" where
  "pick_readers (v # vs) (d # ds) =
     (case pick_readers vs ds of (vs', readers) \<Rightarrow>
        case v of
          HV_LOBSTREAM (Some reader) \<Rightarrow> (HV_LOBSTREAM None # vs', (reader, pd_type_id d) # readers)
        | _ \<Rightarrow> (v # vs', readers))"
| "pick_readers _ _ = ([], [])"

text \<open>One reader after the other; what the writer got back is appended.\<close>

definition lob_streaming :: "('a, ioerr) res \<Rightarrow> ('a, hdb_error) res" where
  "lob_streaming r = res_map_err LobStreaming r"

fun stream_lobs ::
    "'n driver \<Rightarrow> (bytes \<Rightarrow> bytes list) \<Rightarrow> prepared_statement \<Rightarrow> (u64 \<times> bytes \<times> type_id) list
      \<Rightarrow> internal_return_value list \<Rightarrow> ('n conn_core, internal_return_value list) st" where
  "stream_lobs dr slices ps [] irvs = st_return irvs"
| "stream_lobs dr slices ps ((locator_id, reader, t) # lobs) irvs = (\<lambda>cc.
     case lob_writer_new locator_id t cc of
       Ok w \<Rightarrow>
         (case lob_copy dr (ps_rsmd ps) (Some (ps_descriptors ps)) (slices reader) (cc, w) of
            (Ok _, s) \<Rightarrow>
              (case lob_flush dr (ps_rsmd ps) (Some (ps_descriptors ps)) s of
                 (Ok _, (cc', w')) \<Rightarrow>
                   stream_lobs dr slices ps lobs
                     (case lw_proc_result w' of Some new_irvs \<Rightarrow> irvs @ new_irvs | None \<Rightarrow> irvs) cc'
               | (r, (cc', _)) \<Rightarrow> (res_map (\<lambda>_. []) (lob_streaming r), cc'))
          | (r, (cc', _)) \<Rightarrow> (res_map (\<lambda>_. []) (lob_streaming r), cc'))
     | r \<Rightarrow> (res_map (\<lambda>_. []) r, cc))"

definition execute_row_request :: "bool \<Rightarrow> u64 \<Rightarrow> parameter_row list \<Rightarrow> request" where
  "execute_row_request streaming statement_id rows =
     (let r = execute_rows_request statement_id (Some rows)
      in if streaming then request_push (P_LobFlags for_implicit_streaming) r else r)"

definition execute_row ::
    "'n driver \<Rightarrow> holders \<Rightarrow> (bytes \<Rightarrow> bytes list) \<Rightarrow> prepared_statement \<Rightarrow> hdb_value list
      \<Rightarrow> ('n conn_core, 'xid hdb_response) st" where
  "execute_row dr ho slices ps hdb_values =
     (if \<not> has_in (ps_descriptors ps) then execute_parameter_rows dr ho ps None
      else
        case pick_readers hdb_values (iter_in (ps_descriptors ps)) of
          (vs, readers) \<Rightarrow> (\<lambda>cc.
            st_bind (st_lift (push_hdb_values vs (ps_descriptors ps) [])) (\<lambda>rows.
            st_bind (ps_send dr ps (execute_row_request
              (get_implicit_lob_streaming (cc_connect_options cc) = Some True) (ps_statement_id ps) rows)) (\<lambda>reply.
            case remove_first_of_kind PK_WriteLobReply (rp_parts reply) of
              (o_wlr, parts) \<Rightarrow>
                st_bind (return_values_of parts) (\<lambda>irvs.
                st_bind
                  (case o_wlr of
                     Some (P_WriteLobReply locator_ids) \<Rightarrow>
                       if length locator_ids \<noteq> length readers then
                         st_lift (Err (UsageDetailed ''The number of provided readers ({}) does not match the number of required readers ({})''))
                       else stream_lobs dr slices ps (zip locator_ids readers) irvs
                   | _ \<Rightarrow> st_return irvs) (\<lambda>irvs'.
                build_response dr ho (inject_ids (ps_statement_id ps) irvs') (rp_replytype reply))))) cc))"

section \<open>Properties\<close>

text \<open>The types of parameters that take a value, value by value: exactly its own type, except that a
  boolean also goes to the integer types, a decimal to the fixed-point types, a string to everything
  but the spatial types, and binary data and the spatial types to the binary and spatial types.\<close>

fun value_suits :: "type_id \<Rightarrow> hdb_value \<Rightarrow> bool" where
  "value_suits t HV_NOTHING \<longleftrightarrow> False"
| "value_suits t HV_NULL \<longleftrightarrow> True"
| "value_suits t (HV_TINYINT _) \<longleftrightarrow> t = TY_TINYINT"
| "value_suits t (HV_SMALLINT _) \<longleftrightarrow> t = TY_SMALLINT"
| "value_suits t (HV_INT _) \<longleftrightarrow> t = TY_INT"
| "value_suits t (HV_BIGINT _) \<longleftrightarrow> t = TY_BIGINT"
| "value_suits t (HV_DECIMAL _) \<longleftrightarrow> t \<in> {TY_DECIMAL, TY_FIXED8, TY_FIXED12, TY_FIXED16}"
| "value_suits t (HV_REAL _) \<longleftrightarrow> t = TY_REAL"
| "value_suits t (HV_DOUBLE _) \<longleftrightarrow> t = TY_DOUBLE"
| "value_suits t (HV_BOOLEAN _) \<longleftrightarrow> t \<in> {TY_BOOLEAN, TY_TINYINT, TY_SMALLINT, TY_INT, TY_BIGINT}"
| "value_suits t (HV_STR _) \<longleftrightarrow> t \<noteq> TY_GEOMETRY \<and> t \<noteq> TY_POINT"
| "value_suits t (HV_STRING _) \<longleftrightarrow> t \<noteq> TY_GEOMETRY \<and> t \<noteq> TY_POINT"
| "value_suits t (HV_BINARY _) \<longleftrightarrow> t \<in> {TY_BINARY, TY_VARBINARY, TY_BLOB, TY_BLOCATOR, TY_GEOMETRY, TY_POINT}"
| "value_suits t (HV_GEOMETRY _) \<longleftrightarrow> t \<in> {TY_BINARY, TY_VARBINARY, TY_BLOB, TY_BLOCATOR, TY_GEOMETRY, TY_POINT}"
| "value_suits t (HV_POINT _) \<longleftrightarrow> t \<in> {TY_BINARY, TY_VARBINARY, TY_BLOB, TY_BLOCATOR, TY_GEOMETRY, TY_POINT}"
| "value_suits t (HV_LONGDATE _) \<longleftrightarrow> t = TY_LONGDATE"
| "value_suits t (HV_SECONDDATE _) \<longleftrightarrow> t = TY_SECONDDATE"
| "value_suits t (HV_DAYDATE _) \<longleftrightarrow> t = TY_DAYDATE"
| "value_suits t (HV_SECONDTIME _) \<longleftrightarrow> t = TY_SECONDTIME"
| "value_suits t (HV_CLOB _) \<longleftrightarrow> True"
| "value_suits t (HV_NCLOB _) \<longleftrightarrow> True"
| "value_suits t (HV_BLOB _) \<longleftrightarrow> True"
| "value_suits t (HV_LOBSTREAM _) \<longleftrightarrow> True"

text \<open>A row fits when the statement has a parameter that is not purely an output, the row has no more
  values than there are such parameters, and each value suits the parameter at its position. The code
  does not ask for as many values as there are parameters.\<close>

definition row_fits :: "parameter_descriptor list \<Rightarrow> hdb_value list \<Rightarrow> bool" where
  "row_fits ds vs \<longleftrightarrow>
     (let ins = filter (\<lambda>d. pd_direction d \<noteq> OUT) ds
      in ins \<noteq> [] \<and> length vs \<le> length ins \<and>
         list_all2 (\<lambda>d v. value_suits (pd_type_id d) v) (take (length vs) ins) vs)"

lemma check_value_suits:
  "is_ok (if is_null v then Ok () else res_bind (type_id_for_emit v t) (\<lambda>t'. tcp (matches_value_type t t')))
     \<longleftrightarrow> value_suits t v"
  by (cases v) (auto simp: is_null_def type_id_for_emit_def matches_value_type_def is_ok_def)

lemma check_value_no_panic:
  "(if is_null v then Ok () else res_bind (type_id_for_emit v t) (\<lambda>t'. tcp (matches_value_type t t'))) \<noteq> Panic"
  by (cases v) (auto simp: is_null_def type_id_for_emit_def matches_value_type_def split: type_id.split)

lemma check_parameters_iff:
  "is_ok (check_parameters vs ins) \<longleftrightarrow>
     length vs \<le> length ins \<and> list_all2 (\<lambda>d v. value_suits (pd_type_id d) v) (take (length vs) ins) vs"
proof (induction vs ins rule: check_parameters.induct)
  case (3 v vs d ds)
  let ?c = "if is_null v then Ok () else res_bind (type_id_for_emit v (pd_type_id d))
    (\<lambda>t'. tcp (matches_value_type (pd_type_id d) t'))"
  show ?case using 3 check_value_suits [of v "pd_type_id d"] by (cases ?c) auto
qed simp_all

lemma check_parameters_no_panic: "check_parameters vs ins \<noteq> Panic"
proof (induction vs ins rule: check_parameters.induct)
  case (3 v vs d ds)
  let ?c = "if is_null v then Ok () else res_bind (type_id_for_emit v (pd_type_id d))
    (\<lambda>t'. tcp (matches_value_type (pd_type_id d) t'))"
  show ?case using 3 check_value_no_panic [of v "pd_type_id d"] by (cases ?c) auto
qed simp_all

lemma iter_in_not_out: "iter_in ds = filter (\<lambda>d. pd_direction d \<noteq> OUT) ds"
  unfolding iter_in_def by (rule filter_cong [OF refl]) (metis parameter_direction.exhaust parameter_direction.distinct)

lemma row_fits_iff: "row_fits ds vs \<longleftrightarrow> has_in ds \<and> is_ok (check_parameters vs (iter_in ds))"
  by (simp add: row_fits_def has_in_def check_parameters_iff iter_in_not_out Let_def)

lemma push_hdb_values_cases:
  obtains (pushed) "check_parameters vs (iter_in ds) = Ok ()" "push_hdb_values vs ds rows = Ok (rows @ [vs])"
    | (refused) e where "check_parameters vs (iter_in ds) = Err e" "push_hdb_values vs ds rows = Err e"
  using check_parameters_no_panic [of vs "iter_in ds"]
  by (cases "check_parameters vs (iter_in ds)") (auto simp: push_hdb_values_def parameter_row_new_def)

lemma add_row_to_batch_fits:
  "row_fits (ps_descriptors ps) vs \<Longrightarrow> add_row_to_batch vs ps = (Ok (), ps\<lparr>ps_batch := ps_batch ps @ [vs]\<rparr>)"
  "\<not> row_fits (ps_descriptors ps) vs \<Longrightarrow> \<exists>e. add_row_to_batch vs ps = (Err e, ps)"
  by (rule push_hdb_values_cases [of vs "ps_descriptors ps" "ps_batch ps"];
      simp add: add_row_to_batch_def row_fits_iff)+

text \<open>A caller that adds rows, looks at every result and goes on after an error.\<close>

fun add_rows :: "hdb_value list list \<Rightarrow> prepared_statement \<Rightarrow> (unit, hdb_error) res list \<times> prepared_statement" where
  "add_rows [] ps = ([], ps)"
| "add_rows (vs # rows) ps =
     (case add_row_to_batch vs ps of (r, ps') \<Rightarrow>
        case add_rows rows ps' of (rs, ps'') \<Rightarrow> (r # rs, ps''))"

text \<open>C32: Adding rows to a batch, whatever the rows and the parameters: the rows that fit (no more
  values than the statement has IN and INOUT parameters, at least one of which it must have, each
  value of a type that the parameter takes) are appended in the order in which they were added and
  acknowledged; every other row is answered with an error, leaves no trace and does not disturb the
  rows before and after it; no row makes the driver panic.\<close>

theorem batch_collects_fitting_rows:
  "let (results, ps') = add_rows rows ps
   in ps' = ps\<lparr>ps_batch := ps_batch ps @ filter (row_fits (ps_descriptors ps)) rows\<rparr> \<and>
      length results = length rows \<and>
      (\<forall>(row, r) \<in> set (zip rows results).
         if row_fits (ps_descriptors ps) row then r = Ok () else r \<noteq> Panic \<and> \<not> is_ok r)"
proof (induction rows arbitrary: ps)
  case (Cons vs rows)
  show ?case
  proof (cases "row_fits (ps_descriptors ps) vs")
    case True
    then show ?thesis using Cons.IH [of "ps\<lparr>ps_batch := ps_batch ps @ [vs]\<rparr>"]
      by (auto simp: add_row_to_batch_fits(1) split: prod.splits)
  next
    case False
    then obtain e where "add_row_to_batch vs ps = (Err e, ps)" using add_row_to_batch_fits(2) by blast
    then show ?thesis using Cons.IH [of ps] False by (auto split: prod.splits)
  qed
qed simp

text \<open>\<open>execute_row\<close> ignores values in excess of the IN parameters without an error, while a batch refuses
  the same row.\<close>

theorem execute_row_ignores_excess:
  assumes "has_in (ps_descriptors ps)" "length (iter_in (ps_descriptors ps)) < length vs"
  shows "execute_row dr ho slices ps vs = execute_row dr ho slices ps (take (length (iter_in (ps_descriptors ps))) vs)
    \<and> \<not> is_ok (fst (add_row_to_batch vs ps))"
proof -
  have "pick_readers vs ds = pick_readers (take (length ds) vs) ds" for ds
    by (induction vs ds rule: pick_readers.induct) (auto simp: split: prod.splits)
  moreover have "\<not> row_fits (ps_descriptors ps) vs" using assms(2) by (simp add: row_fits_iff check_parameters_iff)
  then have "\<not> is_ok (fst (add_row_to_batch vs ps))" using add_row_to_batch_fits(2) by fastforce
  ultimately show ?thesis unfolding execute_row_def by metis
qed

text \<open>A spawned connection has the parameters, the commit mode, the fetch size and the LOB read length of
  the original, but always the default LOB write length.\<close>

theorem spawn_settings:
  "case conn_spawn dr n cc of
     Ok other \<Rightarrow> cc_params other = cc_params cc \<and> cc_auto_commit other = cc_auto_commit cc \<and>
       cc_fetch_size other = cc_fetch_size cc \<and> cc_lob_read_length other = cc_lob_read_length cc \<and>
       cc_lob_write_length other = default_lob_write_length
   | _ \<Rightarrow> True"
proof -
  have "cc_params c = p \<and> cc_lob_write_length c = default_lob_write_length"
    if new: "conn_core_try_new dr p n = Ok c" for p c
  proof -
    have auth: "core_step (conn_core_new dr p m) (snd (authenticate dr False (conn_core_new dr p m)))" for m
      using keeps_authenticate [of dr False] by (simp add: core.keeps_def)
    obtain n1 where n1: "tcp (fst (net_connect (dr_net dr) p n)) = Ok n1"
      "(case send_and_receive (dr_net dr) n1 of
         (Ok (), n2) \<Rightarrow>
           (case authenticate dr False (conn_core_new dr p n2) of
              (Ok (), cc) \<Rightarrow> Ok cc | (Err e, _) \<Rightarrow> Err e | (Panic, _) \<Rightarrow> Panic)
       | (Err e, n2) \<Rightarrow> Err (Tcp e)
       | (Panic, n2) \<Rightarrow> Panic) = Ok c"
      using new unfolding conn_core_try_new_def res_bind_Ok_iff by blast
    obtain r m where m: "send_and_receive (dr_net dr) n1 = (r, m)" by (cases "send_and_receive (dr_net dr) n1")
    then have r: "r = Ok ()" using n1(2) by (cases r) auto
    obtain r' c' where a: "authenticate dr False (conn_core_new dr p m) = (r', c')"
      by (cases "authenticate dr False (conn_core_new dr p m)")
    from n1(2) have "(case r' of Ok () \<Rightarrow> Ok c' | Err e \<Rightarrow> Err e | Panic \<Rightarrow> Panic) = Ok c"
      unfolding m r a prod.case res.case unit.case .
    then have "r' = Ok () \<and> c' = c" by (cases r') (simp_all split: unit.splits)
    then have "authenticate dr False (conn_core_new dr p m) = (Ok (), c)" using a by simp
    then show ?thesis using auth [of m] by (simp add: core_step_def core_progress_def conn_core_new_def)
  qed
  note new = this
  show ?thesis
  proof (cases "conn_core_try_new dr (cc_params cc) n")
    case (Ok other)
    then show ?thesis using new [OF Ok]
      by (simp add: conn_spawn_def conn_new_def set_lob_read_length_def set_fetch_size_def set_auto_commit_def)
  qed (simp_all add: conn_spawn_def conn_new_def)
qed

section \<open>Witnesses\<close>

definition sample_in :: parameter_descriptor where
  "sample_in = \<lparr>pd_option = 2, pd_type_id = TY_TINYINT, pd_nullable = True, pd_scale = 0, pd_precision = 3,
     pd_direction = IN, pd_name = None\<rparr>"

definition sample_ps :: prepared_statement where
  "sample_ps = \<lparr>ps_statement_id = 3, ps_server_usage = server_usage_default, ps_descriptors = [sample_in],
     ps_rsmd = None, ps_batch = [], ps_table_location = None\<rparr>"

lemma sample_ps_in: "has_in (ps_descriptors sample_ps)" "length (iter_in (ps_descriptors sample_ps)) = 1"
  by (simp_all add: sample_ps_def sample_in_def has_in_def iter_in_def)

theorem batch_collects_fitting_rows_witness:
  "ps_batch (snd (add_rows [[HV_TINYINT 5], [HV_INT 6], [HV_TINYINT 6, HV_TINYINT 7], [HV_NULL]] sample_ps)) =
     [[HV_TINYINT 5], [HV_NULL]]"
proof -
  have "filter (row_fits (ps_descriptors sample_ps)) [[HV_TINYINT 5], [HV_INT 6], [HV_TINYINT 6, HV_TINYINT 7], [HV_NULL]] =
      [[HV_TINYINT 5], [HV_NULL]]" by code_simp
  then show ?thesis
    using batch_collects_fitting_rows [where ps = sample_ps
        and rows = "[[HV_TINYINT 5], [HV_INT 6], [HV_TINYINT 6, HV_TINYINT 7], [HV_NULL]]"]
    by (auto simp: sample_ps_def Let_def simp del: filter.simps add_rows.simps split: prod.splits)
qed

definition nobody :: holders where
  "nobody = \<lparr>ho_rscore = \<lambda>_. False, ho_pscore = \<lambda>_. False\<rparr>"

theorem execute_row_ignores_excess_witness:
  "\<not> is_ok (fst (add_row_to_batch [HV_TINYINT 6, HV_TINYINT 7] sample_ps)) \<and>
   execute_row sample_driver nobody (\<lambda>bs. [bs]) sample_ps [HV_TINYINT 6, HV_TINYINT 7] (served_core ()) =
     (execute_row sample_driver nobody (\<lambda>bs. [bs]) sample_ps [HV_TINYINT 6] (served_core ()) ::
       (unit hdb_response, hdb_error) res \<times> _)"
proof -
  have "(execute_row sample_driver nobody (\<lambda>bs. [bs]) sample_ps [HV_TINYINT 6, HV_TINYINT 7] ::
        ((unit \<times> bytes) conn_core, unit hdb_response) st) =
      execute_row sample_driver nobody (\<lambda>bs. [bs]) sample_ps
        (take (length (iter_in (ps_descriptors sample_ps))) [HV_TINYINT 6, HV_TINYINT 7])
    \<and> \<not> is_ok (fst (add_row_to_batch [HV_TINYINT 6, HV_TINYINT 7] sample_ps))"
    by (rule execute_row_ignores_excess) (simp_all add: sample_ps_in)
  then show ?thesis by (simp add: sample_ps_in)
qed

end
