(* ===== verification/Hdb_Xa.thy ===== *)
theory Hdb_Xa
  imports Hdb_Connection
begin

text \<open>
  Distributed transactions (xa\_impl/c\_resource\_manager.rs, xa\_impl/mod.rs). The types and functions of the
  crate \<^verbatim>\<open>dist_tx\<close> are the record \<open>dist_tx\<close>: flags \<open>'f\<close>, transaction ids \<open>'xid\<close>, return codes \<open>'rc\<close>.
\<close>

section \<open>The crate\<close>

datatype xa_flag =
    F_JOIN | F_RESUME | F_SUCCESS | F_FAIL | F_SUSPEND | F_ONE_PHASE
  | F_START_RECOVERY_SCAN | F_END_RECOVERY_SCAN

record ('f, 'xid, 'rc) dist_tx =
  dt_contains_only :: "xa_flag list \<Rightarrow> 'f \<Rightarrow> bool"
  dt_is_empty :: "'f \<Rightarrow> bool"
  dt_empty :: 'f
  dt_bits :: "'f \<Rightarrow> u32"
  dt_as_bytes :: "'xid \<Rightarrow> bytes option"
  dt_parse_xids :: "bytes \<Rightarrow> u64 \<Rightarrow> 'xid list option"
  dt_rc_from_i32 :: "i32 \<Rightarrow> 'rc"
  dt_rc_ok :: 'rc

datatype xa_error_code =
    XE_DuplicateTransactionId | XE_InvalidArguments | XE_InvalidTransactionId | XE_ProtocolError
  | XE_RmError | XE_RmFailure | XE_UnknownErrorCode i32

record rm_error =
  re_code :: xa_error_code
  re_text :: rstring

section \<open>Errors\<close>

text \<open>The texts with \<^verbatim>\<open>{:?}\<close> are not modelled further.\<close>

definition rm_error_of_hdb :: "hdb_error \<Rightarrow> rm_error" where
  "rm_error_of_hdb e = \<lparr>re_code = XE_RmError, re_text = ascii ''{:?}''\<rparr>"

definition xa_usage_error :: "string \<Rightarrow> rm_error" where
  "xa_usage_error meth = \<lparr>re_code = XE_ProtocolError,
     re_text = ascii (''CResourceManager::'' @ meth @ ''(): Invalid transaction flags {:?}'')\<rparr>"

definition error_code_from_hana_code :: "i32 \<Rightarrow> xa_error_code" where
  "error_code_from_hana_code code =
     (if code = 210 then XE_DuplicateTransactionId
      else if code = 211 then XE_InvalidArguments
      else if code = 212 then XE_InvalidTransactionId
      else if code = 214 then XE_ProtocolError
      else if code = 215 then XE_RmError
      else if code = 216 then XE_RmFailure
      else XE_UnknownErrorCode code)"

definition xa_error :: "hdb_error \<Rightarrow> rm_error" where
  "xa_error e =
     (case server_error_of e of
        Some se \<Rightarrow> \<lparr>re_code = error_code_from_hana_code (se_code se), re_text = se_text se\<rparr>
      | None \<Rightarrow>
          (case e of
             ExecutionResults _ \<Rightarrow> \<lparr>re_code = XE_RmError, re_text = ascii ''HdbError::ExecutionResults''\<rparr>
           | _ \<Rightarrow> rm_error_of_hdb e))"

section \<open>Sending\<close>

type_synonym ('n, 'a) xst = "'n conn_core \<Rightarrow> ('a, rm_error) res \<times> 'n conn_core"

definition xa_send_receive_impl ::
    "'n driver \<Rightarrow> ('f, 'xid, 'rc) dist_tx \<Rightarrow> request_type \<Rightarrow> 'xid \<Rightarrow> 'f \<Rightarrow> ('n conn_core, 'rc option) st" where
  "xa_send_receive_impl dr dt t xid flags = (\<lambda>cc.
     if cc_auto_commit cc then
       (Err (Usage ''xa_*() not possible, connection is set to auto_commit''), cc)
     else
       st_bind (st_lift (set_xatid (dt_as_bytes dt xid) [])) (\<lambda>opts.
       let opts' = (if \<not> dt_is_empty dt flags then set_flags (dt_bits dt flags) opts else opts)
       in st_bind (send dr (request_push (P_XatOptions opts') (request_new t 0))) (\<lambda>reply.
          case pop_if_kind PK_XatOptions (drop_parts_of_kind PK_StatementContext (rp_parts reply)) of
            (Some (P_XatOptions received), _) \<Rightarrow>
              st_return (map_option (dt_rc_from_i32 dt) (get_returncode received))
          | _ \<Rightarrow> st_return None)) cc)"

definition xa_send_receive ::
    "'n driver \<Rightarrow> ('f, 'xid, 'rc) dist_tx \<Rightarrow> request_type \<Rightarrow> 'xid \<Rightarrow> 'f \<Rightarrow> ('n, 'rc) xst" where
  "xa_send_receive dr dt t xid flags cc =
     (case xa_send_receive_impl dr dt t xid flags cc of
        (r, cc') \<Rightarrow>
          (res_map_err xa_error (res_map (\<lambda>o_rc. case o_rc of Some rc \<Rightarrow> rc | None \<Rightarrow> dt_rc_ok dt) r), cc'))"

section \<open>The operations\<close>

definition xa_start :: "'n driver \<Rightarrow> ('f, 'xid, 'rc) dist_tx \<Rightarrow> 'xid \<Rightarrow> 'f \<Rightarrow> ('n, 'rc) xst" where
  "xa_start dr dt xid flags cc =
     (if \<not> dt_contains_only dt [F_JOIN, F_RESUME] flags then (Err (xa_usage_error ''start''), cc)
      else xa_send_receive dr dt RQ_XAStart xid flags cc)"

definition xa_end :: "'n driver \<Rightarrow> ('f, 'xid, 'rc) dist_tx \<Rightarrow> 'xid \<Rightarrow> 'f \<Rightarrow> ('n, 'rc) xst" where
  "xa_end dr dt xid flags cc =
     (if \<not> dt_contains_only dt [F_SUCCESS, F_FAIL, F_SUSPEND] flags then (Err (xa_usage_error ''end''), cc)
      else xa_send_receive dr dt RQ_XAEnd xid flags cc)"

definition xa_prepare :: "'n driver \<Rightarrow> ('f, 'xid, 'rc) dist_tx \<Rightarrow> 'xid \<Rightarrow> ('n, 'rc) xst" where
  "xa_prepare dr dt xid = xa_send_receive dr dt RQ_XAPrepare xid (dt_empty dt)"

definition xa_commit :: "'n driver \<Rightarrow> ('f, 'xid, 'rc) dist_tx \<Rightarrow> 'xid \<Rightarrow> 'f \<Rightarrow> ('n, 'rc) xst" where
  "xa_commit dr dt xid flags cc =
     (if \<not> dt_contains_only dt [F_ONE_PHASE] flags then (Err (xa_usage_error ''commit''), cc)
      else xa_send_receive dr dt RQ_XACommit xid flags cc)"

definition xa_rollback :: "'n driver \<Rightarrow> ('f, 'xid, 'rc) dist_tx \<Rightarrow> 'xid \<Rightarrow> ('n, 'rc) xst" where
  "xa_rollback dr dt xid = xa_send_receive dr dt RQ_XARollback xid (dt_empty dt)"

definition xa_forget :: "'n driver \<Rightarrow> ('f, 'xid, 'rc) dist_tx \<Rightarrow> 'xid \<Rightarrow> ('n, 'rc) xst" where
  "xa_forget dr dt xid = xa_send_receive dr dt RQ_XAForget xid (dt_empty dt)"

text \<open>The loop of \<open>recover\<close> pops parts until it finds options or nothing is left.\<close>

lemma recover_pop_shorter:
  assumes "ps \<noteq> []" "(o_p, ps') = parts_pop (drop_parts_of_kind PK_StatementContext ps)"
  shows "length ps' < length ps"
proof -
  have "length (drop_parts_of_kind PK_StatementContext ps) \<le> length ps"
    by (simp add: drop_parts_of_kind_def)
  moreover have "length ps' = length (drop_parts_of_kind PK_StatementContext ps) - 1"
    using assms(2) by (auto simp: parts_pop_def split: if_splits)
  moreover have "0 < length ps" using assms(1) by simp
  ultimately show ?thesis by linarith
qed

function recover_parts :: "part list \<Rightarrow> xat_options option" where
  "recover_parts ps =
     (if ps = [] then None
      else
        case parts_pop (drop_parts_of_kind PK_StatementContext ps) of
          (Some (P_XatOptions opts), _) \<Rightarrow> Some opts
        | (_, ps') \<Rightarrow> recover_parts ps')"
  by auto
termination
  by (relation "measure length") (auto dest: recover_pop_shorter)

declare recover_parts.simps [simp del]

definition xa_recover :: "'n driver \<Rightarrow> ('f, 'xid, 'rc) dist_tx \<Rightarrow> 'f \<Rightarrow> ('n, 'xid list) xst" where
  "xa_recover dr dt flags cc =
     (if \<not> dt_contains_only dt [F_START_RECOVERY_SCAN, F_END_RECOVERY_SCAN] flags then
        (Err (xa_usage_error ''recover''), cc)
      else
        case send dr (request_push (P_XatOptions (set_flags (dt_bits dt flags) [])) (request_new RQ_XARecover 0)) cc of
          (Ok reply, cc') \<Rightarrow>
            (case recover_parts (rp_parts reply) of
               Some opts \<Rightarrow> res_map_err rm_error_of_hdb (get_transactions (dt_parse_xids dt) opts)
             | None \<Rightarrow> Err \<lparr>re_code = XE_ProtocolError,
                 re_text = ascii ''recover did not get a list of xids, not even an empty one''\<rparr>, cc')
        | (Err e, cc') \<Rightarrow> (Err (rm_error_of_hdb e), cc')
        | (Panic, cc') \<Rightarrow> (Panic, cc'))"

section \<open>Properties\<close>

fun xat_options_of :: "part \<Rightarrow> xat_options list" where
  "xat_options_of (P_XatOptions opts) = [opts]"
| "xat_options_of _ = []"

text \<open>The loop of \<open>recover\<close> over the parts of the reply is the search for the last options in it; it is
  in vain exactly if the reply holds none.\<close>

theorem recover_parts_last:
  "recover_parts ps = (case rev (concat (map xat_options_of ps)) of [] \<Rightarrow> None | opts # _ \<Rightarrow> Some opts)"
proof (induction ps rule: recover_parts.induct)
  case (1 ps)
  let ?ds = "drop_parts_of_kind PK_StatementContext ps"
  have k: "xat_options_of p = []" if "part_kind_as_i8 (part_kind_of p) = part_kind_as_i8 PK_StatementContext" for p
    using that by (cases p) auto
  have same: "concat (map xat_options_of (drop_parts_of_kind PK_StatementContext ps)) = concat (map xat_options_of ps)"
    for ps
    unfolding drop_parts_of_kind_def by (induction ps) (auto simp: k)
  show ?case
  proof (cases "ps = []")
    case True
    then show ?thesis by (simp add: recover_parts.simps)
  next
    case ps: False
    show ?thesis
    proof (cases "?ds = []")
      case True
      then have "concat (map xat_options_of ps) = []" using same [of ps] by (metis concat.simps(1) list.simps(8))
      then show ?thesis
        using ps True by (subst recover_parts.simps) (simp add: parts_pop_def recover_parts.simps [of "[]"] del: concat_eq_Nil_conv)
    next
      case False
      obtain qs q where ds: "?ds = qs @ [q]" using False by (metis append_butlast_last_id)
      then have pop: "parts_pop ?ds = (Some q, qs)" by (simp add: parts_pop_def)
      have all: "concat (map xat_options_of ps) = concat (map xat_options_of qs) @ xat_options_of q"
        using same [of ps] unfolding ds by simp
      have step: "recover_parts ps = (case q of P_XatOptions opts \<Rightarrow> Some opts | _ \<Rightarrow> recover_parts qs)"
        using ps by (subst recover_parts.simps) (simp add: pop split: part.split)
      show ?thesis
      proof (cases "\<exists>opts. q = P_XatOptions opts")
        case True
        then show ?thesis using step all by auto
      next
        case no: False
        then have "recover_parts ps = recover_parts qs" "xat_options_of q = []"
          using step by (auto split: part.splits elim: xat_options_of.elims)
        moreover have "recover_parts qs =
            (case rev (concat (map xat_options_of qs)) of [] \<Rightarrow> None | opts # _ \<Rightarrow> Some opts)"
          using 1 [OF ps pop [symmetric]] no by (cases q) auto
        ultimately show ?thesis using all by simp
      qed
    qed
  qed
qed

text \<open>C39: What stops an operation of the resource manager before it reaches the server. Start, end, commit
  and recover refuse flags that are not theirs as protocol errors. On a connection with auto-commit,
  start, end, prepare, commit, rollback and forget fail; the connection is left as it was in all these
  cases. Recover alone does not look at auto-commit: with its own flags it sends its request on every
  connection.\<close>

theorem xa_guards:
  "(\<not> dt_contains_only dt [F_JOIN, F_RESUME] flags \<longrightarrow>
      xa_start dr dt xid flags cc = (Err (xa_usage_error ''start''), cc))
   \<and> (\<not> dt_contains_only dt [F_SUCCESS, F_FAIL, F_SUSPEND] flags \<longrightarrow>
      xa_end dr dt xid flags cc = (Err (xa_usage_error ''end''), cc))
   \<and> (\<not> dt_contains_only dt [F_ONE_PHASE] flags \<longrightarrow>
      xa_commit dr dt xid flags cc = (Err (xa_usage_error ''commit''), cc))
   \<and> (\<not> dt_contains_only dt [F_START_RECOVERY_SCAN, F_END_RECOVERY_SCAN] flags \<longrightarrow>
      xa_recover dr dt flags cc = (Err (xa_usage_error ''recover''), cc))
   \<and> (cc_auto_commit cc \<longrightarrow>
      (\<forall>op \<in> {\<lambda>c. xa_start dr dt xid flags c, \<lambda>c. xa_end dr dt xid flags c, \<lambda>c. xa_commit dr dt xid flags c,
         xa_prepare dr dt xid, xa_rollback dr dt xid, xa_forget dr dt xid}.
         \<exists>e. op cc = (Err e, cc) \<and> re_code e \<in> {XE_ProtocolError, XE_RmError}))
   \<and> (dt_contains_only dt [F_START_RECOVERY_SCAN, F_END_RECOVERY_SCAN] flags \<longrightarrow>
      snd (xa_recover dr dt flags cc) =
      snd (send dr (request_push (P_XatOptions (set_flags (dt_bits dt flags) [])) (request_new RQ_XARecover 0)) cc))"
proof -
  have "cc_auto_commit cc \<Longrightarrow> \<exists>e. xa_send_receive dr dt t xid f cc = (Err e, cc) \<and> re_code e = XE_RmError" for t f
    by (simp add: xa_send_receive_def xa_send_receive_impl_def xa_error_def server_error_of_def rm_error_of_hdb_def)
  then show ?thesis
    by (auto simp: xa_start_def xa_end_def xa_commit_def xa_prepare_def xa_rollback_def xa_forget_def xa_recover_def
        xa_usage_error_def split: prod.split res.split)
qed

definition sample_dist_tx :: "(nat, nat, i32) dist_tx" where
  "sample_dist_tx = \<lparr>dt_contains_only = \<lambda>fs f. fs = [F_ONE_PHASE] \<and> f = 1 \<or> fs = [F_START_RECOVERY_SCAN, F_END_RECOVERY_SCAN] \<and> f = 8, dt_is_empty = \<lambda>f. f = 0, dt_empty = 0,
     dt_bits = word_of_nat, dt_as_bytes = \<lambda>xid. Some [word_of_nat xid], dt_parse_xids = \<lambda>_ _. Some [],
     dt_rc_from_i32 = id, dt_rc_ok = 0\<rparr>"

definition sample_xa_driver :: "unit driver" where
  "sample_xa_driver = \<lparr>dr_net = \<lparr>net_connect = \<lambda>_ n. (Ok n, n), net_write = \<lambda>_ n. (Ok (), n), net_input = \<lambda>_. [],
       net_error = \<lambda>_. eof_error, net_consume = \<lambda>_ n. n, net_abandon = \<lambda>n. n\<rparr>, dr_c8 = ref_cesu8, dr_nl = ref_num,
     dr_crypto = ref_crypto, dr_challenges = \<lambda>_. ([], []), dr_version = [], dr_pkg_name = [], dr_program = None,
     dr_os_user = []\<rparr>"

theorem xa_guards_witness:
  "xa_start sample_xa_driver sample_dist_tx 5 3 sample_conn_core = (Err (xa_usage_error ''start''), sample_conn_core) \<and>
   (\<exists>e. xa_prepare sample_xa_driver sample_dist_tx 5 sample_conn_core = (Err e, sample_conn_core)) \<and>
   xa_recover sample_xa_driver sample_dist_tx 3 sample_conn_core = (Err (xa_usage_error ''recover''), sample_conn_core) \<and>
   snd (xa_recover sample_xa_driver sample_dist_tx 8 sample_conn_core) =
     snd (send sample_xa_driver (request_push (P_XatOptions (set_flags 8 [])) (request_new RQ_XARecover 0)) sample_conn_core)"
  using xa_guards [of sample_dist_tx 8 sample_xa_driver 5 sample_conn_core] xa_guards [of sample_dist_tx 3 sample_xa_driver 5 sample_conn_core]
  by (auto simp: sample_dist_tx_def sample_conn_core_def)

end
