(* ===== verification/Hdb_Conversions.thy ===== *)
theory Hdb_Conversions
  imports Hdb_Params Hdb_Dates
begin

text \<open>
  What the conversions between Rust values and database values share (serde\_db\_impl/de.rs and
  ser.rs): the text form of integers in the standard library, \<^verbatim>\<open>num::cast\<close>, the error types of the
  crate \<^verbatim>\<open>serde_db\<close> with the constructors the source uses, and the record \<open>conv_lib\<close> of the
  functions on decimals, floating-point numbers and \<^verbatim>\<open>chrono\<close> dates that are not part of the
  repository. The locale \<open>conv_crates\<close> states what is documented of them, \<open>ref_conv\<close> is an instance.
\<close>

section \<open>Integers\<close>

text \<open>The values of an integer type with \<open>w\<close> bits.\<close>

definition in_type :: "bool \<Rightarrow> nat \<Rightarrow> int \<Rightarrow> bool" where
  "in_type sg w i \<longleftrightarrow>
     (if sg then - (2 ^ (w - 1)) \<le> i \<and> i < 2 ^ (w - 1) else 0 \<le> i \<and> i < 2 ^ w)"

text \<open>\<^verbatim>\<open>num::cast\<close> between integer types: the value itself if the target type has it.\<close>

definition num_cast :: "bool \<Rightarrow> int \<Rightarrow> 'a::len word option" where
  "num_cast sg i = (if in_type sg LENGTH('a) i then Some (word_of_int i) else None)"

text \<open>\<^verbatim>\<open>format!("{}", i)\<close>\<close>

definition show_int :: "int \<Rightarrow> rstring" where
  "show_int i = (if i < 0 then ascii ''-'' @ nat_digits (- i) else nat_digits i)"

text \<open>\<^verbatim>\<open>FromStr\<close> of the integer types: an optional sign (a minus only for signed types), then at least
  one digit and nothing else; the value must be in the range of the type.\<close>

definition is_digit :: "u8 \<Rightarrow> bool" where
  "is_digit b \<longleftrightarrow> in_range 48 57 b"

definition digits_value :: "rstring \<Rightarrow> int" where
  "digits_value s = foldl (\<lambda>n b. 10 * n + (uint b - 48)) 0 s"

definition parse_digits :: "rstring \<Rightarrow> int option" where
  "parse_digits s = (if s \<noteq> [] \<and> list_all is_digit s then Some (digits_value s) else None)"

definition parse_signed :: "bool \<Rightarrow> rstring \<Rightarrow> int option" where
  "parse_signed sg s =
     (case s of
        b # bs \<Rightarrow>
          if b = 43 then parse_digits bs
          else if b = 45 \<and> sg then map_option uminus (parse_digits bs)
          else parse_digits s
      | [] \<Rightarrow> None)"

definition int_from_str :: "bool \<Rightarrow> rstring \<Rightarrow> 'a::len word option" where
  "int_from_str sg s = Option.bind (parse_signed sg s) (num_cast sg)"

lemma uint_word_of_digit:
  assumes "0 \<le> k" "k \<le> 9"
  shows "uint (48 + word_of_int k :: u8) = 48 + k"
proof -
  have "48 + word_of_int k = (word_of_int (48 + k) :: u8)" by simp
  with assms show ?thesis by (simp add: unsigned_of_int take_bit_eq_mod del: of_int_add)
qed

lemma is_digit_word:
  assumes "0 \<le> k" "k \<le> 9"
  shows "is_digit (48 + word_of_int k)"
  using assms by (simp add: is_digit_def in_range_def unat_eq_nat_uint uint_word_of_digit le_nat_iff nat_le_iff)

lemma parse_nat_digits:
  assumes "0 \<le> n"
  shows "parse_digits (nat_digits n) = Some n"
proof -
  have "nat_digits n \<noteq> [] \<and> list_all is_digit (nat_digits n) \<and> digits_value (nat_digits n) = n"
    using assms
  proof (induction n rule: nat_digits.induct)
    case (1 n)
    show ?case
    proof (cases "n < 10")
      case True
      then show ?thesis
        using 1(2) by (simp add: nat_digits.simps [of n] is_digit_word digits_value_def uint_word_of_digit)
    next
      case False
      with 1 have "list_all is_digit (nat_digits (n div 10)) \<and> digits_value (nat_digits (n div 10)) = n div 10"
        by simp
      moreover have "is_digit (48 + word_of_int (n mod 10))" by (rule is_digit_word) simp_all
      ultimately show ?thesis using False
        by (simp add: nat_digits.simps [of n] digits_value_def uint_word_of_digit)
    qed
  qed
  then show ?thesis by (simp add: parse_digits_def)
qed

lemma parse_digits_not_sign: "parse_digits (b # bs) = Some n \<Longrightarrow> b \<noteq> 43 \<and> b \<noteq> 45"
  by (auto simp: parse_digits_def is_digit_def in_range_def split: if_splits)

text \<open>Reading the text form of an integer gives the integer back.\<close>

lemma int_from_show:
  assumes "in_type sg LENGTH('a::len) i"
  shows "int_from_str sg (show_int i) = Some (word_of_int i :: 'a word)"
proof -
  have "parse_signed sg (show_int i) = Some i"
  proof (cases "i < 0")
    case True
    with assms have sg by (auto simp: in_type_def split: if_splits)
    with True show ?thesis
      by (simp add: parse_signed_def show_int_def ascii_def parse_nat_digits)
  next
    case False
    then have p: "parse_digits (nat_digits i) = Some i" by (simp add: parse_nat_digits)
    then obtain b bs where d: "nat_digits i = b # bs"
      by (cases "nat_digits i") (auto simp: parse_digits_def)
    with p parse_digits_not_sign [of b bs i] False show ?thesis
      by (simp add: parse_signed_def show_int_def)
  qed
  with assms show ?thesis by (simp add: int_from_str_def num_cast_def)
qed

lemma sint_in_type: "in_type True LENGTH('a) (sint (w :: 'a::len word))"
  using sint_greater_eq [of w] sint_less [of w] by (simp add: in_type_def)

lemma uint_in_type: "in_type False LENGTH('a) (uint (w :: 'a::len word))"
  by (simp add: in_type_def)

lemma num_cast_signed [simp]: "num_cast True (sint w) = Some (w :: 'a::len word)"
  by (simp add: num_cast_def sint_in_type)

lemma num_cast_unsigned [simp]: "num_cast False (uint w) = Some (w :: 'a::len word)"
  by (simp add: num_cast_def uint_in_type)

section \<open>Errors\<close>

text \<open>\<^verbatim>\<open>SE_Parse\<close> is what the function \<^verbatim>\<open>parse_error\<close> of \<^verbatim>\<open>serde_db\<close> returns for a text and a type.\<close>

datatype conversion_error = CE_ValueType string | CE_NumberRange rstring | CE_Incomplete hdb_error

datatype serialization_error =
  SE_Type string type_id | SE_Range string "type_id option" | SE_Parse rstring string

datatype deserialization_error = DE_Usage hdb_error

section \<open>Functions of other crates\<close>

text \<open>
  \<^verbatim>\<open>FromPrimitive\<close>, \<^verbatim>\<open>ToPrimitive\<close>, \<^verbatim>\<open>FromStr\<close> and \<^verbatim>\<open>Display\<close> of \<^verbatim>\<open>BigDecimal\<close>; the text form and the
  parsing of floating-point numbers; and \<^verbatim>\<open>NaiveDateTime::new\<close> applied to \<^verbatim>\<open>NaiveDate::from_ymd\<close> and
  \<^verbatim>\<open>NaiveTime::from_hms_nano\<close> (\<open>None\<close> where these panic).
\<close>

record 'dt conv_lib =
  bd_from_int :: "int \<Rightarrow> bigdecimal option"
  bd_from_f32 :: "32 word \<Rightarrow> bigdecimal option"
  bd_from_f64 :: "64 word \<Rightarrow> bigdecimal option"
  bd_to_int :: "bool \<Rightarrow> nat \<Rightarrow> bigdecimal \<Rightarrow> int option"
  bd_to_f32 :: "bigdecimal \<Rightarrow> 32 word option"
  bd_to_f64 :: "bigdecimal \<Rightarrow> 64 word option"
  bd_from_str :: "rstring \<Rightarrow> bigdecimal option"
  bd_show :: "bigdecimal \<Rightarrow> rstring"
  f32_show :: "32 word \<Rightarrow> rstring"
  f64_show :: "64 word \<Rightarrow> rstring"
  f32_from_str :: "rstring \<Rightarrow> 32 word option"
  f64_from_str :: "rstring \<Rightarrow> 64 word option"
  naive_date_time :: "int \<times> int \<times> int \<Rightarrow> int \<times> int \<times> int \<Rightarrow> int \<Rightarrow> 'dt option"

text \<open>\<^verbatim>\<open>from_i8\<close> to \<^verbatim>\<open>from_u64\<close> give the decimal with the value of the integer, and \<^verbatim>\<open>to_i8\<close> to \<^verbatim>\<open>to_u64\<close>
  (\<open>bd_to_int\<close> with the signedness and the width of the type) give the integer part, if the type has
  it.\<close>

locale conv_crates =
  fixes cl :: "'dt conv_lib"
  assumes from_int_total: "\<exists>d. bd_from_int cl i = Some d"
    and to_from_int: "bd_from_int cl i = Some d \<Longrightarrow> in_type sg w i \<Longrightarrow> bd_to_int cl sg w d = Some i"
begin

lemma int_decimal_int: "\<exists>d. bd_from_int cl i = Some d \<and> (in_type sg w i \<longrightarrow> bd_to_int cl sg w d = Some i)"
  using from_int_total to_from_int by blast

end

definition ref_bd_to_int :: "bool \<Rightarrow> nat \<Rightarrow> bigdecimal \<Rightarrow> int option" where
  "ref_bd_to_int sg w d =
     (let i = (if bd_scale d \<ge> 0 then quot (bd_int d) (10 ^ nat (bd_scale d))
               else bd_int d * 10 ^ nat (- bd_scale d))
      in if in_type sg w i then Some i else None)"

definition ref_conv :: "((int \<times> int \<times> int) \<times> (int \<times> int \<times> int) \<times> int) conv_lib" where
  "ref_conv = \<lparr>bd_from_int = (\<lambda>i. Some \<lparr>bd_int = i, bd_scale = 0\<rparr>), bd_from_f32 = (\<lambda>_. None),
     bd_from_f64 = (\<lambda>_. None), bd_to_int = ref_bd_to_int, bd_to_f32 = (\<lambda>_. None), bd_to_f64 = (\<lambda>_. None),
     bd_from_str = (\<lambda>s. map_option (\<lambda>i. \<lparr>bd_int = i, bd_scale = 0\<rparr>) (parse_signed True s)),
     bd_show = (\<lambda>d. show_int (bd_int d)), f32_show = (\<lambda>_. []), f64_show = (\<lambda>_. []),
     f32_from_str = (\<lambda>_. None), f64_from_str = (\<lambda>_. None),
     naive_date_time = (\<lambda>d t n. Some (d, t, n))\<rparr>"

interpretation ref_conv: conv_crates ref_conv
  by unfold_locales (auto simp: ref_conv_def ref_bd_to_int_def quot_def Let_def sgn_mult_abs)

end
