(* ===== verification/Hdb_Serde_De.thy ===== *)
theory Hdb_Serde_De
  imports Hdb_Conversions Hdb_Lob Hdb_ResultSet
begin

text \<open>
  Database values as Rust values (serde\_db\_impl/de.rs): the implementations of \<^verbatim>\<open>DbValueInto\<close> for
  the integer types, \<^verbatim>\<open>bool\<close>, floating-point numbers, strings, bytes and date-times, and the access
  to result sets, rows and output parameters through which \<^verbatim>\<open>serde_db\<close> walks. A LOB is read from the
  server when it is converted, so that these conversions take a \<open>lob_source\<close> and may not return.
\<close>

section \<open>Errors\<close>

definition wrong_type :: "string \<Rightarrow> conversion_error" where
  "wrong_type ovt = CE_ValueType (''The value {:?} cannot be converted into type '' @ ovt)"

definition number_range :: "int \<Rightarrow> string \<Rightarrow> conversion_error" where
  "number_range i ovt =
     CE_NumberRange (ascii ''The value '' @ show_int i @ ascii '' exceeds the number range of type '' @ ascii ovt)"

definition de_decimal_range :: "string \<Rightarrow> conversion_error" where
  "de_decimal_range ovt =
     CE_NumberRange (ascii ''The given decimal value cannot be converted into a number of type '' @ ascii ovt)"

definition parse_int_err :: conversion_error where
  "parse_int_err = CE_ValueType ''{}''"

definition parse_float_err :: conversion_error where
  "parse_float_err = CE_ValueType ''{}''"

definition deserialization_error_of_hdb :: "hdb_error \<Rightarrow> deserialization_error" where
  "deserialization_error_of_hdb e = DE_Usage e"

definition value_is_null :: "hdb_value \<Rightarrow> bool" where
  "value_is_null v \<longleftrightarrow> v = HV_NULL"

section \<open>Booleans and integers\<close>

definition into_bool :: "hdb_value \<Rightarrow> (bool, conversion_error) res" where
  "into_bool v =
     (case v of
        HV_BOOLEAN b \<Rightarrow> Ok b
      | HV_TINYINT i \<Rightarrow> if i = 1 then Ok True else if i = 0 then Ok False else Err (wrong_type ''bool'')
      | HV_SMALLINT i \<Rightarrow> if i = 1 then Ok True else if i = 0 then Ok False else Err (wrong_type ''bool'')
      | HV_INT i \<Rightarrow> if i = 1 then Ok True else if i = 0 then Ok False else Err (wrong_type ''bool'')
      | HV_BIGINT i \<Rightarrow> if i = 1 then Ok True else if i = 0 then Ok False else Err (wrong_type ''bool'')
      | HV_STRING s \<Rightarrow>
          if s \<in> {ascii ''true'', ascii ''TRUE'', ascii ''True''} then Ok True
          else if s \<in> {ascii ''false'', ascii ''FALSE'', ascii ''False''} then Ok False
          else Err (wrong_type ''bool'')
      | _ \<Rightarrow> Err (wrong_type ''bool''))"

text \<open>\<^verbatim>\<open>bigdec.to_u8()\<close> and its siblings, and \<^verbatim>\<open>s.parse()\<close>.\<close>

definition of_decimal :: "'dt conv_lib \<Rightarrow> bool \<Rightarrow> string \<Rightarrow> bigdecimal \<Rightarrow> ('a::len word, conversion_error) res" where
  "of_decimal cl sg ovt d =
     ok_or (map_option word_of_int (bd_to_int cl sg LENGTH('a) d)) (de_decimal_range ovt)"

definition of_string :: "bool \<Rightarrow> rstring \<Rightarrow> ('a::len word, conversion_error) res" where
  "of_string sg s = ok_or (int_from_str sg s) parse_int_err"

text \<open>\<^verbatim>\<open>num::cast(i).ok_or_else(|| number_range(i64::from(i), ovt))\<close>\<close>

definition cast_or_range :: "bool \<Rightarrow> string \<Rightarrow> int \<Rightarrow> ('a::len word, conversion_error) res" where
  "cast_or_range sg ovt i = ok_or (num_cast sg i) (number_range i ovt)"

definition into_u8 :: "'dt conv_lib \<Rightarrow> hdb_value \<Rightarrow> (u8, conversion_error) res" where
  "into_u8 cl v =
     (case v of
        HV_TINYINT u \<Rightarrow> Ok u
      | HV_SMALLINT i \<Rightarrow> cast_or_range False ''u8'' (sint i)
      | HV_INT i \<Rightarrow> cast_or_range False ''u8'' (sint i)
      | HV_BIGINT i \<Rightarrow> cast_or_range False ''u8'' (sint i)
      | HV_DECIMAL d \<Rightarrow> of_decimal cl False ''u8'' d
      | HV_STRING s \<Rightarrow> of_string False s
      | _ \<Rightarrow> Err (wrong_type ''u8''))"

definition into_u16 :: "'dt conv_lib \<Rightarrow> hdb_value \<Rightarrow> (u16, conversion_error) res" where
  "into_u16 cl v =
     (case v of
        HV_TINYINT u \<Rightarrow> Ok (ucast u)
      | HV_SMALLINT i \<Rightarrow> cast_or_range False ''u16'' (sint i)
      | HV_INT i \<Rightarrow> cast_or_range False ''u16'' (sint i)
      | HV_BIGINT i \<Rightarrow> cast_or_range False ''u16'' (sint i)
      | HV_DECIMAL d \<Rightarrow> of_decimal cl False ''u16'' d
      | HV_STRING s \<Rightarrow> of_string False s
      | _ \<Rightarrow> Err (wrong_type ''u16''))"

definition into_u32 :: "'dt conv_lib \<Rightarrow> hdb_value \<Rightarrow> (u32, conversion_error) res" where
  "into_u32 cl v =
     (case v of
        HV_TINYINT u \<Rightarrow> Ok (ucast u)
      | HV_SMALLINT i \<Rightarrow> cast_or_range False ''u32'' (sint i)
      | HV_INT i \<Rightarrow> cast_or_range False ''u32'' (sint i)
      | HV_BIGINT i \<Rightarrow> cast_or_range False ''u32'' (sint i)
      | HV_DECIMAL d \<Rightarrow> of_decimal cl False ''u32'' d
      | HV_STRING s \<Rightarrow> of_string False s
      | _ \<Rightarrow> Err (wrong_type ''u32''))"

definition into_u64 :: "'dt conv_lib \<Rightarrow> hdb_value \<Rightarrow> (u64, conversion_error) res" where
  "into_u64 cl v =
     (case v of
        HV_TINYINT u \<Rightarrow> Ok (ucast u)
      | HV_SMALLINT i \<Rightarrow> cast_or_range False ''u64'' (sint i)
      | HV_INT i \<Rightarrow> cast_or_range False ''u64'' (sint i)
      | HV_BIGINT i \<Rightarrow> cast_or_range False ''u64'' (sint i)
      | HV_DECIMAL d \<Rightarrow> of_decimal cl False ''u64'' d
      | HV_STRING s \<Rightarrow> of_string False s
      | _ \<Rightarrow> Err (wrong_type ''u64''))"

definition into_i8 :: "'dt conv_lib \<Rightarrow> hdb_value \<Rightarrow> (i8, conversion_error) res" where
  "into_i8 cl v =
     (case v of
        HV_TINYINT i \<Rightarrow> cast_or_range True ''i8'' (uint i)
      | HV_SMALLINT i \<Rightarrow> cast_or_range True ''i8'' (sint i)
      | HV_INT i \<Rightarrow> cast_or_range True ''i8'' (sint i)
      | HV_BIGINT i \<Rightarrow> cast_or_range True ''i8'' (sint i)
      | HV_DECIMAL d \<Rightarrow> of_decimal cl True ''i8'' d
      | HV_STRING s \<Rightarrow> of_string True s
      | _ \<Rightarrow> Err (wrong_type ''i8''))"

text \<open>The range errors of the conversion to \<^verbatim>\<open>i16\<close> name the type \<^verbatim>\<open>u8\<close>.\<close>

definition into_i16 :: "'dt conv_lib \<Rightarrow> hdb_value \<Rightarrow> (i16, conversion_error) res" where
  "into_i16 cl v =
     (case v of
        HV_TINYINT u \<Rightarrow> Ok (ucast u)
      | HV_SMALLINT i \<Rightarrow> Ok i
      | HV_INT i \<Rightarrow> cast_or_range True ''u8'' (sint i)
      | HV_BIGINT i \<Rightarrow> cast_or_range True ''u8'' (sint i)
      | HV_DECIMAL d \<Rightarrow> of_decimal cl True ''i16'' d
      | HV_STRING s \<Rightarrow> of_string True s
      | _ \<Rightarrow> Err (wrong_type ''i16''))"

definition into_i32 :: "'dt conv_lib \<Rightarrow> hdb_value \<Rightarrow> (i32, conversion_error) res" where
  "into_i32 cl v =
     (case v of
        HV_TINYINT u \<Rightarrow> Ok (ucast u)
      | HV_SMALLINT i \<Rightarrow> Ok (scast i)
      | HV_INT i \<Rightarrow> Ok i
      | HV_BIGINT i \<Rightarrow> cast_or_range True ''i32'' (sint i)
      | HV_DECIMAL d \<Rightarrow> of_decimal cl True ''i32'' d
      | HV_STRING s \<Rightarrow> of_string True s
      | _ \<Rightarrow> Err (wrong_type ''i32''))"

fun longdate_ref_raw :: "longdate \<Rightarrow> i64" where
  "longdate_ref_raw (LongDate raw) = raw"

fun seconddate_ref_raw :: "seconddate \<Rightarrow> i64" where
  "seconddate_ref_raw (SecondDate raw) = raw"

definition into_i64 :: "'dt conv_lib \<Rightarrow> hdb_value \<Rightarrow> (i64, conversion_error) res" where
  "into_i64 cl v =
     (case v of
        HV_TINYINT u \<Rightarrow> Ok (ucast u)
      | HV_SMALLINT i \<Rightarrow> Ok (scast i)
      | HV_INT i \<Rightarrow> Ok (scast i)
      | HV_BIGINT i \<Rightarrow> Ok i
      | HV_LONGDATE ld \<Rightarrow> Ok (longdate_ref_raw ld)
      | HV_SECONDDATE sd \<Rightarrow> Ok (seconddate_ref_raw sd)
      | HV_DECIMAL d \<Rightarrow> of_decimal cl True ''i64'' d
      | HV_STRING s \<Rightarrow> of_string True s
      | _ \<Rightarrow> Err (wrong_type ''i64''))"

section \<open>Floating-point numbers\<close>

definition into_f32 :: "'dt conv_lib \<Rightarrow> hdb_value \<Rightarrow> (32 word, conversion_error) res" where
  "into_f32 cl v =
     (case v of
        HV_DECIMAL d \<Rightarrow> ok_or (bd_to_f32 cl d) (de_decimal_range ''f32'')
      | HV_REAL f \<Rightarrow> Ok f
      | HV_STRING s \<Rightarrow> ok_or (f32_from_str cl s) parse_float_err
      | _ \<Rightarrow> Err (wrong_type ''f32''))"

definition into_f64 :: "'dt conv_lib \<Rightarrow> hdb_value \<Rightarrow> (64 word, conversion_error) res" where
  "into_f64 cl v =
     (case v of
        HV_DECIMAL d \<Rightarrow> ok_or (bd_to_f64 cl d) (de_decimal_range ''f64'')
      | HV_DOUBLE f \<Rightarrow> Ok f
      | HV_STRING s \<Rightarrow> ok_or (f64_from_str cl s) parse_float_err
      | _ \<Rightarrow> Err (wrong_type ''f64''))"

section \<open>Strings, date-times and bytes\<close>

text \<open>A conversion that may read a LOB: the outcome and the state of the source, or no return.\<close>

type_synonym ('s, 'a) lob_conversion = "'s \<Rightarrow> (('a, conversion_error) res \<times> 's) option"

definition no_lob :: "('a, conversion_error) res \<Rightarrow> ('s, 'a) lob_conversion" where
  "no_lob r = (\<lambda>s. Some (r, s))"

definition incomplete :: "(('a, hdb_error) res \<times> 's) option \<Rightarrow> (('a, conversion_error) res \<times> 's) option" where
  "incomplete o_r = map_option (\<lambda>(r, s). (res_map_err CE_Incomplete r, s)) o_r"

definition into_string :: "cesu8_lib \<Rightarrow> 'dt conv_lib \<Rightarrow> 's lob_source \<Rightarrow> hdb_value \<Rightarrow> ('s, rstring) lob_conversion" where
  "into_string c8 cl src v =
     (case v of
        HV_TINYINT i \<Rightarrow> no_lob (Ok (show_int (uint i)))
      | HV_SMALLINT i \<Rightarrow> no_lob (Ok (show_int (sint i)))
      | HV_INT i \<Rightarrow> no_lob (Ok (show_int (sint i)))
      | HV_BIGINT i \<Rightarrow> no_lob (Ok (show_int (sint i)))
      | HV_REAL f \<Rightarrow> no_lob (Ok (f32_show cl f))
      | HV_DOUBLE f \<Rightarrow> no_lob (Ok (f64_show cl f))
      | HV_STRING s \<Rightarrow> no_lob (Ok s)
      | HV_LONGDATE ld \<Rightarrow> no_lob (res_map ascii (longdate_display ld))
      | HV_SECONDDATE sd \<Rightarrow> no_lob (res_map ascii (seconddate_display sd))
      | HV_DAYDATE d \<Rightarrow> no_lob (res_map ascii (daydate_display d))
      | HV_SECONDTIME t \<Rightarrow> no_lob (Ok (ascii (secondtime_display t)))
      | HV_DECIMAL d \<Rightarrow> no_lob (Ok (bd_show cl d))
      | HV_CLOB h \<Rightarrow> (\<lambda>s. incomplete (clob_into_string c8 src (h, s)))
      | HV_NCLOB h \<Rightarrow> (\<lambda>s. incomplete (nclob_into_string c8 src (h, s)))
      | _ \<Rightarrow> no_lob (Err (wrong_type ''String'')))"

text \<open>\<^verbatim>\<open>frac * 100\<close> is a multiplication of \<^verbatim>\<open>u32\<close>.\<close>

definition into_naive_date_time :: "'dt conv_lib \<Rightarrow> hdb_value \<Rightarrow> ('dt, conversion_error) res" where
  "into_naive_date_time cl v =
     (case v of
        HV_LONGDATE ld \<Rightarrow>
          res_bind (as_ymd_hms_f ld) (\<lambda>(year, month, day, hour, minute, second, frac).
            if frac * 100 < 2 ^ 32 then
              (case naive_date_time cl (year, month, day) (hour, minute, second) (frac * 100) of
                 Some dt \<Rightarrow> Ok dt
               | None \<Rightarrow> Panic)
            else Panic)
      | HV_SECONDDATE sd \<Rightarrow>
          res_bind (as_ymd_hms sd) (\<lambda>(year, month, day, hour, minute, second).
            case naive_date_time cl (year, month, day) (hour, minute, second) 0 of
              Some dt \<Rightarrow> Ok dt
            | None \<Rightarrow> Panic)
      | _ \<Rightarrow> Err (CE_ValueType ''Not a LongDate or SecondDate value''))"

definition into_bytes :: "'s lob_source \<Rightarrow> hdb_value \<Rightarrow> ('s, bytes) lob_conversion" where
  "into_bytes src v =
     (case v of
        HV_BLOB h \<Rightarrow> (\<lambda>s. incomplete (blob_into_bytes src (h, s)))
      | HV_BINARY bs \<Rightarrow> no_lob (Ok bs)
      | HV_GEOMETRY bs \<Rightarrow> no_lob (Ok bs)
      | HV_POINT bs \<Rightarrow> no_lob (Ok bs)
      | HV_STRING s \<Rightarrow> no_lob (Ok s)
      | _ \<Rightarrow> no_lob (Err (wrong_type ''Vec<u8>'')))"

section \<open>Result sets, rows and output parameters as serde\_db sees them\<close>

definition de_resultset_next ::
    "'n driver \<Rightarrow> holders \<Rightarrow> resultset_metadata \<Rightarrow> 'n conn_core \<times> rs_state
      \<Rightarrow> (row option, deserialization_error) res \<times> 'n conn_core \<times> rs_state" where
  "de_resultset_next dr ho md x =
     (case rs_next_row dr ho md x of (r, x') \<Rightarrow> (res_map_err deserialization_error_of_hdb r, x'))"

text \<open>\<^verbatim>\<open>displayname(i).ok()\<close>; a panic of the function would not be caught.\<close>

fun res_ok :: "('a, 'e) res \<Rightarrow> ('a option, 'f) res" where
  "res_ok (Ok a) = Ok (Some a)"
| "res_ok (Err _) = Ok None"
| "res_ok Panic = Panic"

definition de_fieldname :: "resultset_metadata \<Rightarrow> nat \<Rightarrow> (rstring option, deserialization_error) res" where
  "de_fieldname md i = res_ok (displayname md i)"

record deserializable_output_parameters =
  dop_descriptors :: "parameter_descriptor list"
  dop_value_iter :: "hdb_value list"

definition deserializable_output_parameters_new :: "output_parameters \<Rightarrow> deserializable_output_parameters" where
  "deserializable_output_parameters_new op =
     \<lparr>dop_descriptors = op_descriptors op, dop_value_iter = op_values op\<rparr>"

definition dop_len :: "deserializable_output_parameters \<Rightarrow> nat" where
  "dop_len p = length (dop_value_iter p)"

definition dop_next ::
    "deserializable_output_parameters \<Rightarrow> hdb_value option \<times> deserializable_output_parameters" where
  "dop_next p =
     (case dop_value_iter p of
        [] \<Rightarrow> (None, p)
      | v # vs \<Rightarrow> (Some v, p\<lparr>dop_value_iter := vs\<rparr>))"

definition dop_number_of_fields :: "deserializable_output_parameters \<Rightarrow> nat" where
  "dop_number_of_fields p = length (dop_descriptors p)"

definition dop_fieldname :: "deserializable_output_parameters \<Rightarrow> nat \<Rightarrow> rstring option" where
  "dop_fieldname p i =
     (if i < length (dop_descriptors p) then pd_name (dop_descriptors p ! i) else None)"

end
