(* ===== verification/Hdb_Serde_Ser.thy ===== *)
theory Hdb_Serde_Ser
  imports Hdb_Conversions
begin

text \<open>
  Rust values as database values (serde\_db\_impl/ser.rs): the implementation of \<^verbatim>\<open>DbvFactory\<close> for
  parameter descriptors. The type of the parameter decides which value is built; a value that does
  not fit is an error. A \<^verbatim>\<open>char\<close> is given by its UTF-8 form.
\<close>

definition ser_decimal_range :: "string \<Rightarrow> serialization_error" where
  "ser_decimal_range ovt = SE_Range ovt None"

definition type_mismatch :: "string \<Rightarrow> parameter_descriptor \<Rightarrow> serialization_error" where
  "type_mismatch value_type d = SE_Type value_type (pd_type_id d)"

definition range_error :: "string \<Rightarrow> parameter_descriptor \<Rightarrow> serialization_error" where
  "range_error input_type d = SE_Range input_type (Some (pd_type_id d))"

definition decimal_types :: "type_id set" where
  "decimal_types = {TY_DECIMAL, TY_FIXED8, TY_FIXED12, TY_FIXED16}"

definition text_types :: "type_id set" where
  "text_types = {TY_VARCHAR, TY_NVARCHAR, TY_TEXT, TY_SHORTTEXT}"

definition from_bool :: "parameter_descriptor \<Rightarrow> bool \<Rightarrow> (hdb_value, serialization_error) res" where
  "from_bool d value =
     (if pd_type_id d \<in> {TY_BOOLEAN, TY_TINYINT, TY_SMALLINT, TY_INT, TY_BIGINT} then Ok (HV_BOOLEAN value)
      else Err (type_mismatch ''boolean'' d))"

section \<open>Integers\<close>

text \<open>\<^verbatim>\<open>num::cast(value).ok_or_else(|| SerializationError::Range(..))\<close>, and the decimals.\<close>

definition ser_cast ::
    "bool \<Rightarrow> string \<Rightarrow> parameter_descriptor \<Rightarrow> int \<Rightarrow> ('a::len word, serialization_error) res" where
  "ser_cast sg input_type d i = ok_or (num_cast sg i) (range_error input_type d)"

definition ser_decimal :: "'dt conv_lib \<Rightarrow> string \<Rightarrow> int \<Rightarrow> (hdb_value, serialization_error) res" where
  "ser_decimal cl input_type i = res_map HV_DECIMAL (ok_or (bd_from_int cl i) (ser_decimal_range input_type))"

definition from_i8 :: "'dt conv_lib \<Rightarrow> parameter_descriptor \<Rightarrow> i8 \<Rightarrow> (hdb_value, serialization_error) res" where
  "from_i8 cl d value =
     (case pd_type_id d of
        TY_TINYINT \<Rightarrow> res_map HV_TINYINT (ser_cast False ''i8'' d (sint value))
      | TY_SMALLINT \<Rightarrow> Ok (HV_SMALLINT (scast value))
      | TY_INT \<Rightarrow> Ok (HV_INT (scast value))
      | TY_BIGINT \<Rightarrow> Ok (HV_BIGINT (scast value))
      | tid \<Rightarrow>
          if tid \<in> decimal_types then ser_decimal cl ''i8'' (sint value)
          else if tid \<in> text_types then Ok (HV_STRING (show_int (sint value)))
          else Err (type_mismatch ''i8'' d))"

definition from_i16 :: "'dt conv_lib \<Rightarrow> parameter_descriptor \<Rightarrow> i16 \<Rightarrow> (hdb_value, serialization_error) res" where
  "from_i16 cl d value =
     (case pd_type_id d of
        TY_TINYINT \<Rightarrow> res_map HV_TINYINT (ser_cast False ''i16'' d (sint value))
      | TY_SMALLINT \<Rightarrow> Ok (HV_SMALLINT value)
      | TY_INT \<Rightarrow> Ok (HV_INT (scast value))
      | TY_BIGINT \<Rightarrow> Ok (HV_BIGINT (scast value))
      | tid \<Rightarrow>
          if tid \<in> decimal_types then ser_decimal cl ''i16'' (sint value)
          else if tid \<in> text_types then Ok (HV_STRING (show_int (sint value)))
          else Err (type_mismatch ''i16'' d))"

definition from_i32 :: "'dt conv_lib \<Rightarrow> parameter_descriptor \<Rightarrow> i32 \<Rightarrow> (hdb_value, serialization_error) res" where
  "from_i32 cl d value =
     (case pd_type_id d of
        TY_TINYINT \<Rightarrow> res_map HV_TINYINT (ser_cast False ''i32'' d (sint value))
      | TY_SMALLINT \<Rightarrow> res_map HV_SMALLINT (ser_cast True ''i32'' d (sint value))
      | TY_INT \<Rightarrow> Ok (HV_INT value)
      | TY_BIGINT \<Rightarrow> Ok (HV_BIGINT (scast value))
      | TY_DAYDATE \<Rightarrow> res_map HV_DAYDATE (daydate_new value)
      | TY_SECONDTIME \<Rightarrow> res_map HV_SECONDTIME (secondtime_new value)
      | tid \<Rightarrow>
          if tid \<in> decimal_types then ser_decimal cl ''i32'' (sint value)
          else if tid \<in> text_types then Ok (HV_STRING (show_int (sint value)))
          else Err (type_mismatch ''i32'' d))"

definition from_i64 :: "'dt conv_lib \<Rightarrow> parameter_descriptor \<Rightarrow> i64 \<Rightarrow> (hdb_value, serialization_error) res" where
  "from_i64 cl d value =
     (case pd_type_id d of
        TY_TINYINT \<Rightarrow> res_map HV_TINYINT (ser_cast False ''i64'' d (sint value))
      | TY_SMALLINT \<Rightarrow> res_map HV_SMALLINT (ser_cast True ''i64'' d (sint value))
      | TY_INT \<Rightarrow> res_map HV_INT (ser_cast True ''i64'' d (sint value))
      | TY_BIGINT \<Rightarrow> Ok (HV_BIGINT value)
      | TY_LONGDATE \<Rightarrow> Ok (HV_LONGDATE (LongDate value))
      | TY_SECONDDATE \<Rightarrow> Ok (HV_SECONDDATE (SecondDate value))
      | tid \<Rightarrow>
          if tid \<in> decimal_types then ser_decimal cl ''i64'' (sint value)
          else if tid \<in> text_types then Ok (HV_STRING (show_int (sint value)))
          else Err (type_mismatch ''i64'' d))"

definition from_u8 :: "'dt conv_lib \<Rightarrow> parameter_descriptor \<Rightarrow> u8 \<Rightarrow> (hdb_value, serialization_error) res" where
  "from_u8 cl d value =
     (case pd_type_id d of
        TY_TINYINT \<Rightarrow> Ok (HV_TINYINT value)
      | TY_SMALLINT \<Rightarrow> Ok (HV_SMALLINT (ucast value))
      | TY_INT \<Rightarrow> Ok (HV_INT (ucast value))
      | TY_BIGINT \<Rightarrow> Ok (HV_BIGINT (ucast value))
      | tid \<Rightarrow>
          if tid \<in> decimal_types then ser_decimal cl ''u8'' (uint value)
          else if tid \<in> text_types then Ok (HV_STRING (show_int (uint value)))
          else Err (type_mismatch ''u8'' d))"

definition from_u16 :: "'dt conv_lib \<Rightarrow> parameter_descriptor \<Rightarrow> u16 \<Rightarrow> (hdb_value, serialization_error) res" where
  "from_u16 cl d value =
     (case pd_type_id d of
        TY_TINYINT \<Rightarrow> res_map HV_TINYINT (ser_cast False ''u16'' d (uint value))
      | TY_SMALLINT \<Rightarrow> res_map HV_SMALLINT (ser_cast True ''u16'' d (uint value))
      | TY_INT \<Rightarrow> Ok (HV_INT (ucast value))
      | TY_BIGINT \<Rightarrow> Ok (HV_BIGINT (ucast value))
      | tid \<Rightarrow>
          if tid \<in> decimal_types then ser_decimal cl ''u16'' (uint value)
          else if tid \<in> text_types then Ok (HV_STRING (show_int (uint value)))
          else Err (type_mismatch ''u16'' d))"

definition from_u32 :: "'dt conv_lib \<Rightarrow> parameter_descriptor \<Rightarrow> u32 \<Rightarrow> (hdb_value, serialization_error) res" where
  "from_u32 cl d value =
     (case pd_type_id d of
        TY_TINYINT \<Rightarrow> res_map HV_TINYINT (ser_cast False ''u32'' d (uint value))
      | TY_SMALLINT \<Rightarrow> res_map HV_SMALLINT (ser_cast True ''u32'' d (uint value))
      | TY_INT \<Rightarrow> res_map HV_INT (ser_cast True ''u32'' d (uint value))
      | TY_BIGINT \<Rightarrow> Ok (HV_BIGINT (ucast value))
      | tid \<Rightarrow>
          if tid \<in> decimal_types then ser_decimal cl ''u32'' (uint value)
          else if tid \<in> text_types then Ok (HV_STRING (show_int (uint value)))
          else Err (type_mismatch ''u32'' d))"

definition from_u64 :: "'dt conv_lib \<Rightarrow> parameter_descriptor \<Rightarrow> u64 \<Rightarrow> (hdb_value, serialization_error) res" where
  "from_u64 cl d value =
     (case pd_type_id d of
        TY_TINYINT \<Rightarrow> res_map HV_TINYINT (ser_cast False ''u64'' d (uint value))
      | TY_SMALLINT \<Rightarrow> res_map HV_SMALLINT (ser_cast True ''u64'' d (uint value))
      | TY_INT \<Rightarrow> res_map HV_INT (ser_cast True ''u64'' d (uint value))
      | TY_BIGINT \<Rightarrow> res_map HV_BIGINT (ser_cast True ''u64'' d (uint value))
      | tid \<Rightarrow>
          if tid \<in> decimal_types then ser_decimal cl ''u64'' (uint value)
          else if tid \<in> text_types then Ok (HV_STRING (show_int (uint value)))
          else Err (type_mismatch ''u64'' d))"

section \<open>Floating-point numbers\<close>

definition from_f32 :: "'dt conv_lib \<Rightarrow> parameter_descriptor \<Rightarrow> 32 word \<Rightarrow> (hdb_value, serialization_error) res" where
  "from_f32 cl d value =
     (case pd_type_id d of
        TY_REAL \<Rightarrow> Ok (HV_REAL value)
      | tid \<Rightarrow>
          if tid \<in> decimal_types then
            res_map HV_DECIMAL (ok_or (bd_from_f32 cl value) (ser_decimal_range ''f32''))
          else if tid \<in> text_types then Ok (HV_STRING (f32_show cl value))
          else Err (type_mismatch ''f32'' d))"

definition from_f64 :: "'dt conv_lib \<Rightarrow> parameter_descriptor \<Rightarrow> 64 word \<Rightarrow> (hdb_value, serialization_error) res" where
  "from_f64 cl d value =
     (case pd_type_id d of
        TY_DOUBLE \<Rightarrow> Ok (HV_DOUBLE value)
      | tid \<Rightarrow>
          if tid \<in> decimal_types then
            res_map HV_DECIMAL (ok_or (bd_from_f64 cl value) (ser_decimal_range ''f64''))
          else if tid \<in> text_types then Ok (HV_STRING (f64_show cl value))
          else Err (type_mismatch ''f64'' d))"

section \<open>Text, bytes and NULL\<close>

definition char_types :: "type_id set" where
  "char_types = {TY_CHAR, TY_VARCHAR, TY_NCHAR, TY_NVARCHAR, TY_STRING, TY_NSTRING, TY_TEXT, TY_SHORTTEXT}"

definition from_char :: "parameter_descriptor \<Rightarrow> rstring \<Rightarrow> (hdb_value, serialization_error) res" where
  "from_char d value =
     (if pd_type_id d \<in> char_types then Ok (HV_STRING value) else Err (type_mismatch ''char'' d))"

definition map_i :: "rstring \<Rightarrow> 'a option \<Rightarrow> ('a, serialization_error) res" where
  "map_i value o_i = ok_or o_i (SE_Parse value ''some integer type'')"

definition map_f :: "rstring \<Rightarrow> 'a option \<Rightarrow> ('a, serialization_error) res" where
  "map_f value o_f = ok_or o_f (SE_Parse value ''some float type'')"

definition map_bd :: "rstring \<Rightarrow> bigdecimal option \<Rightarrow> (bigdecimal, serialization_error) res" where
  "map_bd value o_d = ok_or o_d (SE_Parse value ''BigDecimal'')"

definition from_str :: "'dt conv_lib \<Rightarrow> parameter_descriptor \<Rightarrow> rstring \<Rightarrow> (hdb_value, serialization_error) res" where
  "from_str cl d value =
     (case pd_type_id d of
        TY_TINYINT \<Rightarrow> res_map HV_TINYINT (map_i value (int_from_str False value))
      | TY_SMALLINT \<Rightarrow> res_map HV_SMALLINT (map_i value (int_from_str True value))
      | TY_INT \<Rightarrow> res_map HV_INT (map_i value (int_from_str True value))
      | TY_BIGINT \<Rightarrow> res_map HV_BIGINT (map_i value (int_from_str True value))
      | TY_REAL \<Rightarrow> res_map HV_REAL (map_f value (f32_from_str cl value))
      | TY_DOUBLE \<Rightarrow> res_map HV_DOUBLE (map_f value (f64_from_str cl value))
      | tid \<Rightarrow>
          if tid \<in> char_types \<union> {TY_ALPHANUM, TY_CLOB, TY_NCLOB, TY_LONGDATE, TY_SECONDDATE, TY_DAYDATE, TY_SECONDTIME}
          then Ok (HV_STRING value)
          else if tid \<in> decimal_types then res_map HV_DECIMAL (map_bd value (bd_from_str cl value))
          else Err (type_mismatch ''&str'' d))"

text \<open>\<^verbatim>\<open>ParameterDescriptor::parse_value\<close> turns the error into an \<^verbatim>\<open>HdbError\<close>.\<close>

definition pd_parse_value :: "'dt conv_lib \<Rightarrow> parameter_descriptor \<Rightarrow> rstring \<Rightarrow> (hdb_value, hdb_error) res" where
  "pd_parse_value cl d s = res_map_err (\<lambda>_. Serialization ''{}'') (from_str cl d s)"

definition from_bytes :: "parameter_descriptor \<Rightarrow> bytes \<Rightarrow> (hdb_value, serialization_error) res" where
  "from_bytes d value =
     (case pd_type_id d of
        TY_GEOMETRY \<Rightarrow> Ok (HV_GEOMETRY value)
      | TY_POINT \<Rightarrow> Ok (HV_POINT value)
      | TY_NCLOB \<Rightarrow>
          res_map HV_STRING (res_map_err (\<lambda>_. SE_Parse (ascii ''bytes'') ''NCLOB'') (from_utf8 value))
      | tid \<Rightarrow>
          if tid \<in> {TY_BLOB, TY_BLOCATOR, TY_BINARY, TY_VARBINARY} then Ok (HV_BINARY value)
          else Err (type_mismatch ''bytes'' d))"

definition from_none :: "parameter_descriptor \<Rightarrow> (hdb_value, serialization_error) res" where
  "from_none d = (if pd_is_nullable d then Ok HV_NULL else Err (type_mismatch ''none'' d))"

end
