(* ===== verification/Hdb_Serde_Props.thy ===== *)
theory Hdb_Serde_Props
  imports Hdb_Serde_De Hdb_Serde_Ser
begin

text \<open>
  The two directions of the serde conversions together: what the serializer builds is what the check
  of the parameter rows accepts, integers come back as they were, and a conversion to an integer type
  is exact or a range error.
\<close>

section \<open>What the serializer builds\<close>

text \<open>The values that \<^verbatim>\<open>serde\<close> hands to a \<^verbatim>\<open>DbvFactory\<close>, one constructor for each of its methods.\<close>

datatype rust_value =
    RS_bool bool
  | RS_i8 i8
  | RS_i16 i16
  | RS_i32 i32
  | RS_i64 i64
  | RS_u8 u8
  | RS_u16 u16
  | RS_u32 u32
  | RS_u64 u64
  | RS_f32 "32 word"
  | RS_f64 "64 word"
  | RS_char rstring
  | RS_str rstring
  | RS_bytes bytes
  | RS_none

fun serialize :: "'dt conv_lib \<Rightarrow> parameter_descriptor \<Rightarrow> rust_value \<Rightarrow> (hdb_value, serialization_error) res" where
  "serialize cl d (RS_bool b) = from_bool d b"
| "serialize cl d (RS_i8 i) = from_i8 cl d i"
| "serialize cl d (RS_i16 i) = from_i16 cl d i"
| "serialize cl d (RS_i32 i) = from_i32 cl d i"
| "serialize cl d (RS_i64 i) = from_i64 cl d i"
| "serialize cl d (RS_u8 i) = from_u8 cl d i"
| "serialize cl d (RS_u16 i) = from_u16 cl d i"
| "serialize cl d (RS_u32 i) = from_u32 cl d i"
| "serialize cl d (RS_u64 i) = from_u64 cl d i"
| "serialize cl d (RS_f32 f) = from_f32 cl d f"
| "serialize cl d (RS_f64 f) = from_f64 cl d f"
| "serialize cl d (RS_char c) = from_char d c"
| "serialize cl d (RS_str s) = from_str cl d s"
| "serialize cl d (RS_bytes bs) = from_bytes d bs"
| "serialize cl d RS_none = from_none d"

text \<open>The test that \<^verbatim>\<open>ParameterRow::new\<close> makes for each value.\<close>

definition value_fits :: "parameter_descriptor \<Rightarrow> hdb_value \<Rightarrow> bool" where
  "value_fits d v \<longleftrightarrow>
     is_null v \<or> (\<exists>t. type_id_for_emit v (pd_type_id d) = Ok t \<and> matches_value_type (pd_type_id d) t = Ok ())"

lemmas fit_defs = value_fits_def is_null_def type_id_for_emit_def matches_value_type_def

lemmas type_sets = decimal_types_def text_types_def char_types_def

lemma ser_decimal_Ok: "ser_decimal cl t i = Ok v \<longleftrightarrow> (\<exists>x. bd_from_int cl i = Some x \<and> v = HV_DECIMAL x)"
  by (cases "bd_from_int cl i") (auto simp: ser_decimal_def)

lemma fits_whole [simp]:
  "pd_type_id d = TY_TINYINT \<Longrightarrow> value_fits d (HV_TINYINT u)"
  "pd_type_id d = TY_SMALLINT \<Longrightarrow> value_fits d (HV_SMALLINT i)"
  "pd_type_id d = TY_INT \<Longrightarrow> value_fits d (HV_INT j)"
  "pd_type_id d = TY_BIGINT \<Longrightarrow> value_fits d (HV_BIGINT k)"
  by (simp_all add: fit_defs)

lemma fits_decimal: "pd_type_id d \<in> decimal_types \<Longrightarrow> value_fits d (HV_DECIMAL x)"
  by (auto simp: fit_defs type_sets)

lemma fits_string: "pd_type_id d \<notin> {TY_GEOMETRY, TY_POINT} \<Longrightarrow> value_fits d (HV_STRING s)"
  by (simp add: fit_defs)

lemma fits_binary:
  "pd_type_id d \<in> {TY_BINARY, TY_BLOB, TY_BLOCATOR, TY_VARBINARY} \<Longrightarrow> value_fits d (HV_BINARY bs)"
  by (auto simp: fit_defs)

lemma fits_dates [simp]:
  "pd_type_id d = TY_DAYDATE \<Longrightarrow> value_fits d (HV_DAYDATE a)"
  "pd_type_id d = TY_SECONDTIME \<Longrightarrow> value_fits d (HV_SECONDTIME b)"
  "pd_type_id d = TY_LONGDATE \<Longrightarrow> value_fits d (HV_LONGDATE e)"
  "pd_type_id d = TY_SECONDDATE \<Longrightarrow> value_fits d (HV_SECONDDATE f)"
  by (simp_all add: fit_defs)

lemma fits_rest [simp]:
  "pd_type_id d = TY_REAL \<Longrightarrow> value_fits d (HV_REAL x)"
  "pd_type_id d = TY_DOUBLE \<Longrightarrow> value_fits d (HV_DOUBLE y)"
  "pd_type_id d = TY_GEOMETRY \<Longrightarrow> value_fits d (HV_GEOMETRY bs)"
  "pd_type_id d = TY_POINT \<Longrightarrow> value_fits d (HV_POINT bs)"
  "value_fits d HV_NULL"
  by (simp_all add: fit_defs)

lemma fits_boolean [simp]:
  "pd_type_id d = TY_BOOLEAN \<Longrightarrow> value_fits d (HV_BOOLEAN b)"
  "pd_type_id d = TY_TINYINT \<Longrightarrow> value_fits d (HV_BOOLEAN b)"
  "pd_type_id d = TY_SMALLINT \<Longrightarrow> value_fits d (HV_BOOLEAN b)"
  "pd_type_id d = TY_INT \<Longrightarrow> value_fits d (HV_BOOLEAN b)"
  "pd_type_id d = TY_BIGINT \<Longrightarrow> value_fits d (HV_BOOLEAN b)"
  by (simp_all add: fit_defs)

lemma text_type_no_geometry [simp]:
  "pd_type_id d \<in> text_types \<Longrightarrow> value_fits d (HV_STRING s)"
  "pd_type_id d \<in> char_types \<Longrightarrow> value_fits d (HV_STRING s)"
  by (auto intro!: fits_string simp: type_sets)

lemma from_i8_fits: "from_i8 cl d i = Ok v \<Longrightarrow> value_fits d v"
  by (cases "pd_type_id d")
    (auto simp: from_i8_def ser_decimal_Ok res_simps fits_decimal split: if_splits)

lemma from_i16_fits: "from_i16 cl d i = Ok v \<Longrightarrow> value_fits d v"
  by (cases "pd_type_id d")
    (auto simp: from_i16_def ser_decimal_Ok res_simps fits_decimal split: if_splits)

lemma from_i32_fits: "from_i32 cl d i = Ok v \<Longrightarrow> value_fits d v"
  by (cases "pd_type_id d")
    (auto simp: from_i32_def ser_decimal_Ok res_simps fits_decimal split: if_splits)

lemma from_i64_fits: "from_i64 cl d i = Ok v \<Longrightarrow> value_fits d v"
  by (cases "pd_type_id d")
    (auto simp: from_i64_def ser_decimal_Ok res_simps fits_decimal split: if_splits)

lemma from_u8_fits: "from_u8 cl d i = Ok v \<Longrightarrow> value_fits d v"
  by (cases "pd_type_id d")
    (auto simp: from_u8_def ser_decimal_Ok res_simps fits_decimal split: if_splits)

lemma from_u16_fits: "from_u16 cl d i = Ok v \<Longrightarrow> value_fits d v"
  by (cases "pd_type_id d")
    (auto simp: from_u16_def ser_decimal_Ok res_simps fits_decimal split: if_splits)

lemma from_u32_fits: "from_u32 cl d i = Ok v \<Longrightarrow> value_fits d v"
  by (cases "pd_type_id d")
    (auto simp: from_u32_def ser_decimal_Ok res_simps fits_decimal split: if_splits)

lemma from_u64_fits: "from_u64 cl d i = Ok v \<Longrightarrow> value_fits d v"
  by (cases "pd_type_id d")
    (auto simp: from_u64_def ser_decimal_Ok res_simps fits_decimal split: if_splits)

lemma serialize_fits:
  assumes "serialize cl d rv = Ok v"
  shows "value_fits d v"
proof (cases rv)
  case (RS_bool b)
  with assms show ?thesis by (auto simp: from_bool_def split: if_splits)
next
  case (RS_f32 f)
  with assms show ?thesis
    by (cases "pd_type_id d") (auto simp: from_f32_def res_simps fits_decimal split: if_splits)
next
  case (RS_f64 f)
  with assms show ?thesis
    by (cases "pd_type_id d") (auto simp: from_f64_def res_simps fits_decimal split: if_splits)
next
  case (RS_char c)
  with assms show ?thesis by (auto simp: from_char_def split: if_splits)
next
  case (RS_str t)
  with assms show ?thesis
    by (cases "pd_type_id d") (auto simp: from_str_def res_simps fits_decimal intro: fits_string split: if_splits)
next
  case (RS_bytes bs)
  with assms show ?thesis
    by (cases "pd_type_id d") (auto simp: from_bytes_def res_simps fits_binary intro: fits_string split: if_splits)
next
  case RS_none
  with assms show ?thesis by (auto simp: from_none_def split: if_splits)
qed (use assms in \<open>simp_all add: from_i8_fits from_i16_fits from_i32_fits from_i64_fits from_u8_fits from_u16_fits from_u32_fits from_u64_fits\<close>)

lemma check_parameters_fit:
  "list_all2 value_fits ds vs \<Longrightarrow> check_parameters vs ds = Ok ()"
proof (induction ds vs rule: list_all2_induct)
  case (Cons d ds v vs)
  then show ?case by (auto simp: value_fits_def)
qed simp

text \<open>C30: A row of which every value was serialized for its parameter is accepted: the check by which a
  batch and \<open>execute_row\<close> refuse rows agrees with the choice of values in the serializer.\<close>

theorem serialized_rows_fit:
  assumes "list_all2 (\<lambda>d v. \<exists>rv. serialize cl d rv = Ok v) (iter_in ds) vs"
  shows "push_hdb_values vs ds rows = Ok (rows @ [vs])"
proof -
  have "list_all2 value_fits (iter_in ds) vs"
    by (rule list_all2_mono [OF assms]) (use serialize_fits in blast)
  then show ?thesis
    by (simp add: push_hdb_values_def parameter_row_new_def check_parameters_fit)
qed

definition serde_descriptor :: "type_id \<Rightarrow> parameter_descriptor" where
  "serde_descriptor t = \<lparr>pd_option = 2, pd_type_id = t, pd_nullable = True, pd_scale = 0,
     pd_precision = 0, pd_direction = IN, pd_name = None\<rparr>"

lemma sample_iter_in: "iter_in (map serde_descriptor ts) = map serde_descriptor ts"
  by (induction ts) (simp_all add: iter_in_def serde_descriptor_def)

theorem serialized_rows_fit_witness:
  "push_hdb_values [HV_SMALLINT (- 5), HV_BINARY [1, 2]] (map serde_descriptor [TY_SMALLINT, TY_BLOB]) []
    = Ok [[HV_SMALLINT (- 5), HV_BINARY [1, 2]]]"
proof -
  have s: "serialize ref_conv (serde_descriptor TY_SMALLINT) (RS_i64 (- 5)) = Ok (HV_SMALLINT (- 5))"
    by (simp add: from_i64_def serde_descriptor_def ser_cast_def num_cast_def in_type_def)
  have b: "serialize ref_conv (serde_descriptor TY_BLOB) (RS_bytes [1, 2]) = Ok (HV_BINARY [1, 2])"
    by (simp add: from_bytes_def serde_descriptor_def)
  have "list_all2 (\<lambda>d v. \<exists>rv. serialize ref_conv d rv = Ok v)
      (map serde_descriptor [TY_SMALLINT, TY_BLOB]) [HV_SMALLINT (- 5), HV_BINARY [1, 2]]"
    unfolding list.map list_all2_Cons list_all2_Nil using s b by blast
  then have "list_all2 (\<lambda>d v. \<exists>rv. serialize ref_conv d rv = Ok v)
      (iter_in (map serde_descriptor [TY_SMALLINT, TY_BLOB])) [HV_SMALLINT (- 5), HV_BINARY [1, 2]]"
    by (simp only: sample_iter_in)
  from serialized_rows_fit [OF this, of "[]"] show ?thesis by simp
qed

section \<open>Integers there and back\<close>

lemma of_string_show: "in_type sg LENGTH('a::len) i \<Longrightarrow> of_string sg (show_int i) = Ok (word_of_int i :: 'a word)"
  by (simp add: of_string_def int_from_show)

lemma of_string_own [simp]:
  "of_string True (show_int (sint w)) = Ok (w :: 'a::len word)"
  "of_string False (show_int (uint w)) = Ok (w :: 'a::len word)"
  using of_string_show [OF sint_in_type [of w]] of_string_show [OF uint_in_type [of w]] by simp_all

lemma cast_or_range_own [simp]:
  "cast_or_range True ovt (sint w) = Ok (w :: 'a::len word)"
  "cast_or_range False ovt (uint w) = Ok (w :: 'a::len word)"
  by (simp_all add: cast_or_range_def)

lemma ser_cast_Ok:
  "ser_cast sg t d i = Ok (w :: 'a::len word) \<longleftrightarrow> in_type sg LENGTH('a) i \<and> w = word_of_int i"
  by (auto simp: ser_cast_def num_cast_def)

lemma sint_of_in_type: "in_type True LENGTH('a::len) i \<Longrightarrow> sint (word_of_int i :: 'a word) = i"
  by (simp add: in_type_def signed_of_int signed_take_bit_int_eq_self)

lemma uint_of_in_type: "in_type False LENGTH('a::len) i \<Longrightarrow> uint (word_of_int i :: 'a word) = i"
  by (simp add: in_type_def unsigned_of_int take_bit_int_eq_self)


text \<open>The number that a value of one of the integer types is.\<close>

fun whole_number :: "hdb_value \<Rightarrow> int option" where
  "whole_number (HV_TINYINT u) = Some (uint u)"
| "whole_number (HV_SMALLINT i) = Some (sint i)"
| "whole_number (HV_INT i) = Some (sint i)"
| "whole_number (HV_BIGINT i) = Some (sint i)"
| "whole_number _ = None"

definition exact_or :: "conversion_error \<Rightarrow> bool \<Rightarrow> int \<Rightarrow> ('a::len word, conversion_error) res" where
  "exact_or e sg n = (if in_type sg LENGTH('a) n then Ok (word_of_int n) else Err e)"

lemma cast_or_range_exact: "cast_or_range sg ovt n = exact_or (number_range n ovt) sg n"
  by (simp add: cast_or_range_def num_cast_def exact_or_def)

lemma two_power_mono: "v \<le> w \<Longrightarrow> (2::int) ^ v \<le> 2 ^ w"
  by simp

lemma in_type_mono_signed: "v \<le> w \<Longrightarrow> in_type True v n \<Longrightarrow> in_type True w n"
  using two_power_mono [of "v - 1" "w - 1"] diff_le_mono [of v w 1]
  unfolding in_type_def if_True by linarith

lemma in_type_mono_unsigned: "v \<le> w \<Longrightarrow> in_type False v n \<Longrightarrow> in_type False w n"
  using two_power_mono [of v w] unfolding in_type_def if_False by linarith

lemma in_type_to_signed:
  assumes "v < w" "in_type False v n"
  shows "in_type True w n"
proof -
  have "v \<le> w - 1" using assms(1) by linarith
  from two_power_mono [OF this] show ?thesis using assms(2)
    unfolding in_type_def if_True if_False by linarith
qed

lemma uint_exact:
  "LENGTH('b::len) \<le> LENGTH('a::len) \<Longrightarrow> exact_or e False (uint (u :: 'b word)) = Ok (ucast u :: 'a word)"
  "LENGTH('b) < LENGTH('a) \<Longrightarrow> exact_or e True (uint u) = Ok (ucast u :: 'a word)"
  using in_type_mono_unsigned [OF _ uint_in_type [of u]] in_type_to_signed [OF _ uint_in_type [of u]]
  by (simp_all add: exact_or_def)

lemma sint_exact:
  "LENGTH('b::len) \<le> LENGTH('a::len) \<Longrightarrow> exact_or e True (sint (i :: 'b word)) = Ok (scast i :: 'a word)"
  using in_type_mono_signed [OF _ sint_in_type [of i]] by (simp add: exact_or_def)

lemmas exact_simps = cast_or_range_exact uint_exact sint_exact

lemma into_i8_whole:
  "whole_number v = Some n \<Longrightarrow> into_i8 cl v = exact_or (number_range n ''i8'') True n"
  by (cases v) (auto simp: into_i8_def exact_simps)

lemma into_i16_whole:
  "whole_number v = Some n \<Longrightarrow> into_i16 cl v = exact_or (number_range n ''u8'') True n"
  by (cases v) (auto simp: into_i16_def exact_simps)

lemma into_i32_whole:
  "whole_number v = Some n \<Longrightarrow> into_i32 cl v = exact_or (number_range n ''i32'') True n"
  by (cases v) (auto simp: into_i32_def exact_simps)

lemma into_i64_whole:
  "whole_number v = Some n \<Longrightarrow> into_i64 cl v = exact_or (number_range n ''i64'') True n"
  by (cases v) (auto simp: into_i64_def exact_simps)

lemma into_u8_whole:
  "whole_number v = Some n \<Longrightarrow> into_u8 cl v = exact_or (number_range n ''u8'') False n"
  by (cases v) (auto simp: into_u8_def exact_simps)

lemma into_u16_whole:
  "whole_number v = Some n \<Longrightarrow> into_u16 cl v = exact_or (number_range n ''u16'') False n"
  by (cases v) (auto simp: into_u16_def exact_simps)

lemma into_u32_whole:
  "whole_number v = Some n \<Longrightarrow> into_u32 cl v = exact_or (number_range n ''u32'') False n"
  by (cases v) (auto simp: into_u32_def exact_simps)

lemma into_u64_whole:
  "whole_number v = Some n \<Longrightarrow> into_u64 cl v = exact_or (number_range n ''u64'') False n"
  by (cases v) (auto simp: into_u64_def exact_simps)

text \<open>C33: Between integers a conversion is exact: an integer type gets the number of the value if it can hold
  it and a range error otherwise, whatever integer type the column has; the range error of \<^verbatim>\<open>i16\<close>
  names the type \<^verbatim>\<open>u8\<close>.\<close>

theorem whole_numbers_exact:
  assumes "whole_number v = Some n"
  shows "into_i8 cl v = exact_or (number_range n ''i8'') True n
    \<and> into_i16 cl v = exact_or (number_range n ''u8'') True n
    \<and> into_i32 cl v = exact_or (number_range n ''i32'') True n
    \<and> into_i64 cl v = exact_or (number_range n ''i64'') True n
    \<and> into_u8 cl v = exact_or (number_range n ''u8'') False n
    \<and> into_u16 cl v = exact_or (number_range n ''u16'') False n
    \<and> into_u32 cl v = exact_or (number_range n ''u32'') False n
    \<and> into_u64 cl v = exact_or (number_range n ''u64'') False n"
  using assms by (simp add: into_i8_whole into_i16_whole into_i32_whole into_i64_whole into_u8_whole into_u16_whole into_u32_whole into_u64_whole)

theorem whole_numbers_exact_witness:
  "into_i8 ref_conv (HV_BIGINT (- 128)) = Ok (- 128) \<and>
   into_i8 ref_conv (HV_BIGINT (- 129)) = Err (number_range (- 129) ''i8'')"
  using whole_numbers_exact [of "HV_BIGINT (- 128)" "- 128" ref_conv]
    whole_numbers_exact [of "HV_BIGINT (- 129)" "- 129" ref_conv]
  by (simp add: exact_or_def in_type_def)

text \<open>The values that are built for an integer: of an integer type, a decimal, or its text.\<close>

definition integer_shape :: "'dt conv_lib \<Rightarrow> int \<Rightarrow> hdb_value \<Rightarrow> bool" where
  "integer_shape cl n v \<longleftrightarrow>
     whole_number v = Some n \<or> (\<exists>x. bd_from_int cl n = Some x \<and> v = HV_DECIMAL x) \<or> v = HV_STRING (show_int n)"

lemma integer_shape_simps [simp]:
  "bd_from_int cl n = Some x \<Longrightarrow> integer_shape cl n (HV_DECIMAL x)"
  "integer_shape cl n (HV_STRING (show_int n))"
  "integer_shape cl (sint i) (HV_SMALLINT i)" "integer_shape cl (sint j) (HV_INT j)"
  "integer_shape cl (sint k) (HV_BIGINT k)" "integer_shape cl (uint u) (HV_TINYINT u)"
  by (simp_all add: integer_shape_def)

lemma ser_cast_shape:
  "ser_cast False t d n = Ok u \<Longrightarrow> integer_shape cl n (HV_TINYINT u)"
  "ser_cast True t d n = Ok i \<Longrightarrow> integer_shape cl n (HV_SMALLINT i)"
  "ser_cast True t d n = Ok j \<Longrightarrow> integer_shape cl n (HV_INT j)"
  "ser_cast True t d n = Ok k \<Longrightarrow> integer_shape cl n (HV_BIGINT k)"
  by (auto simp: ser_cast_Ok integer_shape_def sint_of_in_type uint_of_in_type simp del: of_int_sint of_int_uint)

lemma sint_scast: "LENGTH('b::len) \<le> LENGTH('a::len) \<Longrightarrow> sint (scast (i :: 'b word) :: 'a word) = sint i"
  using sint_of_in_type [OF in_type_mono_signed [OF _ sint_in_type [of i]], where 'a = 'a] by simp

lemma sint_ucast: "LENGTH('b::len) < LENGTH('a::len) \<Longrightarrow> sint (ucast (u :: 'b word) :: 'a word) = uint u"
  using sint_of_in_type [OF in_type_to_signed [OF _ uint_in_type [of u]], where 'a = 'a] by simp

lemma integer_shape_widen:
  "integer_shape cl (sint (i :: i8)) (HV_SMALLINT (scast i))" "integer_shape cl (sint i) (HV_INT (scast i))"
  "integer_shape cl (sint i) (HV_BIGINT (scast i))" "integer_shape cl (sint (j :: i16)) (HV_INT (scast j))"
  "integer_shape cl (sint j) (HV_BIGINT (scast j))" "integer_shape cl (sint (k :: i32)) (HV_BIGINT (scast k))"
  "integer_shape cl (uint (u :: u8)) (HV_SMALLINT (ucast u))" "integer_shape cl (uint u) (HV_INT (ucast u))"
  "integer_shape cl (uint u) (HV_BIGINT (ucast u))" "integer_shape cl (uint (x :: u16)) (HV_INT (ucast x))"
  "integer_shape cl (uint x) (HV_BIGINT (ucast x))" "integer_shape cl (uint (y :: u32)) (HV_BIGINT (ucast y))"
  by (simp_all add: integer_shape_def sint_scast sint_ucast)

lemmas shape_simps = ser_decimal_Ok res_simps integer_shape_widen

lemma from_i8_shape: "from_i8 cl d a = Ok v \<Longrightarrow> integer_shape cl (sint a) v"
  by (cases "pd_type_id d") (auto simp: from_i8_def shape_simps intro: ser_cast_shape split: if_splits)

lemma from_i16_shape: "from_i16 cl d a = Ok v \<Longrightarrow> integer_shape cl (sint a) v"
  by (cases "pd_type_id d") (auto simp: from_i16_def shape_simps intro: ser_cast_shape split: if_splits)

lemma from_i32_shape: "from_i32 cl d a = Ok v \<Longrightarrow> pd_type_id d \<notin> {TY_DAYDATE, TY_SECONDTIME} \<Longrightarrow> integer_shape cl (sint a) v"
  by (cases "pd_type_id d") (auto simp: from_i32_def shape_simps intro: ser_cast_shape split: if_splits)

lemma from_i64_shape: "from_i64 cl d a = Ok v \<Longrightarrow> pd_type_id d \<notin> {TY_LONGDATE, TY_SECONDDATE} \<Longrightarrow> integer_shape cl (sint a) v"
  by (cases "pd_type_id d") (auto simp: from_i64_def shape_simps intro: ser_cast_shape split: if_splits)

lemma from_u8_shape: "from_u8 cl d a = Ok v \<Longrightarrow> integer_shape cl (uint a) v"
  by (cases "pd_type_id d") (auto simp: from_u8_def shape_simps intro: ser_cast_shape split: if_splits)

lemma from_u16_shape: "from_u16 cl d a = Ok v \<Longrightarrow> integer_shape cl (uint a) v"
  by (cases "pd_type_id d") (auto simp: from_u16_def shape_simps intro: ser_cast_shape split: if_splits)

lemma from_u32_shape: "from_u32 cl d a = Ok v \<Longrightarrow> integer_shape cl (uint a) v"
  by (cases "pd_type_id d") (auto simp: from_u32_def shape_simps intro: ser_cast_shape split: if_splits)

lemma from_u64_shape: "from_u64 cl d a = Ok v \<Longrightarrow> integer_shape cl (uint a) v"
  by (cases "pd_type_id d") (auto simp: from_u64_def shape_simps intro: ser_cast_shape split: if_splits)

lemma exact_or_own [simp]:
  "exact_or e True (sint (a :: 'a::len word)) = Ok a" "exact_or e False (uint a) = Ok a"
  by (simp_all add: exact_or_def sint_in_type uint_in_type)

lemma of_decimal_own:
  assumes "conv_crates cl"
  shows "bd_from_int cl (sint (a :: 'a::len word)) = Some x \<Longrightarrow> of_decimal cl True t x = Ok a"
    and "bd_from_int cl (uint a) = Some x \<Longrightarrow> of_decimal cl False t x = Ok a"
  using conv_crates.to_from_int [OF assms _ sint_in_type [of a]] conv_crates.to_from_int [OF assms _ uint_in_type [of a]]
  by (simp_all add: of_decimal_def)

lemma integer_shapeE:
  assumes "integer_shape cl n v"
  obtains (whole) "whole_number v = Some n"
    | (decimal) x where "bd_from_int cl n = Some x" "v = HV_DECIMAL x"
    | (shown) "v = HV_STRING (show_int n)"
  using assms by (auto simp: integer_shape_def)

lemma into_i8_shape: "conv_crates cl \<Longrightarrow> integer_shape cl (sint a) v \<Longrightarrow> into_i8 cl v = Ok a"
  by (erule integer_shapeE) (simp_all add: into_i8_whole, simp_all add: into_i8_def of_decimal_own)

lemma into_i16_shape: "conv_crates cl \<Longrightarrow> integer_shape cl (sint a) v \<Longrightarrow> into_i16 cl v = Ok a"
  by (erule integer_shapeE) (simp_all add: into_i16_whole, simp_all add: into_i16_def of_decimal_own)

lemma into_i32_shape: "conv_crates cl \<Longrightarrow> integer_shape cl (sint a) v \<Longrightarrow> into_i32 cl v = Ok a"
  by (erule integer_shapeE) (simp_all add: into_i32_whole, simp_all add: into_i32_def of_decimal_own)

lemma into_i64_shape: "conv_crates cl \<Longrightarrow> integer_shape cl (sint a) v \<Longrightarrow> into_i64 cl v = Ok a"
  by (erule integer_shapeE) (simp_all add: into_i64_whole, simp_all add: into_i64_def of_decimal_own)

lemma into_u8_shape: "conv_crates cl \<Longrightarrow> integer_shape cl (uint a) v \<Longrightarrow> into_u8 cl v = Ok a"
  by (erule integer_shapeE) (simp_all add: into_u8_whole, simp_all add: into_u8_def of_decimal_own)

lemma into_u16_shape: "conv_crates cl \<Longrightarrow> integer_shape cl (uint a) v \<Longrightarrow> into_u16 cl v = Ok a"
  by (erule integer_shapeE) (simp_all add: into_u16_whole, simp_all add: into_u16_def of_decimal_own)

lemma into_u32_shape: "conv_crates cl \<Longrightarrow> integer_shape cl (uint a) v \<Longrightarrow> into_u32 cl v = Ok a"
  by (erule integer_shapeE) (simp_all add: into_u32_whole, simp_all add: into_u32_def of_decimal_own)

lemma into_u64_shape: "conv_crates cl \<Longrightarrow> integer_shape cl (uint a) v \<Longrightarrow> into_u64 cl v = Ok a"
  by (erule integer_shapeE) (simp_all add: into_u64_whole, simp_all add: into_u64_def of_decimal_own)

lemma into_i64_dates:
  "pd_type_id d \<in> {TY_LONGDATE, TY_SECONDDATE} \<Longrightarrow> from_i64 cl d a = Ok v \<Longrightarrow> into_i64 cl v = Ok a"
  by (auto simp: from_i64_def into_i64_def)

lemma from_i32_dates:
  assumes "pd_type_id d \<in> {TY_DAYDATE, TY_SECONDTIME}" "from_i32 cl d a = Ok v"
  shows "into_i32 cl v = Err (wrong_type ''i32'')"
proof (cases "pd_type_id d = TY_DAYDATE")
  case True
  then have "\<exists>x. v = HV_DAYDATE x" using assms(2) by (simp add: from_i32_def res_map_Ok_iff) metis
  then show ?thesis by (auto simp: into_i32_def)
next
  case False
  then have "\<exists>x. v = HV_SECONDTIME x" using assms by (simp add: from_i32_def res_map_Ok_iff) metis
  then show ?thesis by (auto simp: into_i32_def)
qed

text \<open>C29: An integer that could be serialized for its parameter comes back as it was, for each of the eight
  integer types and every type of the parameter but two: an \<^verbatim>\<open>i32\<close> that was accepted for a DAYDATE or
  SECONDTIME parameter becomes a date or time, and reading that as an \<^verbatim>\<open>i32\<close> is always refused as a
  wrong type.\<close>

theorem integers_roundtrip:
  assumes "conv_crates cl"
  shows "(\<forall>a v. from_i8 cl d a = Ok v \<longrightarrow> into_i8 cl v = Ok a)
    \<and> (\<forall>a v. from_i16 cl d a = Ok v \<longrightarrow> into_i16 cl v = Ok a)
    \<and> (\<forall>a v. from_i32 cl d a = Ok v \<and> pd_type_id d \<notin> {TY_DAYDATE, TY_SECONDTIME} \<longrightarrow> into_i32 cl v = Ok a)
    \<and> (\<forall>a v. from_i32 cl d a = Ok v \<and> pd_type_id d \<in> {TY_DAYDATE, TY_SECONDTIME} \<longrightarrow>
         into_i32 cl v = Err (wrong_type ''i32''))
    \<and> (\<forall>a v. from_i64 cl d a = Ok v \<longrightarrow> into_i64 cl v = Ok a)
    \<and> (\<forall>a v. from_u8 cl d a = Ok v \<longrightarrow> into_u8 cl v = Ok a)
    \<and> (\<forall>a v. from_u16 cl d a = Ok v \<longrightarrow> into_u16 cl v = Ok a)
    \<and> (\<forall>a v. from_u32 cl d a = Ok v \<longrightarrow> into_u32 cl v = Ok a)
    \<and> (\<forall>a v. from_u64 cl d a = Ok v \<longrightarrow> into_u64 cl v = Ok a)"
proof -
  have a0: "(\<forall>a v. from_i8 cl d a = Ok v \<longrightarrow> into_i8 cl v = Ok a)"
    using into_i8_shape [OF assms] from_i8_shape by blast
  have a1: "(\<forall>a v. from_i16 cl d a = Ok v \<longrightarrow> into_i16 cl v = Ok a)"
    using into_i16_shape [OF assms] from_i16_shape by blast
  have a2: "(\<forall>a v. from_i32 cl d a = Ok v \<and> pd_type_id d \<notin> {TY_DAYDATE, TY_SECONDTIME} \<longrightarrow> into_i32 cl v = Ok a)"
    using into_i32_shape [OF assms] from_i32_shape by blast
  have a2': "(\<forall>a v. from_i32 cl d a = Ok v \<and> pd_type_id d \<in> {TY_DAYDATE, TY_SECONDTIME} \<longrightarrow>
      into_i32 cl v = Err (wrong_type ''i32''))"
    using from_i32_dates by blast
  have a3: "(\<forall>a v. from_i64 cl d a = Ok v \<longrightarrow> into_i64 cl v = Ok a)"
    using into_i64_shape [OF assms] from_i64_shape into_i64_dates by blast
  have a4: "(\<forall>a v. from_u8 cl d a = Ok v \<longrightarrow> into_u8 cl v = Ok a)"
    using into_u8_shape [OF assms] from_u8_shape by blast
  have a5: "(\<forall>a v. from_u16 cl d a = Ok v \<longrightarrow> into_u16 cl v = Ok a)"
    using into_u16_shape [OF assms] from_u16_shape by blast
  have a6: "(\<forall>a v. from_u32 cl d a = Ok v \<longrightarrow> into_u32 cl v = Ok a)"
    using into_u32_shape [OF assms] from_u32_shape by blast
  have a7: "(\<forall>a v. from_u64 cl d a = Ok v \<longrightarrow> into_u64 cl v = Ok a)"
    using into_u64_shape [OF assms] from_u64_shape by blast
  show ?thesis by (intro conjI a0 a1 a2 a2' a3 a4 a5 a6 a7)
qed

theorem integers_roundtrip_witness:
  "from_i64 ref_conv (serde_descriptor TY_VARCHAR) (- 17) = Ok (HV_STRING (show_int (- 17)))
   \<and> into_i64 ref_conv (HV_STRING (show_int (- 17))) = Ok (- 17)"
proof -
  have f: "from_i64 ref_conv (serde_descriptor TY_VARCHAR) (- 17) = Ok (HV_STRING (show_int (- 17)))"
    by (simp add: from_i64_def serde_descriptor_def type_sets)
  with integers_roundtrip [OF ref_conv.conv_crates_axioms, of "serde_descriptor TY_VARCHAR"] show ?thesis by blast
qed

text \<open>The values a serializer call panics on.\<close>

definition bad_date :: "parameter_descriptor \<Rightarrow> rust_value \<Rightarrow> bool" where
  "bad_date d rv =
     (case rv of
        RS_i32 i \<Rightarrow> pd_type_id d = TY_DAYDATE \<and> \<not> (0 \<le> sint i \<and> sint i < 3652062)
          \<or> pd_type_id d = TY_SECONDTIME \<and> \<not> (0 \<le> sint i \<and> sint i < 86402)
      | _ \<Rightarrow> False)"

lemma ok_or_not_Panic [simp]: "ok_or o_a e \<noteq> Panic"
  by (cases o_a) simp_all

lemma res_map_Panic [simp]: "res_map f r = Panic \<longleftrightarrow> r = Panic" "res_map_err g r = Panic \<longleftrightarrow> r = Panic"
  by (cases r; simp)+

lemma ser_not_Panic [simp]: "ser_cast sg t d n \<noteq> Panic" "ser_decimal cl t n \<noteq> Panic"
  "map_i s o_i \<noteq> Panic" "map_f s o_f \<noteq> Panic" "map_bd s o_d \<noteq> Panic" "from_utf8 bs \<noteq> Panic"
  by (simp_all add: ser_cast_def ser_decimal_def map_i_def map_f_def map_bd_def from_utf8_def)

lemma dates_Panic:
  "daydate_new i = Panic \<longleftrightarrow> \<not> (0 \<le> sint i \<and> sint i < 3652062)"
  "secondtime_new i = Panic \<longleftrightarrow> \<not> (0 \<le> sint i \<and> sint i < 86402)"
  by (auto simp: daydate_new_def secondtime_new_def daydate_null_def secondtime_null_def)

lemma from_i8_total [simp]: "from_i8 cl d a \<noteq> Panic"
  by (cases "pd_type_id d") (simp_all add: from_i8_def)

lemma from_i16_total [simp]: "from_i16 cl d a \<noteq> Panic"
  by (cases "pd_type_id d") (simp_all add: from_i16_def)

lemma from_i64_total [simp]: "from_i64 cl d a \<noteq> Panic"
  by (cases "pd_type_id d") (simp_all add: from_i64_def)

lemma from_u8_total [simp]: "from_u8 cl d a \<noteq> Panic"
  by (cases "pd_type_id d") (simp_all add: from_u8_def)

lemma from_u16_total [simp]: "from_u16 cl d a \<noteq> Panic"
  by (cases "pd_type_id d") (simp_all add: from_u16_def)

lemma from_u32_total [simp]: "from_u32 cl d a \<noteq> Panic"
  by (cases "pd_type_id d") (simp_all add: from_u32_def)

lemma from_u64_total [simp]: "from_u64 cl d a \<noteq> Panic"
  by (cases "pd_type_id d") (simp_all add: from_u64_def)

lemma from_f32_total [simp]: "from_f32 cl d a \<noteq> Panic"
  by (cases "pd_type_id d") (simp_all add: from_f32_def)

lemma from_f64_total [simp]: "from_f64 cl d a \<noteq> Panic"
  by (cases "pd_type_id d") (simp_all add: from_f64_def)

lemma from_str_total [simp]: "from_str cl d a \<noteq> Panic"
  by (cases "pd_type_id d") (simp_all add: from_str_def)

lemma from_rest_total [simp]:
  "from_bool d b \<noteq> Panic" "from_char d c \<noteq> Panic" "from_none d \<noteq> Panic" "from_bytes d bs \<noteq> Panic"
  by (simp_all add: from_bool_def from_char_def from_none_def from_bytes_def split: type_id.split)

lemma from_i32_Panic: "from_i32 cl d i = Panic \<longleftrightarrow> bad_date d (RS_i32 i)"
  by (cases "pd_type_id d") (simp_all add: from_i32_def bad_date_def dates_Panic)

text \<open>C34: Serializing a value panics exactly if it is an \<^verbatim>\<open>i32\<close> for a parameter of type DAYDATE or SECONDTIME
  outside of the range of that type, where all other values that do not fit are errors.\<close>

theorem serialize_panics_iff: "serialize cl d rv = Panic \<longleftrightarrow> bad_date d rv"
  by (cases rv) (simp_all add: from_i32_Panic, simp_all add: bad_date_def)

end
