(* ===== verification/Hdb_Float.thy ===== *)
theory Hdb_Float
  imports Complex_Main Hdb_Dates
begin

text \<open>
  What the computation with doubles of the date types amounts to: every operation is the exact result
  up to a relative error of \<open>2 ^ -53\<close>, and the exact result itself where that is a double. Truncation
  then gives the integer quotient as long as the exact result stays away from the integers.
\<close>

section \<open>The value of a double\<close>

fun fval :: "f64 \<Rightarrow> real" where
  "fval (F64 m e) = of_int m * 2 powi e"

lemma shift_up_pos: "0 < d \<Longrightarrow> 0 < shift_up e d"
  by (simp add: shift_up_def)

lemma shift_ratio:
  "real_of_int (shift_up e n) / real_of_int (shift_up (- e) d) = of_int n / of_int d * 2 powi e"
proof (cases "e \<ge> 0")
  case True
  then obtain k where "e = int k" by (metis nonneg_int_cases)
  then show ?thesis by (cases "k = 0") (simp_all add: shift_up_def)
next
  case False
  define k where "k = nat (- e)"
  have "(2::real) powi e = inverse (2 ^ k)"
    unfolding power_int_def using False by (simp add: k_def power_one_over inverse_eq_divide)
  moreover have "shift_up e n = n" "shift_up (- e) d = d * 2 ^ k"
    using False by (simp_all add: shift_up_def k_def)
  ultimately show ?thesis by (simp add: divide_inverse)
qed

lemma bit_length_bounds:
  assumes "0 < n"
  shows "1 \<le> bit_length n \<and> 2 powi (bit_length n - 1) \<le> real_of_int n \<and> real_of_int n < 2 powi bit_length n"
  using assms
proof (induction n rule: bit_length.induct)
  case (1 n)
  show ?case
  proof (cases "n = 1")
    case True
    then show ?thesis by (simp add: bit_length.simps)
  next
    case False
    with 1 have n2: "0 < n div 2" by linarith
    define b where "b = bit_length (n div 2)"
    from 1 n2 have b: "1 \<le> b" "2 powi (b - 1) \<le> real_of_int (n div 2)" "real_of_int (n div 2) < 2 powi b"
      by (simp_all add: b_def)
    have len: "bit_length n = b + 1" using 1(2) by (subst bit_length.simps) (simp add: b_def)
    obtain k where k: "b = int (Suc k)" using b(1) by (cases "nat b") (auto simp: nat_eq_iff)
    have p: "(2::real) powi (b - 1) = of_int (2 ^ k)" "(2::real) powi b = of_int (2 ^ Suc k)"
      "(2::real) powi (b + 1) = of_int (2 ^ Suc (Suc k))"
      by (simp_all add: k power_int_def nat_add_distrib)
    have "2 ^ k \<le> n div 2" "n div 2 < 2 ^ Suc k"
      using b(2,3) unfolding p of_int_le_iff of_int_less_iff by simp_all
    then have "2 ^ Suc k \<le> n" "n < 2 ^ Suc (Suc k)" by simp_all
    then show ?thesis using b(1) unfolding len add_diff_cancel_right' p of_int_le_iff of_int_less_iff by simp
  qed
qed

lemma div_half_even_error: "0 < d \<Longrightarrow> \<bar>real_of_int (div_half_even n d) - of_int n / of_int d\<bar> \<le> 1 / 2"
proof -
  assume d: "0 < d"
  have n: "real_of_int n = of_int d * of_int (n div d) + of_int (n mod d)"
    by (metis mult_div_mod_eq of_int_add of_int_mult)
  have r: "0 \<le> n mod d" "n mod d < d" using d by simp_all
  have q: "of_int n / of_int d = of_int (n div d) + real_of_int (n mod d) / of_int d"
    using d by (simp add: n add_divide_distrib)
  have up: "2 * (n mod d) \<ge> d \<Longrightarrow> \<bar>real_of_int (n mod d) / of_int d - 1\<bar> \<le> 1 / 2"
    using d r by (simp add: field_simps abs_if)
  have down: "2 * (n mod d) \<le> d \<Longrightarrow> \<bar>real_of_int (n mod d) / of_int d\<bar> \<le> 1 / 2"
    using d r by (simp add: field_simps)
  show ?thesis
    using up down unfolding q by (auto simp: div_half_even_def Let_def abs_minus_commute)
qed

lemma div_half_even_exact: "0 < d \<Longrightarrow> div_half_even (k * d) d = k"
  by (simp add: div_half_even_def)

section \<open>Rounding\<close>

text \<open>The scaled quotient that is rounded to the mantissa has 53 binary digits.\<close>

lemma f64_ratio_mantissa:
  assumes "0 < d" "n \<noteq> 0"
  obtains e where "f64_ratio n d = F64 (div_half_even (shift_up (- e) n) (shift_up e d)) e"
    and "2 ^ 52 \<le> \<bar>real_of_int n / of_int d * 2 powi (- e)\<bar>" "\<bar>of_int n / of_int d * 2 powi (- e)\<bar> < (2::real) ^ 53"
proof -
  define a where "a = bit_length \<bar>n\<bar> - bit_length d - 53"
  define x where "x = \<bar>real_of_int n / of_int d\<bar>"
  have bn: "2 powi (bit_length \<bar>n\<bar> - 1) \<le> real_of_int \<bar>n\<bar>" "real_of_int \<bar>n\<bar> < 2 powi bit_length \<bar>n\<bar>"
    using bit_length_bounds [of "\<bar>n\<bar>"] assms(2) by auto
  have bd: "2 powi (bit_length d - 1) \<le> real_of_int d" "real_of_int d < 2 powi bit_length d"
    using bit_length_bounds [OF assms(1)] by auto
  have xd: "x = real_of_int \<bar>n\<bar> / of_int d" using assms(1) by (simp add: x_def)
  have split: "(2::real) powi (bit_length \<bar>n\<bar> - 1) = 2 powi (a + 52) * 2 powi bit_length d"
    "(2::real) powi bit_length \<bar>n\<bar> = 2 powi (a + 54) * 2 powi (bit_length d - 1)"
    by (simp_all flip: power_int_add add: a_def algebra_simps)
  have lo: "2 powi (a + 52) \<le> x"
  proof -
    have "2 powi (a + 52) * real_of_int d \<le> 2 powi (a + 52) * 2 powi bit_length d"
      by (rule mult_left_mono) (use bd in simp_all)
    with bn(1) split(1) have "2 powi (a + 52) * real_of_int d \<le> real_of_int \<bar>n\<bar>" by linarith
    then show ?thesis using assms(1) by (simp add: xd pos_le_divide_eq)
  qed
  have hi: "x < 2 powi (a + 54)"
  proof -
    have "2 powi (a + 54) * 2 powi (bit_length d - 1) \<le> 2 powi (a + 54) * real_of_int d"
      by (rule mult_left_mono) (use bd in simp_all)
    with bn(2) split(2) have "real_of_int \<bar>n\<bar> < 2 powi (a + 54) * real_of_int d" by linarith
    then show ?thesis using assms(1) by (simp add: xd pos_divide_less_eq)
  qed
  define c where "c \<longleftrightarrow> \<bar>shift_up (- a) n\<bar> < 2 ^ 53 * shift_up a d"
  define e where "e = (if c then a else a + 1)"
  have pos: "0 < shift_up a d" by (rule shift_up_pos [OF assms(1)])
  have "c \<longleftrightarrow> real_of_int \<bar>shift_up (- a) n\<bar> < 2 ^ 53 * real_of_int (shift_up a d)"
    unfolding c_def by (metis of_int_less_iff of_int_mult of_int_numeral of_int_power)
  also have "\<dots> \<longleftrightarrow> \<bar>real_of_int (shift_up (- a) n) / of_int (shift_up (- (- a)) d)\<bar> < 2 ^ 53"
    using pos by (simp add: pos_divide_less_eq)
  also have "\<dots> \<longleftrightarrow> x * 2 powi (- a) < 2 ^ 53"
    unfolding shift_ratio by (simp add: x_def abs_mult)
  finally have c: "c \<longleftrightarrow> x * 2 powi (- a) < 2 ^ 53" .
  have e2: "(2::real) powi (b + 1) = 2 * 2 powi b" for b :: int
    by (simp add: power_int_add)
  have lo': "2 ^ 52 \<le> x * 2 powi (- a)" and hi': "x * 2 powi (- a) < 2 ^ 54"
  proof -
    have "2 powi (a + 52) * 2 powi (- a) = (2::real) powi 52" "2 powi (a + 54) * 2 powi (- a) = (2::real) powi 54"
      by (simp_all flip: power_int_add)
    then show "2 ^ 52 \<le> x * 2 powi (- a)" "x * 2 powi (- a) < 2 ^ 54"
      using mult_right_mono [OF lo, of "2 powi (- a)"] mult_strict_right_mono [OF hi, of "2 powi (- a)"] by simp_all
  qed
  have half: "x * 2 powi (- (a + 1)) = x * 2 powi (- a) / 2"
  proof -
    have "2 powi (- a) = 2 * (2::real) powi (- (a + 1))" using e2 [of "- (a + 1)"] by simp
    then show ?thesis by (simp only: mult.left_commute [of x] nonzero_mult_div_cancel_left)
  qed
  have abs: "\<bar>of_int n / of_int d * 2 powi (- e)\<bar> = x * (2::real) powi (- e)" by (simp add: x_def abs_mult)
  have range: "2 ^ 52 \<le> x * 2 powi (- e) \<and> x * 2 powi (- e) < 2 ^ 53"
  proof (cases c)
    case True
    with lo' c show ?thesis by (simp add: e_def)
  next
    case False
    then have e: "e = a + 1" and b: "2 ^ 53 \<le> x * 2 powi (- a)" using c by (simp_all add: e_def)
    have "2 ^ 53 \<le> y \<Longrightarrow> y < 2 ^ 54 \<Longrightarrow> 2 ^ 52 \<le> y / 2 \<and> y / 2 < 2 ^ 53" for y :: real by simp
    from this [OF b hi'] show ?thesis unfolding e half .
  qed
  have "f64_ratio n d = F64 (div_half_even (shift_up (- e) n) (shift_up e d)) e"
    using assms(2) unfolding f64_ratio_def Let_def e_def c_def a_def by (simp only: if_False)
  then show ?thesis by (rule that) (simp_all only: abs range)
qed

lemma fval_ratio_eq:
  assumes "0 < d"
  shows "fval (F64 (div_half_even (shift_up (- e) n) (shift_up e d)) e) - of_int n / of_int d
    = (of_int (div_half_even (shift_up (- e) n) (shift_up e d)) - real_of_int (shift_up (- e) n) / of_int (shift_up e d)) * 2 powi e"
proof -
  have "real_of_int (shift_up (- e) n) / of_int (shift_up e d) * 2 powi e = of_int n / of_int d"
    using shift_ratio [of "- e" n d] by (simp add: power_int_minus)
  then show ?thesis by (simp add: left_diff_distrib)
qed

lemma f64_ratio_error:
  assumes "0 < d"
  shows "\<bar>fval (f64_ratio n d) - of_int n / of_int d\<bar> \<le> \<bar>of_int n / of_int d\<bar> / 2 ^ 53"
proof (cases "n = 0")
  case False
  define x where "x = real_of_int n / of_int d"
  from f64_ratio_mantissa [OF assms False] obtain e where
    e: "f64_ratio n d = F64 (div_half_even (shift_up (- e) n) (shift_up e d)) e" "2 ^ 52 \<le> \<bar>x * 2 powi (- e)\<bar>"
    unfolding x_def by blast
  have "\<bar>fval (f64_ratio n d) - x\<bar> \<le> 1 / 2 * 2 powi e"
    unfolding e(1) x_def fval_ratio_eq [OF assms] abs_mult
    by (rule mult_mono) (use div_half_even_error [OF shift_up_pos [OF assms]] in simp_all)
  moreover have "2 ^ 52 * 2 powi e \<le> \<bar>x\<bar>"
    using mult_right_mono [OF e(2), of "2 powi e"] by (simp add: abs_mult power_int_minus mult.assoc)
  ultimately show ?thesis by (simp add: x_def)
qed (simp add: f64_ratio_def)

text \<open>A quotient that is a double is not rounded.\<close>

lemma f64_ratio_exact:
  assumes "0 < d" "real_of_int n / of_int d = of_int m * 2 powi p" "\<bar>m\<bar> < 2 ^ 53"
  shows "fval (f64_ratio n d) = of_int n / of_int d"
proof (cases "n = 0")
  case False
  from f64_ratio_mantissa [OF assms(1) False] obtain e where
    e: "f64_ratio n d = F64 (div_half_even (shift_up (- e) n) (shift_up e d)) e"
       "2 ^ 52 \<le> \<bar>real_of_int n / of_int d * 2 powi (- e)\<bar>"
    by blast
  have mu: "real_of_int n / of_int d * 2 powi (- e) = of_int m * 2 powi (p - e)"
    unfolding assms(2) mult.assoc power_int_add [of "2::real" p "- e", simplified, symmetric] by simp
  have "p \<ge> e"
  proof (rule ccontr)
    assume "\<not> p \<ge> e"
    then have "(2::real) powi (p - e) \<le> 2 powi (- 1)" by (intro power_int_increasing) auto
    then have "\<bar>real_of_int m\<bar> * 2 powi (p - e) \<le> \<bar>real_of_int m\<bar> * (1 / 2)"
      by (intro mult_left_mono) (simp_all add: power_int_minus)
    moreover have "\<bar>real_of_int m\<bar> < 2 ^ 53"
      using assms(3) by (metis of_int_abs of_int_less_iff of_int_numeral of_int_power)
    ultimately show False using e(2) unfolding mu abs_mult by simp
  qed
  then obtain k where k: "p - e = int k" by (metis diff_ge_0_iff_ge nonneg_int_cases)
  define D where "D = shift_up e d"
  have D: "0 < D" using shift_up_pos [OF assms(1)] by (simp add: D_def)
  have q: "real_of_int (shift_up (- e) n) / of_int D = of_int (m * 2 ^ k)"
    using shift_ratio [of "- e" n d] mu by (simp add: D_def k)
  then have "real_of_int (shift_up (- e) n) = of_int (m * 2 ^ k * D)"
    using D by (simp add: field_simps)
  then have "shift_up (- e) n = m * 2 ^ k * D" by (simp only: of_int_eq_iff)
  then have "div_half_even (shift_up (- e) n) (shift_up e d) = m * 2 ^ k"
    using div_half_even_exact [OF D] by (simp add: D_def)
  with fval_ratio_eq [OF assms(1), of e n] q show ?thesis
    by (simp add: e(1) D_def)
qed (simp add: f64_ratio_def)

section \<open>The operations\<close>

text \<open>\<open>x\<close> is \<open>r\<close> rounded: a small relative error, and none if \<open>r\<close> is a double.\<close>

definition rounds :: "f64 \<Rightarrow> real \<Rightarrow> bool" where
  "rounds x r \<longleftrightarrow> \<bar>fval x - r\<bar> \<le> \<bar>r\<bar> / 2 ^ 53
     \<and> (\<forall>m p. r = of_int m * 2 powi p \<longrightarrow> \<bar>m\<bar> < 2 ^ 53 \<longrightarrow> fval x = r)"

lemma rounds_error: "rounds x r \<Longrightarrow> \<bar>fval x - r\<bar> \<le> \<bar>r\<bar> / 2 ^ 53"
  by (simp add: rounds_def)

lemma rounds_exact: "rounds x r \<Longrightarrow> r = of_int m * 2 powi p \<Longrightarrow> \<bar>m\<bar> < 2 ^ 53 \<Longrightarrow> fval x = r"
  by (simp add: rounds_def)

lemma rounds_ratio: "0 < d \<Longrightarrow> rounds (f64_ratio n d) (of_int n / of_int d)"
  unfolding rounds_def using f64_ratio_error f64_ratio_exact by blast

lemma shift_up_value: "0 \<le> e \<Longrightarrow> real_of_int (shift_up e m) = of_int m * 2 powi e"
  by (simp add: shift_up_def power_int_def)

lemma rounds_add: "rounds (f64_add x y) (fval x + fval y)"
proof (cases x; cases y)
  fix m e n f assume xy: "x = F64 m e" "y = F64 n f"
  define g where "g = min e f"
  have "real_of_int (shift_up g (shift_up (e - g) m + shift_up (f - g) n)) / of_int (shift_up (- g) 1)
      = of_int m * (2 powi (e - g) * 2 powi g) + of_int n * (2 powi (f - g) * 2 powi g)"
    by (simp add: shift_ratio shift_up_value g_def distrib_right)
  also have "\<dots> = fval x + fval y" by (simp add: xy flip: power_int_add)
  finally show ?thesis
    using rounds_ratio [OF shift_up_pos, of 1 "shift_up g (shift_up (e - g) m + shift_up (f - g) n)" "- g"]
    by (simp add: xy Let_def g_def)
qed

lemma fval_neg [simp]: "fval (f64_neg x) = - fval x"
  by (cases x) simp

lemma rounds_sub: "rounds (f64_sub x y) (fval x - fval y)"
  using rounds_add [of x "f64_neg y"] by (simp add: f64_sub_def)

lemma rounds_mul: "rounds (f64_mul x y) (fval x * fval y)"
proof (cases x; cases y)
  fix m e n f assume xy: "x = F64 m e" "y = F64 n f"
  have "real_of_int (shift_up (e + f) (m * n)) / of_int (shift_up (- (e + f)) 1) = fval x * fval y"
    unfolding shift_ratio by (simp add: xy power_int_add)
  then show ?thesis
    using rounds_ratio [OF shift_up_pos, of 1 "shift_up (e + f) (m * n)" "- (e + f)"] by (simp add: xy)
qed

lemma rounds_div: "fval y \<noteq> 0 \<Longrightarrow> rounds (f64_div x y) (fval x / fval y)"
proof (cases x; cases y)
  fix m e n f assume xy: "x = F64 m e" "y = F64 n f" and "fval y \<noteq> 0"
  then have n: "n \<noteq> 0" by auto
  have "real_of_int (m * sgn n) / of_int \<bar>n\<bar> = of_int m / of_int n"
    using n by (simp add: sgn_if abs_if)
  then have "real_of_int (shift_up (e - f) (m * sgn n)) / of_int (shift_up (f - e) \<bar>n\<bar>) = fval x / fval y"
    using shift_ratio [of "e - f" "m * sgn n" "\<bar>n\<bar>"] by (simp add: xy power_int_diff)
  then show ?thesis
    using rounds_ratio [OF shift_up_pos, of "\<bar>n\<bar>" "shift_up (e - f) (m * sgn n)" "f - e"] n by (simp add: xy)
qed

lemma f64_trunc_floor:
  assumes "0 \<le> fval x"
  shows "f64_trunc x = \<lfloor>fval x\<rfloor>"
proof (cases x)
  case (F64 m e)
  have "0 < (2::real) powi e" by simp
  with assms F64 have m: "0 \<le> m" by (simp add: zero_le_mult_iff not_le del: zero_less_power_int)
  have d: "0 < shift_up (- e) 1" by (rule shift_up_pos) simp
  have n: "0 \<le> shift_up e m" using m by (simp add: shift_up_def)
  have "fval x = real_of_int (shift_up e m) / of_int (shift_up (- e) 1)"
    unfolding shift_ratio by (simp add: F64)
  then have "\<lfloor>fval x\<rfloor> = shift_up e m div shift_up (- e) 1" by (simp add: floor_divide_of_int_eq)
  also have "\<dots> = f64_trunc x" using d n by (cases "shift_up e m = 0") (simp_all add: F64 quot_def)
  finally show ?thesis ..
qed

text \<open>A number near a fraction that is no integer has the same integer part.\<close>

lemma floor_near:
  assumes "0 < d" "n mod d \<noteq> 0" "\<bar>y - of_int n / of_int d\<bar> < 1 / real_of_int d"
  shows "\<lfloor>y\<rfloor> = n div d"
proof -
  have n: "real_of_int n = of_int d * of_int (n div d) + of_int (n mod d)"
    by (metis mult_div_mod_eq of_int_add of_int_mult)
  have q: "of_int n / of_int d = of_int (n div d) + real_of_int (n mod d) / of_int d"
    using assms(1) by (simp add: n add_divide_distrib)
  have s: "1 \<le> n mod d" "n mod d \<le> d - 1"
    using assms(1,2) pos_mod_sign [of d n] pos_mod_bound [of d n] by linarith+
  have "1 / real_of_int d \<le> real_of_int (n mod d) / of_int d"
    using s(1) assms(1) by (simp add: divide_right_mono)
  moreover have "real_of_int (n mod d) / of_int d \<le> (of_int d - 1) / of_int d"
    using s(2) assms(1) by (intro divide_right_mono) linarith+
  then have "real_of_int (n mod d) / of_int d \<le> 1 - 1 / of_int d"
    using assms(1) by (simp add: diff_divide_distrib)
  ultimately show ?thesis
    using assms(3) unfolding q by (intro floor_unique) linarith+
qed

lemma trunc_near:
  assumes "0 < d" "n mod d \<noteq> 0" "0 \<le> fval x" "\<bar>fval x - of_int n / of_int d\<bar> < 1 / real_of_int d"
  shows "f64_trunc x = n div d"
  using floor_near [OF assms(1,2,4)] f64_trunc_floor [OF assms(3)] by simp

lemma fval_of_int: "\<bar>i\<bar> < 2 ^ 53 \<Longrightarrow> fval (f64_of i) = of_int i"
  using rounds_exact [OF rounds_ratio [of 1 i], of i 0] by simp

end
