(* ===== verification/Hdb_Calendar.thy ===== *)
theory Hdb_Calendar
  imports Hdb_Float
begin

text \<open>
  The dates the driver shows are those of the calendar (types\_impl/daydate.rs, seconddate.rs,
  longdate.rs): the Julian calendar up to 4 October 1582, the Gregorian one from 15 October on. The
  computation with doubles is first replaced by integer divisions, then its steps from one day to the
  next are compared with the calendar.
\<close>

section \<open>The computation in integers\<close>

lemma trunc_rounds:
  assumes "rounds x (real_of_int n / real_of_int d)" "0 \<le> n" "0 < d" "n < 2 ^ 53"
  shows "f64_trunc x = n div d"
proof -
  define r where "r = real_of_int n / real_of_int d"
  have r: "0 \<le> r" "\<bar>fval x - r\<bar> \<le> r / 2 ^ 53"
    using assms(2,3) rounds_error [OF assms(1)] by (simp_all add: r_def)
  then have x: "0 \<le> fval x" by (simp add: abs_if split: if_splits)
  show ?thesis
  proof (cases "n mod d = 0")
    case True
    then have "real_of_int n / real_of_int d = of_int (n div d) * 2 powi 0"
      using assms(3) by (auto simp: real_of_int_div)
    moreover have "\<bar>n div d\<bar> < 2 ^ 53"
      using assms(2-4) zdiv_mono2 [of n 1 d] by (simp add: pos_imp_zdiv_nonneg_iff)
    ultimately have "fval x = of_int (n div d)" using rounds_exact [OF assms(1), of "n div d" 0] by simp
    then show ?thesis using f64_trunc_floor [OF x] by simp
  next
    case False
    have "r / 2 ^ 53 < 1 / of_int d"
      using assms(3,4) of_int_less_iff [of n "2 ^ 53", where 'a = real] by (simp add: r_def field_simps)
    then show ?thesis using trunc_near [OF assms(3) False x] r(2) by (simp add: r_def)
  qed
qed

lemma f64_of_div4:
  assumes "rounds x (real_of_int n / 4)" "\<bar>n\<bar> < 2 ^ 53"
  shows "fval x = real_of_int n / 4"
proof -
  have "(2::real) powi (- 2) = 1 / 4" by (simp add: power_int_def power2_eq_square)
  then have "real_of_int n / 4 = of_int n * 2 powi (- 2)" by simp
  from rounds_exact [OF assms(1) this assms(2)] show ?thesis .
qed

lemma fval_quarter [simp]: "fval (f64_lit 1 4) = 1 / 4"
  using f64_of_div4 [of "f64_lit 1 4" 1] rounds_ratio [of 4 1] by simp

definition jalpha_int :: "int \<Rightarrow> int" where
  "jalpha_int julian = (4 * (julian - 1867216) - 1) div 146097"

definition ja_int :: "int \<Rightarrow> int" where
  "ja_int julian =
     (if julian \<ge> jgreg then julian + 1 + jalpha_int julian - jalpha_int julian div 4 else julian)"

lemma cal_ja_int:
  assumes "julian < 2 ^ 30"
  shows "cal_ja julian = ja_int julian"
proof (cases "julian \<ge> jgreg")
  case True
  define x where "x = julian - 1867216"
  have x: "0 < x" "x < 2 ^ 30" using True assms by (simp_all add: x_def jgreg_def)
  have "rounds (f64_sub (f64_of x) (f64_lit 1 4)) (real_of_int (4 * x - 1) / 4)"
    using rounds_sub [of "f64_of x" "f64_lit 1 4"] x by (simp add: fval_of_int field_simps)
  then have s: "fval (f64_sub (f64_of x) (f64_lit 1 4)) = real_of_int (4 * x - 1) / 4"
    by (rule f64_of_div4) (use x in simp)
  have y: "fval (f64_lit 3652425 100) = 146097 / 4"
    using f64_of_div4 [of "f64_lit 3652425 100" 146097] rounds_ratio [of 100 3652425] by simp
  have q: "real_of_int (4 * x - 1) / 4 / (146097 / 4) = real_of_int (4 * x - 1) / real_of_int 146097" by simp
  have "rounds (f64_div (f64_sub (f64_of x) (f64_lit 1 4)) (f64_lit 3652425 100))
      (real_of_int (4 * x - 1) / real_of_int 146097)"
    using rounds_div [of "f64_lit 3652425 100" "f64_sub (f64_of x) (f64_lit 1 4)"] unfolding s y q by simp
  then have "f64_trunc (f64_div (f64_sub (f64_of x) (f64_lit 1 4)) (f64_lit 3652425 100)) = (4 * x - 1) div 146097"
    by (rule trunc_rounds) (use x in simp_all)
  moreover have "f64_trunc (f64_mul (f64_lit 1 4) (f64_of j)) = j div 4" if "0 \<le> j" "j < 2 ^ 53" for j
    using rounds_mul [of "f64_lit 1 4" "f64_of j"] that by (intro trunc_rounds) (simp_all add: fval_of_int)
  moreover have "0 \<le> (4 * x - 1) div 146097" "(4 * x - 1) div 146097 < 2 ^ 53" using x by simp_all
  ultimately show ?thesis using True by (simp add: cal_ja_def ja_int_def jalpha_int_def x_def Let_def)
qed (simp add: cal_ja_def ja_int_def)

definition jc_int :: "int \<Rightarrow> int" where
  "jc_int jb = (20 * jb - 2442) div 7305"

text \<open>The literals 122.1 and 30.6001 are not doubles.\<close>

lemma literal_1221: "\<bar>fval (f64_lit 1221 10) - 1221 / 10\<bar> \<le> 1 / 2 ^ 40"
  using rounds_error [OF rounds_ratio [of 10 1221]] by simp

lemma literal_306001: "\<bar>fval (f64_lit 306001 10000) - 306001 / 10000\<bar> \<le> 1 / 2 ^ 45"
  using rounds_error [OF rounds_ratio [of 10000 306001]] by simp

lemma cal_jc_int:
  assumes "2 ^ 10 \<le> jb" "jb < 2 ^ 24"
  shows "cal_jc jb = jc_int jb"
proof -
  define j where "j = real_of_int jb"
  define u where "u = f64_sub (f64_of (jb - 2439870)) (f64_lit 1221 10)"
  define v where "v = f64_div u (f64_lit 36525 100)"
  define w where "w = f64_add (f64_of 6680) v"
  have j: "2 ^ 10 \<le> j" "j < 2 ^ 24" using assms by (simp_all add: j_def)
  have "fval (f64_of (jb - 2439870)) = j - 2439870" using assms by (simp add: fval_of_int j_def)
  then have "\<bar>fval u - (j - 2439870 - fval (f64_lit 1221 10))\<bar> \<le> \<bar>j - 2439870 - fval (f64_lit 1221 10)\<bar> / 2 ^ 53"
    using rounds_error [OF rounds_sub [of "f64_of (jb - 2439870)" "f64_lit 1221 10"]] by (simp add: u_def)
  moreover have "\<bar>j - 2439870 - fval (f64_lit 1221 10)\<bar> \<le> 2 ^ 25" using literal_1221 j by (simp add: abs_if split: if_splits)
  ultimately have u: "\<bar>fval u - (j - 2439870 - 1221 / 10)\<bar> \<le> 1 / 2 ^ 27" using literal_1221 by (simp add: abs_if split: if_splits)
  have y: "fval (f64_lit 36525 100) = 1461 / 4"
    using f64_of_div4 [of "f64_lit 36525 100" 1461] rounds_ratio [of 100 36525] by simp
  have "\<bar>fval v - fval u / (1461 / 4)\<bar> \<le> \<bar>fval u / (1461 / 4)\<bar> / 2 ^ 53"
    using rounds_error [OF rounds_div [of "f64_lit 36525 100" u]] by (simp add: v_def y)
  moreover have "\<bar>fval u\<bar> \<le> 2 ^ 26" using u j by (simp add: abs_if split: if_splits)
  ultimately have v: "\<bar>fval v - fval u / (1461 / 4)\<bar> \<le> 1 / 2 ^ 27" "\<bar>fval v\<bar> \<le> 2 ^ 20"
    by (simp_all add: abs_if split: if_splits)
  have "\<bar>fval w - (6680 + fval v)\<bar> \<le> \<bar>6680 + fval v\<bar> / 2 ^ 53"
    using rounds_error [OF rounds_add [of "f64_of 6680" v]] by (simp add: w_def fval_of_int)
  with v(2) have w: "\<bar>fval w - (6680 + fval v)\<bar> \<le> 1 / 2 ^ 30" by (simp add: abs_if split: if_splits)
  have n: "real_of_int (20 * jb - 2442) / real_of_int 7305 = (20 * j - 2442) / 7305" by (simp add: j_def)
  have e: "\<bar>fval w - (20 * j - 2442) / 7305\<bar> < 1 / 7305"
    using u v(1) w by (simp add: abs_if field_simps split: if_splits)
  have "\<not> 5 dvd 20 * jb - 2442" by presburger
  then have "(20 * jb - 2442) mod 7305 \<noteq> 0"
    using dvd_trans [of 5 7305 "20 * jb - 2442"] by (auto simp: mod_eq_0_iff_dvd)
  moreover have "0 \<le> fval w" using e j(1) by (simp add: abs_if field_simps split: if_splits)
  ultimately have "f64_trunc w = (20 * jb - 2442) div 7305"
    by (intro trunc_near) (use e in \<open>simp_all only: n, simp_all\<close>)
  then show ?thesis by (simp add: cal_jc_def jc_int_def u_def v_def w_def)
qed

definition jd_int :: "int \<Rightarrow> int" where
  "jd_int jc = (1461 * jc) div 4"

lemma cal_jd_int:
  assumes "0 \<le> jc" "jc < 2 ^ 30"
  shows "cal_jd jc = jd_int jc"
proof -
  have "fval (f64_mul (f64_lit 1 4) (f64_of jc)) = real_of_int jc / 4"
    by (rule f64_of_div4) (use rounds_mul [of "f64_lit 1 4" "f64_of jc"] assms in \<open>simp_all add: fval_of_int\<close>)
  then have q: "365 * real_of_int jc + fval (f64_mul (f64_lit 1 4) (f64_of jc)) = 1461 * real_of_int jc / 4" by simp
  have "rounds (f64_add (f64_of (365 * jc)) (f64_mul (f64_lit 1 4) (f64_of jc))) (real_of_int (1461 * jc) / real_of_int 4)"
    using rounds_add [of "f64_of (365 * jc)" "f64_mul (f64_lit 1 4) (f64_of jc)"] assms
    by (simp add: fval_of_int q)
  then have "f64_trunc (f64_add (f64_of (365 * jc)) (f64_mul (f64_lit 1 4) (f64_of jc))) = 1461 * jc div 4"
    by (rule trunc_rounds) (use assms in simp_all)
  then show ?thesis by (simp add: cal_jd_def jd_int_def)
qed

definition je_int :: "int \<Rightarrow> int" where
  "je_int n = (10000 * n) div 306001"

definition day_int :: "int \<Rightarrow> int \<Rightarrow> int" where
  "day_int n je = n - (306001 * je) div 10000"

lemma not_multiple:
  assumes "0 < n" "n < 10000"
  shows "(10000 * n) mod 306001 \<noteq> 0" "(306001 * n) mod 10000 \<noteq> (0::int)"
proof -
  have c: "coprime (10000::int) 306001"
  proof (rule coprimeI)
    fix d :: int assume "d dvd 10000" "d dvd 306001"
    then have "d dvd 4001 * 306001 - 122431 * 10000" by (intro dvd_diff dvd_mult)
    then show "is_unit d" by simp
  qed
  show "(10000 * n) mod 306001 \<noteq> 0"
    using c assms zdvd_imp_le [of 306001 n] coprime_dvd_mult_right_iff [of 306001 10000 n]
    by (auto simp: coprime_commute mod_eq_0_iff_dvd)
  show "(306001 * n) mod 10000 \<noteq> 0"
    using c assms zdvd_imp_le [of 10000 n] coprime_dvd_mult_right_iff [of 10000 306001 n]
    by (auto simp: coprime_commute mod_eq_0_iff_dvd)
qed

lemma cal_je_int:
  assumes "0 < jb - jd" "jb - jd < 1000"
  shows "cal_je jb jd = je_int (jb - jd)"
proof -
  define n where "n = real_of_int (jb - jd)"
  define c where "c = fval (f64_lit 306001 10000)"
  define w where "w = f64_div (f64_of (jb - jd)) (f64_lit 306001 10000)"
  have n: "1 \<le> n" "n \<le> 1000" using assms by (simp_all add: n_def flip: of_int_diff)
  have c: "\<bar>c - 306001 / 10000\<bar> \<le> 1 / 2 ^ 45" using literal_306001 by (simp add: c_def)
  have "30 \<le> c" "c \<noteq> 0" using c by (auto simp: abs_if split: if_splits)
  have w: "\<bar>fval w - n / c\<bar> \<le> \<bar>n / c\<bar> / 2 ^ 53"
    using rounds_error [OF rounds_div [of "f64_lit 306001 10000" "f64_of (jb - jd)"]] \<open>c \<noteq> 0\<close> assms
    by (simp add: w_def c_def n_def fval_of_int)
  have "n / c \<le> 1000 / 30" by (rule frac_le) (use n \<open>30 \<le> c\<close> in simp_all)
  then have q: "0 \<le> n / c" "n / c \<le> 1000 / 30" using n \<open>30 \<le> c\<close> by simp_all
  have "n / c - n / (306001 / 10000) = n * (306001 / 10000 - c) / (c * (306001 / 10000))"
    using \<open>c \<noteq> 0\<close> by (simp add: field_simps)
  then have "\<bar>n / c - n / (306001 / 10000)\<bar> = n * \<bar>c - 306001 / 10000\<bar> / (c * (306001 / 10000))"
    using n \<open>30 \<le> c\<close> by (simp add: abs_mult abs_minus_commute)
  also have "\<dots> \<le> 1000 * (1 / 2 ^ 45) / (30 * (306001 / 10000))"
    using n c \<open>30 \<le> c\<close> by (intro frac_le mult_mono) simp_all
  finally have d: "\<bar>n / c - n / (306001 / 10000)\<bar> \<le> 1 / 2 ^ 40" by simp
  have near: "\<bar>a - q\<bar> \<le> \<bar>q\<bar> / 2 ^ 53 \<Longrightarrow> 0 \<le> q \<Longrightarrow> q \<le> 1000 / 30 \<Longrightarrow> \<bar>q - t\<bar> \<le> 1 / 2 ^ 40
      \<Longrightarrow> \<bar>a - t\<bar> < 1 / 306001" for a q t :: real
    by (simp add: abs_if split: if_splits)
  have t: "n / (306001 / 10000) = real_of_int (10000 * (jb - jd)) / real_of_int 306001" by (simp add: n_def)
  have e: "\<bar>fval w - real_of_int (10000 * (jb - jd)) / real_of_int 306001\<bar> < 1 / real_of_int 306001"
    using near [OF w q d] unfolding t by simp
  have "fval w \<ge> 0" using w q(1) by (simp add: abs_if split: if_splits)
  then have "f64_trunc w = 10000 * (jb - jd) div 306001"
    by (intro trunc_near e) (use not_multiple [of "jb - jd"] assms in simp_all)
  then show ?thesis by (simp add: cal_je_def je_int_def w_def)
qed

lemma cal_day_int:
  assumes "0 < je" "je < 1000"
  shows "cal_day jb jd je = day_int (jb - jd) je"
proof -
  define k where "k = real_of_int je"
  define c where "c = fval (f64_lit 306001 10000)"
  define w where "w = f64_mul (f64_lit 306001 10000) (f64_of je)"
  have k: "1 \<le> k" "k \<le> 1000" using assms by (simp_all add: k_def)
  have c: "\<bar>c - 306001 / 10000\<bar> \<le> 1 / 2 ^ 45" using literal_306001 by (simp add: c_def)
  have w: "\<bar>fval w - c * k\<bar> \<le> \<bar>c * k\<bar> / 2 ^ 53"
    using rounds_error [OF rounds_mul [of "f64_lit 306001 10000" "f64_of je"]] assms
    by (simp add: w_def c_def k_def fval_of_int)
  have "\<bar>c * k - 306001 / 10000 * k\<bar> = \<bar>c - 306001 / 10000\<bar> * k"
    unfolding left_diff_distrib [symmetric] abs_mult using k by simp
  also have "\<dots> \<le> 1 / 2 ^ 45 * 1000" using c k by (intro mult_mono) simp_all
  finally have d: "\<bar>c * k - 306001 / 10000 * k\<bar> \<le> 1 / 2 ^ 35" by simp
  have near: "\<bar>a - q\<bar> \<le> \<bar>q\<bar> / 2 ^ 53 \<Longrightarrow> \<bar>q - t\<bar> \<le> 1 / 2 ^ 35 \<Longrightarrow> 0 \<le> t \<Longrightarrow> t \<le> 31000
      \<Longrightarrow> \<bar>a - t\<bar> < 1 / 10000" for a q t :: real
    by (simp add: abs_if split: if_splits)
  have t: "306001 / 10000 * k = real_of_int (306001 * je) / real_of_int 10000" by (simp add: k_def)
  have "\<bar>fval w - 306001 / 10000 * k\<bar> < 1 / 10000" by (rule near [OF w d]) (use k in simp_all)
  then have e: "\<bar>fval w - real_of_int (306001 * je) / real_of_int 10000\<bar> < 1 / real_of_int 10000"
    unfolding t of_int_numeral .
  have "fval w \<ge> 0" using \<open>\<bar>fval w - 306001 / 10000 * k\<bar> < 1 / 10000\<close> k by (simp add: abs_if split: if_splits)
  then have "f64_trunc w = 306001 * je div 10000"
    by (intro trunc_near e) (use not_multiple [of je] assms in simp_all)
  then show ?thesis by (simp add: cal_day_def day_int_def w_def)
qed

text \<open>The date of a Julian day number, in integers.\<close>

definition date_of :: "int \<Rightarrow> int \<Rightarrow> int \<times> int \<times> int" where
  "date_of jc n =
     (let je = je_int n;
          month = (if je - 1 > 12 then je - 13 else je - 1)
      in (if month > 2 then jc - 4716 else jc - 4715, month, day_int n je))"

definition days_of_year :: "int \<Rightarrow> int" where
  "days_of_year jc = (if jc mod 4 = 3 then 488 else 487)"

definition jb_int :: "int \<Rightarrow> int" where
  "jb_int julian = ja_int julian + 1524"

definition ymd_int :: "int \<Rightarrow> int \<times> int \<times> int" where
  "ymd_int julian =
     (let jb = jb_int julian; jc = jc_int jb in date_of jc (jb - jd_int jc))"

text \<open>Years begin in March: the day numbers of a year are 123 up to 487 or 488.\<close>

lemma jd_int_mod: "4 * jd_int jc = 1461 * jc - jc mod 4"
proof -
  have "(1461 * jc) mod 4 = jc mod 4" using mod_mult_left_eq [of 1461 4 jc] by simp
  then show ?thesis using minus_mod_eq_mult_div [of "1461 * jc" 4] by (simp add: jd_int_def)
qed

lemma div_bounds: "0 < d \<Longrightarrow> d * (n div d) \<le> n \<and> n < d * (n div d) + (d::int)"
  using mult_div_mod_eq [of d n] pos_mod_sign [of d n] pos_mod_bound [of d n] by linarith

lemma div_unique: "d * q \<le> n \<Longrightarrow> n < d * q + d \<Longrightarrow> n div d = (q::int)"
  by (rule int_div_pos_eq [where r = "n - d * q"]) simp_all

lemma day_in_year: "123 \<le> jb - jd_int (jc_int jb) \<and> jb - jd_int (jc_int jb) \<le> days_of_year (jc_int jb)"
proof -
  define jc where "jc = jc_int jb"
  have "7305 * jc \<le> 20 * jb - 2442 \<and> 20 * jb - 2442 < 7305 * jc + 7305"
    unfolding jc_def jc_int_def by (rule div_bounds) simp
  moreover have "4 * jd_int jc = 1461 * jc - jc mod 4" by (rule jd_int_mod)
  moreover have "0 \<le> jc mod 4" "jc mod 4 \<le> 3" by simp_all
  ultimately show ?thesis unfolding days_of_year_def jc_def [symmetric] by (cases "jc mod 4 = 3") auto
qed

lemma jc_int_unique:
  assumes "123 \<le> n" "n \<le> days_of_year jc"
  shows "jc_int (jd_int jc + n) = jc"
proof -
  have "4 * jd_int jc = 1461 * jc - jc mod 4" by (rule jd_int_mod)
  moreover have "0 \<le> jc mod 4" "jc mod 4 \<le> 3" by simp_all
  ultimately have "7305 * jc \<le> 20 * (jd_int jc + n) - 2442 \<and> 20 * (jd_int jc + n) - 2442 < 7305 * jc + 7305"
    using assms unfolding days_of_year_def by (cases "jc mod 4 = 3") auto
  then show ?thesis unfolding jc_int_def by (intro div_unique) simp_all
qed

lemma next_year: "jd_int (jc + 1) = jd_int jc + days_of_year jc - 122"
proof -
  have "(jc + 1) mod 4 = (if jc mod 4 = 3 then 0 else jc mod 4 + 1)" by presburger
  then show ?thesis
    using jd_int_mod [of jc] jd_int_mod [of "jc + 1"] by (auto simp: days_of_year_def split: if_splits)
qed

section \<open>The calendar\<close>

definition leap_year :: "int \<Rightarrow> bool" where
  "leap_year y \<longleftrightarrow> 4 dvd y \<and> (y \<le> 1582 \<or> \<not> 100 dvd y \<or> 400 dvd y)"

definition days_in_month :: "int \<Rightarrow> int \<Rightarrow> int" where
  "days_in_month y m =
     (if m = 2 then (if leap_year y then 29 else 28)
      else if m \<in> {4, 6, 9, 11} then 30 else 31)"

fun next_date :: "int \<times> int \<times> int \<Rightarrow> int \<times> int \<times> int" where
  "next_date (y, m, d) =
     (if (y, m, d) = (1582, 10, 4) then (1582, 10, 15)
      else if d < days_in_month y m then (y, m, d + 1)
      else if m < 12 then (y, m + 1, 1)
      else (y + 1, 1, 1))"

definition calendar :: "nat \<Rightarrow> int \<times> int \<times> int" where
  "calendar n = (next_date ^^ n) (1, 1, 1)"

text \<open>Month and day of a day number, and the check of one step inside of a year.\<close>

definition month_day :: "int \<Rightarrow> int \<times> int" where
  "month_day n = (let je = je_int n in (if je - 1 > 12 then je - 13 else je - 1, day_int n je))"

definition month_step :: "int \<Rightarrow> bool" where
  "month_step n =
     (case month_day n of (m, d) \<Rightarrow> case month_day (n + 1) of (m', d') \<Rightarrow>
        (if d < (if m = 2 then 28 else if m \<in> {4, 6, 9, 11} then 30 else 31)
         then m' = m \<and> d' = d + 1
         else m \<noteq> 2 \<and> m' = (if m < 12 then m + 1 else 1) \<and> d' = 1) \<and> (m = 10 \<and> d = 4 \<longrightarrow> n = 340))"

lemma month_step_all: "list_all month_step [123..486]"
  by code_simp

lemma month_step:
  assumes "123 \<le> n" "n \<le> 486"
  shows "month_step n"
proof -
  have "n \<in> set [123..486]" unfolding set_upto using assms by (simp only: atLeastAtMost_iff simp_thms)
  then show ?thesis by (rule bspec [OF month_step_all [unfolded list_all_iff]])
qed

lemma date_of_month_day:
  "date_of jc n = (case month_day n of (m, d) \<Rightarrow> (if m > 2 then jc - 4716 else jc - 4715, m, d))"
  by (simp add: date_of_def month_day_def Let_def)

lemma february:
  "date_of jc 487 = (jc - 4715, 2, 28)" "date_of jc 488 = (jc - 4715, 2, 29)" "date_of jc 123 = (jc - 4716, 3, 1)"
  by (simp_all add: date_of_def je_int_def day_int_def)

lemma date_of_Suc:
  assumes "123 \<le> n" "n \<le> 486" "\<not> (n = 340 \<and> jc = 6298)"
  shows "date_of jc (n + 1) = next_date (date_of jc n)"
proof -
  obtain m d m' d' where md: "month_day n = (m, d)" "month_day (n + 1) = (m', d')" by fastforce
  note step = month_step [OF assms(1,2), unfolded month_step_def md prod.case]
  have no_gap: "\<not> (m = 10 \<and> d = 4 \<and> jc - 4716 = 1582)" using step assms(3) by auto
  show ?thesis
    unfolding date_of_month_day md prod.case next_date.simps
    using step no_gap by (auto simp: days_in_month_def split: if_splits)
qed

section \<open>From one day to the next\<close>

definition ymd_jb :: "int \<Rightarrow> int \<times> int \<times> int" where
  "ymd_jb jb = date_of (jc_int jb) (jb - jd_int (jc_int jb))"

lemma ymd_jb_eq: "123 \<le> n \<Longrightarrow> n \<le> days_of_year jc \<Longrightarrow> ymd_jb (jd_int jc + n) = date_of jc n"
  by (simp add: ymd_jb_def jc_int_unique)

lemma days_of_year_cases: "days_of_year jc = 487 \<or> days_of_year jc = 488"
  by (simp add: days_of_year_def)

lemma march:
  assumes "n = days_of_year jc + 1"
  shows "ymd_jb (jd_int jc + n) = (jc - 4715, 3, 1)"
proof -
  have "jd_int jc + n = jd_int (jc + 1) + 123" using assms next_year [of jc] by simp
  moreover have "123 \<le> days_of_year (jc + 1)" using days_of_year_cases [of "jc + 1"] by auto
  ultimately show ?thesis using ymd_jb_eq [of 123 "jc + 1"] february(3) by simp
qed

text \<open>The cases of a day: inside of the year that begins in March, or at its end.\<close>

lemma day_cases:
  obtains (inside) jc n where "jb = jd_int jc + n" "123 \<le> n" "n \<le> 486"
    | (feb28) jc where "jb = jd_int jc + 487"
    | (feb29) jc where "jb = jd_int jc + 488" "jc mod 4 = 3"
proof -
  define jc where "jc = jc_int jb"
  define n where "n = jb - jd_int jc"
  have n: "jb = jd_int jc + n" "123 \<le> n" "n \<le> days_of_year jc"
    using day_in_year [of jb] by (simp_all add: n_def jc_def)
  consider "n \<le> 486" | "n = 487" | "n = 488" "jc mod 4 = 3"
    using n(3) by (fastforce simp: days_of_year_def split: if_splits)
  then show ?thesis using n that by cases blast+
qed

lemma ymd_inside:
  assumes "123 \<le> n" "n \<le> 486" "jd_int jc + n \<noteq> 2300684"
  shows "ymd_jb (jd_int jc + n + 1) = next_date (ymd_jb (jd_int jc + n))"
proof -
  have "\<not> (n = 340 \<and> jc = 6298)" using assms(3) by (auto simp: jd_int_def)
  moreover have "n + 1 \<le> days_of_year jc" using assms(2) days_of_year_cases [of jc] by auto
  ultimately show ?thesis
    using ymd_jb_eq [of "n + 1" jc] ymd_jb_eq [of n jc] date_of_Suc [of n jc] assms by (simp add: add.assoc)
qed

lemma ymd_feb28:
  "ymd_jb (jd_int jc + 487) = (jc - 4715, 2, 28)"
  "jc mod 4 = 3 \<Longrightarrow> ymd_jb (jd_int jc + 488) = (jc - 4715, 2, 29)"
  "jc mod 4 = 3 \<Longrightarrow> ymd_jb (jd_int jc + 489) = (jc - 4715, 3, 1)"
  "jc mod 4 \<noteq> 3 \<Longrightarrow> ymd_jb (jd_int jc + 488) = (jc - 4715, 3, 1)"
  using ymd_jb_eq [of 487 jc] ymd_jb_eq [of 488 jc] march [of 488 jc] march [of 489 jc] february
  by (auto simp: days_of_year_def)

lemma leap_mod: "4 dvd jc - 4715 \<longleftrightarrow> jc mod 4 = (3::int)"
  by presburger

text \<open>A step of one day number is a step of the calendar, if 29 February is not left out, and a step of
  two if it is.\<close>

lemma jb_step:
  assumes "jb \<noteq> 2300684"
    and "\<And>jc. jb = jd_int jc + 487 \<Longrightarrow> jc mod 4 = 3 \<Longrightarrow> leap_year (jc - 4715)"
  shows "ymd_jb (jb + 1) = next_date (ymd_jb jb)"
proof (cases rule: day_cases [of jb])
  case (inside jc n)
  then show ?thesis using ymd_inside [of n jc] assms(1) by simp
next
  case (feb28 jc)
  then have s: "jb + 1 = jd_int jc + 488" by simp
  show ?thesis
  proof (cases "jc mod 4 = 3")
    case True
    then show ?thesis using ymd_feb28 [of jc] assms(2) [OF feb28] unfolding s unfolding feb28 by (simp add: days_in_month_def)
  next
    case False
    then have "\<not> leap_year (jc - 4715)" using leap_mod [of jc] by (simp add: leap_year_def)
    then show ?thesis using ymd_feb28 [of jc] False unfolding s unfolding feb28 by (simp add: days_in_month_def)
  qed
next
  case (feb29 jc)
  then have s: "jb + 1 = jd_int jc + 489" by simp
  show ?thesis using ymd_feb28 [of jc] feb29(2) unfolding s unfolding feb29(1) by (simp add: days_in_month_def)
qed

lemma jb_skip:
  assumes "jb = jd_int jc + 487" "jc mod 4 = 3" "\<not> leap_year (jc - 4715)"
  shows "ymd_jb (jb + 2) = next_date (ymd_jb jb)"
proof -
  have s: "jb + 2 = jd_int jc + 489" using assms(1) by simp
  show ?thesis
    using ymd_feb28 [of jc] assms(2,3) unfolding s unfolding assms(1) by (simp add: days_in_month_def)
qed

section \<open>The Gregorian correction\<close>

text \<open>\<open>c\<close> is the number of centuries since 400; in the years \<open>400 + 100 * c\<close> with \<open>c mod 4 \<noteq> 0\<close> the day
  number jumps from 28 February to 1 March.\<close>

definition skips :: "int \<Rightarrow> int \<Rightarrow> bool" where
  "skips julian c \<longleftrightarrow> c mod 4 \<noteq> 0 \<and> jalpha_int julian = c - 1 \<and> jalpha_int (julian + 1) = c"

lemma jalpha_bounds:
  "146097 * jalpha_int j \<le> 4 * (j - 1867216) - 1 \<and> 4 * (j - 1867216) - 1 < 146097 * jalpha_int j + 146097"
  unfolding jalpha_int_def by (rule div_bounds) simp

lemmas jalpha_lo = jalpha_bounds [THEN conjunct1] and jalpha_hi = jalpha_bounds [THEN conjunct2]

lemma jalpha_Suc: "jalpha_int (j + 1) = jalpha_int j \<or> jalpha_int (j + 1) = jalpha_int j + 1"
proof -
  have "jalpha_int j \<le> jalpha_int (j + 1)" "jalpha_int (j + 1) \<le> jalpha_int j + 1"
    using jalpha_lo [of j] jalpha_lo [of "j + 1"] jalpha_hi [of j] jalpha_hi [of "j + 1"] by simp_all
  then show ?thesis by linarith
qed

lemma quarter_Suc: "(c + 1) div 4 = (if (c + 1) mod 4 = 0 then c div 4 + 1 else c div (4::int))"
  by presburger

lemma jb_int_Suc:
  assumes "jgreg \<le> j"
  shows "jb_int (j + 1) = jb_int j + (if skips j (jalpha_int j + 1) then 2 else 1)"
  using assms jalpha_Suc [of j] quarter_Suc [of "jalpha_int j"] by (auto simp: jb_int_def ja_int_def skips_def)

lemma century_day: "jd_int (5115 + 100 * c) + 487 = 1868740 + 36525 * c"
  using jd_int_mod [of "5115 + 100 * c"] mod_mult_self4 [of 5115 4 "25 * c"] by simp

lemma skips_day:
  assumes "jgreg \<le> j" "skips j c"
  shows "jb_int j = 1868740 + 36525 * c" "12 \<le> c"
proof -
  define x where "x = j - 1867216"
  define q where "q = c div 4"
  define r where "r = c mod 4"
  have c: "c = 4 * q + r" by (simp add: q_def r_def)
  have "0 \<le> r" "r < 4" "r \<noteq> 0" using assms(2) by (simp_all add: r_def skips_def)
  then have r: "r = 1 \<or> r = 2 \<or> r = 3" by linarith
  have J: "jalpha_int j = c - 1" "jalpha_int (j + 1) = c" using assms(2) by (simp_all add: skips_def)
  have b: "4 * x - 1 < 146097 * c" "146097 * c \<le> 4 * x + 3"
    using jalpha_bounds [of j] jalpha_bounds [of "j + 1"] J by (simp_all add: x_def)
  define y where "y = x - 146097 * q"
  have y: "4 * y - 1 < 146097 * r" "146097 * r \<le> 4 * y + 3" using b by (simp_all add: c y_def)
  have "y = 36524 * r" using r y by presburger
  then have x: "x = 146097 * q + 36524 * r" by (simp add: y_def)
  have "(c - 1) div 4 = q" using r c by (elim disjE) simp_all
  then show "jb_int j = 1868740 + 36525 * c"
    using assms(1) x by (simp add: jb_int_def ja_int_def J c x_def)
  show "12 \<le> c" using b(2) assms(1) jalpha_bounds [of j] J(1) by (simp add: x_def jgreg_def)
qed

lemma not_leap:
  assumes "jc mod 4 = 3" "\<not> leap_year (jc - 4715)"
  obtains c where "jc = 5115 + 100 * c" "c mod 4 \<noteq> 0"
proof -
  have "4 dvd jc - 4715" using assms(1) leap_mod by simp
  then have l: "100 dvd jc - 4715" "\<not> 400 dvd jc - 4715" using assms(2) by (auto simp: leap_year_def)
  from l(1) obtain k where k: "jc - 4715 = 100 * k" by (auto elim: dvdE)
  have "(k - 4) mod 4 \<noteq> 0"
  proof
    assume "(k - 4) mod 4 = 0"
    then have "4 dvd k" by presburger
    then have "100 * 4 dvd 100 * k" by (rule mult_dvd_mono [OF dvd_refl])
    then show False using l(2) k by simp
  qed
  then show ?thesis using that [of "k - 4"] k by simp
qed

lemma not_leap_skips:
  assumes "jgreg \<le> j" "jb_int j = jd_int jc + 487" "jc mod 4 = 3" "\<not> leap_year (jc - 4715)"
  shows "skips j (jalpha_int j + 1)"
proof -
  from not_leap [OF assms(3,4)] obtain c where c: "jc = 5115 + 100 * c" "c mod 4 \<noteq> 0" .
  define x where "x = j - 1867216"
  define J where "J = jalpha_int j"
  define q where "q = c div 4"
  define r where "r = c mod 4"
  define Q where "Q = J div 4"
  define R where "R = J mod 4"
  define D where "D = q - Q"
  have cq: "c = 4 * q + r" "J = 4 * Q + R" by (simp_all add: q_def r_def Q_def R_def)
  have r: "0 \<le> r" "r < 4" "r \<noteq> 0" "0 \<le> R" "R < 4" using c(2) by (simp_all add: r_def R_def)
  have "j + 1525 + J - J div 4 = 1868740 + 36525 * c"
    using assms(1,2) century_day [of c] by (simp add: jb_int_def ja_int_def J_def c(1))
  then have "x + J - Q + 1 = 36525 * c" by (simp add: x_def Q_def)
  then have x: "x + 3 * Q + R + 1 = 36525 * c" using cq(2) by linarith
  have b: "146097 * J \<le> 4 * x - 1" "4 * x - 1 < 146097 * J + 146097"
    using jalpha_bounds [of j] by (simp_all add: J_def x_def)
  have D: "146101 * R + 5 \<le> 584400 * D + 146100 * r" "584400 * D + 146100 * r < 146101 * R + 146102"
    using b x unfolding cq D_def by simp_all
  have cases: "R = 0 \<or> R = 1 \<or> R = 2 \<or> R = 3" "r = 1 \<or> r = 2 \<or> r = 3" using r by linarith+
  have d0: "D = 0"
  proof (rule ccontr)
    assume "D \<noteq> 0"
    then consider "D \<le> - 1" | "1 \<le> D" by linarith
    then show False using D r by cases simp_all
  qed
  have "r = R + 1" using cases D unfolding d0 by (elim disjE) simp_all
  then have J: "J = c - 1" "R \<le> 2" using cq r d0 by (auto simp: D_def)
  have "jalpha_int (j + 1) = c"
    unfolding jalpha_int_def using x J cq b(2) by (intro div_unique) (simp_all add: x_def)
  with J(1) c(2) show ?thesis by (simp add: skips_def J_def)
qed

lemma skips_not_leap:
  assumes "jgreg \<le> j" "skips j c"
  shows "jb_int j = jd_int (5115 + 100 * c) + 487" "\<not> leap_year (5115 + 100 * c - 4715)" "(5115 + 100 * c) mod 4 = 3"
proof -
  show "jb_int j = jd_int (5115 + 100 * c) + 487" using skips_day [OF assms] century_day [of c] by simp
  have "\<not> 400 dvd 400 + 100 * c"
  proof
    assume "400 dvd 400 + 100 * c"
    then have "100 * 4 dvd 100 * (4 + c)" by (simp add: algebra_simps)
    then have "4 dvd 4 + c" by (subst (asm) dvd_mult_cancel_left) simp
    then show False using assms(2) by (simp add: skips_def)
  qed
  moreover have "100 dvd 400 + 100 * c" by (intro dvd_add) simp_all
  ultimately show "\<not> leap_year (5115 + 100 * c - 4715)" using skips_day(2) [OF assms] by (simp add: leap_year_def)
  show "(5115 + 100 * c) mod 4 = 3" by presburger
qed

lemma ymd_int_jb: "ymd_int j = ymd_jb (jb_int j)"
  by (simp add: ymd_int_def ymd_jb_def Let_def)

lemma ymd_int_Suc: "ymd_int (j + 1) = next_date (ymd_int j)"
proof -
  consider "j + 1 < jgreg" | "j + 1 = jgreg" | "jgreg \<le> j" by linarith
  then show ?thesis
  proof cases
    case 1
    then have jb: "jb_int (j + 1) = jb_int j + 1" "jb_int j < 2300684" by (simp_all add: jb_int_def ja_int_def jgreg_def)
    have "leap_year (jc - 4715)" if "jb_int j = jd_int jc + 487" "jc mod 4 = 3" for jc
      using that jb(2) jd_int_mod [of jc] leap_mod [of jc] by (simp add: leap_year_def)
    with jb show ?thesis unfolding ymd_int_jb jb(1) by (intro jb_step) auto
  next
    case 2
    then have "j = 2299160" by (simp add: jgreg_def)
    then show ?thesis by (simp add: ymd_int_jb jb_int_def ja_int_def jgreg_def jalpha_int_def ymd_jb_def jc_int_def
        jd_int_def date_of_def je_int_def day_int_def)
  next
    case 3
    show ?thesis
    proof (cases "skips j (jalpha_int j + 1)")
      case True
      with jb_int_Suc [OF 3] have jb: "jb_int (j + 1) = jb_int j + 2" by simp
      show ?thesis unfolding ymd_int_jb jb
        by (rule jb_skip [OF skips_not_leap(1) [OF 3 True] skips_not_leap(3,2) [OF 3 True]])
    next
      case False
      with jb_int_Suc [OF 3] have jb: "jb_int (j + 1) = jb_int j + 1" by simp
      have "0 \<le> jalpha_int j" using 3 by (simp add: jalpha_int_def jgreg_def)
      then have "jalpha_int j div 4 \<le> jalpha_int j" by linarith
      then have "jb_int j \<noteq> 2300684" using 3 by (simp add: jb_int_def ja_int_def jgreg_def)
      moreover have "leap_year (jc - 4715)" if "jb_int j = jd_int jc + 487" "jc mod 4 = 3" for jc
        using not_leap_skips [OF 3 that] False by blast
      ultimately show ?thesis unfolding ymd_int_jb jb by (intro jb_step) auto
    qed
  qed
qed

lemma ymd_int_calendar: "ymd_int (1721424 + int n) = calendar n"
proof (induction n)
  case 0
  show ?case by (simp add: calendar_def ymd_int_jb jb_int_def ja_int_def jgreg_def ymd_jb_def jc_int_def
        jd_int_def date_of_def je_int_def day_int_def)
next
  case (Suc n)
  have n: "1721424 + int (Suc n) = 1721424 + int n + 1" by simp
  show ?case unfolding n ymd_int_Suc Suc by (simp add: calendar_def)
qed

section \<open>The conversions of the driver\<close>

lemma calendar_year: "1 \<le> fst (calendar n)"
proof (induction n)
  case (Suc n)
  obtain y m d where "calendar n = (y, m, d)" by (cases "calendar n") auto
  with Suc show ?case by (simp add: calendar_def)
qed (simp add: calendar_def)

lemma ja_int_range:
  assumes "1721424 \<le> julian" "julian < 5373485"
  shows "julian \<le> ja_int julian" "ja_int julian < 5400000"
proof -
  have "0 \<le> jalpha_int julian" "jalpha_int julian \<le> 200" if "jgreg \<le> julian"
    using jalpha_lo [of julian] jalpha_hi [of julian] that assms by (simp_all add: jgreg_def)
  then show "julian \<le> ja_int julian" "ja_int julian < 5400000"
    using assms by (auto simp: ja_int_def)
qed

lemma as_u32_small: "0 \<le> i \<Longrightarrow> i < 2 ^ 32 \<Longrightarrow> as_u32 i = i"
  by (simp add: as_u32_def)

lemma as_i32_small: "0 \<le> i \<Longrightarrow> i < 2 ^ 31 \<Longrightarrow> as_i32 i = i"
  by (simp add: as_i32_def)

text \<open>On the days that a date can denote the driver computes the calendar, without a panic.\<close>

lemma ymd_of_datevalue_calendar:
  assumes "n < 3652061"
  shows "(ymd_of_datevalue (int n) :: (int \<times> int \<times> int, 'e) res) = Ok (calendar n)"
proof -
  define julian where "julian = int n + zeitenwende"
  define jb where "jb = jb_int julian"
  define jc where "jc = jc_int jb"
  define k where "k = jb - jd_int jc"
  define je where "je = je_int k"
  have j: "1721424 \<le> julian" "julian < 5373485" "julian < 2 ^ 30" using assms by (simp_all add: julian_def zeitenwende_def)
  have jb: "2 ^ 10 \<le> jb" "jb < 2 ^ 24" using ja_int_range [OF j(1,2)] j by (simp_all add: jb_def jb_int_def)
  have jc: "0 \<le> jc" "jc < 2 ^ 30" using jb unfolding jc_def jc_int_def by simp_all
  have k: "123 \<le> k" "k \<le> 488"
    using day_in_year [of jb] days_of_year_cases [of jc] by (auto simp: k_def jc_def)
  have je: "4 \<le> je" "je \<le> 15" using k unfolding je_def je_int_def by simp_all
  have day: "0 \<le> day_int k je" "day_int k je < 2 ^ 32"
  proof -
    have "306001 * je \<le> 10000 * k" using div_bounds [of 306001 "10000 * k"] by (simp add: je_def je_int_def)
    then have "306001 * je div 10000 \<le> k" "0 \<le> 306001 * je div 10000" using je by simp_all
    then show "0 \<le> day_int k je" "day_int k je < 2 ^ 32" using k by (simp_all add: day_int_def)
  qed
  have c: "cal_ja julian + 1524 = jb" "cal_jc jb = jc" "cal_jd jc = jd_int jc" "cal_je jb (jd_int jc) = je"
    "cal_day jb (jd_int jc) je = day_int k je"
    using cal_ja_int [OF j(3)] cal_jc_int [OF jb] cal_jd_int [OF jc] cal_je_int [of jb "jd_int jc"] cal_day_int [of je] k je
    by (simp_all add: jb_def jb_int_def jc_def k_def je_def)
  have d: "calendar n = date_of jc k"
    using ymd_int_calendar [of n] by (simp add: julian_def zeitenwende_def ymd_int_jb ymd_jb_def jb_def jc_def k_def add.commute)
  have y: "1 \<le> (if (if je - 1 > 12 then je - 13 else je - 1) > 2 then jc - 4716 else jc - 4715)"
    using calendar_year [of n] unfolding d by (auto simp: date_of_def Let_def je_def split: if_splits)
  then have "(13 < je \<longrightarrow> \<not> jc \<le> 4715) \<and> (\<not> 13 < je \<longrightarrow> \<not> jc \<le> 4716)"
    using je by (auto split: if_splits)
  then show ?thesis
    using c je jc day
    by (simp add: ymd_of_datevalue_def Let_def julian_def [symmetric] as_u32_small as_i32_small in_i32_def d date_of_def je_def [symmetric])
qed

lemma calendar_last: "calendar 3652060 = (9999, 12, 31)"
  unfolding ymd_int_calendar [symmetric]
  by (simp add: ymd_int_jb jb_int_def ja_int_def jgreg_def jalpha_int_def ymd_jb_def jc_int_def jd_int_def
      date_of_def je_int_def day_int_def)

lemma sint_small_32: "n < 2 ^ 31 \<Longrightarrow> sint (word_of_nat n :: i32) = int n"
  by (rule sint_of_nat_small) simp

lemma sint_small_64: "n < 2 ^ 63 \<Longrightarrow> sint (word_of_nat n :: i64) = int n"
  by (rule sint_of_nat_small) simp

text \<open>C28: The day dates of the driver are the days of the calendar, one after the other from 1 January 0001
  to 31 December 9999, with the change from the Julian to the Gregorian calendar in October 1582; the
  computation with doubles is exact on all of them.\<close>

theorem daydate_calendar:
  assumes "n < 3652061"
  shows "daydate_ymd (DayDate (word_of_nat (n + 1))) = Ok (calendar n)"
proof -
  have "sint (word_of_nat (n + 1) :: i32) = int (n + 1)" using assms by (intro sint_small_32) simp
  then show ?thesis using ymd_of_datevalue_calendar [OF assms] by simp
qed

theorem daydate_calendar_witness:
  "daydate_ymd (DayDate (word_of_nat (3652060 + 1))) = Ok (9999, 12, 31)"
  using daydate_calendar [of 3652060] by (simp add: calendar_last)

text \<open>A number of units of a second that is composed of a day and a time of day is split into them.\<close>

lemma quot_pos: "0 \<le> a \<Longrightarrow> 0 < b \<Longrightarrow> quot a b = a div b"
  by (cases "a = 0") (simp_all add: quot_def)

definition time_units :: "nat \<Rightarrow> nat \<Rightarrow> nat \<Rightarrow> nat \<Rightarrow> nat \<Rightarrow> nat" where
  "time_units f h m s u = f * (3600 * h + 60 * m + s) + u"

lemma split_time_units:
  assumes "0 < f" "f < 2 ^ 24" "h < 24" "m < 60" "s < 60" "u < f"
  shows "split_timevalue (int f) (int (time_units f h m s u)) = (int h, int m, int s, int u)"
proof -
  define F H M S U where "F = int f" and "H = int h" and "M = int m" and "S = int s" and "U = int u"
  have r: "0 < F" "F < 2 ^ 24" "0 \<le> H" "H < 24" "0 \<le> M" "M < 60" "0 \<le> S" "S < 60" "0 \<le> U" "U < F"
    using assms by (simp_all add: F_def H_def M_def S_def U_def)
  have SU: "0 \<le> F * S + U" "F * S + U < 60 * F"
  proof -
    have "F * S \<le> F * 59" "0 \<le> F * S" using r by (simp_all add: mult_left_mono)
    then show "0 \<le> F * S + U" "F * S + U < 60 * F" using r by linarith+
  qed
  have MSU: "0 \<le> 60 * F * M + (F * S + U)" "60 * F * M + (F * S + U) < 3600 * F"
  proof -
    have "F * M \<le> F * 59" "0 \<le> F * M" using r by (simp_all add: mult_left_mono)
    then show "0 \<le> 60 * F * M + (F * S + U)" "60 * F * M + (F * S + U) < 3600 * F" using SU by linarith+
  qed
  have t: "int (time_units f h m s u) = 3600 * F * H + (60 * F * M + (F * S + U))"
    by (simp add: time_units_def F_def H_def M_def S_def U_def algebra_simps)
  have q: "(3600 * F * H + (60 * F * M + (F * S + U))) div (3600 * F) = H"
    "(60 * F * M + (F * S + U)) div (60 * F) = M" "(F * S + U) div F = S"
    using r SU MSU by (simp_all add: div_unique)
  show ?thesis
    unfolding split_timevalue_def t F_def [symmetric] Let_def H_def [symmetric] M_def [symmetric] S_def [symmetric] U_def [symmetric]
    using r SU MSU q by (simp add: quot_pos as_u32_small)
qed

lemma dt_split_units:
  assumes "0 < f" "f < 2 ^ 24" "n < 3652061" "h < 24" "m < 60" "s < 60" "u < f"
  shows "(dt_split (int f) (word_of_nat (86400 * f * n + time_units f h m s u + 1)) :: (int \<times> int, 'e) res)
    = Ok (int n, int (time_units f h m s u))"
proof -
  define t where "t = time_units f h m s u"
  have "f * (3600 * h + 60 * m + s) \<le> f * 86399" using assms by (intro mult_left_mono) simp_all
  then have t: "t < 86400 * f" using assms(7) unfolding t_def time_units_def by linarith
  have "f * n \<le> 2 ^ 24 * 3652061" by (rule mult_mono) (use assms in simp_all)
  then have "86400 * f * n + t + 1 < 2 ^ 63" using t assms(2) by simp
  then have v: "sint (word_of_nat (86400 * f * n + t + 1) :: i64) = int (86400 * f * n + t + 1)"
    by (rule sint_small_64)
  have q: "quot (int (86400 * f * n + t)) (86400 * int f) = int n"
  proof -
    have e: "int (86400 * f * n + t) = 86400 * int f * int n + int t" by simp
    have "int t < 86400 * int f" using t by linarith
    then have "int (86400 * f * n + t) div (86400 * int f) = int n"
      unfolding e by (intro div_unique) simp_all
    then show ?thesis using assms(1) by (simp add: quot_pos)
  qed
  have "int (86400 * f * n + t) - int n * (86400 * int f) = int t" by (simp add: algebra_simps)
  moreover have "int (N + 1) \<noteq> - (2 ^ 63)" "int (N + 1) \<noteq> 0" "int (N + 1) - 1 = int N" for N by simp_all
  ultimately show ?thesis
    unfolding dt_split_def t_def [symmetric] v Let_def by (simp only: q if_False)
qed

text \<open>A second date is its day of the calendar and its time of day, for every second of every day.\<close>

theorem seconddate_calendar:
  assumes "n < 3652061" "h < 24" "m < 60" "s < 60"
  shows "(as_ymd_hms (SecondDate (word_of_nat (86400 * n + 3600 * h + 60 * m + s + 1)))
      :: (int \<times> int \<times> int \<times> int \<times> int \<times> int, 'e) res)
    = (case calendar n of (year, month, day) \<Rightarrow> Ok (year, month, day, int h, int m, int s))"
proof -
  define w :: i64 where "w = word_of_nat (86400 * n + 3600 * h + 60 * m + s + 1)"
  have "(dt_split 1 w :: (int \<times> int, 'e) res) = Ok (int n, int (time_units 1 h m s 0))"
    using dt_split_units [of 1, OF _ _ assms, of 0, where 'e = 'e] by (simp add: time_units_def w_def add.assoc)
  then show ?thesis
    using split_time_units [of 1, OF _ _ assms(2-4), of 0] ymd_of_datevalue_calendar [OF assms(1), where 'e = 'e]
    unfolding w_def [symmetric] by (simp split: prod.split)
qed

text \<open>A long date is its day of the calendar and its time of day with a fraction of seven digits.\<close>

theorem longdate_calendar:
  assumes "n < 3652061" "h < 24" "m < 60" "s < 60" "u < 10000000"
  shows "(as_ymd_hms_f (LongDate (word_of_nat (864000000000 * n + time_units 10000000 h m s u + 1)))
      :: (int \<times> int \<times> int \<times> int \<times> int \<times> int \<times> int, 'e) res)
    = (case calendar n of (year, month, day) \<Rightarrow> Ok (year, month, day, int h, int m, int s, int u))"
proof -
  define w :: i64 where "w = word_of_nat (864000000000 * n + time_units 10000000 h m s u + 1)"
  have "(dt_split 10000000 w :: (int \<times> int, 'e) res) = Ok (int n, int (time_units 10000000 h m s u))"
    using dt_split_units [of 10000000, OF _ _ assms, where 'e = 'e] by (simp add: w_def)
  then show ?thesis
    using split_time_units [of 10000000, OF _ _ assms(2-5)] ymd_of_datevalue_calendar [OF assms(1), where 'e = 'e]
    unfolding w_def [symmetric] by (simp split: prod.split)
qed

theorem seconddate_calendar_witness:
  "as_ymd_hms (SecondDate (word_of_nat (86400 * 3652060 + 3600 * 23 + 60 * 59 + 59 + 1)))
    = Ok (9999, 12, 31, 23, 59, 59)"
  using seconddate_calendar [of 3652060 23 59 59] by (simp add: calendar_last)

theorem longdate_calendar_witness:
  "as_ymd_hms_f (LongDate (word_of_nat (864000000000 * 3652060 + time_units 10000000 23 59 59 9999999 + 1)))
    = Ok (9999, 12, 31, 23, 59, 59, 9999999)"
  using longdate_calendar [of 3652060 23 59 59 9999999] by (simp add: calendar_last)

end
