(* ===== verification/Hdb_Handshake.thy ===== *)
theory Hdb_Handshake
  imports Hdb_Server
begin

text \<open>
  The whole handshake on the wire: connecting a TCP stream, the initial request, the two authentication
  requests. A server that holds an account for PBKDF2 (salt, iterations, the stored key and the key for its
  own proof, not the password) decodes the bytes of the requests, checks the proof of the client and
  answers with the bytes of replies.
\<close>

section \<open>Emitting succeeds\<close>

definition part_len :: "bytes \<Rightarrow> nat" where
  "part_len body = 16 + length body + padsize (length body)"

text \<open>What is emitted as the body of a part.\<close>

definition emits :: "cesu8_lib \<Rightarrow> num_lib \<Rightarrow> part \<Rightarrow> bytes \<Rightarrow> bool" where
  "emits c8 nl p body \<longleftrightarrow> wf_sent nl None p \<and> part_emit_raw c8 nl p None = Ok body \<and>
     (\<exists>c. part_count p = Ok c \<and> int c < 2 ^ 31)"

lemma unat_word_of_nat_le: "n \<le> unat (a :: u32) \<Longrightarrow> unat (word_of_nat n :: u32) = n"
proof -
  assume "n \<le> unat a"
  moreover have "unat a < 2 ^ LENGTH(32)" by (rule unsigned_less)
  ultimately show ?thesis by (simp add: unat_of_nat)
qed

lemma sub_u32_of_nat: "n \<le> unat a \<Longrightarrow> sub_u32 a (word_of_nat n) = Ok (a - word_of_nat n)"
  by (simp add: sub_u32_def word_le_nat_alt unat_word_of_nat_le)

lemma unat_sub_of_nat: "n \<le> unat (a :: u32) \<Longrightarrow> unat (a - word_of_nat n) = unat a - n"
  by (simp add: unat_sub word_le_nat_alt unat_word_of_nat_le)

lemma part_emit_total:
  assumes "cesu8_crate c8" "num_crates nl" "emits c8 nl p body" "part_len body \<le> unat r"
  shows "\<exists>bs r'. part_emit c8 nl p r None = Ok (bs, r') \<and> length bs = part_len body \<and> unat r' = unat r - part_len body"
proof -
  from assms(3) obtain c where c: "part_count p = Ok c" "int c < 2 ^ 31"
    and raw: "part_emit_raw c8 nl p None = Ok body" and wf: "wf_sent nl None p"
    by (auto simp: emits_def)
  have sz: "part_body_size p False None = Ok (length body)"
    using part_emit_raw_size [OF assms(1,2) wf raw] by (simp add: part_body_size_def)
  obtain cnt where cnt: "part_header_count c = Ok cnt" using c(2) by (cases "int c < 32767") (auto simp: part_header_count_def)
  have "(16 :: u32) = word_of_nat 16" by simp
  then have r1: "sub_u32 r 16 = (Ok (r - 16) :: (_, ioerr) res)" "unat (r - 16) = unat r - 16"
    using sub_u32_of_nat [of 16 r] unat_sub_of_nat [of 16 r] assms(4) by (simp_all add: part_len_def)
  have le: "length body \<le> unat (r - 16)" using assms(4) r1(2) by (simp add: part_len_def)
  have r2: "sub_u32 (r - 16) (word_of_nat (length body)) = (Ok (r - 16 - word_of_nat (length body)) :: (_, ioerr) res)"
    "unat (r - 16 - word_of_nat (length body)) = unat r - 16 - length body"
    using unat_sub_of_nat [OF le] r1(2) by (simp_all add: sub_u32_of_nat [OF le])
  have le2: "padsize (length body) \<le> unat (r - 16 - word_of_nat (length body))"
    using assms(4) r2(2) by (simp add: part_len_def)
  have r3: "sub_u32 (r - 16 - word_of_nat (length body)) (word_of_nat (padsize (length body)))
      = (Ok (r - 16 - word_of_nat (length body) - word_of_nat (padsize (length body))) :: (_, ioerr) res)"
    "unat (r - 16 - word_of_nat (length body) - word_of_nat (padsize (length body)))
      = unat r - 16 - length body - padsize (length body)"
    using unat_sub_of_nat [OF le2] r2(2) by (simp_all add: sub_u32_of_nat [OF le2])
  show ?thesis
    using part_header_count_length [OF cnt] r3(2)
    by (simp add: part_emit_def c(1) cnt sz r1(1) part_emit_body_def raw r2(1) r3(1) part_len_def)
qed

lemma emit_parts_total:
  assumes "cesu8_crate c8" "num_crates nl"
  shows "list_all2 (emits c8 nl) ps bodies \<Longrightarrow> sum_list (map part_len bodies) \<le> unat r \<Longrightarrow>
    \<exists>bs r'. emit_parts c8 nl None ps r = Ok (bs, r') \<and> length bs = sum_list (map part_len bodies)"
proof (induction ps bodies arbitrary: r rule: list_all2_induct)
  case (Cons p ps body bodies)
  obtain b r1 where b: "part_emit c8 nl p r None = Ok (b, r1)" "length b = part_len body" "unat r1 = unat r - part_len body"
    using part_emit_total [OF assms Cons.hyps(1), of r] Cons.prems by auto
  have "sum_list (map part_len bodies) \<le> unat r1" using Cons.prems b(3) by simp
  from Cons.IH [OF this] obtain bs r'
    where "emit_parts c8 nl None ps r1 = Ok (bs, r')" "length bs = sum_list (map part_len bodies)" by blast
  then show ?case using b by simp
qed simp

lemma parts_size_total:
  assumes "cesu8_crate c8" "num_crates nl"
  shows "list_all2 (emits c8 nl) ps bodies \<Longrightarrow> parts_size None ps = Ok (sum_list (map part_len bodies))"
proof (induction ps bodies rule: list_all2_induct)
  case (Cons p ps body bodies)
  have "part_raw_size p None = Ok (length body)"
    using part_emit_raw_size [OF assms, of None p body] Cons.hyps(1) by (auto simp: emits_def)
  then show ?case using Cons.IH by (simp add: part_size_def part_body_size_def part_len_def)
qed simp

lemma request_emit_total:
  assumes "cesu8_crate c8" "num_crates nl" "list_all2 (emits c8 nl) (rq_parts r) bodies"
    and "sum_list (map part_len bodies) < 2 ^ 31"
  shows "\<exists>hd bs r'. request_emit c8 nl sid nsn ac None r = Ok (hd @ bs) \<and> length hd = 56 \<and>
    emit_parts c8 nl None (rq_parts r) (word_of_nat (sum_list (map part_len bodies))) = Ok (bs, r') \<and>
    length bs = sum_list (map part_len bodies)"
proof -
  let ?n = "sum_list (map part_len bodies)"
  have sz: "seg_size None r = Ok (24 + ?n)" using parts_size_total [OF assms(1-3)] by (simp add: seg_size_def)
  have u: "unat (word_of_nat (24 + ?n) :: u32) = 24 + ?n" "unat (word_of_nat ?n :: u32) = ?n"
    using assms(4) by (simp_all add: unat_of_nat del: of_nat_add)
  have sub: "sub_u32 (word_of_nat (24 + ?n)) 24 = (Ok (word_of_nat ?n) :: (_, ioerr) res)"
    using sub_u32_of_nat [of 24 "word_of_nat (24 + ?n) :: u32"] u by simp
  obtain bs r' where bs: "emit_parts c8 nl None (rq_parts r) (word_of_nat ?n) = Ok (bs, r')" "length bs = ?n"
    using emit_parts_total [OF assms(1-3), of "word_of_nat ?n"] u(2) by auto
  have "\<not> 2 ^ 32 \<le> 32 + int (unat (word_of_nat (24 + ?n) :: u32))"
    unfolding u using assms(4) by simp
  then have "request_emit c8 nl sid nsn ac None r = Ok ((message_header sid nsn (word_of_nat (24 + ?n)) (word_of_nat (24 + ?n))
      @ segment_header (word_of_nat (24 + ?n)) (word_of_nat (length (rq_parts r))) (rq_type r) ac (rq_command_options r)) @ bs)"
    using sub bs(1) by (simp add: request_emit_def varpart_size_def sz Let_def del: of_nat_add)
  then show ?thesis using bs by (intro exI conjI) auto
qed

text \<open>The parts of the handshake.\<close>

lemma emits_auth:
  assumes "list_all (\<lambda>v. length v \<le> 250) af"
  shows "\<exists>body. emits c8 nl (P_Auth af) body \<and> length body \<le> 2 + 251 * length af"
proof -
  obtain bs where bs: "emit_list auth_field_emit af = Ok bs" using auth_field_short.emit_list_total [OF assms] by blast
  have "auth_fields_size af \<le> 2 + 251 * length af"
    using assms by (induction af) (auto simp: auth_fields_size_def auth_field_size_def)
  then show ?thesis
    using auth_fields_emit_size [OF assms, of "write_i16 (word_of_nat (length af)) @ bs"] assms bs
    by (intro exI [of _ "write_i16 (word_of_nat (length af)) @ bs"])
      (simp add: emits_def part_emit_raw_def part_count_def auth_fields_emit_def)
qed

lemma op_emit_total: "\<exists>bs. op_emit c8 to_u8 m = Ok bs"
  by (induction m) (auto simp: op_emit_def op_emit_entry_def ov_emit_def)

lemma op_size_bound: "wf_options m \<Longrightarrow> op_size m \<le> 32772 * length m"
proof (induction m)
  case (Cons x m)
  have "ov_size v \<le> 32771" if "wf_option_value v" for v using that by (cases v) auto
  then show ?case using Cons by (fastforce simp: op_size_def)
qed (simp add: op_size_def)

lemma emits_options:
  assumes "cesu8_crate c8" "wf_options m" "wf_options k" "int (length k) < 2 ^ 31"
  shows "\<exists>body. emits c8 nl (P_ClientContext m) body \<and> length body \<le> 32772 * length m"
    "\<exists>body. emits c8 nl (P_ConnectOptions k) body \<and> length body \<le> 32772 * length k"
proof -
  obtain bs cs where e: "op_emit c8 client_context_id_to_u8 m = Ok bs" "op_emit c8 conn_opt_id_to_u8 k = Ok cs"
    using op_emit_total by metis
  note len = cesu8_crate.op_size_emit [OF assms(1)]
  from e len [OF assms(2) e(1)] op_size_bound [OF assms(2)] assms(2)
  show "\<exists>body. emits c8 nl (P_ClientContext m) body \<and> length body \<le> 32772 * length m"
    by (intro exI [of _ bs]) (simp add: emits_def part_emit_raw_def part_count_def)
  from e len [OF assms(3) e(2)] op_size_bound [OF assms(3)] assms(3,4)
  show "\<exists>body. emits c8 nl (P_ConnectOptions k) body \<and> length body \<le> 32772 * length k"
    by (intro exI [of _ cs]) (simp add: emits_def part_emit_raw_def part_count_def op_len_def)
qed

section \<open>The server\<close>

text \<open>\<open>as_stored_key\<close> is the hash of the client key, \<open>as_server_key\<close> what the server proves to know.\<close>

record auth_server =
  as_user :: bytes
  as_salt :: bytes
  as_iterations :: u32
  as_stored_key :: bytes
  as_server_key :: bytes
  as_nonce :: bytes
  as_session_id :: i64
  as_options :: connect_options

datatype auth_phase = Hello | Greeted | Challenged bytes | Accepted | Refused

definition skip_part :: "unit rd" where
  "skip_part =
     rd_bind parse_part_header (\<lambda>(kind, attributes, n, count).
     rd_bind (read_exact (n + padsize n)) (\<lambda>_. rd_return ()))"

definition after_first_part :: "bytes \<Rightarrow> bytes" where
  "after_first_part bs = (case skip_part bs of Ok (_, rest) \<Rightarrow> rest | _ \<Rightarrow> [])"

definition auth_fields_in :: "cesu8_lib \<Rightarrow> num_lib \<Rightarrow> bytes \<Rightarrow> bytes list option" where
  "auth_fields_in c8 nl bs =
     (case part_parse c8 nl [] False None None None False bs of Ok ((P_Auth af, _, _), _) \<Rightarrow> Some af | _ \<Rightarrow> None)"

definition fields_bytes :: "bytes list \<Rightarrow> bytes" where
  "fields_bytes fs = (case auth_fields_emit fs of Ok bs \<Rightarrow> bs | _ \<Rightarrow> [])"

definition parts_reply_header :: "i64 \<Rightarrow> nat \<Rightarrow> bytes" where
  "parts_reply_header session_id n =
     write_i64 session_id @ write_i32 1 @ write_u32 0 @ write_u32 0 @ write_i16 1 @ replicate 10 0
     @ write_i32 0 @ write_i32 0 @ write_i16 (word_of_nat n) @ write_i16 1 @ [2] @ [0] @ write_i16 0 @ replicate 8 0"

definition parts_reply :: "cesu8_lib \<Rightarrow> num_lib \<Rightarrow> i64 \<Rightarrow> part list \<Rightarrow> bytes" where
  "parts_reply c8 nl session_id ps =
     (case emit_parts c8 nl None ps 0xFFFFFFFF of
        Ok (bs, _) \<Rightarrow> parts_reply_header session_id (length ps) @ bs
      | _ \<Rightarrow> [])"

definition auth_answer :: "cesu8_lib \<Rightarrow> num_lib \<Rightarrow> crypto \<Rightarrow> auth_server \<Rightarrow> auth_phase server" where
  "auth_answer c8 nl cr srv req phase =
     (case phase of
        Hello \<Rightarrow> if req = initial_request then (replicate 8 0, Greeted) else ([], Refused)
      | Greeted \<Rightarrow>
          (case auth_fields_in c8 nl (after_first_part (drop 56 req)) of
             Some [user, _, _, meth, challenge] \<Rightarrow>
               if user = as_user srv \<and> meth = auth_name ScramPbkdf2Sha256 then
                 (parts_reply c8 nl 0
                    [P_Auth [meth, fields_bytes [as_salt srv, as_nonce srv, write_be 4 (as_iterations srv)]]],
                  Challenged challenge)
               else ([], Refused)
           | _ \<Rightarrow> ([], Refused))
      | Challenged challenge \<Rightarrow>
          (case auth_fields_in c8 nl (drop 56 req) of
             Some [user, meth, buf] \<Rightarrow>
               if user = as_user srv \<and> meth = auth_name ScramPbkdf2Sha256 \<and> take 3 buf = [0, 1, 32] \<and>
                 server_accepts cr (as_stored_key srv) (as_salt srv @ as_nonce srv @ challenge) (drop 3 buf)
               then
                 (parts_reply c8 nl (as_session_id srv)
                    [P_Auth [meth, fields_bytes [hmac cr (as_server_key srv) (challenge @ as_salt srv @ as_nonce srv)]],
                     P_ConnectOptions (as_options srv)],
                  Accepted)
               else ([], Refused)
           | _ \<Rightarrow> ([], Refused))
      | _ \<Rightarrow> ([], Refused))"

section \<open>Requests and replies are understood\<close>

lemma skip_part_emitted:
  assumes "cesu8_crate c8" "num_crates nl" "emits c8 nl p body" "part_emit c8 nl p r None = Ok (bs, r')"
    and "length bs < 2 ^ 31"
  shows "after_first_part (bs @ rest) = rest"
proof -
  have wf: "wf_sent nl None p" using assms(3) by (simp add: emits_def)
  obtain c cnt bd where *: "part_count p = Ok c" "part_header_count c = Ok cnt"
    "bs = [part_kind_as_i8 (part_kind_of p), 0] @ cnt @ write_i32 (word_of_nat (length bd))
       @ write_i32 r @ bd @ replicate (padsize (length bd)) 0"
    using part_emit_Ok [OF assms(1,2) wf assms(4)] by metis
  have c: "int c < 2 ^ 31" using *(1) assms(3) by (auto simp: emits_def)
  have n: "length bd < 2 ^ 31" using assms(5) by (simp add: *(3))
  have "parse_part_header (bs @ rest) = Ok ((part_kind_of p, 0, length bd, c), (bd @ replicate (padsize (length bd)) 0) @ rest)"
    using parse_part_header_emit [OF *(2) c n] by (simp add: *(3))
  then show ?thesis
    by (simp add: after_first_part_def skip_part_def rd_bind_apply rd_apply_simps
        read_exact_append [of "bd @ replicate (padsize (length bd)) 0", simplified])
qed

lemma auth_fields_in_emitted:
  assumes "cesu8_crate c8" "num_crates nl" "wf_echoed (P_Auth af)"
    and "part_emit c8 nl (P_Auth af) r None = Ok (bs, r')" and "length bs < 2 ^ 31"
  shows "auth_fields_in c8 nl (bs @ rest) = Some af"
  using part_back [OF assms] by (simp add: auth_fields_in_def)

lemma parts_reply_parsed:
  assumes "cesu8_crate c8" "num_crates nl" "\<forall>p \<in> set ps. wf_echoed p" "list_all2 (emits c8 nl) ps bodies"
    and "sum_list (map part_len bodies) < 2 ^ 31" "length ps < 2 ^ 15"
  shows "reply_parse c8 nl md ds rs hc (parts_reply c8 nl sid ps) =
    Ok ((\<lparr>rp_session_id = sid, rp_replytype = RT_Nil, rp_parts = ps\<rparr>, rs), [])"
proof -
  obtain bs r' where bs: "emit_parts c8 nl None ps 0xFFFFFFFF = Ok (bs, r')" "length bs = sum_list (map part_len bodies)"
    using emit_parts_total [OF assms(1,2,4), of "0xFFFFFFFF"] assms(5) by auto
  have n: "nat (sint (word_of_nat (length ps) :: i16)) = length ps"
    using assms(6) by (simp add: sint_of_nat_small)
  have "parse_message_and_sequence_header (parts_reply_header sid (length ps) @ bs)
      = Ok ((word_of_nat (length ps), reply_new sid RT_Nil), bs)"
    by (simp add: parse_message_and_sequence_header_def parts_reply_header_def rd_simps seg_kind_from_i8_def
        reply_type_from_i16_def skip_bytes_append [of "[0]" 1, simplified])
  then show ?thesis
    using parse_emitted_parts [OF assms(1-3) bs(1), of md ds hc "[]" rs "[]"] bs assms(5)
    by (simp add: reply_parse_def parts_reply_def rd_bind_apply rd_apply_simps n reply_new_def)
qed

lemma request_understood:
  assumes "cesu8_crate c8" "num_crates nl" "emits c8 nl p b1" "emits c8 nl q b2" "part_len b1 + part_len b2 < 2 ^ 31"
    and "rq_parts r = [p, q]"
  shows "\<exists>bs. request_emit c8 nl sid nsn ac None r = Ok bs \<and>
    (\<forall>af. q = P_Auth af \<and> wf_echoed q \<longrightarrow> auth_fields_in c8 nl (after_first_part (drop 56 bs)) = Some af) \<and>
    (\<forall>af. p = P_Auth af \<and> wf_echoed p \<longrightarrow> auth_fields_in c8 nl (drop 56 bs) = Some af)"
proof -
  have "list_all2 (emits c8 nl) (rq_parts r) [b1, b2]" using assms(3,4,6) by simp
  from request_emit_total [OF assms(1,2) this, of sid nsn ac] assms(5) obtain hd bs r' where
    e: "request_emit c8 nl sid nsn ac None r = Ok (hd @ bs)" "length hd = 56"
    "emit_parts c8 nl None [p, q] (word_of_nat (part_len b1 + part_len b2)) = Ok (bs, r')"
    "length bs = part_len b1 + part_len b2"
    by (auto simp: assms(6))
  from e(3) obtain c1 r1 c2 r2 where c: "part_emit c8 nl p (word_of_nat (part_len b1 + part_len b2)) None = Ok (c1, r1)"
    "part_emit c8 nl q r1 None = Ok (c2, r2)" "bs = c1 @ c2"
    by (auto simp: res_simps simp del: of_nat_add)
  have len: "length c1 < 2 ^ 31" "length c2 < 2 ^ 31" using e(4) assms(5) c(3) by simp_all
  have "after_first_part (c1 @ c2) = c2" by (rule skip_part_emitted [OF assms(1-3) c(1) len(1)])
  then show ?thesis
    using e(1,2) c len auth_fields_in_emitted [OF assms(1,2) _ _ len(2), of _ r1 r2 "[]"]
      auth_fields_in_emitted [OF assms(1,2) _ _ len(1), of _ _ r1 c2]
    by (intro exI [of _ "hd @ bs"]) auto
qed

section \<open>The authenticator\<close>

lemma fields_bytes_parsed:
  assumes "list_all (\<lambda>v. length v \<le> 250) fs" "length fs < 2 ^ 16"
  shows "auth_fields_of (fields_bytes fs) = Ok fs"
proof -
  obtain bs where bs: "auth_fields_emit fs = Ok bs"
    using emits_auth [OF assms(1), of undefined undefined] by (auto simp: emits_def part_emit_raw_def)
  then show ?thesis using auth_fields_back [OF assms bs, of "[]"] by (simp add: auth_fields_of_def fields_bytes_def)
qed

lemma read_u32_be_write: "read_u32_be (write_be 4 (w :: u32)) = Ok (w, [])"
proof -
  have "length (rev (write_le 4 w)) = 4" by (simp add: write_le_def)
  then have "read_exact 4 (rev (write_le 4 w)) = Ok (rev (write_le 4 w), [])"
    using read_exact_append [of "rev (write_le 4 w)" 4 "[]"] by simp
  moreover have "read_le 4 (write_le 4 w @ []) = Ok (w, [])" by (rule read_le_write) simp
  then have "word_of_nat (le_nat (write_le 4 w)) = w"
    using read_exact_append [of "write_le 4 w" 4 "[]"] by (simp add: read_le_def rd_simps write_le_def)
  ultimately show ?thesis by (simp add: read_u32_be_def write_be_def rd_simps)
qed

definition account_salted :: "crypto \<Rightarrow> auth_server \<Rightarrow> bytes \<Rightarrow> bytes" where
  "account_salted cr srv password = use_pbkdf2 cr password (as_salt srv) (as_iterations srv)"

text \<open>The proof of the server that a client with this password expects.\<close>

definition expected_proof :: "crypto \<Rightarrow> auth_server \<Rightarrow> bytes \<Rightarrow> bytes \<Rightarrow> bytes" where
  "expected_proof cr srv password challenge =
     hmac cr (hmac cr (account_salted cr srv password) (as_salt srv)) (challenge @ as_salt srv @ as_nonce srv)"

definition fitting_server :: "auth_server \<Rightarrow> bool" where
  "fitting_server srv \<longleftrightarrow> 16 \<le> length (as_salt srv) \<and> length (as_salt srv) + length (as_nonce srv) \<le> 240 \<and>
     15000 \<le> as_iterations srv \<and> wf_option_part conn_opt_id_to_u8 conn_opt_id_from_u8 (as_options srv) \<and>
     length (as_options srv) \<le> 1000"

lemma client_answers_challenge:
  assumes "crypto_crates cr" "fitting_server srv"
  shows "\<exists>proof. client_proof cr (fields_bytes [as_salt srv, as_nonce srv, write_be 4 (as_iterations srv)]) password
      (boxed_authenticator ScramPbkdf2Sha256 challenge)
    = Ok ([0, 1, 32] @ proof, \<lparr>au_method = ScramPbkdf2Sha256, au_client_challenge = [],
        au_server_proof = Some (expected_proof cr srv password challenge)\<rparr>)
    \<and> server_accepts cr (sha256 cr (sha256 cr (account_salted cr srv password)))
        (as_salt srv @ as_nonce srv @ challenge) proof"
proof -
  let ?fs = "[as_salt srv, as_nonce srv, write_be 4 (as_iterations srv)]"
  have "auth_fields_of (fields_bytes ?fs) = Ok ?fs"
    using assms(2) by (intro fields_bytes_parsed) (auto simp: fitting_server_def write_be_def write_le_def)
  then have data: "parse_first_server_data_pbkdf2 (fields_bytes ?fs) = Ok (as_salt srv, as_nonce srv, as_iterations srv)"
    using assms(2) by (simp add: parse_first_server_data_pbkdf2_def read_u32_be_write fitting_server_def word_less_nat_alt
        word_le_nat_alt)
  obtain cp sp where sc: "scram_pdkdf2_sha256 cr (as_salt srv) (as_nonce srv) challenge password (as_iterations srv)
      = (Ok (cp, sp) :: (_, hdb_error) res)"
    by (auto simp: scram_pdkdf2_sha256_def Let_def xor_bytes_def crypto_crates.hmac_length [OF assms(1)]
        crypto_crates.sha256_length [OF assms(1)])
  show ?thesis
    using scram_pbkdf2_proof [OF sc assms(1)]
    by (auto simp: client_proof_def boxed_authenticator_def data sc client_proof_buf_def expected_proof_def
        account_salted_def)
qed

section \<open>The handshake\<close>

definition fitting_client :: "'n driver \<Rightarrow> connect_params \<Rightarrow> bytes \<Rightarrow> bytes \<Rightarrow> bool" where
  "fitting_client dr p challenge1 challenge2 \<longleftrightarrow>
     (\<forall>s \<in> {dr_version dr, dr_os_user dr} \<union> set_option (dr_program dr) \<union> set_option (cp_clientlocale p).
        valid_utf8 s \<and> cesu8_length s < 2 ^ 15) \<and>
     length (cp_dbuser p) \<le> 250 \<and> length challenge1 \<le> 250 \<and> length challenge2 \<le> 250"

lemma seven_bit_text:
  "list_all (\<lambda>b. unat b < 128) s \<Longrightarrow> valid_utf8 s \<and> cesu8_length s = length s"
proof (induction s)
  case (Cons b s)
  then have "utf8_char [b]" by (simp add: byte_defs)
  from valid_utf8_char_append [OF this, of s] show ?case using Cons by (simp add: cesu8_length_def)
qed (simp add: cesu8_length_def)

lemma client_options_fit:
  assumes "fitting_client dr p c1 c2"
  shows "wf_options (client_context_new (dr_version dr) (dr_program dr)) \<and>
    length (client_context_new (dr_version dr) (dr_program dr)) = 3"
    "wf_options (connect_options_for_server False (cp_clientlocale p) (dr_os_user dr)) \<and>
    length (connect_options_for_server False (cp_clientlocale p) (dr_os_user dr)) \<le> 4"
proof -
  have "list_all (\<lambda>b. unat b < 128) (ascii ''<unknown>'')"
    "list_all (\<lambda>b. unat b < 128) (ascii ''hdbconnect (rust native HANA driver, https://crates.io/crates/hdbconnect)'')"
    by (simp_all add: ascii_def)
  then have names: "valid_utf8 (ascii ''<unknown>'') \<and> cesu8_length (ascii ''<unknown>'') < 2 ^ 15"
    "valid_utf8 (ascii ''hdbconnect (rust native HANA driver, https://crates.io/crates/hdbconnect)'') \<and>
     cesu8_length (ascii ''hdbconnect (rust native HANA driver, https://crates.io/crates/hdbconnect)'') < 2 ^ 15"
    using seven_bit_text by (simp_all add: ascii_def)
  then show "wf_options (client_context_new (dr_version dr) (dr_program dr)) \<and>
      length (client_context_new (dr_version dr) (dr_program dr)) = 3"
    using assms by (auto simp: client_context_new_def op_insert_def fitting_client_def split: option.split)
  show "wf_options (connect_options_for_server False (cp_clientlocale p) (dr_os_user dr)) \<and>
      length (connect_options_for_server False (cp_clientlocale p) (dr_os_user dr)) \<le> 4"
    using assms by (auto simp: connect_options_for_server_def op_insert_def fitting_client_def Let_def split: option.split)
qed

lemma part_len_bound: "part_len b \<le> length b + 23"
  by (simp add: part_len_def padsize_def)

text \<open>What the server proves.\<close>

definition server_proof :: "crypto \<Rightarrow> auth_server \<Rightarrow> bytes \<Rightarrow> bytes" where
  "server_proof cr srv challenge = hmac cr (as_server_key srv) (challenge @ as_salt srv @ as_nonce srv)"

definition wrong_server :: hdb_error where
  "wrong_server = Usage ''PBKDF2: Server proof failed - this indicates a severe security issue with the server's identity!''"

lemma proof_evaluated:
  assumes "crypto_crates cr"
  shows "evaluate_second_response \<lparr>au_method = ScramPbkdf2Sha256, au_client_challenge = [], au_server_proof = Some e\<rparr>
      (auth_name ScramPbkdf2Sha256) (fields_bytes [server_proof cr srv c])
    = (if server_proof cr srv c = e then Ok () else Err wrong_server)"
proof -
  have "auth_fields_of (fields_bytes [server_proof cr srv c]) = Ok [server_proof cr srv c]"
    by (rule fields_bytes_parsed) (simp_all add: server_proof_def crypto_crates.hmac_length [OF assms])
  then show ?thesis
    by (simp add: evaluate_second_response_def verify_server_def auth_fields_pop_def wrong_server_def)
qed

section \<open>The contract of the network\<close>

text \<open>\<open>at ph input\<close>: the stream is up, the server is in the phase \<open>ph\<close> of the handshake and \<open>input\<close> is what it
  has sent and the client has not yet read.\<close>

locale auth_network =
  fixes dr :: "'n driver" and srv :: auth_server and at :: "auth_phase \<Rightarrow> bytes \<Rightarrow> 'n"
  assumes sends: "auth_answer (dr_c8 dr) (dr_nl dr) (dr_crypto dr) srv bs ph = (reply, ph') \<Longrightarrow> ph \<noteq> Accepted \<Longrightarrow>
      net_write (dr_net dr) bs (at ph input) = (Ok (), at ph' (input @ reply))"
    and pending: "net_input (dr_net dr) (at ph bs) = bs"
    and consumes: "net_consume (dr_net dr) k (at ph bs) = at ph (drop k bs)"
begin

lemma answered_roundtrip:
  assumes nums: "request_numbers r cc = (Ok (sid, nsn), cc1)" and tcp: "cc_tcp cc1 = at ph0 []" "ph0 \<noteq> Accepted"
    and emit: "request_emit (dr_c8 dr) (dr_nl dr) sid nsn (cc_auto_commit cc1) None r = Ok bs"
    and server: "auth_answer (dr_c8 dr) (dr_nl dr) (dr_crypto dr) srv bs ph0 = (msg, ph1)"
    and parse: "reply_parse (dr_c8 dr) (dr_nl dr) None None None False msg = Ok ((reply, None), [])"
    and parts: "\<forall>p \<in> set (rp_parts reply). part_kind_of p \<noteq> PK_Error"
  shows "plain_roundtrip dr r cc = (Ok reply, cc1\<lparr>cc_tcp := at ph1 [], cc_warnings := []\<rparr>)"
proof -
  have sent: "send_request dr r None cc = (Ok (), cc1\<lparr>cc_tcp := at ph1 msg\<rparr>)"
    using sends [OF server tcp(2), of "[]"] by (simp add: send_request_def st_bind_def nums on_tcp_def tcp(1) net_send_def emit)
  have recv: "receive_reply dr False None None (cc1\<lparr>cc_tcp := at ph1 msg\<rparr>, None)
      = (Ok reply, (cc1\<lparr>cc_tcp := at ph1 []\<rparr>, None))"
    by (simp add: receive_reply_def on_tcp_def net_read_def pending consumes parse)
  show ?thesis
    by (simp add: plain_roundtrip_def roundtrip_def st_bind_def on_core_def sent recv handle_no_error [OF parts])
qed

lemma hello_answered: "send_and_receive (dr_net dr) (at Hello []) = (Ok (), at Greeted [])"
proof -
  have "auth_answer (dr_c8 dr) (dr_nl dr) (dr_crypto dr) srv initial_request Hello = (replicate 8 0, Greeted)"
    by (simp add: auth_answer_def)
  from sends [OF this, of "[]"]
  have "net_write (dr_net dr) initial_request (at Hello []) = (Ok (), at Greeted (replicate 8 0))" by simp
  moreover have "net_read (dr_net dr) (skip_bytes 8) (at Greeted (replicate 8 0)) = (Ok (), at Greeted [])"
    using skip_bytes_append [of "replicate 8 0" 8 "[]"] by (simp add: net_read_def pending consumes)
  ultimately show ?thesis by (simp add: send_and_receive_def split: unit.split)
qed

text \<open>The first exchange.\<close>

lemma first_exchange:
  assumes "cesu8_crate (dr_c8 dr)" "num_crates (dr_nl dr)" "fitting_client dr p c1 c2" "fitting_server srv"
    and "as_user srv = cp_dbuser p" and cc: "cc_params cc = p" "cc_tcp cc = at Greeted []"
  shows "first_auth_request dr [boxed_authenticator ScramSha256 c1, boxed_authenticator ScramPbkdf2Sha256 c2] cc
    = (Ok (auth_name ScramPbkdf2Sha256, fields_bytes [as_salt srv, as_nonce srv, write_be 4 (as_iterations srv)]),
       cc\<lparr>cc_tcp := at (Challenged c2) [], cc_warnings := []\<rparr>)"
proof -
  let ?c8 = "dr_c8 dr" and ?nl = "dr_nl dr" and ?name = "auth_name ScramPbkdf2Sha256"
  let ?fs = "[as_salt srv, as_nonce srv, write_be 4 (as_iterations srv)]"
  let ?ctx = "client_context_new (dr_version dr) (dr_program dr)"
  let ?af = "[cp_dbuser p, auth_name ScramSha256, c1, ?name, c2]"
  let ?r = "request_push (P_Auth ?af) (request_push (P_ClientContext ?ctx) (request_new RQ_Authenticate 0))"
  have names: "length (auth_name ScramSha256) \<le> 250" "length ?name \<le> 250" by (simp_all add: ascii_def)
  have afs: "list_all (\<lambda>v. length v \<le> 250) ?af"
    using assms(3) names by (simp add: fitting_client_def del: auth_name.simps)
  obtain b1 b2 where b: "emits ?c8 ?nl (P_ClientContext ?ctx) b1" "length b1 \<le> 32772 * 3"
    "emits ?c8 ?nl (P_Auth ?af) b2" "length b2 \<le> 2 + 251 * 5"
    using emits_options(1) [OF assms(1), of ?ctx "[]"] emits_auth [OF afs] client_options_fit(1) [OF assms(3)]
    by fastforce
  have "part_len b1 + part_len b2 < 2 ^ 31" using b part_len_bound [of b1] part_len_bound [of b2] by simp
  from request_understood [OF assms(1,2) b(1,3) this, of ?r 0 1 "cc_auto_commit cc"] obtain bs where
    bs: "request_emit ?c8 ?nl 0 1 (cc_auto_commit cc) None ?r = Ok bs"
    "auth_fields_in ?c8 ?nl (after_first_part (drop 56 bs)) = Some ?af"
    using afs by (auto simp: request_push_def request_new_def simp del: auth_name.simps)
  let ?ps = "[P_Auth [?name, fields_bytes ?fs]]"
  have answer: "auth_answer ?c8 ?nl (dr_crypto dr) srv bs Greeted = (parts_reply ?c8 ?nl 0 ?ps, Challenged c2)"
    by (simp add: auth_answer_def bs(2) assms(5) del: auth_name.simps)
  have data: "length (fields_bytes ?fs) \<le> 250"
  proof -
    have fs: "list_all (\<lambda>v. length v \<le> 250) ?fs"
      using assms(4) by (auto simp: fitting_server_def write_be_def write_le_def)
    then obtain ds where ds: "auth_fields_emit ?fs = Ok ds"
      using emits_auth [of ?fs undefined undefined] by (auto simp: emits_def part_emit_raw_def)
    have "length (write_be 4 (as_iterations srv)) = 4" by (simp add: write_be_def write_le_def)
    then show ?thesis
      using auth_fields_emit_size [OF fs ds] assms(4)
      by (simp add: fields_bytes_def ds auth_fields_size_def auth_field_size_def fitting_server_def)
  qed
  obtain b3 where b3: "emits ?c8 ?nl (P_Auth [?name, fields_bytes ?fs]) b3" "length b3 \<le> 2 + 251 * 2"
    using emits_auth [of "[?name, fields_bytes ?fs]"] names data by fastforce
  have reply: "reply_parse ?c8 ?nl None None None False (parts_reply ?c8 ?nl 0 ?ps) =
      Ok ((\<lparr>rp_session_id = 0, rp_replytype = RT_Nil, rp_parts = ?ps\<rparr>, None), [])"
    by (rule parts_reply_parsed [OF assms(1,2), where bodies = "[b3]"])
      (use b3 part_len_bound [of b3] names data in \<open>simp_all del: auth_name.simps\<close>)
  have "plain_roundtrip dr ?r cc = (Ok \<lparr>rp_session_id = 0, rp_replytype = RT_Nil, rp_parts = ?ps\<rparr>,
      cc\<lparr>cc_tcp := at (Challenged c2) [], cc_warnings := []\<rparr>)"
    by (rule answered_roundtrip [OF _ cc(2) _ bs(1) answer reply])
      (simp_all add: request_numbers_def request_push_def request_new_def st_simps)
  then show ?thesis
    by (simp add: first_auth_request_def first_auth_fields_def boxed_authenticator_def cc(1)
        st_bind_def st_simps assert_expected_reply_type_def Let_def del: auth_name.simps)
qed

text \<open>The second exchange: the server accepts the proof of the client; whether the client accepts that of the
  server depends on the key of the server alone.\<close>

lemma second_exchange:
  assumes "cesu8_crate (dr_c8 dr)" "num_crates (dr_nl dr)" "crypto_crates (dr_crypto dr)"
    and "fitting_client dr p c1 c2" "fitting_server srv" "as_user srv = cp_dbuser p"
    and key: "as_stored_key srv
      = sha256 (dr_crypto dr) (sha256 (dr_crypto dr) (account_salted (dr_crypto dr) srv (cp_password p)))"
    and cc: "cc_params cc = p" "cc_tcp cc = at (Challenged c2) []" "cc_seq_number cc \<noteq> 0x7FFFFFFF"
    and opts: "second_auth_options rec (cc_connect_options cc) = Ok co" "wf_options co" "length co \<le> 1100"
  defines "cc2 \<equiv> set_session_id (as_session_id srv)
      (cc\<lparr>cc_seq_number := cc_seq_number cc + 1, cc_tcp := at Accepted [], cc_warnings := []\<rparr>)"
  shows "second_auth_request dr (boxed_authenticator ScramPbkdf2Sha256 c2)
      (fields_bytes [as_salt srv, as_nonce srv, write_be 4 (as_iterations srv)]) rec cc
    = (if server_proof (dr_crypto dr) srv c2 = expected_proof (dr_crypto dr) srv (cp_password p) c2
       then (Ok (), cc2\<lparr>cc_connect_options := digest_server_connect_options (cc_connect_options cc) (as_options srv)\<rparr>)
       else (Err wrong_server, cc2))"
proof -
  let ?c8 = "dr_c8 dr" and ?nl = "dr_nl dr" and ?cr = "dr_crypto dr" and ?name = "auth_name ScramPbkdf2Sha256"
  let ?fs = "[as_salt srv, as_nonce srv, write_be 4 (as_iterations srv)]"
  let ?e = "expected_proof ?cr srv (cp_password p) c2"
  let ?au = "\<lparr>au_method = ScramPbkdf2Sha256, au_client_challenge = [], au_server_proof = Some ?e\<rparr>"
  obtain cp where cp: "client_proof ?cr (fields_bytes ?fs) (cp_password p) (boxed_authenticator ScramPbkdf2Sha256 c2)
      = Ok ([0, 1, 32] @ cp, ?au)"
    "server_accepts ?cr (as_stored_key srv) (as_salt srv @ as_nonce srv @ c2) cp"
    using client_answers_challenge [OF assms(3,5), of "cp_password p" c2] unfolding key by blast
  let ?af = "[cp_dbuser p, ?name, [0, 1, 32] @ cp]"
  let ?r = "request_push (P_ConnectOptions co) (request_push (P_Auth ?af) (request_new RQ_Connect 0))"
  have name: "length ?name \<le> 250" by (simp add: ascii_def)
  have "length cp = 32" using cp(2) by (simp add: server_accepts_def)
  then have afs: "list_all (\<lambda>v. length v \<le> 250) ?af"
    using assms(4) name by (simp add: fitting_client_def del: auth_name.simps)
  obtain b1 b2 where b: "emits ?c8 ?nl (P_Auth ?af) b1" "length b1 \<le> 2 + 251 * 3"
    "emits ?c8 ?nl (P_ConnectOptions co) b2" "length b2 \<le> 32772 * 1100"
    using emits_options(2) [OF assms(1), of "[]" co] emits_auth [OF afs] opts(2,3) by fastforce
  have "part_len b1 + part_len b2 < 2 ^ 31" using b part_len_bound [of b1] part_len_bound [of b2] by simp
  from request_understood [OF assms(1,2) b(1,3) this, of ?r "cc_session_id cc" "cc_seq_number cc + 1" "cc_auto_commit cc"] obtain bs where
    bs: "request_emit ?c8 ?nl (cc_session_id cc) (cc_seq_number cc + 1) (cc_auto_commit cc) None ?r = Ok bs"
    "auth_fields_in ?c8 ?nl (drop 56 bs) = Some ?af"
    using afs by (auto simp: request_push_def request_new_def simp del: auth_name.simps)
  let ?ps = "[P_Auth [?name, fields_bytes [server_proof ?cr srv c2]], P_ConnectOptions (as_options srv)]"
  have answer: "auth_answer ?c8 ?nl ?cr srv bs (Challenged c2) = (parts_reply ?c8 ?nl (as_session_id srv) ?ps, Accepted)"
    using cp(2) by (simp add: auth_answer_def bs(2) assms(6) server_proof_def del: auth_name.simps)
  have hl: "length (server_proof ?cr srv c2) = 32" by (simp add: server_proof_def crypto_crates.hmac_length [OF assms(3)])
  then have plen: "list_all (\<lambda>v. length v \<le> 250) [server_proof ?cr srv c2]" by simp
  obtain ds where ds: "auth_fields_emit [server_proof ?cr srv c2] = Ok ds"
    using emits_auth [OF plen, of undefined undefined] by (auto simp: emits_def part_emit_raw_def)
  have data: "length (fields_bytes [server_proof ?cr srv c2]) \<le> 250"
    using auth_fields_emit_size [OF plen ds]
    by (simp add: fields_bytes_def ds auth_fields_size_def auth_field_size_def hl)
  have srv_opts: "wf_options (as_options srv)" "length (as_options srv) \<le> 1000"
    "wf_option_part conn_opt_id_to_u8 conn_opt_id_from_u8 (as_options srv)"
    using assms(5) wf_option_part_options by (auto simp: fitting_server_def)
  obtain b3 b4 where b34: "emits ?c8 ?nl (P_Auth [?name, fields_bytes [server_proof ?cr srv c2]]) b3" "length b3 \<le> 2 + 251 * 2"
    "emits ?c8 ?nl (P_ConnectOptions (as_options srv)) b4" "length b4 \<le> 32772 * 1000"
    using emits_auth [of "[?name, fields_bytes [server_proof ?cr srv c2]]"] emits_options(2) [OF assms(1) _ srv_opts(1), of "[]"]
      name data srv_opts(2) by fastforce
  have reply: "reply_parse ?c8 ?nl None None None False (parts_reply ?c8 ?nl (as_session_id srv) ?ps) =
      Ok ((\<lparr>rp_session_id = as_session_id srv, rp_replytype = RT_Nil, rp_parts = ?ps\<rparr>, None), [])"
    by (rule parts_reply_parsed [OF assms(1,2), where bodies = "[b3, b4]"])
      (use b34 part_len_bound [of b3] part_len_bound [of b4] name data srv_opts in \<open>simp_all del: auth_name.simps\<close>)
  let ?cc1 = "cc\<lparr>cc_seq_number := cc_seq_number cc + 1\<rparr>"
  have numbers: "request_numbers ?r cc = (Ok (cc_session_id cc, cc_seq_number cc + 1), ?cc1)"
    by (simp add: request_numbers_def request_push_def request_new_def st_bind_def st_simps next_seq_number_def
        Let_def cc(3))
  have tcp: "cc_tcp ?cc1 = at (Challenged c2) []" by (simp add: cc(2))
  have bs1: "request_emit ?c8 ?nl (cc_session_id cc) (cc_seq_number cc + 1) (cc_auto_commit ?cc1) None ?r = Ok bs" using bs(1) by simp
  have "plain_roundtrip dr ?r cc = (Ok \<lparr>rp_session_id = as_session_id srv, rp_replytype = RT_Nil, rp_parts = ?ps\<rparr>,
      ?cc1\<lparr>cc_tcp := at Accepted [], cc_warnings := []\<rparr>)"
    by (rule answered_roundtrip [OF numbers tcp _ bs1 answer reply]) simp_all
  then show ?thesis
    using cp(1) proof_evaluated [OF assms(3), of ?e srv c2]
    by (simp add: second_auth_request_def boxed_authenticator_def cc(1) opts(1)
        st_bind_def st_simps assert_expected_reply_type_def Let_def cc2_def set_session_id_def del: auth_name.simps)
qed

text \<open>The whole authentication, of a new connection or after a reconnect.\<close>

lemma authenticate_outcome:
  assumes "cesu8_crate (dr_c8 dr)" "num_crates (dr_nl dr)" "crypto_crates (dr_crypto dr)"
    and "dr_challenges dr (at Greeted []) = (c1, c2)" "fitting_client dr p c1 c2" "fitting_server srv"
    and "as_user srv = cp_dbuser p"
    and "as_stored_key srv
      = sha256 (dr_crypto dr) (sha256 (dr_crypto dr) (account_salted (dr_crypto dr) srv (cp_password p)))"
    and cc: "cc_params cc = p" "cc_tcp cc = at Greeted []" "cc_seq_number cc \<noteq> 0x7FFFFFFF"
    and opts: "second_auth_options rec (cc_connect_options cc) = Ok co" "wf_options co" "length co \<le> 1100"
  defines "cc2 \<equiv> set_session_id (as_session_id srv)
      (cc\<lparr>cc_seq_number := cc_seq_number cc + 1, cc_tcp := at Accepted [], cc_warnings := []\<rparr>)"
  shows "authenticate dr rec cc
    = (if server_proof (dr_crypto dr) srv c2 = expected_proof (dr_crypto dr) srv (cp_password p) c2
       then (Ok (), set_authenticated
         (cc2\<lparr>cc_connect_options := digest_server_connect_options (cc_connect_options cc) (as_options srv)\<rparr>))
       else (Err wrong_server, cc2))"
proof -
  let ?au = "boxed_authenticator ScramPbkdf2Sha256 c2"
  let ?cc1 = "cc\<lparr>cc_tcp := at (Challenged c2) [], cc_warnings := []\<rparr>"
  have names: "auth_name (au_method (boxed_authenticator ScramSha256 c1)) \<noteq> auth_name ScramPbkdf2Sha256"
    "auth_name (au_method ?au) = auth_name ScramPbkdf2Sha256"
    by (simp_all add: boxed_authenticator_def ascii_def)
  have auth: "authenticate dr rec cc =
      st_bind (\<lambda>cc. second_auth_request dr ?au (fields_bytes [as_salt srv, as_nonce srv, write_be 4 (as_iterations srv)]) rec cc)
        (\<lambda>_. st_update set_authenticated) ?cc1"
    using first_exchange [OF assms(1,2,5,6,7) cc(1,2)] assms(4)
    by (simp add: authenticate_def cc(2) Let_def st_bind_def st_simps names del: auth_name.simps)
  have cc1: "cc_params ?cc1 = p" "cc_tcp ?cc1 = at (Challenged c2) []" "cc_seq_number ?cc1 \<noteq> 0x7FFFFFFF"
    "second_auth_options rec (cc_connect_options ?cc1) = Ok co"
    using cc opts(1) by simp_all
  show ?thesis
    unfolding auth st_bind_def second_exchange [OF assms(1,2,3,5,6,7,8) cc1 opts(2,3)]
    by (simp add: st_simps cc2_def)
qed

end

text \<open>A server that the driver of the other theories leads to.\<close>

lemma serving_driver_more [simp]:
  "dr_crypto (serving_driver dr server) = dr_crypto dr" "dr_challenges (serving_driver dr server) = dr_challenges dr"
  "dr_version (serving_driver dr server) = dr_version dr" "dr_program (serving_driver dr server) = dr_program dr"
  "dr_os_user (serving_driver dr server) = dr_os_user dr"
  by (simp_all add: serving_driver_def)

interpretation auth_serving: auth_network
  "serving_driver dr (auth_answer (dr_c8 dr) (dr_nl dr) (dr_crypto dr) srv)" srv Pair for dr srv
  by unfold_locales (simp_all add: serving_network_def)

lemma fitting_client_serving [simp]: "fitting_client (serving_driver dr server) = fitting_client dr"
  by (simp add: fun_eq_iff fitting_client_def)

text \<open>C5: A client connects to a server that has an account for its user, and no more of the password than the
  hash of the client key. The two requests are understood and the server accepts the client. If the key
  of the server is the one that belongs to the password, the client is connected and authenticated, with
  the session id and the options that the server sent; if the server cannot produce the proof that belongs
  to the password, the client refuses it. There is no other outcome.\<close>

theorem handshake_outcome:
  fixes dr :: "(auth_phase \<times> bytes) driver"
  assumes "cesu8_crate (dr_c8 dr)" "num_crates (dr_nl dr)" "crypto_crates (dr_crypto dr)"
    and "dr_challenges dr (Greeted, []) = (c1, c2)" "fitting_client dr p c1 c2" "fitting_server srv"
    and "as_user srv = cp_dbuser p"
    and "as_stored_key srv
      = sha256 (dr_crypto dr) (sha256 (dr_crypto dr) (account_salted (dr_crypto dr) srv (cp_password p)))"
  shows "if server_proof (dr_crypto dr) srv c2 = expected_proof (dr_crypto dr) srv (cp_password p) c2
    then \<exists>cc. conn_core_try_new (serving_driver dr (auth_answer (dr_c8 dr) (dr_nl dr) (dr_crypto dr) srv)) p (Hello, []) = Ok cc
      \<and> cc_authenticated cc \<and> cc_session_id cc = as_session_id srv \<and> server_state cc = Accepted
      \<and> cc_connect_options cc = digest_server_connect_options
          (connect_options_for_server False (cp_clientlocale p) (dr_os_user dr)) (as_options srv)
    else conn_core_try_new (serving_driver dr (auth_answer (dr_c8 dr) (dr_nl dr) (dr_crypto dr) srv)) p (Hello, [])
      = Err wrong_server"
proof -
  let ?D = "serving_driver dr (auth_answer (dr_c8 dr) (dr_nl dr) (dr_crypto dr) srv)"
  let ?cc = "conn_core_new ?D p (Greeted, [])"
  have cc: "cc_params ?cc = p" "cc_tcp ?cc = (Greeted, [])" "cc_seq_number ?cc \<noteq> 0x7FFFFFFF"
    "second_auth_options False (cc_connect_options ?cc)
      = Ok (connect_options_for_server False (cp_clientlocale p) (dr_os_user dr))"
    by (simp_all add: conn_core_new_def second_auth_options_def)
  have connect: "conn_core_try_new ?D p (Hello, []) =
      (case authenticate ?D False ?cc of (Ok (), cc) \<Rightarrow> Ok cc | (Err e, _) \<Rightarrow> Err e | (Panic, _) \<Rightarrow> Panic)"
    using auth_serving.hello_answered [of dr srv]
    by (simp add: conn_core_try_new_def serving_network_def split: unit.split)
  show ?thesis
    unfolding connect
    using auth_serving.authenticate_outcome [of dr, simplified, OF assms cc, simplified] client_options_fit(2) [OF assms(5)]
    by (simp add: st_simps set_authenticated_def set_session_id_def server_state_def conn_core_new_def
        split: unit.split)
qed

definition sample_account :: auth_server where
  "sample_account = \<lparr>as_user = ascii ''u'', as_salt = replicate 16 9, as_iterations = 15000,
     as_stored_key = sha256 ref_crypto (sha256 ref_crypto (use_pbkdf2 ref_crypto (cp_password sample_url_params) (replicate 16 9) 15000)),
     as_server_key = hmac ref_crypto (use_pbkdf2 ref_crypto (cp_password sample_url_params) (replicate 16 9) 15000) (replicate 16 9),
     as_nonce = [1, 2], as_session_id = 77, as_options = [(ConnectionID, OV_INT 4711)]\<rparr>"

lemma sample_account_fits:
  "fitting_server sample_account" "as_user sample_account = cp_dbuser sample_url_params"
  "as_stored_key sample_account = sha256 ref_crypto (sha256 ref_crypto
      (account_salted ref_crypto sample_account (cp_password sample_url_params)))"
  "server_proof ref_crypto sample_account [] = expected_proof ref_crypto sample_account (cp_password sample_url_params) []"
  "as_session_id sample_account = 77"
proof -
  have "conn_opt_id_from_u8 (conn_opt_id_to_u8 ConnectionID) = ConnectionID" by code_simp
  then show "fitting_server sample_account"
    by (simp add: fitting_server_def sample_account_def wf_option_part_def del: conn_opt_id_to_u8.simps)
  show "as_user sample_account = cp_dbuser sample_url_params"
    by (simp add: sample_account_def sample_url_params_def)
qed (simp_all add: sample_account_def account_salted_def server_proof_def expected_proof_def)

theorem handshake_outcome_witness:
  "\<exists>cc. conn_core_try_new (serving_driver sample_driver (auth_answer ref_cesu8 ref_num ref_crypto sample_account))
      sample_url_params (Hello, []) = Ok cc \<and> cc_authenticated cc \<and> cc_session_id cc = 77"
proof -
  have dr: "dr_c8 sample_driver = ref_cesu8" "dr_nl sample_driver = ref_num" "dr_crypto sample_driver = ref_crypto"
    "dr_challenges sample_driver (Greeted, []) = ([], [])"
    by (simp_all add: sample_driver_def)
  have client: "fitting_client sample_driver sample_url_params [] []"
    by (simp add: fitting_client_def sample_driver_def sample_url_params_def cesu8_length_def ascii_def)
  note account = sample_account_fits
  from handshake_outcome [of sample_driver "[]" "[]" sample_url_params sample_account, unfolded dr,
      OF ref.cesu8_crate_axioms ref_num.num_crates_axioms ref_crypto.crypto_crates_axioms refl client account(1-3)]
  show ?thesis by (auto simp: account(4,5))
qed

end
