(* ===== verification/Hdb_Tls.thy ===== *)
theory Hdb_Tls
  imports Hdb_Params Hdb_Text
begin

text \<open>
  Which certificates a TLS connection trusts (\<^verbatim>\<open>ConnectParams::rustls_clientconfig\<close> in
  conn/params/connect\_params.rs), and the conversions of texts and files into connection parameters
  (into\_connect\_params.rs). The crates rustls, webpki\_roots and url, the environment and the file
  system are the record \<open>tls_world\<close>. Log messages are left out.
\<close>

section \<open>The world outside\<close>

text \<open>A directory entry: whether it is a file (\<open>None\<close> if \<^verbatim>\<open>file_type()\<close> fails), its extension, its path.\<close>

record dir_entry =
  de_is_file :: "bool option"
  de_extension :: "rstring option"
  de_path :: rstring

text \<open>
  \<open>tw_pem\<close> is what \<^verbatim>\<open>RootCertStore::add_pem_file\<close> makes of a text: the certificates that it adds and the
  number of those that it refuses, or \<open>None\<close> for its error. An entry of a directory that cannot be read
  is \<open>None\<close>.
\<close>

record 'c tls_world =
  tw_mozilla :: "'c list"
  tw_pem :: "bytes \<Rightarrow> ('c list \<times> nat) option"
  tw_var :: "rstring \<Rightarrow> rstring option"
  tw_read_dir :: "rstring \<Rightarrow> (dir_entry option list, ioerr) res"
  tw_open :: "rstring \<Rightarrow> (bytes, ioerr) res"
  tw_url_parse :: "rstring \<Rightarrow> url option"

text \<open>\<^verbatim>\<open>rustls::ClientConfig\<close>: whether certificates are verified, and against which roots.\<close>

record 'c client_config =
  tc_verify :: bool
  tc_roots :: "'c list"

definition client_config_new :: "'c client_config" where
  "client_config_new = \<lparr>tc_verify = True, tc_roots = []\<rparr>"

definition add_roots :: "'c list \<Rightarrow> 'c client_config \<Rightarrow> 'c client_config" where
  "add_roots cs cfg = cfg\<lparr>tc_roots := tc_roots cfg @ cs\<rparr>"

section \<open>The configuration\<close>

text \<open>\<^verbatim>\<open>add_pem_file(..).unwrap_or((0, 0))\<close>\<close>

definition add_pem_or_nothing :: "'c tls_world \<Rightarrow> bytes \<Rightarrow> 'c client_config \<Rightarrow> 'c client_config" where
  "add_pem_or_nothing tw pem cfg = (case tw_pem tw pem of Some (cs, _) \<Rightarrow> add_roots cs cfg | None \<Rightarrow> cfg)"

definition trust_anchor_files :: "dir_entry option list \<Rightarrow> rstring list" where
  "trust_anchor_files es =
     map de_path (filter (\<lambda>e. de_extension e = Some (ascii ''pem''))
       (filter (\<lambda>e. de_is_file e = Some True) (map the (filter (\<lambda>o_e. o_e \<noteq> None) es))))"

fun add_anchor_files :: "'c tls_world \<Rightarrow> rstring list \<Rightarrow> 'c client_config \<Rightarrow> ('c client_config, ioerr) res" where
  "add_anchor_files tw [] cfg = Ok cfg"
| "add_anchor_files tw (f # fs) cfg =
     res_bind (tw_open tw f) (\<lambda>pem.
     case tw_pem tw pem of
       Some (cs, _) \<Rightarrow> add_anchor_files tw fs (add_roots cs cfg)
     | None \<Rightarrow> Err (IoErr KindInvalidInput ''server certificates in directory could not be parsed''))"

definition add_server_cert :: "'c tls_world \<Rightarrow> server_certs \<Rightarrow> 'c client_config \<Rightarrow> ('c client_config, ioerr) res" where
  "add_server_cert tw server_cert cfg =
     (case server_cert of
        SC_None \<Rightarrow> Ok (cfg\<lparr>tc_verify := False\<rparr>)
      | SC_RootCertificates \<Rightarrow> Ok (add_roots (tw_mozilla tw) cfg)
      | SC_Direct pem \<Rightarrow> Ok (add_pem_or_nothing tw pem cfg)
      | SC_Environment env_var \<Rightarrow>
          (case tw_var tw env_var of
             Some value \<Rightarrow> Ok (add_pem_or_nothing tw value cfg)
           | None \<Rightarrow> Err (IoErr KindInvalidInput ''Environment variable {} not found, reason: {}''))
      | SC_Directory dir \<Rightarrow>
          res_bind (tw_read_dir tw dir) (\<lambda>es. add_anchor_files tw (trust_anchor_files es) cfg))"

fun add_server_certs :: "'c tls_world \<Rightarrow> server_certs list \<Rightarrow> 'c client_config \<Rightarrow> ('c client_config, ioerr) res" where
  "add_server_certs tw [] cfg = Ok cfg"
| "add_server_certs tw (sc # scs) cfg = res_bind (add_server_cert tw sc cfg) (add_server_certs tw scs)"

definition rustls_clientconfig :: "'c tls_world \<Rightarrow> connect_params \<Rightarrow> ('c client_config, ioerr) res" where
  "rustls_clientconfig tw p = add_server_certs tw (cp_server_certs p) client_config_new"

section \<open>What is trusted\<close>

text \<open>The certificates that one of the options contributes.\<close>

definition pem_certs :: "'c tls_world \<Rightarrow> bytes \<Rightarrow> 'c list" where
  "pem_certs tw pem = (case tw_pem tw pem of Some (cs, _) \<Rightarrow> cs | None \<Rightarrow> [])"

definition file_certs :: "'c tls_world \<Rightarrow> rstring \<Rightarrow> 'c list" where
  "file_certs tw f = (case tw_open tw f of Ok pem \<Rightarrow> pem_certs tw pem | _ \<Rightarrow> [])"

text \<open>The paths of the regular files with the extension pem among the entries that could be read.\<close>

definition pem_files :: "dir_entry option list \<Rightarrow> rstring list" where
  "pem_files es = [de_path e. Some e \<leftarrow> es, de_is_file e = Some True, de_extension e = Some (ascii ''pem'')]"

lemma trust_anchor_files_pem [simp]: "trust_anchor_files es = pem_files es"
  by (induction es) (auto simp: trust_anchor_files_def pem_files_def)

definition contributed :: "'c tls_world \<Rightarrow> server_certs \<Rightarrow> 'c list" where
  "contributed tw sc =
     (case sc of
        SC_None \<Rightarrow> []
      | SC_RootCertificates \<Rightarrow> tw_mozilla tw
      | SC_Direct pem \<Rightarrow> pem_certs tw pem
      | SC_Environment v \<Rightarrow> (case tw_var tw v of Some value \<Rightarrow> pem_certs tw value | None \<Rightarrow> [])
      | SC_Directory dir \<Rightarrow>
          (case tw_read_dir tw dir of Ok es \<Rightarrow> concat (map (file_certs tw) (pem_files es)) | _ \<Rightarrow> []))"

lemma add_pem_or_nothing_eq: "add_pem_or_nothing tw pem cfg = add_roots (pem_certs tw pem) cfg"
  by (cases "tw_pem tw pem") (auto simp: add_pem_or_nothing_def pem_certs_def add_roots_def)

lemma add_roots_append: "add_roots cs (add_roots bs cfg) = add_roots (bs @ cs) cfg"
  by (simp add: add_roots_def)

lemma add_roots_Nil: "add_roots [] cfg = cfg"
  by (simp add: add_roots_def)

lemma add_anchor_files_Ok:
  "add_anchor_files tw fs cfg = Ok cfg' \<Longrightarrow> cfg' = add_roots (concat (map (file_certs tw) fs)) cfg"
proof (induction fs arbitrary: cfg)
  case (Cons f fs)
  then obtain pem cs n where f: "tw_open tw f = Ok pem" "tw_pem tw pem = Some (cs, n)"
    "add_anchor_files tw fs (add_roots cs cfg) = Ok cfg'"
    by (auto simp: res_simps split: option.splits)
  from Cons.IH [OF f(3)] f(1,2) show ?case by (simp add: add_roots_append file_certs_def pem_certs_def)
qed (simp add: add_roots_Nil)

lemma add_server_cert_Ok:
  assumes "add_server_cert tw sc cfg = Ok cfg'"
  shows "tc_verify cfg' = (tc_verify cfg \<and> sc \<noteq> SC_None) \<and> tc_roots cfg' = tc_roots cfg @ contributed tw sc"
  using assms
  by (cases sc) (auto simp: add_server_cert_def contributed_def add_pem_or_nothing_eq add_roots_def res_simps
      dest!: add_anchor_files_Ok split: option.splits)

lemma add_server_certs_Ok:
  "add_server_certs tw scs cfg = Ok cfg' \<Longrightarrow>
     tc_verify cfg' = (tc_verify cfg \<and> SC_None \<notin> set scs)
     \<and> tc_roots cfg' = tc_roots cfg @ concat (map (contributed tw) scs)"
proof (induction scs arbitrary: cfg)
  case (Cons sc scs)
  then obtain c where c: "add_server_cert tw sc cfg = Ok c" "add_server_certs tw scs c = Ok cfg'"
    by (auto simp: res_simps)
  from add_server_cert_Ok [OF c(1)] Cons.IH [OF c(2)] show ?case by auto
qed simp

text \<open>The server's certificate is verified unless the option that omits the check is among the options,
  whatever else is; the roots are those of all options together.\<close>

lemma rustls_clientconfig_Ok:
  "rustls_clientconfig tw p = Ok cfg \<Longrightarrow>
     (tc_verify cfg \<longleftrightarrow> SC_None \<notin> set (cp_server_certs p))
     \<and> tc_roots cfg = concat (map (contributed tw) (cp_server_certs p))"
  using add_server_certs_Ok by (fastforce simp: rustls_clientconfig_def client_config_new_def)

text \<open>It fails exactly if an environment variable is missing or a directory or one of its files cannot be
  used; certificates that are given directly are never an error.\<close>

lemma add_anchor_files_ok_iff:
  "is_ok (add_anchor_files tw fs cfg) \<longleftrightarrow> (\<forall>f \<in> set fs. \<exists>pem. tw_open tw f = Ok pem \<and> tw_pem tw pem \<noteq> None)"
proof (induction fs arbitrary: cfg)
  case (Cons f fs)
  show ?case
  proof (cases "tw_open tw f")
    case (Ok pem)
    then show ?thesis using Cons.IH by (cases "tw_pem tw pem") auto
  qed auto
qed simp

definition usable :: "'c tls_world \<Rightarrow> server_certs \<Rightarrow> bool" where
  "usable tw sc =
     (case sc of
        SC_Environment v \<Rightarrow> tw_var tw v \<noteq> None
      | SC_Directory dir \<Rightarrow>
          (case tw_read_dir tw dir of
             Ok es \<Rightarrow> (\<forall>f \<in> set (pem_files es). \<exists>pem. tw_open tw f = Ok pem \<and> tw_pem tw pem \<noteq> None)
           | _ \<Rightarrow> False)
      | _ \<Rightarrow> True)"

lemma add_server_cert_ok_iff: "is_ok (add_server_cert tw sc cfg) \<longleftrightarrow> usable tw sc"
proof (cases sc)
  case (SC_Directory dir)
  then show ?thesis
    by (cases "tw_read_dir tw dir") (simp_all add: add_server_cert_def usable_def add_anchor_files_ok_iff)
next
  case (SC_Environment v)
  then show ?thesis by (cases "tw_var tw v") (simp_all add: add_server_cert_def usable_def)
qed (simp_all add: add_server_cert_def usable_def)

lemma rustls_clientconfig_ok_iff:
  "is_ok (rustls_clientconfig tw p) \<longleftrightarrow> (\<forall>sc \<in> set (cp_server_certs p). usable tw sc)"
proof -
  have "is_ok (add_server_certs tw scs cfg) \<longleftrightarrow> (\<forall>sc \<in> set scs. usable tw sc)" for scs cfg
  proof (induction scs arbitrary: cfg)
    case (Cons sc scs)
    show ?case
      using add_server_cert_ok_iff [of tw sc cfg] Cons.IH by (cases "add_server_cert tw sc cfg") auto
  qed simp
  then show ?thesis by (simp add: rustls_clientconfig_def)
qed

section \<open>Texts and files\<close>

definition str_into_builder :: "'c tls_world \<Rightarrow> rstring \<Rightarrow> (connect_params_builder, hdb_error) res" where
  "str_into_builder tw s =
     res_bind (ok_or (tw_url_parse tw s) (ConnParams ''{}'')) (url_into_builder (tw_var tw))"

definition str_into_connect_params :: "'c tls_world \<Rightarrow> rstring \<Rightarrow> (connect_params, hdb_error) res" where
  "str_into_connect_params tw s =
     res_bind (ok_or (tw_url_parse tw s) (ConnParams ''{}'')) (url_into_connect_params (tw_var tw))"

text \<open>\<^verbatim>\<open>read_to_string\<close> needs valid UTF-8.\<close>

definition connect_params_from_file :: "'c tls_world \<Rightarrow> rstring \<Rightarrow> (connect_params, hdb_error) res" where
  "connect_params_from_file tw path =
     (case tw_open tw path of
        Ok bs \<Rightarrow> res_bind (ok_or (if valid_utf8 bs then Some bs else None) (ConnParams ''{}'')) (str_into_connect_params tw)
      | Err _ \<Rightarrow> Err (ConnParams ''{}'')
      | Panic \<Rightarrow> Panic)"

lemma str_into_connect_params_builder:
  "str_into_connect_params tw s = res_bind (str_into_builder tw s) builder_build"
  by (cases "tw_url_parse tw s") (simp_all add: str_into_connect_params_def str_into_builder_def url_into_connect_params_def)

end
