(* ===== verification/Hdb_Tcp.thy ===== *)
theory Hdb_Tcp
  imports Hdb_Tls
begin

text \<open>
  The TCP clients (conn/tcp\_client.rs, conn/tcp\_client): the choice between a plain and a TLS client,
  what a TLS session is made from, and how the TLS stream moves bytes between the session of rustls and
  the socket. The session and the socket are parameters, the record \<open>tls_lib\<close>; \<^verbatim>\<open>BufReader\<close> and
  \<^verbatim>\<open>BufWriter\<close> around the streams are left out. The second handle of the stream shares session and socket
  with the first one, so one record is the state of both. The loops end only if the session lets them: they
  are partial functions in the option type.
\<close>

section \<open>Sessions, sockets and clients\<close>

text \<open>\<open>'t\<close> is a socket, \<open>'e\<close> a TLS session. \<open>tl_process\<close> is \<^verbatim>\<open>process_new_packets\<close>, \<open>None\<close> its error.\<close>

record ('c, 't, 'e) tls_lib =
  tl_connect :: "rstring \<Rightarrow> ('t, ioerr) res"
  tl_try_clone :: "'t \<Rightarrow> (unit, ioerr) res"
  tl_dns_name :: "rstring \<Rightarrow> bool"
  tl_session_new :: "'c client_config \<Rightarrow> rstring \<Rightarrow> 'e"
  tl_write :: "bytes \<Rightarrow> 'e \<Rightarrow> (nat, ioerr) res \<times> 'e"
  tl_read :: "nat \<Rightarrow> 'e \<Rightarrow> (bytes, ioerr) res \<times> 'e"
  tl_wants_write :: "'e \<Rightarrow> bool"
  tl_wants_read :: "'e \<Rightarrow> bool"
  tl_is_handshaking :: "'e \<Rightarrow> bool"
  tl_write_tls :: "'e \<times> 't \<Rightarrow> (nat, ioerr) res \<times> ('e \<times> 't)"
  tl_read_tls :: "'e \<times> 't \<Rightarrow> (nat, ioerr) res \<times> ('e \<times> 't)"
  tl_process :: "'e \<Rightarrow> unit option \<times> 'e"

record ('t, 'e) tls_stream =
  ts_is_handshaking :: bool
  ts_session :: 'e
  ts_socket :: 't

datatype ('t, 'e) tcp_client =
    SyncPlain connect_params 't
  | SyncTls connect_params "('t, 'e) tls_stream"

section \<open>Connecting\<close>

definition stream_try_new ::
    "('c, 't, 'e) tls_lib \<Rightarrow> 'c tls_world \<Rightarrow> connect_params \<Rightarrow> (('t, 'e) tls_stream, ioerr) res" where
  "stream_try_new tlib tw params =
     res_bind (tl_connect tlib (cp_addr params)) (\<lambda>tcpstream.
     res_bind (rustls_clientconfig tw params) (\<lambda>config.
     if tl_dns_name tlib (cp_host params) then
       Ok \<lparr>ts_is_handshaking = True, ts_session = tl_session_new tlib config (cp_host params), ts_socket = tcpstream\<rparr>
     else Err (io_error ''Cannot use {} for DNSNameRef'')))"

definition tls_client_try_new ::
    "('c, 't, 'e) tls_lib \<Rightarrow> 'c tls_world \<Rightarrow> connect_params \<Rightarrow> (('t, 'e) tcp_client, ioerr) res" where
  "tls_client_try_new tlib tw params =
     res_bind (stream_try_new tlib tw params) (\<lambda>stream.
     res_bind (tl_try_clone tlib (ts_socket stream)) (\<lambda>_. Ok (SyncTls params stream)))"

definition plain_client_try_new ::
    "('c, 't, 'e) tls_lib \<Rightarrow> connect_params \<Rightarrow> (('t, 'e) tcp_client, ioerr) res" where
  "plain_client_try_new tlib params =
     res_bind (tl_connect tlib (cp_addr params)) (\<lambda>tcpstream.
     res_bind (tl_try_clone tlib tcpstream) (\<lambda>_. Ok (SyncPlain params tcpstream)))"

definition tcp_client_try_new ::
    "('c, 't, 'e) tls_lib \<Rightarrow> 'c tls_world \<Rightarrow> connect_params \<Rightarrow> (('t, 'e) tcp_client, ioerr) res" where
  "tcp_client_try_new tlib tw params =
     (if use_tls params then tls_client_try_new tlib tw params else plain_client_try_new tlib params)"

fun s_type :: "('t, 'e) tcp_client \<Rightarrow> rstring" where
  "s_type (SyncPlain _ _) = ascii ''Plain TCP''"
| "s_type (SyncTls _ _) = ascii ''TLS''"

fun tcp_client_params :: "('t, 'e) tcp_client \<Rightarrow> connect_params" where
  "tcp_client_params (SyncPlain p _) = p"
| "tcp_client_params (SyncTls p _) = p"

section \<open>The TLS stream\<close>

text \<open>\<^verbatim>\<open>while client_session.wants_write() { client_session.write_tls(..)?; }\<close>\<close>

partial_function (option) write_all_tls ::
    "('c, 't, 'e) tls_lib \<Rightarrow> 'e \<times> 't \<Rightarrow> ((unit, ioerr) res \<times> ('e \<times> 't)) option" where
  "write_all_tls tlib s =
     (if tl_wants_write tlib (fst s) then
        case tl_write_tls tlib s of
          (Ok _, s') \<Rightarrow> write_all_tls tlib s'
        | (Err e, s') \<Rightarrow> Some (Err e, s')
        | (Panic, s') \<Rightarrow> Some (Panic, s')
      else Some (Ok (), s))"

definition stream_put :: "'e \<times> 't \<Rightarrow> ('t, 'e) tls_stream \<Rightarrow> ('t, 'e) tls_stream" where
  "stream_put s st = st\<lparr>ts_session := fst s, ts_socket := snd s\<rparr>"

text \<open>\<^verbatim>\<open>Write::write\<close> hands the request to the session; its records are only sent while the handshake
  of the stream is not over.\<close>

definition stream_write ::
    "('c, 't, 'e) tls_lib \<Rightarrow> bytes \<Rightarrow> ('t, 'e) tls_stream \<Rightarrow> ((nat, ioerr) res \<times> ('t, 'e) tls_stream) option" where
  "stream_write tlib request st =
     (case tl_write tlib request (ts_session st) of
        (Ok n, e) \<Rightarrow>
          if ts_is_handshaking st then
            map_option (\<lambda>(r, s). (res_map (\<lambda>_. n) r, stream_put s st)) (write_all_tls tlib (e, ts_socket st))
          else Some (Ok n, stream_put (e, ts_socket st) st)
      | (Err x, e) \<Rightarrow> Some (Err x, stream_put (e, ts_socket st) st)
      | (Panic, e) \<Rightarrow> Some (Panic, stream_put (e, ts_socket st) st))"

text \<open>Reading records from the socket and processing them; whether the loop around goes on.\<close>

definition receive_tls :: "('c, 't, 'e) tls_lib \<Rightarrow> 'e \<times> 't \<Rightarrow> (bool, ioerr) res \<times> ('e \<times> 't)" where
  "receive_tls tlib s =
     (case tl_read_tls tlib s of
        (Ok n, s') \<Rightarrow>
          if n = 0 then (Ok False, s')
          else (case tl_process tlib (fst s') of
                  (Some _, e) \<Rightarrow> (Ok True, (e, snd s'))
                | (None, e) \<Rightarrow> (Err (io_error ''{}''), (e, snd s')))
      | (Err x, s') \<Rightarrow> (Err x, s')
      | (Panic, s') \<Rightarrow> (Panic, s'))"

partial_function (option) stream_flush_loop ::
    "('c, 't, 'e) tls_lib \<Rightarrow> bool \<Rightarrow> 'e \<times> 't \<Rightarrow> ((unit, ioerr) res \<times> bool \<times> ('e \<times> 't)) option" where
  "stream_flush_loop tlib hs s =
     Option.bind (write_all_tls tlib s) (\<lambda>(r, s1).
     case r of
       Err x \<Rightarrow> Some (Err x, hs, s1)
     | Panic \<Rightarrow> Some (Panic, hs, s1)
     | Ok _ \<Rightarrow>
         (let hs1 = (hs \<and> tl_is_handshaking tlib (fst s1)) in
          if tl_wants_read tlib (fst s1) then
            case receive_tls tlib s1 of
              (Ok again, s2) \<Rightarrow> if again then stream_flush_loop tlib hs1 s2 else Some (Ok (), hs1, s2)
            | (Err x, s2) \<Rightarrow> Some (Err x, hs1, s2)
            | (Panic, s2) \<Rightarrow> Some (Panic, hs1, s2)
          else Some (Ok (), hs1, s1)))"

definition stream_flush ::
    "('c, 't, 'e) tls_lib \<Rightarrow> ('t, 'e) tls_stream \<Rightarrow> ((unit, ioerr) res \<times> ('t, 'e) tls_stream) option" where
  "stream_flush tlib st =
     map_option (\<lambda>(r, hs, s). (r, stream_put s (st\<lparr>ts_is_handshaking := hs\<rparr>)))
       (stream_flush_loop tlib (ts_is_handshaking st) (ts_session st, ts_socket st))"

partial_function (option) stream_read_loop ::
    "('c, 't, 'e) tls_lib \<Rightarrow> 'e \<times> 't \<Rightarrow> ((unit, ioerr) res \<times> ('e \<times> 't)) option" where
  "stream_read_loop tlib s =
     (if tl_wants_read tlib (fst s) then
        case receive_tls tlib s of
          (Ok again, s') \<Rightarrow> if again then stream_read_loop tlib s' else Some (Ok (), s')
        | (Err x, s') \<Rightarrow> Some (Err x, s')
        | (Panic, s') \<Rightarrow> Some (Panic, s')
      else Some (Ok (), s))"

definition stream_read ::
    "('c, 't, 'e) tls_lib \<Rightarrow> nat \<Rightarrow> ('t, 'e) tls_stream \<Rightarrow> ((bytes, ioerr) res \<times> ('t, 'e) tls_stream) option" where
  "stream_read tlib n st =
     map_option (\<lambda>(r, s). case r of
         Ok _ \<Rightarrow> (case tl_read tlib n (fst s) of (r', e) \<Rightarrow> (r', stream_put (e, snd s) st))
       | Err x \<Rightarrow> (Err x, stream_put s st)
       | Panic \<Rightarrow> (Panic, stream_put s st))
       (stream_read_loop tlib (ts_session st, ts_socket st))"

section \<open>What the loops achieve\<close>

lemma write_all_tls_Ok:
  "write_all_tls tlib s = Some (Ok (), s') \<Longrightarrow> \<not> tl_wants_write tlib (fst s')"
proof -
  have "r = Ok () \<longrightarrow> \<not> tl_wants_write tlib (fst s')" if "write_all_tls tlib s = Some (r, s')" for r
  proof -
    have "fst x = Ok () \<longrightarrow> \<not> tl_wants_write tl' (fst (snd x))" if "write_all_tls tl' t = Some x" for tl' t x
      by (rule write_all_tls.raw_induct [OF _ that]) (auto split: res.splits if_splits prod.splits)
    from this [OF that] show ?thesis by simp
  qed
  then show "write_all_tls tlib s = Some (Ok (), s') \<Longrightarrow> \<not> tl_wants_write tlib (fst s')" by blast
qed

text \<open>After a flush nothing is left to be sent, provided that the end of the stream gives the session
  nothing to say.\<close>

lemma stream_flush_Ok:
  fixes tlib :: "('c, 't, 'e) tls_lib"
  assumes eof: "\<And>s s'. tl_read_tls tlib s = (Ok 0, s') \<Longrightarrow> tl_wants_write tlib (fst s') = tl_wants_write tlib (fst s)"
    and "stream_flush tlib st = Some (Ok (), st')"
  shows "\<not> tl_wants_write tlib (ts_session st')"
proof -
  have stop: "tl_wants_write tlib (fst s') = tl_wants_write tlib (fst s)" if "receive_tls tlib s = (Ok False, s')" for s s'
  proof -
    obtain r t where t: "tl_read_tls tlib s = (r, t)" by (cases "tl_read_tls tlib s")
    obtain o_u e where u: "tl_process tlib (fst t) = (o_u, e)" by (cases "tl_process tlib (fst t)")
    have "r = Ok 0 \<and> t = s'"
      using that t u by (cases r; cases o_u) (simp_all add: receive_tls_def split: if_splits)
    then show ?thesis using eof t by simp
  qed
  have "tl' = tlib \<longrightarrow> fst x = Ok () \<longrightarrow> \<not> tl_wants_write tlib (fst (snd (snd x)))"
    if "stream_flush_loop tl' hs s = Some x" for tl' hs s x
  proof (rule stream_flush_loop.raw_induct [OF _ that])
    fix loop :: "('c, 't, 'e) tls_lib \<Rightarrow> bool \<Rightarrow> 'e \<times> 't \<Rightarrow> ((unit, ioerr) res \<times> bool \<times> ('e \<times> 't)) option"
      and tl1 hs s x
    assume IH: "\<And>tl1 hs s x. loop tl1 hs s = Some x \<Longrightarrow>
        tl1 = tlib \<longrightarrow> fst x = Ok () \<longrightarrow> \<not> tl_wants_write tlib (fst (snd (snd x)))"
      and eq: "Option.bind (write_all_tls tl1 s) (\<lambda>(r, s1).
         case r of
           Err x \<Rightarrow> Some (Err x, hs, s1)
         | Panic \<Rightarrow> Some (Panic, hs, s1)
         | Ok _ \<Rightarrow>
             (let hs1 = (hs \<and> tl_is_handshaking tl1 (fst s1)) in
              if tl_wants_read tl1 (fst s1) then
                case receive_tls tl1 s1 of
                  (Ok again, s2) \<Rightarrow> if again then loop tl1 hs1 s2 else Some (Ok (), hs1, s2)
                | (Err x, s2) \<Rightarrow> Some (Err x, hs1, s2)
                | (Panic, s2) \<Rightarrow> Some (Panic, hs1, s2)
              else Some (Ok (), hs1, s1))) = Some x"
    obtain r s1 where w: "write_all_tls tl1 s = Some (r, s1)" using eq by (auto simp: bind_eq_Some_conv)
    obtain q s2 where q: "receive_tls tl1 s1 = (q, s2)" by (cases "receive_tls tl1 s1")
    show "tl1 = tlib \<longrightarrow> fst x = Ok () \<longrightarrow> \<not> tl_wants_write tlib (fst (snd (snd x)))"
    proof (cases r)
      case (Ok a)
      then have "tl1 = tlib \<longrightarrow> \<not> tl_wants_write tlib (fst s1)" using write_all_tls_Ok w by fastforce
      moreover have "tl1 = tlib \<longrightarrow> q = Ok False \<longrightarrow> tl_wants_write tlib (fst s2) = tl_wants_write tlib (fst s1)"
        using stop q by blast
      ultimately show ?thesis using eq IH
        by (cases q) (auto simp: w q Ok Let_def split: if_splits)
    qed (use eq w in auto)
  qed
  then show ?thesis using assms(2) by (fastforce simp: stream_flush_def stream_put_def)
qed

text \<open>It returns if there is a bound for the records that are written and read.\<close>

lemma write_all_tls_total:
  fixes f :: "'e \<times> 't \<Rightarrow> nat"
  assumes wr: "\<And>s n s'. tl_wants_write tlib (fst s) \<Longrightarrow> tl_write_tls tlib s = (Ok n, s') \<Longrightarrow> f s' < f s"
  shows "\<exists>r s'. write_all_tls tlib s = Some (r, s') \<and> (r = Ok () \<longrightarrow> f s' \<le> f s)"
proof (induction "f s" arbitrary: s rule: less_induct)
  case less
  show ?case
  proof (cases "tl_wants_write tlib (fst s)")
    case True
    obtain r t where t: "tl_write_tls tlib s = (r, t)" by (cases "tl_write_tls tlib s")
    show ?thesis
    proof (cases r)
      case (Ok n)
      then have lt: "f t < f s" using wr [OF True] t by blast
      from less.hyps [OF this] obtain r' s' where "write_all_tls tlib t = Some (r', s')" "r' = Ok () \<longrightarrow> f s' \<le> f t"
        by blast
      then show ?thesis using lt True t Ok by (subst write_all_tls.simps) auto
    qed (use True t in \<open>subst write_all_tls.simps; simp\<close>)+
  next
    case False
    then show ?thesis by (subst write_all_tls.simps) simp
  qed
qed

lemma stream_flush_total:
  fixes f :: "'e \<times> 't \<Rightarrow> nat"
  assumes wr: "\<And>s n s'. tl_wants_write tlib (fst s) \<Longrightarrow> tl_write_tls tlib s = (Ok n, s') \<Longrightarrow> f s' < f s"
    and rd: "\<And>s s'. receive_tls tlib s = (Ok True, s') \<Longrightarrow> f s' < f s"
  shows "\<exists>x. stream_flush tlib st = Some x"
proof -
  have "\<exists>x. stream_flush_loop tlib hs s = Some x" for hs s
  proof (induction "f s" arbitrary: hs s rule: less_induct)
    case less
    obtain r t where t: "write_all_tls tlib s = Some (r, t)" "r = Ok () \<longrightarrow> f t \<le> f s"
      using write_all_tls_total [of tlib f s] wr by blast
    show ?case
    proof (cases "r = Ok () \<and> tl_wants_read tlib (fst t) \<and> fst (receive_tls tlib t) = Ok True")
      case True
      obtain u where u: "receive_tls tlib t = (Ok True, u)" using True by (cases "receive_tls tlib t") auto
      have "f u < f s" using rd [OF u] t(2) True by simp
      from less.hyps [OF this, of "hs \<and> tl_is_handshaking tlib (fst t)"] show ?thesis
        using True t(1) u by (subst stream_flush_loop.simps) (simp add: Let_def)
    next
      case False
      then show ?thesis using t(1)
        by (subst stream_flush_loop.simps) (auto simp: Let_def split: res.split prod.split bool.split)
    qed
  qed
  then show ?thesis by (auto simp: stream_flush_def)
qed

section \<open>What a connection trusts\<close>

text \<open>C21: A connection made from a URL is encrypted if and only if the URL names certificates. Its TLS session
  is the one of the host of the URL, its roots are exactly those that the certificate options contribute,
  all together, and the certificate of the server is verified against them if and only if the insecure
  option is not among them.\<close>

theorem url_connection_trust:
  assumes "url_into_connect_params (tw_var tw) u = Ok p" and "tcp_client_try_new tlib tw p = Ok c"
  shows "case c of
      SyncPlain p' _ \<Rightarrow> p' = p \<and> query_certs (url_query_pairs u) = []
    | SyncTls p' st \<Rightarrow> p' = p \<and> query_certs (url_query_pairs u) \<noteq> [] \<and>
        (\<exists>cfg. ts_session st = tl_session_new tlib cfg (cp_host p) \<and>
          tc_verify cfg = (SC_None \<notin> set (query_certs (url_query_pairs u))) \<and>
          tc_roots cfg = concat (map (contributed tw) (query_certs (url_query_pairs u))))"
proof -
  from url_into_certs [OF assms(1)] have p: "cp_server_certs p = query_certs (url_query_pairs u)"
    "use_tls p \<longleftrightarrow> query_certs (url_query_pairs u) \<noteq> []" by simp_all
  show ?thesis
  proof (cases "use_tls p")
    case True
    then obtain st where st: "stream_try_new tlib tw p = Ok st" "c = SyncTls p st"
      using assms(2) by (auto simp: tcp_client_try_new_def tls_client_try_new_def res_simps)
    then obtain cfg where "rustls_clientconfig tw p = Ok cfg" "ts_session st = tl_session_new tlib cfg (cp_host p)"
      by (auto simp: stream_try_new_def res_simps split: if_splits)
    then show ?thesis using rustls_clientconfig_Ok True p st(2) by fastforce
  next
    case False
    then show ?thesis using assms(2) p by (auto simp: tcp_client_try_new_def plain_client_try_new_def res_simps)
  qed
qed

definition sample_world :: "nat tls_world" where
  "sample_world = \<lparr>tw_mozilla = [1, 2], tw_pem = (\<lambda>bs. if bs = [7] then Some ([3], 1) else None),
     tw_var = (\<lambda>_. None),
     tw_read_dir = (\<lambda>_. Ok [None, Some \<lparr>de_is_file = Some True, de_extension = Some (ascii ''pem''), de_path = ascii ''f''\<rparr>,
       Some \<lparr>de_is_file = Some True, de_extension = None, de_path = ascii ''g''\<rparr>]),
     tw_open = (\<lambda>f. if f = ascii ''f'' then Ok [7] else Err eof_error), tw_url_parse = (\<lambda>_. None)\<rparr>"

text \<open>A session that only remembers what it was made from.\<close>

definition sample_tls :: "(nat, unit, nat client_config \<times> rstring) tls_lib" where
  "sample_tls = \<lparr>tl_connect = (\<lambda>_. Ok ()), tl_try_clone = (\<lambda>_. Ok ()), tl_dns_name = (\<lambda>_. True),
     tl_session_new = (\<lambda>cfg h. (cfg, h)), tl_write = (\<lambda>bs e. (Ok (length bs), e)), tl_read = (\<lambda>n e. (Ok [], e)),
     tl_wants_write = (\<lambda>_. False), tl_wants_read = (\<lambda>_. False), tl_is_handshaking = (\<lambda>_. False),
     tl_write_tls = (\<lambda>s. (Ok 0, s)), tl_read_tls = (\<lambda>s. (Ok 0, s)), tl_process = (\<lambda>e. (Some (), e))\<rparr>"

definition sample_client :: "(unit, nat client_config \<times> rstring) tcp_client" where
  "sample_client = SyncTls sample_url_params
     \<lparr>ts_is_handshaking = True, ts_session = (\<lparr>tc_verify = True, tc_roots = [3, 1, 2]\<rparr>, ascii ''h''), ts_socket = ()\<rparr>"

lemma sample_client_connect:
  "url_into_connect_params (tw_var sample_world) sample_url = Ok sample_url_params"
  "tcp_client_try_new sample_tls sample_world sample_url_params = Ok sample_client"
  by code_simp+

theorem url_connection_trust_witness:
  "tc_roots \<lparr>tc_verify = True, tc_roots = [3, 1, 2]\<rparr>
     = concat (map (contributed sample_world) (query_certs (url_query_pairs sample_url)))"
  using url_connection_trust [OF sample_client_connect] by (auto simp: sample_client_def sample_tls_def)

end
