(* ===== verification/Hdb_Api.thy ===== *)
theory Hdb_Api
  imports Hdb_Statements
begin

text \<open>
  The rest of the public interface of a connection (sync\_connection.rs), the connection manager for r2d2
  (sync\_connection\_manager.rs), and when the information on the client travels to the server. The methods
  that lock the connection core and delegate are definitions on the core; the lock is left out.
\<close>

section \<open>Settings and information\<close>

definition connection_pop_warnings :: "('n conn_core, server_error list option) st" where
  "connection_pop_warnings = (\<lambda>cc. case pop_warnings cc of (r, cc') \<Rightarrow> (Ok r, cc'))"

definition connection_set_auto_commit :: "bool \<Rightarrow> ('n conn_core, unit) st" where
  "connection_set_auto_commit ac = st_update (set_auto_commit ac)"

definition connection_set_fetch_size :: "u32 \<Rightarrow> ('n conn_core, unit) st" where
  "connection_set_fetch_size n = st_update (set_fetch_size n)"

definition connection_set_lob_read_length :: "u32 \<Rightarrow> ('n conn_core, unit) st" where
  "connection_set_lob_read_length l = st_update (set_lob_read_length l)"

definition connection_set_lob_write_length :: "nat \<Rightarrow> ('n conn_core, unit) st" where
  "connection_set_lob_write_length l = st_update (set_lob_write_length l)"

definition connection_set_application :: "rstring \<Rightarrow> ('n conn_core, unit) st" where
  "connection_set_application s = st_update (set_application s)"

definition connection_set_application_user :: "rstring \<Rightarrow> ('n conn_core, unit) st" where
  "connection_set_application_user s = st_update (set_application_user s)"

definition connection_set_application_version :: "rstring \<Rightarrow> ('n conn_core, unit) st" where
  "connection_set_application_version s = st_update (set_application_version s)"

definition connection_set_application_source :: "rstring \<Rightarrow> ('n conn_core, unit) st" where
  "connection_set_application_source s = st_update (set_application_source s)"

text \<open>The connection id is the one that the server has sent; without it there is a panic.\<close>

definition connection_id :: "'n conn_core \<Rightarrow> (i32, hdb_error) res" where
  "connection_id cc = get_connection_id (cc_connect_options cc)"

definition connection_database_name :: "'n conn_core \<Rightarrow> rstring option" where
  "connection_database_name cc = get_database_name (cc_connect_options cc)"

definition connection_system_id :: "'n conn_core \<Rightarrow> rstring option" where
  "connection_system_id cc = get_system_id (cc_connect_options cc)"

definition connection_full_version_string :: "'n conn_core \<Rightarrow> rstring option" where
  "connection_full_version_string cc = get_full_version_string (cc_connect_options cc)"

definition connection_data_format_version_2 :: "'n conn_core \<Rightarrow> i32 option" where
  "connection_data_format_version_2 cc = get_dataformat_version2 (cc_connect_options cc)"

definition connection_call_count :: "'n conn_core \<Rightarrow> i32" where
  "connection_call_count cc = cc_seq_number cc"

definition connect_string :: "'n conn_core \<Rightarrow> rstring" where
  "connect_string cc = connect_params_display (cc_params cc)"

section \<open>Prepared statements\<close>

definition conn_prepare :: "'n driver \<Rightarrow> rstring \<Rightarrow> ('n conn_core, prepared_statement) st" where
  "conn_prepare dr stmt = prepared_statement_try_new dr stmt"

text \<open>A prepared statement that is dropped gives up its reference to the statement on the server.\<close>

definition prepared_statement_drop :: "'n driver \<Rightarrow> holders \<Rightarrow> prepared_statement \<Rightarrow> 'n conn_core \<Rightarrow> 'n conn_core" where
  "prepared_statement_drop dr ho ps cc =
     (if ho_pscore ho (ps_statement_id ps) then cc else ps_core_drop dr (ps_statement_id ps) cc)"

text \<open>\<open>input\<close> is what \<^verbatim>\<open>to_params\<close> makes of the parameters for given descriptors; the statement is dropped
  at the end, after an error, too; a panic poisons the lock of the connection.\<close>

definition conn_prepare_and_execute ::
    "'n driver \<Rightarrow> holders \<Rightarrow> rstring \<Rightarrow> (parameter_descriptor list \<Rightarrow> (hdb_value list, hdb_error) res)
      \<Rightarrow> ('n conn_core, 'xid hdb_response) st" where
  "conn_prepare_and_execute dr ho stmt input =
     st_bind (prepared_statement_try_new dr stmt) (\<lambda>ps. \<lambda>cc.
     case ps_execute dr ho ps (input (iter_in (ps_descriptors ps))) cc of
       (r, cc') \<Rightarrow> (r, if r = Panic then cc' else prepared_statement_drop dr ho ps cc'))"

section \<open>The connection manager\<close>

record connection_manager =
  cm_connect_params :: connect_params

definition manager_new :: "(connect_params, hdb_error) res \<Rightarrow> (connection_manager, hdb_error) res" where
  "manager_new p = res_map (\<lambda>params. \<lparr>cm_connect_params = params\<rparr>) p"

definition manager_connect :: "'n driver \<Rightarrow> connection_manager \<Rightarrow> 'n \<Rightarrow> ('n conn_core, hdb_error) res" where
  "manager_connect dr cm n = conn_new dr (Ok (cm_connect_params cm)) n"

definition manager_has_broken :: "'n conn_core \<Rightarrow> bool" where
  "manager_has_broken _ = False"

section \<open>The client information\<close>

text \<open>The requests of a conversation as they are completed for sending, whatever becomes of them.\<close>

fun conversation :: "'n driver \<Rightarrow> request list \<Rightarrow> 'n conn_core \<Rightarrow> request list" where
  "conversation dr [] cc = []"
| "conversation dr (r # rs) cc = fst (augment_request r cc) # conversation dr rs (snd (send dr r cc))"

definition client_infos :: "request \<Rightarrow> client_info list" where
  "client_infos r = [ci. P_ClientInfo ci \<leftarrow> rq_parts r]"

lemma client_infos_push [simp]:
  "client_infos (request_push (P_ClientInfo ci) r) = client_infos r @ [ci]"
  "client_infos (add_statement_context ssi r) = client_infos r"
  by (simp_all add: client_infos_def request_push_def add_statement_context_def)

lemma augment_client_infos:
  "client_infos (fst (augment_request r cc)) =
     client_infos r @ (if cc_authenticated cc \<and> cc_client_info_touched cc then [cc_client_info cc] else [])"
  by (simp add: augment_request_def get_client_info_for_sending_def Let_def split: option.split)

lemma augment_touched:
  "cc_client_info_touched (snd (augment_request r cc)) = (cc_client_info_touched cc \<and> \<not> cc_authenticated cc)"
  by (simp add: augment_request_def get_client_info_for_sending_def Let_def)

lemma send_touched:
  "cc_client_info_touched (snd (send dr r cc)) = (cc_client_info_touched cc \<and> \<not> cc_authenticated cc)"
proof -
  obtain r' cc1 where a: "augment_request r cc = (r', cc1)" by (cases "augment_request r cc")
  from full_send_step [OF a, of dr None None None] augment_touched [of r cc] show ?thesis
    by (cases "full_send dr r None None (cc, None)") (auto simp: send_def core_step_def a)
qed

lemma conversation_untouched:
  "\<not> cc_client_info_touched cc \<Longrightarrow> \<forall>r \<in> set rs. client_infos r = [] \<Longrightarrow>
   r' \<in> set (conversation dr rs cc) \<Longrightarrow> client_infos r' = []"
proof (induction rs arbitrary: cc)
  case (Cons r rs)
  have "\<not> cc_client_info_touched (snd (send dr r cc))" using Cons.prems(1) by (simp add: send_touched)
  from Cons.IH [OF this] Cons.prems show ?case by (auto simp: augment_client_infos)
qed simp

text \<open>C22: In a conversation over an authenticated connection, the information on the client travels with
  the first request if it was set or changed before, and with no later one, whatever the answers are and
  whether or not the connection is replaced by a new one on the way.\<close>

theorem client_info_sent_once:
  assumes "cc_authenticated cc" and "\<forall>r \<in> set (r1 # rs). client_infos r = []"
  shows "\<exists>first later. conversation dr (r1 # rs) cc = first # later \<and>
    client_infos first = (if cc_client_info_touched cc then [cc_client_info cc] else []) \<and>
    (\<forall>r \<in> set later. client_infos r = [])"
proof -
  have "\<not> cc_client_info_touched (snd (send dr r1 cc))" using assms(1) by (simp add: send_touched)
  then have "\<forall>r \<in> set (conversation dr rs (snd (send dr r1 cc))). client_infos r = []"
    using assms(2) conversation_untouched by fastforce
  then show ?thesis using assms by (simp add: augment_client_infos)
qed

definition told_core :: "(unit \<times> bytes) conn_core" where
  "told_core = set_application (ascii ''app'') (served_core ())"

theorem client_info_sent_once_witness:
  "\<exists>first later. conversation sample_driver [execute_request 1 None [], execute_request 2 None []] told_core = first # later \<and>
    client_infos first = [[(CI_Application, ascii ''app'')]] \<and> (\<forall>r \<in> set later. client_infos r = [])"
proof -
  have c: "cc_authenticated told_core" "cc_client_info_touched told_core"
    "cc_client_info told_core = [(CI_Application, ascii ''app'')]"
    by (simp_all add: told_core_def served_core_def set_application_def set_client_info_def client_info_set_def)
  have "\<forall>r \<in> set [execute_request 1 None [], execute_request 2 None []]. client_infos r = []"
    by (simp add: client_infos_def execute_request_def request_push_def request_new_def)
  from client_info_sent_once [OF c(1) this] show ?thesis by (simp only: c if_True)
qed

text \<open>A reconnect leaves the mark as it is: the new session is not told what the old one knew.\<close>

lemma reconnect_forgets_client_info:
  "cc_client_info_touched (snd (reconnect dr cc)) = cc_client_info_touched cc"
  using keeps_reconnect [of dr] by (simp add: core.keeps_def core_step_def)

end
