(* ===== verification/Hdb_Metadata.thy ===== *)
theory Hdb_Metadata
  imports Hdb_Rows
begin

text \<open>
  The metadata of result sets (protocol/parts/resultset\_metadata.rs): the public getters, and what its
  parser makes of the table of names that follows the fields. The names are found by their offsets in that
  table; the fields refer to them before they are read.
\<close>

section \<open>Getters\<close>

definition rsmd_is_empty :: "resultset_metadata \<Rightarrow> bool" where
  "rsmd_is_empty m \<longleftrightarrow> rsmd_fields m = []"

definition rsmd_nullable :: "resultset_metadata \<Rightarrow> nat \<Rightarrow> (bool, hdb_error) res" where
  "rsmd_nullable m i = res_map fm_is_nullable (field_metadata_at m i)"

definition rsmd_has_default :: "resultset_metadata \<Rightarrow> nat \<Rightarrow> (bool, hdb_error) res" where
  "rsmd_has_default m i = res_map fm_has_default (field_metadata_at m i)"

definition rsmd_read_only :: "resultset_metadata \<Rightarrow> nat \<Rightarrow> (bool, hdb_error) res" where
  "rsmd_read_only m i = res_map fm_read_only (field_metadata_at m i)"

definition rsmd_is_auto_incremented :: "resultset_metadata \<Rightarrow> nat \<Rightarrow> (bool, hdb_error) res" where
  "rsmd_is_auto_incremented m i = res_map fm_is_auto_incremented (field_metadata_at m i)"

definition rsmd_is_array_type :: "resultset_metadata \<Rightarrow> nat \<Rightarrow> (bool, hdb_error) res" where
  "rsmd_is_array_type m i = res_map fm_is_array_type (field_metadata_at m i)"

definition rsmd_type_id :: "resultset_metadata \<Rightarrow> nat \<Rightarrow> (type_id, hdb_error) res" where
  "rsmd_type_id m i = res_map fm_type_id (field_metadata_at m i)"

definition rsmd_scale :: "resultset_metadata \<Rightarrow> nat \<Rightarrow> (i16, hdb_error) res" where
  "rsmd_scale m i = res_map fm_scale (field_metadata_at m i)"

definition rsmd_precision :: "resultset_metadata \<Rightarrow> nat \<Rightarrow> (i16, hdb_error) res" where
  "rsmd_precision m i = res_map fm_precision (field_metadata_at m i)"

section \<open>What a server sends\<close>

definition field_emit :: "field_metadata \<Rightarrow> wr" where
  "field_emit f = Ok ([fm_column_options f, type_id_as_u8 (fm_type_id f)] @ write_i16 (fm_scale f)
     @ write_i16 (fm_precision f) @ write_i16 0 @ write_u32 (fm_tablename_idx f)
     @ write_u32 (fm_schemaname_idx f) @ write_u32 (fm_columnname_idx f) @ write_u32 (fm_displayname_idx f))"

text \<open>Every field is read back.\<close>

interpretation field: wire_codec field_emit parse_field "\<lambda>_. True"
proof unfold_locales
  fix f :: field_metadata and bs rest
  assume "field_emit f = Ok bs"
  then show "parse_field (bs @ rest) = Ok (f, rest)"
    by (cases f) (auto simp: field_emit_def parse_field_def rd_simps type_id_try_new_as_u8)
qed (simp add: field_emit_def)

definition name_emit :: "cesu8_lib \<Rightarrow> rstring \<Rightarrow> bytes" where
  "name_emit c8 n = word_of_nat (length (to_cesu8 c8 n)) # to_cesu8 c8 n"

definition names_length :: "cesu8_lib \<Rightarrow> rstring list \<Rightarrow> nat" where
  "names_length c8 ns = sum_list (map (\<lambda>n. length (to_cesu8 c8 n) + 1) ns)"

definition name_offset :: "cesu8_lib \<Rightarrow> rstring list \<Rightarrow> nat \<Rightarrow> nat" where
  "name_offset c8 ns k = names_length c8 (take k ns)"

lemma names_length_simps [simp]:
  "names_length c8 [] = 0"
  "names_length c8 (n # ns) = length (to_cesu8 c8 n) + 1 + names_length c8 ns"
  by (simp_all add: names_length_def)

section \<open>The table of names\<close>

fun assign_names :: "cesu8_lib \<Rightarrow> rstring list \<Rightarrow> nat \<Rightarrow> (nat \<times> rstring) list \<Rightarrow> (nat \<times> rstring) list" where
  "assign_names c8 [] off m = m"
| "assign_names c8 (n # ns) off m =
     assign_names c8 ns (off + length (to_cesu8 c8 n) + 1) (AList.update off n m)"

lemma assign_names_outside:
  "j < off \<or> off + names_length c8 ns \<le> j \<Longrightarrow> map_of (assign_names c8 ns off m) j = map_of m j"
  by (induction ns arbitrary: off m) (auto simp: update_conv')

lemma assign_names_at:
  "k < length ns \<Longrightarrow> map_of (assign_names c8 ns off m) (off + name_offset c8 ns k) = Some (ns ! k)"
proof (induction ns arbitrary: off m k)
  case (Cons n ns)
  show ?case
  proof (cases k)
    case 0
    then show ?thesis by (simp add: name_offset_def assign_names_outside update_conv')
  next
    case (Suc j)
    then show ?thesis
      using Cons.IH [of j "off + length (to_cesu8 c8 n) + 1" "AList.update off n m"] Cons.prems
      by (simp add: name_offset_def add.assoc)
  qed
qed simp

definition fitting_names :: "cesu8_lib \<Rightarrow> rstring list \<Rightarrow> bool" where
  "fitting_names c8 ns \<longleftrightarrow> (\<forall>n \<in> set ns. valid_utf8 n \<and> length (to_cesu8 c8 n) < 256)"

lemma parse_names_emitted:
  assumes "cesu8_crate c8"
  shows "fitting_names c8 ns \<Longrightarrow> unat off + names_length c8 ns < 2 ^ 32 \<Longrightarrow>
    parse_names c8 (length ns) off m (concat (map (name_emit c8) ns) @ rest)
      = Ok (assign_names c8 ns (unat off) m, rest)"
proof (induction ns arbitrary: off m)
  case (Cons n ns)
  let ?l = "length (to_cesu8 c8 n)"
  have l: "?l < 256" "valid_utf8 n" using Cons.prems(1) by (auto simp: fitting_names_def)
  have u: "unat (word_of_nat ?l :: u8) = ?l" using l(1) by (simp add: unat_of_nat)
  have c: "unat (ucast (word_of_nat ?l :: u8) :: u32) = ?l"
    using u l(1) by (simp add: unsigned_ucast_eq take_bit_nat_eq_self)
  have lt: "unat off + ?l + 1 < 2 ^ 32" using Cons.prems(2) by simp
  have o: "unat (off + ucast (word_of_nat ?l :: u8) + 1) = unat off + ?l + 1"
    using lt c by (simp add: unat_word_ariths)
  have "parse_names c8 (length ns) (off + ucast (word_of_nat ?l :: u8) + 1) (AList.update (unat off) n m)
      (concat (map (name_emit c8) ns) @ rest)
    = Ok (assign_names c8 ns (unat off + ?l + 1) (AList.update (unat off) n m), rest)"
    using Cons.IH [of "off + ucast (word_of_nat ?l :: u8) + 1" "AList.update (unat off) n m"] Cons.prems o
    by (simp add: fitting_names_def)
  then show ?case
    using lt l cesu8_crate.io_string_to_cesu8 [OF assms l(2)]
    by (simp add: name_emit_def [of c8 n] rd_simps u isize_max_def)
qed (simp add: rd_simps)

section \<open>The offsets the fields refer to\<close>

definition field_offsets :: "field_metadata \<Rightarrow> u32 set" where
  "field_offsets f =
     {fm_tablename_idx f, fm_schemaname_idx f, fm_columnname_idx f, fm_displayname_idx f} - {0xFFFFFFFF}"

lemma add_to_names_keys:
  "fst ` set (add_to_names off names) = fst ` set names \<union> unat ` ({off} - {0xFFFFFFFF})"
  by (auto simp: add_to_names_def dom_map_of_conv_image_fst [symmetric] update_conv' split: if_splits)

lemma add_to_names_distinct:
  "distinct (map fst names) \<Longrightarrow> distinct (map fst (add_to_names off names))"
  by (simp add: add_to_names_def distinct_update)

lemma field_names_keys:
  "fst ` set (field_names names f) = fst ` set names \<union> unat ` field_offsets f"
  by (auto simp: field_names_def add_to_names_keys field_offsets_def)

lemma all_field_names:
  "distinct (map fst names) \<Longrightarrow> distinct (map fst (foldl field_names names fs)) \<and>
     fst ` set (foldl field_names names fs) = fst ` set names \<union> (\<Union>f \<in> set fs. unat ` field_offsets f)"
proof (induction fs arbitrary: names)
  case (Cons f fs)
  have "distinct (map fst (field_names names f))"
    using Cons.prems by (simp add: field_names_def add_to_names_distinct)
  from Cons.IH [OF this] show ?case by (auto simp: field_names_keys)
qed simp

lemma name_offset_less: "j < k \<Longrightarrow> k \<le> length ns \<Longrightarrow> name_offset c8 ns j < name_offset c8 ns k"
proof (induction ns arbitrary: j k)
  case (Cons n ns)
  obtain k' where k: "k = Suc k'" using Cons.prems(1) by (cases k) auto
  show ?case
  proof (cases j)
    case (Suc j')
    then show ?thesis using Cons k by (simp add: name_offset_def)
  qed (simp add: k name_offset_def)
qed simp

lemma card_offsets: "card (name_offset c8 ns ` {..<length ns}) = length ns"
proof -
  have "inj_on (name_offset c8 ns) {..<length ns}"
    by (rule inj_onI) (metis lessThan_iff linorder_neqE_nat name_offset_less order_less_imp_le order_less_irrefl)
  then show ?thesis by (simp add: card_image)
qed

section \<open>Reading metadata\<close>

text \<open>What a lookup through a reference should give.\<close>

definition refers :: "cesu8_lib \<Rightarrow> rstring list \<Rightarrow> u32 \<Rightarrow> (rstring, hdb_error) res \<Rightarrow> bool" where
  "refers c8 ns idx r \<longleftrightarrow>
     (if idx = 0xFFFFFFFF then r = Err (Usage ''invalid field index'')
      else \<exists>k < length ns. unat idx = name_offset c8 ns k \<and> r = Ok (ns ! k))"

lemma refers_at:
  assumes "refers c8 ns idx r" and "idx \<noteq> 0xFFFFFFFF" and "k < length ns" and "unat idx = name_offset c8 ns k"
  shows "r = Ok (ns ! k)"
proof -
  from assms(1,2) obtain j where j: "j < length ns" "unat idx = name_offset c8 ns j" "r = Ok (ns ! j)"
    by (auto simp: refers_def)
  have "j = k" using j(1,2) assms(3,4) name_offset_less [of j k ns c8] name_offset_less [of k j ns c8] by force
  then show ?thesis using j(3) by simp
qed

text \<open>C23: When a server sends the fields of a result set and then the names they refer to, each name once,
  the parser reads all fields and resolves every reference to the name meant, in whatever order the fields
  refer to the names and however many of them share one; a field without a name has none.\<close>

theorem metadata_names_roundtrip:
  assumes "cesu8_crate c8" and "fitting_names c8 ns" and "names_length c8 ns < 2 ^ 32"
    and "(\<Union>f \<in> set fds. unat ` field_offsets f) = name_offset c8 ns ` {..<length ns}"
    and "emit_list field_emit fds = Ok bs"
  shows "\<exists>m. resultset_metadata_parse c8 (length fds) (bs @ concat (map (name_emit c8) ns) @ rest) = Ok (m, rest)
    \<and> rsmd_fields m = fds
    \<and> (\<forall>i < length fds. refers c8 ns (fm_tablename_idx (fds ! i)) (tablename m i)
         \<and> refers c8 ns (fm_schemaname_idx (fds ! i)) (schemaname m i)
         \<and> refers c8 ns (fm_columnname_idx (fds ! i)) (columnname m i)
         \<and> refers c8 ns (fm_displayname_idx (fds ! i)) (displayname m i))"
proof -
  have max_u32: "unat x = 4294967295 \<longleftrightarrow> x = 0xFFFFFFFF" for x :: u32 by (simp add: word_unat_eq_iff)
  define m0 where "m0 = foldl field_names [] fds"
  have m0: "distinct (map fst m0)" "fst ` set m0 = name_offset c8 ns ` {..<length ns}"
    using all_field_names [of "[]" fds] assms(4) by (simp_all add: m0_def)
  have len: "length m0 = length ns"
    using m0 card_offsets [of c8 ns] distinct_card [OF m0(1)] by simp
  let ?m = "\<lparr>rsmd_fields = fds, rsmd_names = assign_names c8 ns 0 m0\<rparr>"
  have "rd_repeat (length fds) parse_field (bs @ concat (map (name_emit c8) ns) @ rest)
      = Ok (fds, concat (map (name_emit c8) ns) @ rest)"
    by (rule field.parse_repeat [OF _ assms(5)]) (simp add: list_all_iff)
  then have parsed: "resultset_metadata_parse c8 (length fds) (bs @ concat (map (name_emit c8) ns) @ rest) = Ok (?m, rest)"
    using parse_names_emitted [OF assms(1,2), of 0 m0 rest] assms(3)
    by (simp add: resultset_metadata_parse_def rd_simps Let_def m0_def [symmetric] len)
  have big: "map_of (assign_names c8 ns 0 m0) (unat (0xFFFFFFFF :: u32)) = None"
  proof -
    have "unat (0xFFFFFFFF :: u32) \<notin> fst ` set m0"
      using all_field_names [of "[]" fds] max_u32 by (auto simp: m0_def field_offsets_def)
    then show ?thesis using assms(3) by (simp add: assign_names_outside map_of_eq_None_iff)
  qed
  have look: "refers c8 ns (idx (fds ! i)) (name_at ?m idx i)"
    if i: "i < length fds" and idx: "idx (fds ! i) \<in> field_offsets (fds ! i) \<union> {0xFFFFFFFF}" for i idx
  proof (cases "idx (fds ! i) = 0xFFFFFFFF")
    case True
    then show ?thesis using big i by (simp add: refers_def name_at_def field_metadata_at_def)
  next
    case False
    then have "unat (idx (fds ! i)) \<in> name_offset c8 ns ` {..<length ns}"
      using idx i assms(4) nth_mem by fastforce
    then obtain k where "k < length ns" "unat (idx (fds ! i)) = name_offset c8 ns k" by blast
    then show ?thesis using False i assign_names_at [of k ns c8 0 m0]
      by (auto simp: refers_def name_at_def field_metadata_at_def)
  qed
  show ?thesis
    by (rule exI [of _ ?m])
      (simp add: parsed tablename_def schemaname_def columnname_def displayname_def look field_offsets_def)
qed

definition sample_field :: "u32 \<Rightarrow> u32 \<Rightarrow> field_metadata" where
  "sample_field col disp = \<lparr>fm_schemaname_idx = 0xFFFFFFFF, fm_tablename_idx = 0, fm_columnname_idx = col,
     fm_displayname_idx = disp, fm_column_options = 2, fm_type_id = TY_INT, fm_scale = 0, fm_precision = 10\<rparr>"

theorem metadata_names_roundtrip_witness:
  "\<exists>m bs. emit_list field_emit [sample_field 2 2, sample_field 5 2] = Ok bs \<and>
    resultset_metadata_parse ref_cesu8 2 (bs @ concat (map (name_emit ref_cesu8) [[0x54], [0x43, 0x31], [0x43]]) @ [9]) = Ok (m, [9])
    \<and> tablename m 1 = Ok [0x54] \<and> columnname m 1 = Ok [0x43] \<and> displayname m 1 = Ok [0x43, 0x31]
    \<and> schemaname m 1 = Err (Usage ''invalid field index'')"
proof -
  let ?ns = "[[0x54], [0x43, 0x31], [0x43]] :: rstring list"
  let ?fds = "[sample_field 2 2, sample_field 5 2]"
  have c8: "to_cesu8 ref_cesu8 [0x54] = [0x54]" "to_cesu8 ref_cesu8 [0x43, 0x31] = [0x43, 0x31]"
    "to_cesu8 ref_cesu8 [0x43] = [0x43]"
    by code_simp+
  have "valid_utf8 [0x54]" "valid_utf8 [0x43, 0x31]" "valid_utf8 [0x43]" by code_simp+
  then have fit: "fitting_names ref_cesu8 ?ns" "names_length ref_cesu8 ?ns < 2 ^ 32"
    by (simp_all add: fitting_names_def c8)
  have offs: "name_offset ref_cesu8 ?ns 0 = 0" "name_offset ref_cesu8 ?ns 1 = 2" "name_offset ref_cesu8 ?ns 2 = 5"
    by (simp_all add: name_offset_def c8)
  have "{..<length ?ns} = {0, 1, 2}" by auto
  then have "name_offset ref_cesu8 ?ns ` {..<length ?ns} = {0, 2, 5}" by (simp only: image_insert image_empty offs)
  moreover have "(\<Union>f \<in> set ?fds. unat ` field_offsets f) = {0, 2, 5}"
    by (simp add: field_offsets_def sample_field_def insert_Diff_if) auto
  ultimately have refs: "(\<Union>f \<in> set ?fds. unat ` field_offsets f) = name_offset ref_cesu8 ?ns ` {..<length ?ns}"
    by simp
  obtain bs where bs: "emit_list field_emit ?fds = Ok bs"
    using field.emit_list_total [of ?fds] by (auto simp: list_all_iff)
  obtain m where m: "resultset_metadata_parse ref_cesu8 (length ?fds)
      (bs @ concat (map (name_emit ref_cesu8) ?ns) @ [9]) = Ok (m, [9])"
    and r: "\<forall>i < length ?fds. refers ref_cesu8 ?ns (fm_tablename_idx (?fds ! i)) (tablename m i)
         \<and> refers ref_cesu8 ?ns (fm_schemaname_idx (?fds ! i)) (schemaname m i)
         \<and> refers ref_cesu8 ?ns (fm_columnname_idx (?fds ! i)) (columnname m i)
         \<and> refers ref_cesu8 ?ns (fm_displayname_idx (?fds ! i)) (displayname m i)"
    using metadata_names_roundtrip [OF ref.cesu8_crate_axioms fit refs bs] by blast
  have r1: "refers ref_cesu8 ?ns 0 (tablename m 1)" "refers ref_cesu8 ?ns 0xFFFFFFFF (schemaname m 1)"
    "refers ref_cesu8 ?ns 5 (columnname m 1)" "refers ref_cesu8 ?ns 2 (displayname m 1)"
    using r [rule_format, of 1, simplified] unfolding sample_field_def by simp_all
  have "tablename m 1 = Ok [0x54]" using refers_at [OF r1(1), of 0] offs by simp
  moreover have "columnname m 1 = Ok [0x43]" using refers_at [OF r1(3), of 2] offs by simp
  moreover have "displayname m 1 = Ok [0x43, 0x31]" using refers_at [OF r1(4), of 1] offs by simp
  moreover have "schemaname m 1 = Err (Usage ''invalid field index'')" using r1(2) by (simp add: refers_def)
  ultimately show ?thesis using bs m by (intro exI [of _ m] exI [of _ bs]) (simp add: numeral_2_eq_2)
qed

end
