(* ===== verification/Hdb_Display.thy ===== *)
theory Hdb_Display
  imports Hdb_Conversions Hdb_Response
begin

text \<open>
  The text forms of values, rows, metadata, results and errors: the implementations of \<^verbatim>\<open>Display\<close> and
  \<^verbatim>\<open>Debug\<close> that are written by hand. Formatting dates can overflow (see \<open>Hdb_Dates\<close>), so it has outcomes;
  the text of decimals and floating-point numbers is that of \<open>conv_lib\<close>.
\<close>

section \<open>Values\<close>

definition or_length :: "string \<Rightarrow> rstring \<Rightarrow> rstring" where
  "or_length name s =
     (if length s < 10000 then s else ascii ''<'' @ ascii name @ ascii '' length = '' @ show_int (int (length s)) @ ascii ''>'')"

definition only_length :: "string \<Rightarrow> int \<Rightarrow> rstring" where
  "only_length name n = ascii ''<'' @ ascii name @ ascii '' length = '' @ show_int n @ ascii ''>''"

definition hdb_value_display :: "'dt conv_lib \<Rightarrow> hdb_value \<Rightarrow> (rstring, 'e) res" where
  "hdb_value_display cl v =
     (case v of
        HV_NOTHING \<Rightarrow> Ok (ascii ''<NOTHING>'')
      | HV_NULL \<Rightarrow> Ok (ascii ''<NULL>'')
      | HV_TINYINT i \<Rightarrow> Ok (show_int (uint i))
      | HV_SMALLINT i \<Rightarrow> Ok (show_int (sint i))
      | HV_INT i \<Rightarrow> Ok (show_int (sint i))
      | HV_BIGINT i \<Rightarrow> Ok (show_int (sint i))
      | HV_DECIMAL d \<Rightarrow> Ok (bd_show cl d)
      | HV_REAL x \<Rightarrow> Ok (f32_show cl x)
      | HV_DOUBLE x \<Rightarrow> Ok (f64_show cl x)
      | HV_STR s \<Rightarrow> Ok (or_length ''STRING'' s)
      | HV_STRING s \<Rightarrow> Ok (or_length ''STRING'' s)
      | HV_BINARY bs \<Rightarrow> Ok (only_length ''BINARY'' (int (length bs)))
      | HV_CLOB _ \<Rightarrow> Ok (ascii ''<CLOB>'')
      | HV_NCLOB _ \<Rightarrow> Ok (ascii ''<NCLOB>'')
      | HV_BLOB b \<Rightarrow> Ok (only_length ''BLOB'' (uint (bl_total_byte_length b)))
      | HV_LOBSTREAM _ \<Rightarrow> Ok (ascii ''<LOBSTREAM>'')
      | HV_BOOLEAN b \<Rightarrow> Ok (ascii (if b then ''true'' else ''false''))
      | HV_LONGDATE d \<Rightarrow> res_map ascii (longdate_display d)
      | HV_SECONDDATE d \<Rightarrow> res_map ascii (seconddate_display d)
      | HV_DAYDATE d \<Rightarrow> res_map ascii (daydate_display d)
      | HV_SECONDTIME t \<Rightarrow> Ok (ascii (secondtime_display t))
      | HV_GEOMETRY bs \<Rightarrow> Ok (only_length ''GEOMETRY'' (int (length bs)))
      | HV_POINT bs \<Rightarrow> Ok (only_length ''POINT'' (int (length bs))))"

definition newline :: rstring where
  "newline = [10]"

text \<open>Every element, followed by a separator; the first outcome that is not a text ends the loop.\<close>

fun display_each :: "('a \<Rightarrow> (rstring, 'e) res) \<Rightarrow> rstring \<Rightarrow> 'a list \<Rightarrow> (rstring, 'e) res" where
  "display_each f sep [] = Ok []"
| "display_each f sep (x # xs) = res_bind (f x) (\<lambda>s. res_map (\<lambda>t. s @ sep @ t) (display_each f sep xs))"

section \<open>Rows, parameters and result sets\<close>

definition row_display :: "'dt conv_lib \<Rightarrow> row \<Rightarrow> (rstring, 'e) res" where
  "row_display cl r = display_each (hdb_value_display cl) (ascii '', '') (row_value_iter r)"

definition metadata_display :: "resultset_metadata \<Rightarrow> rstring" where
  "metadata_display m = newline @ concat (map (\<lambda>f.
     (case map_of (rsmd_names m) (unat (fm_displayname_idx f)) of
        Some fieldname \<Rightarrow> fieldname
      | None \<Rightarrow> ascii ''<unnamed>'') @ ascii '', '') (rsmd_fields m))"

definition output_parameters_display :: "'dt conv_lib \<Rightarrow> output_parameters \<Rightarrow> (rstring, 'e) res" where
  "output_parameters_display cl op =
     res_map (\<lambda>s. newline @ concat (map (\<lambda>d. (case pd_name d of Some n \<Rightarrow> n | None \<Rightarrow> []) @ ascii '', '') (op_descriptors op))
         @ newline @ s @ newline)
       (display_each (hdb_value_display cl) (ascii '', '') (op_values op))"

text \<open>The rows that are in the memory of the client: first those being delivered, then those fetched.\<close>

definition result_set_display :: "'dt conv_lib \<Rightarrow> result_set \<Rightarrow> (rstring, 'e) res" where
  "result_set_display cl rs =
     (let line = (\<lambda>r. res_map (\<lambda>s. s @ newline) (row_display cl r))
      in res_bind (display_each line newline (rss_row_iter (rs_state rs))) (\<lambda>s1.
         res_bind (display_each line newline (rss_next_rows (rs_state rs))) (\<lambda>s2.
         Ok (metadata_display (rs_metadata rs) @ newline @ newline @ s1 @ s2))))"

section \<open>Errors and results\<close>

definition severity_display :: "severity \<Rightarrow> rstring" where
  "severity_display s =
     (case s of
        Sev_Warning \<Rightarrow> ascii ''warning''
      | Sev_Error \<Rightarrow> ascii ''error''
      | Sev_Fatal \<Rightarrow> ascii ''fatal error''
      | Sev_UNKNOWN i \<Rightarrow> ascii ''message of unknown severity ('' @ show_int (sint i) @ ascii '')'')"

text \<open>\<open>lossy\<close> is \<^verbatim>\<open>String::from_utf8_lossy\<close>. 34 is the quotation mark.\<close>

definition server_error_display :: "(bytes \<Rightarrow> rstring) \<Rightarrow> server_error \<Rightarrow> rstring" where
  "server_error_display lossy e =
     severity_display (se_severity e) @ ascii '' [code: '' @ show_int (sint (se_code e))
     @ ascii '', sql state: '' @ lossy (se_sqlstate e) @ ascii ''] at position: ''
     @ show_int (sint (se_position e)) @ ascii '': '' @ [34] @ se_text e @ [34]"

definition execution_result_display :: "(bytes \<Rightarrow> rstring) \<Rightarrow> execution_result \<Rightarrow> rstring" where
  "execution_result_display lossy er =
     (case er of
        RowsAffected n \<Rightarrow> ascii ''Number of affected rows: '' @ show_int (int n) @ ascii '', ''
      | SuccessNoInfo \<Rightarrow> ascii ''Command successfully executed but number of affected rows cannot be determined''
      | Failure (Some e) \<Rightarrow>
          ascii ''Execution of statement or processing of row has failed with '' @ server_error_display lossy e
      | Failure None \<Rightarrow> ascii ''Execution of statement or processing of row has failed'') @ newline"

text \<open>\<^verbatim>\<open>{:?}\<close> of a vector of numbers.\<close>

fun join_comma :: "rstring list \<Rightarrow> rstring" where
  "join_comma [] = []"
| "join_comma [s] = s"
| "join_comma (s # t # ss) = s @ ascii '', '' @ join_comma (t # ss)"

definition numbers_debug :: "nat list \<Rightarrow> rstring" where
  "numbers_debug ns = ascii ''['' @ join_comma (map (\<lambda>n. show_int (int n)) ns) @ ascii '']''"

definition return_value_display :: "'dt conv_lib \<Rightarrow> 'xid hdb_return_value \<Rightarrow> (rstring, 'e) res" where
  "return_value_display cl rv =
     res_map (\<lambda>s. s @ newline)
       (case rv of
          RV_AffectedRows ns \<Rightarrow> Ok (ascii ''AffectedRows '' @ numbers_debug ns @ ascii '','')
        | RV_OutputParameters op \<Rightarrow>
            res_map (\<lambda>s. ascii ''OutputParameters ['' @ s @ ascii ''],'') (output_parameters_display cl op)
        | RV_ResultSet rs \<Rightarrow> res_map (\<lambda>s. ascii ''ResultSet ['' @ s @ ascii ''],'') (result_set_display cl rs)
        | RV_Success \<Rightarrow> Ok (ascii ''Success,'')
        | RV_XaTransactionIds _ \<Rightarrow> Ok (ascii ''XaTransactionIds,<''))"

definition response_display :: "'dt conv_lib \<Rightarrow> 'xid hdb_response \<Rightarrow> (rstring, 'e) res" where
  "response_display cl rvs =
     res_map (\<lambda>s. ascii ''HdbResponse ['' @ s @ ascii '']'')
       (display_each (return_value_display cl) (ascii '', '') rvs)"

section \<open>Descriptors and attributes\<close>

text \<open>Derived \<^verbatim>\<open>Debug\<close> forms of the names of types, bindings and directions.\<close>

fun binding_debug :: "parameter_binding \<Rightarrow> rstring" where
  "binding_debug Optional = ascii ''Optional''"
| "binding_debug Mandatory = ascii ''Mandatory''"
| "binding_debug HasDefault = ascii ''HasDefault''"

fun direction_debug :: "parameter_direction \<Rightarrow> rstring" where
  "direction_debug IN = ascii ''IN''"
| "direction_debug INOUT = ascii ''INOUT''"
| "direction_debug OUT = ascii ''OUT''"

text \<open>The word on nullability is a \<^verbatim>\<open>str\<close> and printed with \<^verbatim>\<open>{:?}\<close>, so its quotation marks are printed, too;
  the two numbers are exchanged.\<close>

definition descriptor_display :: "(type_id \<Rightarrow> rstring) \<Rightarrow> parameter_descriptor \<Rightarrow> rstring" where
  "descriptor_display type_debug d =
     (case pd_name d of Some s \<Rightarrow> s @ ascii '' '' | None \<Rightarrow> [])
     @ [34] @ ascii (if pd_nullable d then ''Nullable '' else '''') @ [34] @ type_debug (pd_type_id d)
     @ ascii '' '' @ binding_debug (binding d) @ ascii '' '' @ direction_debug (pd_direction d)
     @ ascii '',  Scale('' @ show_int (sint (pd_precision d)) @ ascii ''), Precision('' @ show_int (sint (pd_scale d))
     @ ascii '')''"

definition w_and :: "bool \<Rightarrow> rstring" where
  "w_and b = (if b then ascii '' & '' else [])"

text \<open>The set flags in a fixed order; \<open>b\<close> tells whether one was written before.\<close>

fun write_flags :: "bool \<Rightarrow> (bool \<times> string) list \<Rightarrow> rstring" where
  "write_flags b [] = []"
| "write_flags b ((flag, name) # fs) =
     (if flag then w_and b @ ascii name @ write_flags True fs else write_flags b fs)"

definition part_attributes_debug :: "part_attributes \<Rightarrow> rstring" where
  "part_attributes_debug a =
     (if a = 0 then ascii ''0''
      else ascii ''('' @ write_flags False
        [(is_last_packet a, ''IS_LAST_PACKET''), (has_next_packet a, ''HAS_NEXT_PACKET''),
         (is_first_packet a, ''IS_FIRST_PACKET_IN_A_SEQUENCE''), (row_not_found a, ''ROW_NOT_FOUND''),
         (resultset_is_closed a, ''RESULTSET_CLOSED'')] @ ascii '')'')"

text \<open>The durations are microseconds.\<close>

definition seconds_display :: "nat \<Rightarrow> rstring" where
  "seconds_display us = show_int (int (us div 1000000)) @ ascii ''.'' @ ascii (pad_nat 6 (int (us mod 1000000)))"

definition server_usage_display :: "server_usage \<Rightarrow> rstring" where
  "server_usage_display u =
     ascii ''processing time: '' @ seconds_display (proc_time u)
     @ ascii ''s, accumulated processing time: '' @ seconds_display (accum_proc_time u) @ ascii ''s, ''"

section \<open>What the texts tell\<close>

lemma is_ok_map: "is_ok (res_map f r) = is_ok r"
  by (cases r) simp_all

lemma display_each_Ok:
  "(\<And>x. x \<in> set xs \<Longrightarrow> f x = Ok (g x)) \<Longrightarrow> display_each f sep xs = Ok (concat (map (\<lambda>x. g x @ sep) xs))"
  by (induction xs) auto

text \<open>Only the text of a date can fail to exist.\<close>

lemma hdb_value_display_total:
  assumes "case v of HV_LONGDATE d \<Rightarrow> is_ok (longdate_display d :: (string, 'e) res)
    | HV_SECONDDATE d \<Rightarrow> is_ok (seconddate_display d :: (string, 'e) res)
    | HV_DAYDATE d \<Rightarrow> is_ok (daydate_display d :: (string, 'e) res) | _ \<Rightarrow> True"
  shows "is_ok (hdb_value_display cl v :: (rstring, 'e) res)"
  using assms unfolding hdb_value_display_def
  by (cases v) (auto simp: is_ok_map)

text \<open>Displaying a result set shows the rows in the order in which they will be delivered.\<close>

lemma result_set_display_rows:
  assumes "\<And>r. r \<in> set (rss_row_iter (rs_state rs) @ rss_next_rows (rs_state rs)) \<Longrightarrow>
      row_display cl r = (Ok (g r) :: (rstring, 'e) res)"
  shows "result_set_display cl rs = (Ok (metadata_display (rs_metadata rs) @ newline @ newline
    @ concat (map (\<lambda>r. g r @ newline @ newline) (rss_row_iter (rs_state rs) @ rss_next_rows (rs_state rs)))) :: (rstring, 'e) res)"
proof -
  let ?line = "\<lambda>r. res_map (\<lambda>s. s @ newline) (row_display cl r :: (rstring, 'e) res)"
  have "display_each ?line newline rows = Ok (concat (map (\<lambda>r. (g r @ newline) @ newline) rows))"
    if "set rows \<subseteq> set (rss_row_iter (rs_state rs) @ rss_next_rows (rs_state rs))" for rows
    by (rule display_each_Ok) (use assms that in \<open>simp add: subset_iff\<close>)
  then show ?thesis by (simp add: result_set_display_def Let_def)
qed

section \<open>Options and client information\<close>

text \<open>A map is shown entry by entry in its iteration order; \<open>dbg\<close> is the derived \<^verbatim>\<open>Debug\<close> of the identifiers.\<close>

definition option_value_display :: "'dt conv_lib \<Rightarrow> option_value \<Rightarrow> rstring" where
  "option_value_display cl v =
     (case v of
        OV_INT i \<Rightarrow> show_int (sint i)
      | OV_BIGINT i \<Rightarrow> show_int (sint i)
      | OV_DOUBLE x \<Rightarrow> f64_show cl x
      | OV_BOOLEAN b \<Rightarrow> ascii (if b then ''true'' else ''false'')
      | OV_STRING t \<Rightarrow> t
      | OV_BSTRING bs \<Rightarrow> numbers_debug (map unat bs))"

definition entries_display :: "('k \<Rightarrow> rstring) \<Rightarrow> ('v \<Rightarrow> rstring) \<Rightarrow> ('k \<times> 'v) list \<Rightarrow> rstring" where
  "entries_display f g m = concat (map (\<lambda>(k, v). f k @ ascii '' = '' @ g v @ newline) m)"

definition option_part_display :: "('k \<Rightarrow> rstring) \<Rightarrow> 'dt conv_lib \<Rightarrow> ('k \<times> option_value) list \<Rightarrow> rstring" where
  "option_part_display dbg cl m = entries_display dbg (option_value_display cl) m"

fun client_info_key_debug :: "client_info_key \<Rightarrow> rstring" where
  "client_info_key_debug CI_Application = ascii ''Application''"
| "client_info_key_debug CI_ApplicationVersion = ascii ''ApplicationVersion''"
| "client_info_key_debug CI_ApplicationSource = ascii ''ApplicationSource''"
| "client_info_key_debug CI_ApplicationUser = ascii ''ApplicationUser''"
| "client_info_key_debug CI_Driver = ascii ''Driver''"
| "client_info_key_debug CI_DriverInfo = ascii ''DriverInfo''"
| "client_info_key_debug CI_DriverVersion = ascii ''DriverVersion''"

definition client_info_display :: "client_info \<Rightarrow> rstring" where
  "client_info_display ci = entries_display client_info_key_debug id ci"

definition dump_client_info :: "'n conn_core \<Rightarrow> rstring" where
  "dump_client_info cc = client_info_display (cc_client_info cc)"

definition dump_connect_options :: "(conn_opt_id \<Rightarrow> rstring) \<Rightarrow> 'dt conv_lib \<Rightarrow> 'n conn_core \<Rightarrow> rstring" where
  "dump_connect_options dbg cl cc = option_part_display dbg cl (cc_connect_options cc)"

end
