(* ===== verification/Hdb_Nclob_Server.thy ===== *)
theory Hdb_Nclob_Server
  imports Hdb_Lob_Server
begin

text \<open>
  Reading national character LOBs (types\_impl/lob/nclob.rs): the server counts characters, a character
  outside the basic plane as the two halves of its surrogate pair, so that a chunk may end between the
  halves. The server below holds the CESU-8 bytes and serves the characters asked for; against it an
  NCLOB is read completely.
\<close>

section \<open>Characters as the server counts them\<close>

text \<open>A character is a start byte with the bytes up to the next start byte.\<close>

function char_units :: "bytes \<Rightarrow> bytes list" where
  "char_units [] = []"
| "char_units (b # bs) =
     (b # takeWhile (\<lambda>x. \<not> is_utf8_char_start x) bs) # char_units (dropWhile (\<lambda>x. \<not> is_utf8_char_start x) bs)"
  by pat_completeness auto
termination by (relation "measure length") (auto simp: le_imp_less_Suc length_dropWhile_le)

lemma concat_char_units [simp]: "concat (char_units bs) = bs"
  by (induction bs rule: char_units.induct) auto

definition starts_char :: "bytes \<Rightarrow> bool" where
  "starts_char bs \<longleftrightarrow> (case bs of [] \<Rightarrow> True | b # _ \<Rightarrow> is_utf8_char_start b)"

definition is_unit :: "bytes \<Rightarrow> bool" where
  "is_unit u \<longleftrightarrow> u \<noteq> [] \<and> is_utf8_char_start (hd u) \<and> list_all (\<lambda>x. \<not> is_utf8_char_start x) (tl u)"

lemma starts_char_dropWhile: "starts_char (dropWhile (\<lambda>x. \<not> is_utf8_char_start x) bs)"
  by (induction bs) (auto simp: starts_char_def)

lemma char_units_is_unit: "starts_char bs \<Longrightarrow> list_all is_unit (char_units bs)"
proof (induction bs rule: char_units.induct)
  case (2 b bs)
  have "list_all (\<lambda>x. \<not> is_utf8_char_start x) (takeWhile (\<lambda>x. \<not> is_utf8_char_start x) bs)"
    by (auto simp: list_all_iff dest: set_takeWhileD)
  then show ?case using 2 starts_char_dropWhile by (simp add: is_unit_def starts_char_def)
qed simp

lemma char_units_nonempty: "u \<in> set (char_units bs) \<Longrightarrow> u \<noteq> []"
  by (induction bs rule: char_units.induct) auto

lemma starts_char_unit: "is_unit u \<Longrightarrow> starts_char (u @ rest)"
  by (cases u) (auto simp: is_unit_def starts_char_def)

lemma count_unit: "is_unit u \<Longrightarrow> count_1_2_3_sequence_starts (u @ rest) = Suc (count_1_2_3_sequence_starts rest)"
  by (cases u) (auto simp: is_unit_def count_1_2_3_sequence_starts_def list_all_iff filter_empty_conv)

lemma count_units: "list_all is_unit us \<Longrightarrow> count_1_2_3_sequence_starts (concat us) = length us"
proof (induction us)
  case (Cons u us)
  then show ?case using count_unit [of u "concat us"] by simp
qed (simp add: count_1_2_3_sequence_starts_def)

lemma char_units_append_unit:
  assumes "is_unit u" "starts_char rest"
  shows "char_units (u @ rest) = u # char_units rest"
proof -
  obtain b bs where u: "u = b # bs" using assms(1) by (cases u) (auto simp: is_unit_def)
  have bs: "list_all (\<lambda>x. \<not> is_utf8_char_start x) bs" using assms(1) by (simp add: is_unit_def u)
  have "takeWhile (\<lambda>x. \<not> is_utf8_char_start x) rest = []" "dropWhile (\<lambda>x. \<not> is_utf8_char_start x) rest = rest"
    using assms(2) by (auto simp: starts_char_def split: list.splits)
  then show ?thesis using bs by (simp add: u list_all_iff takeWhile_append dropWhile_append)
qed

lemma start_bytes:
  "utf8_one b \<Longrightarrow> is_utf8_char_start b" "in_range 0xC0 0xDF b \<Longrightarrow> is_utf8_char_start b"
  "in_range 0xE0 0xEF b \<Longrightarrow> is_utf8_char_start b" "is_cont b \<Longrightarrow> \<not> is_utf8_char_start b"
  by (auto simp: is_utf8_char_start_def byte_defs)

lemma cesu_char_first_unit:
  assumes "cesu_char d"
  obtains u us where "d = concat (u # us)" "list_all is_unit (u # us)" "2 < length d \<Longrightarrow> length u = 3"
  using assms
proof (cases d rule: cesu_char_cases)
  case (Two a b)
  then have "is_unit [a, b]" using start_bytes by (auto simp: is_unit_def utf8_two_def byte_defs is_utf8_char_start_def)
  then show ?thesis using that [of "[a, b]" "[]"] Two by simp
next
  case (Six a b c x y z)
  then have "is_unit [a, b, c]" "is_unit [x, y, z]"
    using start_bytes surrogate_conts by (auto simp: is_unit_def)
  then show ?thesis using that [of "[a, b, c]" "[[x, y, z]]"] Six by simp
qed (use that start_bytes surrogate_conts in \<open>auto simp: is_unit_def intro: that [of _ "[]"]\<close>)

lemma cesu_chars_start: "list_all cesu_char cs \<Longrightarrow> starts_char (concat cs)"
proof (induction cs)
  case (Cons d cs)
  then have "cesu_char d" by simp
  from cesu_char_first_unit [OF this] obtain u us where "d = concat (u # us)" "is_unit u" by (metis list.pred_inject(2))
  then show ?case by (cases u) (auto simp: starts_char_def is_unit_def)
qed (simp add: starts_char_def)

text \<open>Where a chunk ends, the scan for the last whole character succeeds.\<close>

lemma take_units: "take (length (concat (take k us))) (concat us) = concat (take k us)"
  by (metis append_eq_conv_conj append_take_drop_id concat_append)

lemma unit_cut:
  assumes cs: "list_all cesu_char cs" and k: "k \<le> length (char_units (concat cs))"
  shows "\<exists>t. get_cesu8_tail_len (concat (take k (char_units (concat cs))))
    (length (concat (take k (char_units (concat cs))))) = Ok t"
proof -
  let ?us = "char_units (concat cs)"
  let ?i = "length (concat (take k ?us))"
  have i: "?i \<le> length (concat cs)"
    using arg_cong [OF concat_char_units [of "concat cs"], of length] take_units [of k ?us]
    by (metis nat_le_linear take_all concat_char_units)
  have "\<not> (?i = 1 \<and> 2 < length (hd cs))"
  proof
    assume a: "?i = 1 \<and> 2 < length (hd cs)"
    then obtain d ds where d: "cs = d # ds" by (cases cs) auto
    have "cesu_char d" "2 < length d" using cs a d by auto
    from cesu_char_first_unit [OF this(1)] this(2)
    obtain u us where u: "d = concat (u # us)" "list_all is_unit (u # us)" "length u = 3" by metis
    have "starts_char (concat us @ concat ds)"
      using u(2) cesu_chars_start [of ds] cs d by (cases us) (simp_all add: starts_char_unit)
    then have "?us = u # char_units (concat us @ concat ds)"
      using char_units_append_unit [of u "concat us @ concat ds"] u by (simp add: d)
    then show False using a u(3) by (cases k) auto
  qed
  from cut_position [OF cs i this] show ?thesis by (auto simp: take_units [of k ?us, simplified])
qed

lemma units_length: "length (char_units bs) \<le> length bs"
proof -
  have "length us \<le> length (concat us)" if "\<forall>u \<in> set us. u \<noteq> []" for us :: "bytes list"
    using that
  proof (induction us)
    case (Cons u us)
    then show ?case by (cases u) auto
  qed simp
  then show ?thesis using char_units_nonempty by (metis concat_char_units)
qed

section \<open>The contract\<close>

locale char_lob_server =
  fixes src :: "'s lob_source" and ready :: "nat \<Rightarrow> 's \<Rightarrow> bool" and locator :: u64 and content :: bytes
  assumes read_length_pos: "ready n s \<Longrightarrow> 2 \<le> ls_read_length src s"
    and serve: "length content + 16 < 2 ^ 31 \<Longrightarrow> ready (Suc n) s \<Longrightarrow> i < length (char_units content) \<Longrightarrow>
      \<exists>s' u'. ls_fetch src locator i l (s, u) =
        (Ok (concat (take (unat l) (drop i (char_units content))), length (char_units content) \<le> i + unat l), (s', u'))
        \<and> ready n s'"
begin

abbreviation units :: "bytes list" where "units \<equiv> char_units content"

definition nclob_ready :: "nclob_handle \<times> 's \<Rightarrow> bool" where
  "nclob_ready = (\<lambda>(h, s). nc_locator_id h = locator \<and> unat (nc_total_char_length h) = length units \<and>
     unat (nc_total_byte_length h) = length content \<and> nc_acc_char_length h \<le> length units \<and>
     nc_acc_byte_length h = length (nc_cesu8 h) \<and> (nc_complete h \<longleftrightarrow> nc_acc_char_length h = length units) \<and>
     nc_cesu8 h = concat (take (nc_acc_char_length h) units) \<and>
     (\<exists>n \<ge> length units - nc_acc_char_length h. ready n s))"

lemma all_units_iff:
  assumes "k \<le> length units"
  shows "length (concat (take k units)) = length content \<longleftrightarrow> k = length units"
proof -
  have "length content = length (concat (take k units)) + length (concat (drop k units))"
    by (metis append_take_drop_id concat_append concat_char_units length_append)
  moreover have "concat (drop k units) = [] \<longleftrightarrow> drop k units = []"
    using char_units_nonempty [of _ content] set_drop_subset [of k units]
    by (cases "drop k units") (auto simp del: drop_eq_Nil drop_eq_Nil2)
  ultimately show ?thesis using assms by auto
qed

lemma nclob_step:
  assumes len: "length content + 16 < 2 ^ 31" and chars: "list_all cesu_char cs" "content = concat cs"
    and r: "nclob_ready x" and "\<not> nc_complete (fst x)"
  shows "\<exists>x'. nclob_fetch_next_chunk src x = (Ok (), x') \<and> nclob_ready x' \<and>
    length units - nc_acc_char_length (fst x') < length units - nc_acc_char_length (fst x)"
proof -
  obtain h s where x: "x = (h, s)" by (cases x)
  let ?acc = "nc_acc_char_length h"
  have h: "nc_locator_id h = locator" "unat (nc_total_char_length h) = length units"
      "unat (nc_total_byte_length h) = length content" "nc_acc_byte_length h = length (nc_cesu8 h)"
      "\<not> nc_complete h" "?acc < length units" "nc_cesu8 h = concat (take ?acc units)"
    using r assms(5) by (auto simp: nclob_ready_def x)
  obtain m where m: "length units - ?acc \<le> m" "ready m s" using r by (auto simp: nclob_ready_def x)
  then obtain n where n: "m = Suc n" using h(6) by (cases m) auto
  have "length content < 2 ^ 32" using len by simp
  then have "length units < 2 ^ 32" using units_length [of content] by (rule le_less_trans [rotated])
  from chunk_length_bounded [OF h(2,6) this read_length_pos [OF m(2)]]
  obtain l where l: "chunk_length (ls_read_length src s) (nc_total_char_length h) ?acc = Ok l"
    "0 < unat l" "?acc + unat l \<le> length units" by metis
  let ?data = "concat (take (unat l) (drop ?acc units))"
  let ?pos = "?acc + unat l"
  obtain s' u' where f: "ls_fetch src locator ?acc l (s, nc_server_usage h) =
      (Ok (?data, length units \<le> ?pos), (s', u'))" "ready n s'"
    using serve [OF len, of n s ?acc l "nc_server_usage h"] m(2) n h(6) by auto
  have cesu8: "nc_cesu8 h @ ?data = concat (take ?pos units)"
    by (simp add: h(7) take_add)
  have us: "list_all is_unit units" using char_units_is_unit cesu_chars_start [OF chars(1)] chars(2) by simp
  have "list_all is_unit (take (unat l) (drop ?acc units))"
    using us by (auto simp: list_all_iff dest: in_set_takeD in_set_dropD)
  then have count: "count_1_2_3_sequence_starts ?data = unat l"
    using l(3) by (simp add: count_units del: length_concat)
  obtain t where "get_cesu8_tail_len (concat (take ?pos units)) (length (concat (take ?pos units))) = Ok t"
    using unit_cut [OF chars(1), of ?pos] l(3) chars(2) by auto
  then have t: "tcp (get_cesu8_tail_len (nc_cesu8 h @ ?data) (length (nc_cesu8 h @ ?data))) = Ok t"
    unfolding cesu8 by simp
  define data where "data = ?data"
  define h' where "h' = h\<lparr>nc_acc_byte_length := nc_acc_byte_length h + length data,
    nc_acc_char_length := ?acc + count_1_2_3_sequence_starts data,
    nc_cesu8 := nc_cesu8 h @ data, nc_server_usage := u', nc_cesu8_tail_len := t,
    nc_complete := (length units \<le> ?pos), nc_max_buf_len := max (length (nc_cesu8 h @ data)) (nc_max_buf_len h)\<rparr>"
  have bytes: "length (nc_cesu8 h) + length ?data = length (concat (take ?pos units))"
    unfolding cesu8 [symmetric] by (rule length_append [symmetric])
  have h': "nc_locator_id h' = locator" "nc_total_char_length h' = nc_total_char_length h"
    "unat (nc_total_byte_length h') = length content" "nc_acc_char_length h' = ?pos"
    "nc_cesu8 h' = concat (take ?pos units)" "nc_acc_byte_length h' = length (concat (take ?pos units))"
    "nc_complete h' \<longleftrightarrow> ?pos = length units"
    using h(1,3,4) l(3) cesu8 count bytes by (auto simp: h'_def data_def simp del: length_concat)
  have ok: "nc_complete h' \<longleftrightarrow> unat (nc_total_byte_length h') = nc_acc_byte_length h'"
    unfolding h'(3,6,7) using all_units_iff [OF l(3)] by metis
  have step: "nclob_fetch_next_chunk src x = (Ok (), (h', s'))"
    using h(1,5) l(1) f(1) t ok unfolding x nclob_fetch_next_chunk_def h'_def data_def [symmetric]
    by (simp add: Let_def del: length_append)
  have "length units - ?pos \<le> n" using m(1) n l(2) by linarith
  then have "nclob_ready (h', s')"
    using h(2) h' l(3) f(2) unfolding nclob_ready_def by auto
  then show ?thesis using step h'(4) l(2,3) by (auto simp: x)
qed

lemma nclob_into_string_content:
  assumes "cesu8_crate c8" "length content + 16 < 2 ^ 31" "valid_utf8 txt" "content = to_cesu8 c8 txt" "nclob_ready x"
  shows "\<exists>s'. nclob_into_string c8 src x = Some (Ok txt, s')"
proof -
  obtain cs where cs: "list_all cesu_char cs" "content = concat cs"
    using cesu8_crate.to_cesu8_chars [OF assms(1,3)] assms(4) by auto
  have "\<exists>x'. st_while (\<lambda>(h, s). \<not> nc_complete h) (nclob_fetch_next_chunk src) x = Some (Ok (), x')
    \<and> nclob_ready x' \<and> \<not> (case x' of (h, s) \<Rightarrow> \<not> nc_complete h)"
    by (rule st_while_total [where I = nclob_ready and f = "\<lambda>x. length units - nc_acc_char_length (fst x)"])
      (use assms(5) nclob_step [OF assms(2) cs] in auto)
  then obtain h s where "st_while (\<lambda>(h, s). \<not> nc_complete h) (nclob_fetch_next_chunk src) x = Some (Ok (), h, s)"
    "nclob_ready (h, s)" "nc_complete h" by auto
  moreover from this have "nc_cesu8 h = content" by (simp add: nclob_ready_def)
  ultimately show ?thesis
    using cesu8_crate.hdb_string_to_cesu8 [OF assms(1,3)] assms(4)
    by (simp add: nclob_into_string_def nclob_load_complete_def)
qed

end

section \<open>The server\<close>

text \<open>Like \<open>lob_answer\<close>, with offset and length in characters.\<close>

definition nclob_answer :: "bytes server" where
  "nclob_answer req content =
     (case read_lob_request_parse (drop 72 req) of
        Ok ((locator, offset, len), _) \<Rightarrow>
          (one_part_reply 16 PK_ReadLobReply 0 1
            (lob_reply_body locator (concat (take (unat len) (drop (unat offset - 1) (char_units content))))
              (length (char_units content) \<le> unat offset - 1 + unat len)), content)
      | _ \<Rightarrow> ([], content))"

lemma chunk_of_units: "length (concat (take l (drop i us))) \<le> length (concat us)"
proof -
  have "length (concat us) = length (concat (take i us)) + length (concat (take l (drop i us)))
      + length (concat (drop l (drop i us)))"
    by (metis append_take_drop_id concat_append length_append add.assoc)
  then show ?thesis by simp
qed

lemma nclob_fetch_served:
  assumes ready: "lob_ready content (Suc n) cc" and len: "length content + 16 < 2 ^ 31"
    and i: "i < length (char_units content)"
  shows "fetch_a_lob_chunk (serving_driver dr nclob_answer) locator i l (cc, u) =
    (Ok (concat (take (unat l) (drop i (char_units content))), length (char_units content) \<le> i + unat l),
     (served content cc, u))"
proof (rule read_lob_served)
  show "idle (Suc n) cc" using ready by (simp add: lob_ready_def)
  have "i < length content" using i units_length [of content] by simp
  then show i64: "int i < 2 ^ 64 - 1" using len by simp
  show "length (concat (take (unat l) (drop i (char_units content)))) + 16 < 2 ^ 31"
    using chunk_of_units [of "unat l" i "char_units content"] len unfolding concat_char_units by linarith
  show "nclob_answer req (server_state cc) =
      (one_part_reply 16 PK_ReadLobReply 0 1 (lob_reply_body locator (concat (take (unat l) (drop i (char_units content))))
        (length (char_units content) \<le> i + unat l)), content)"
    if "read_lob_request_parse (drop 72 req) = Ok ((locator, word_of_nat (i + 1), l), rest)" for req rest
    using that offset_on_wire [OF i64] ready by (simp add: nclob_answer_def lob_ready_def del: of_nat_add)
qed

interpretation nclob_wire: char_lob_server "conn_source (serving_driver dr nclob_answer)" "lob_ready content" locator content
  for dr locator content
proof unfold_locales
  show "2 \<le> ls_read_length (conn_source (serving_driver dr nclob_answer)) s" if "lob_ready content n s" for n s
    using that by (simp add: conn_source_def lob_ready_def)
next
  fix n :: nat and s :: "(bytes \<times> bytes) conn_core" and i l u
  assume "length content + 16 < 2 ^ 31" "lob_ready content (Suc n) s" "i < length (char_units content)"
  from nclob_fetch_served [OF this(2,1,3)]
  show "\<exists>s' u'. ls_fetch (conn_source (serving_driver dr nclob_answer)) locator i l (s, u) =
      (Ok (concat (take (unat l) (drop i (char_units content))), length (char_units content) \<le> i + unat l), s', u')
      \<and> lob_ready content n s'"
    using \<open>lob_ready content (Suc n) s\<close> by (auto simp: conn_source_def lob_ready_def idle_served)
qed

section \<open>Properties\<close>

text \<open>C11: A national character LOB whose CESU-8 form is shorter than 2 GB and of which the server sent the first
  k characters with the row (a character outside the basic plane counts twice, and may be cut in two) is read
  completely and gives the text.\<close>

theorem nclob_read_completely:
  assumes "cesu8_crate c8" "valid_utf8 txt" "length (to_cesu8 c8 txt) + 16 < 2 ^ 31"
    and "lob_ready (to_cesu8 c8 txt) n cc" "length (char_units (to_cesu8 c8 txt)) \<le> n + k"
    and "k \<le> length (char_units (to_cesu8 c8 txt))"
    and "nclob_handle_new rs (k = length (char_units (to_cesu8 c8 txt)))
      (word_of_nat (length (char_units (to_cesu8 c8 txt)))) (word_of_nat (length (to_cesu8 c8 txt))) locator
      (concat (take k (char_units (to_cesu8 c8 txt)))) = Ok h"
  shows "\<exists>cc'. nclob_into_string c8 (conn_source (serving_driver dr nclob_answer)) (h, cc) = Some (Ok txt, cc')"
proof (rule nclob_wire.nclob_into_string_content [OF assms(1,3,2) _])
  let ?content = "to_cesu8 c8 txt"
  obtain cs where cs: "list_all cesu_char cs" "?content = concat cs"
    using cesu8_crate.to_cesu8_chars [OF assms(1,2)] by auto
  have us: "list_all is_unit (char_units ?content)" using char_units_is_unit cesu_chars_start [OF cs(1)] cs(2) by simp
  then have count: "count_1_2_3_sequence_starts (concat (take k (char_units ?content))) = k"
    using assms(6) count_units [of "take k (char_units ?content)"]
    by (auto simp: list_all_iff dest: in_set_takeD)
  have "unat (word_of_nat (length ?content) :: u64) = length ?content" using assms(3) by (simp add: unat_of_nat)
  moreover have "unat (word_of_nat (length (char_units ?content)) :: u64) = length (char_units ?content)"
    using assms(3) units_length [of ?content] by (simp add: unat_of_nat)
  moreover have "length (char_units ?content) - k \<le> n" using assms(5) by linarith
  ultimately show "nclob_wire.nclob_ready (to_cesu8 c8 txt) locator (h, cc)"
    using assms(4,6,7) count by (auto simp: nclob_wire.nclob_ready_def nclob_handle_new_def res_simps)
qed simp

theorem nclob_read_completely_witness:
  "\<exists>h cc'. nclob_handle_new (Some 7) (3 = length (char_units sample_cesu8)) (word_of_nat (length (char_units sample_cesu8)))
        (word_of_nat (length sample_cesu8)) 9 (concat (take 3 (char_units sample_cesu8))) = Ok h
    \<and> nclob_into_string ref_cesu8 (conn_source (serving_driver sample_driver nclob_answer)) (h, served_core sample_cesu8)
    = Some (Ok sample_text, cc')"
proof -
  have "is_ok (nclob_handle_new (Some 7) (3 = length (char_units sample_cesu8)) (word_of_nat (length (char_units sample_cesu8)))
        (word_of_nat (length sample_cesu8)) 9 (concat (take 3 (char_units sample_cesu8))))"
    "length (char_units sample_cesu8) = 4"
    by code_simp+
  then obtain h where h: "nclob_handle_new (Some 7) (3 = length (char_units sample_cesu8))
      (word_of_nat (length (char_units sample_cesu8))) (word_of_nat (length sample_cesu8)) 9
      (concat (take 3 (char_units sample_cesu8))) = Ok h" and len: "length (char_units sample_cesu8) = 4"
    by (auto elim: is_okE)
  have enc: "to_cesu8 ref_cesu8 sample_text = sample_cesu8" "valid_utf8 sample_text" by code_simp+
  have "\<exists>cc'. nclob_into_string ref_cesu8 (conn_source (serving_driver sample_driver nclob_answer)) (h, served_core sample_cesu8)
    = Some (Ok sample_text, cc')"
    by (rule nclob_read_completely [OF ref.cesu8_crate_axioms enc(2), unfolded enc(1) len, of 10, OF _ _ _ _ h [unfolded len]])
      (simp_all add: lob_ready_def idle_served_core default_lob_read_length_def sample_cesu8_def)
  then show ?thesis using h by blast
qed

end
