(* ===== verification/Hdb_Lob_Streams.thy ===== *)
theory Hdb_Lob_Streams
  imports Hdb_Nclob_Server Hdb_Lob_Writer_Server
begin

text \<open>
  Character LOBs as streams (the implementations of \<^verbatim>\<open>Read\<close> in types\_impl/lob/clob.rs): what a client gets
  that reads with one buffer after the other, and how large the buffer of the handle grows meanwhile.
\<close>

section \<open>One read\<close>

text \<open>The bytes in the buffer of a handle are a beginning of what was not yet read.\<close>

lemma drop_take_join:
  assumes "m \<le> d" "d \<le> i"
  shows "drop m (take d xs) @ drop d (take i xs) = take (i - m) (drop m xs)"
proof -
  have "i - m = (d - m) + (i - d)" using assms by simp
  then show ?thesis using assms by (simp only: take_add) (simp add: drop_take)
qed

context cesu8_crate
begin

lemma to_cesu8_longer: "valid_utf8 s \<Longrightarrow> length s \<le> length (to_cesu8 c8 s)"
  using cesu8_length_eq [of s] by (simp add: cesu8_length_def)

lemma to_cesu8_inj: "valid_utf8 s \<Longrightarrow> valid_utf8 t \<Longrightarrow> to_cesu8 c8 s = to_cesu8 c8 t \<Longrightarrow> s = t"
  using from_to_cesu8 by (metis option.inject)

lemma split_text:
  assumes "valid_utf8 txt" "to_cesu8 c8 txt = concat ds" "list_all cesu_char ds" "j \<le> length ds"
  obtains t r where "txt = t @ r" "valid_utf8 t" "valid_utf8 r" "to_cesu8 c8 t = concat (take j ds)"
    "to_cesu8 c8 r = concat (drop j ds)"
proof -
  have "list_all cesu_char (take j ds)" "list_all cesu_char (drop j ds)"
    using assms(3) by (auto simp: list_all_iff dest: in_set_takeD in_set_dropD)
  then obtain t r where tr: "valid_utf8 t" "to_cesu8 c8 t = concat (take j ds)" "valid_utf8 r"
    "to_cesu8 c8 r = concat (drop j ds)" using to_cesu8_surj by metis
  have "to_cesu8 c8 (t @ r) = concat ds"
    using tr to_cesu8_valid_append [OF cesu8_crate_axioms tr(1,3)]
    by (metis append_take_drop_id concat_append)
  then have "txt = t @ r"
    using to_cesu8_inj assms(1,2) tr(1,3) valid_utf8_append by metis
  then show ?thesis using that tr by blast
qed

text \<open>With a buffer of at least two bytes, \<^verbatim>\<open>read\<close> takes whole characters off the remaining text.\<close>

lemma read_chars_text:
  assumes utf8: "valid_utf8 txt" and i: "i \<le> length (to_cesu8 c8 txt)" and n: "2 \<le> n"
    and lead: "i = 1 \<Longrightarrow> length (to_cesu8 c8 txt) = 1"
  obtains t r j where "read_chars c8 n (take i (to_cesu8 c8 txt)) = (Ok t, take j (to_cesu8 c8 r))"
    "txt = t @ r" "valid_utf8 t" "valid_utf8 r" "length (to_cesu8 c8 t) \<le> n" "j \<le> length (to_cesu8 c8 r)"
    "i = length (to_cesu8 c8 t) + j"
    "min n i < 6 + length (to_cesu8 c8 t)"
    "6 \<le> n \<Longrightarrow> i = length (to_cesu8 c8 txt) \<Longrightarrow> txt \<noteq> [] \<Longrightarrow> t \<noteq> []"
proof -
  obtain ds where ds: "list_all cesu_char ds" "to_cesu8 c8 txt = concat ds" using to_cesu8_chars [OF utf8] by blast
  let ?d = "min n i"
  let ?buf = "take ?d (concat ds)"
  have d: "?d \<le> length (concat ds)" using i ds(2) by simp
  have "\<not> (?d = 1 \<and> 2 < length (hd ds))"
  proof
    assume a: "?d = 1 \<and> 2 < length (hd ds)"
    then have "i = 1" using n by (simp add: min_def split: if_splits)
    then have "length (concat ds) = 1" using lead ds(2) by simp
    then show False using a by (cases ds) auto
  qed
  from cut_position [OF ds(1) d this] obtain k j where k: "get_cesu8_tail_len ?buf ?d = Ok k" "k \<le> ?d" "k < 6"
    "j \<le> length ds" "take (?d - k) (concat ds) = concat (take j ds)" "j < length ds \<longrightarrow> k < length (ds ! j)"
    by blast
  obtain t r where t: "txt = t @ r" "valid_utf8 t" "valid_utf8 r" "to_cesu8 c8 t = concat (take j ds)"
    "to_cesu8 c8 r = concat (drop j ds)" using split_text [OF utf8 ds(2,1) k(4)] by blast
  have ct: "concat ds = to_cesu8 c8 t @ to_cesu8 c8 r"
    using t(4,5) by (metis append_take_drop_id concat_append)
  have tl: "length (to_cesu8 c8 t) = ?d - k"
    using k(5) t(4) d by (metis diff_le_self length_take min.absorb2 order_trans)
  have buf: "length (take i (concat ds)) = i" "take ?d (take i (concat ds)) = ?buf" "length ?buf = ?d"
    using i ds(2) by (simp_all add: min_def)
  have cut: "take (?d - k) ?buf = to_cesu8 c8 t" using k(5) t(4) by (simp add: min_absorb1 [OF diff_le_self])
  have rest: "drop (?d - k) ?buf @ drop ?d (take i (concat ds)) = take (i - (?d - k)) (to_cesu8 c8 r)"
  proof -
    have "drop (?d - k) (concat ds) = to_cesu8 c8 r" using ct tl by simp
    moreover have "drop (?d - k) ?buf @ drop ?d (take i (concat ds)) = take (i - (?d - k)) (drop (?d - k) (concat ds))"
      by (rule drop_take_join) auto
    ultimately show ?thesis by simp
  qed
  have res: "read_chars c8 n (take i (to_cesu8 c8 txt)) = (Ok t, take (i - (?d - k)) (to_cesu8 c8 r))"
    using to_cesu8_longer [OF t(2)] tl
    unfolding read_chars_def Let_def ds(2) buf k(1) res.case cut from_to_cesu8 [OF t(2)] rest by simp
  show ?thesis
  proof (rule that [OF res t(1-3)])
    show "length (to_cesu8 c8 t) \<le> n" using tl by simp
    show "i - (?d - k) \<le> length (to_cesu8 c8 r)" using i ds(2) ct tl by simp
    show "i = length (to_cesu8 c8 t) + (i - (?d - k))" using tl by simp
    show "?d < 6 + length (to_cesu8 c8 t)" using tl k(2,3) by simp
    show "t \<noteq> []" if "6 \<le> n" "i = length (to_cesu8 c8 txt)" "txt \<noteq> []"
    proof
      assume "t = []"
      then have "?d = k" using tl k(2) by (simp add: to_cesu8_Nil)
      then have "i = k" using k(3) that(1) by (simp add: min_def split: if_splits)
      moreover have "ds \<noteq> []" using that(3) ds(2) utf8 to_cesu8_longer [of "txt"] by auto
      moreover have "j = 0" using t(4) \<open>t = []\<close> ds(1) k(4) \<open>ds \<noteq> []\<close>
        by (cases j; cases ds) (auto simp: to_cesu8_Nil dest: cesu_char_nonempty)
      ultimately show False using k(6) that(2) ds(2) by (cases ds) auto
    qed
  qed
qed

end

section \<open>Reading with one buffer after the other\<close>

fun clob_reads ::
    "cesu8_lib \<Rightarrow> 's lob_source \<Rightarrow> nat list \<Rightarrow> clob_handle \<times> 's \<Rightarrow> ((bytes list, ioerr) res \<times> clob_handle \<times> 's) option" where
  "clob_reads c8 src [] x = Some (Ok [], x)"
| "clob_reads c8 src (n # ns) x =
     (case clob_read c8 src n x of
        None \<Rightarrow> None
      | Some (Ok bs, x') \<Rightarrow> map_option (\<lambda>(r, x''). (res_map ((#) bs) r, x'')) (clob_reads c8 src ns x')
      | Some (Err e, x') \<Rightarrow> Some (Err e, x')
      | Some (Panic, x') \<Rightarrow> Some (Panic, x'))"

context lob_server
begin

text \<open>\<open>txt\<close> is still to be read, chunks have at most \<open>L\<close> bytes and the buffer never had more than \<open>B\<close>.\<close>

definition clob_stream :: "cesu8_lib \<Rightarrow> rstring \<Rightarrow> nat \<Rightarrow> nat \<Rightarrow> clob_handle \<times> 's \<Rightarrow> bool" where
  "clob_stream c8 txt L B x \<longleftrightarrow> valid_utf8 txt \<and> unat (ls_read_length src (snd x)) = L \<and>
     cl_max_buf_len (fst x) \<le> B \<and>
     (\<exists>p. clob_ready p x \<and> drop p content = to_cesu8 c8 txt)"

lemma clob_fill_while:
  assumes c8: "cesu8_crate c8" and len: "length content + 16 < 2 ^ 31" and bound: "n + 4 + L \<le> B"
    and p: "drop p content = to_cesu8 c8 txt" "valid_utf8 txt"
    and x: "clob_ready p x" "unat (ls_read_length src (snd x)) = L" "cl_max_buf_len (fst x) \<le> B"
  obtains h s where "st_while (\<lambda>(h, s). clob_wants n h) (clob_fill src) x = Some (Ok (), (h, s))"
    "clob_ready p (h, s)" "unat (ls_read_length src s) = L" "cl_max_buf_len h \<le> B" "\<not> clob_wants n h"
proof -
  obtain cs where cs: "list_all cesu_char cs" "drop p content = concat cs"
    using cesu8_crate.to_cesu8_chars [OF c8 p(2)] p(1) by auto
  let ?I = "\<lambda>x. clob_ready p x \<and> unat (ls_read_length src (snd x)) = L \<and> cl_max_buf_len (fst x) \<le> B"
  have "\<exists>x'. st_while (\<lambda>(h, s). clob_wants n h) (clob_fill src) x = Some (Ok (), x') \<and> ?I x' \<and>
    \<not> (case x' of (h, s) \<Rightarrow> clob_wants n h)"
  proof (rule st_while_total [where I = ?I and f = "\<lambda>x. length content - cl_acc_byte_length (fst x)"])
    fix y assume y: "?I y" and "case y of (h, s) \<Rightarrow> clob_wants n h"
    then obtain h s where hs: "y = (h, s)" "clob_wants n h" by (cases y) auto
    then have inc: "\<not> cl_complete h" and at: "clob_at p h" using y by (auto simp: clob_wants_def clob_ready_def)
    then have tail: "cl_cesu8_tail_len h \<le> length (cl_cesu8 h)" "cl_cesu8_tail_len h < 6" by (auto simp: clob_at_def)
    then have "length (cl_cesu8 h) \<le> n + 4" using hs(2) by (auto simp: clob_wants_def)
    moreover obtain x' where "clob_fetch_next_chunk src y = (Ok (), x')" "clob_ready p x'"
      "ls_read_length src (snd x') = ls_read_length src s"
      "cl_max_buf_len (fst x') \<le> max (cl_max_buf_len h) (length (cl_cesu8 h) + unat (ls_read_length src s))"
      "length content - cl_acc_byte_length (fst x') < length content - cl_acc_byte_length h"
      using clob_step [OF len cs, of y] y inc hs(1) by auto
    ultimately show "\<exists>x'. clob_fill src y = (Ok (), x') \<and> ?I x' \<and>
        length content - cl_acc_byte_length (fst x') < length content - cl_acc_byte_length (fst y)"
      using tail y bound by (auto simp: clob_fill_def hs(1))
  qed (use x in simp)
  then show ?thesis using that by auto
qed

lemma clob_read_stream:
  assumes c8: "cesu8_crate c8" and len: "length content + 16 < 2 ^ 31" and n: "2 \<le> n" "n + 4 + L \<le> B"
    and x: "clob_stream c8 txt L B x"
  obtains t r x' where "clob_read c8 src n x = Some (Ok t, x')" "txt = t @ r" "valid_utf8 t" "length t \<le> n"
    "6 \<le> n \<Longrightarrow> txt \<noteq> [] \<Longrightarrow> t \<noteq> []" "clob_stream c8 r L B x'"
proof -
  obtain p where p: "clob_ready p x" "drop p content = to_cesu8 c8 txt" "valid_utf8 txt"
    using x by (auto simp: clob_stream_def)
  from clob_fill_while [OF c8 len n(2) p(2,3,1)] x
  obtain h s where w: "st_while (\<lambda>(h, s). clob_wants n h) (clob_fill src) x = Some (Ok (), (h, s))"
    and r: "clob_ready p (h, s)" and s: "unat (ls_read_length src s) = L" "cl_max_buf_len h \<le> B"
    and stop: "\<not> clob_wants n h" by (auto simp: clob_stream_def)
  have at: "clob_at p h" using r by (simp add: clob_ready_def)
  let ?i = "cl_acc_byte_length h - p"
  have buf: "cl_cesu8 h = take ?i (to_cesu8 c8 txt)" using at p(2) by (simp add: clob_at_def drop_take)
  have i: "?i \<le> length (to_cesu8 c8 txt)" "length (cl_cesu8 h) = ?i"
    using at p(2) [THEN arg_cong, of length] by (auto simp: clob_at_def)
  have full: "cl_complete h \<Longrightarrow> ?i = length (to_cesu8 c8 txt)"
    using at p(2) [THEN arg_cong, of length] by (auto simp: clob_at_def)
  have part: "\<not> cl_complete h \<Longrightarrow> n \<le> ?i - cl_cesu8_tail_len h \<and> cl_cesu8_tail_len h \<le> ?i"
    using stop i(2) by (auto simp: clob_wants_def)
  have "length (to_cesu8 c8 txt) = 1" if "?i = 1" using that full part n(1) by (cases "cl_complete h") auto
  from cesu8_crate.read_chars_text [OF c8 p(3) i(1) n(1) this] obtain t r j where
    t: "read_chars c8 n (take ?i (to_cesu8 c8 txt)) = (Ok t, take j (to_cesu8 c8 r))"
    "txt = t @ r" "valid_utf8 t" "valid_utf8 r" "length (to_cesu8 c8 t) \<le> n" "j \<le> length (to_cesu8 c8 r)"
    "?i = length (to_cesu8 c8 t) + j" "min n ?i < 6 + length (to_cesu8 c8 t)"
    "6 \<le> n \<Longrightarrow> ?i = length (to_cesu8 c8 txt) \<Longrightarrow> txt \<noteq> [] \<Longrightarrow> t \<noteq> []" by metis
  let ?h = "h\<lparr>cl_cesu8 := take j (to_cesu8 c8 r)\<rparr>" and ?p = "p + length (to_cesu8 c8 t)"
  have read: "clob_read c8 src n x = Some (Ok t, (?h, s))" using w t(1) by (simp add: clob_read_def buf)
  have "drop p content = to_cesu8 c8 t @ to_cesu8 c8 r"
    using p(2) t(2) to_cesu8_valid_append [OF c8 t(3,4)] by simp
  then have rest: "drop ?p content = to_cesu8 c8 r"
    by (metis add.commute append_eq_conv_conj drop_drop)
  then have "take j (to_cesu8 c8 r) = drop ?p (take (cl_acc_byte_length h) content)"
    using t(7) by (simp add: drop_take diff_diff_left [symmetric])
  moreover have "cl_complete h \<or> cl_cesu8_tail_len h \<le> j" using part t(5,7) by (cases "cl_complete h") auto
  moreover have "?p \<le> cl_acc_byte_length h" "j = cl_acc_byte_length h - ?p" using t(7) at by (auto simp: clob_at_def)
  ultimately have "clob_at ?p ?h" using at t(6) by (auto simp: clob_at_def)
  then have "clob_ready ?p (?h, s)" using r by (auto simp: clob_ready_def)
  then have stream: "clob_stream c8 r L B (?h, s)" using s t(4) rest by (auto simp: clob_stream_def)
  show ?thesis
  proof (rule that [OF read t(2,3) _ _ stream])
    show "length t \<le> n" using cesu8_crate.to_cesu8_longer [OF c8 t(3)] t(5) by simp
    show "t \<noteq> []" if "6 \<le> n" "txt \<noteq> []"
      using that t(8,9) full part cesu8_crate.to_cesu8_Nil [OF c8] by (cases "cl_complete h") auto
  qed
qed

lemma clob_reads_text:
  assumes c8: "cesu8_crate c8" and len: "length content + 16 < 2 ^ 31"
  shows "clob_stream c8 str L B x \<Longrightarrow> \<forall>n \<in> set ns. 6 \<le> n \<and> n + 4 + L \<le> B \<Longrightarrow>
    \<exists>bss x' r. clob_reads c8 src ns x = Some (Ok bss, x') \<and> str = concat bss @ r \<and> clob_stream c8 r L B x' \<and>
      list_all2 (\<lambda>n bs. length bs \<le> n \<and> valid_utf8 bs) ns bss \<and> (r \<noteq> [] \<longrightarrow> length ns \<le> length (concat bss))"
proof (induction ns arbitrary: str x)
  case (Cons n ns)
  have n: "2 \<le> n" "n + 4 + L \<le> B" "6 \<le> n" using Cons.prems(2) by auto
  from clob_read_stream [OF c8 len n(1,2) Cons.prems(1)] n(3)
  obtain t r x1 where t: "clob_read c8 src n x = Some (Ok t, x1)" "str = t @ r" "valid_utf8 t" "length t \<le> n"
    "str \<noteq> [] \<Longrightarrow> t \<noteq> []" "clob_stream c8 r L B x1" by metis
  from Cons.IH [OF t(6)] Cons.prems(2) obtain bss x2 r2 where b: "clob_reads c8 src ns x1 = Some (Ok bss, x2)"
    "r = concat bss @ r2" "clob_stream c8 r2 L B x2" "list_all2 (\<lambda>n bs. length bs \<le> n \<and> valid_utf8 bs) ns bss"
    "r2 \<noteq> [] \<longrightarrow> length ns \<le> length (concat bss)" by auto
  have "r2 \<noteq> [] \<Longrightarrow> 0 < length t" using t(2,5) b(2) by auto
  then show ?case using t b by (intro exI [of _ "t # bss"] exI [of _ x2] exI [of _ r2]) (cases t; auto)
qed auto

end

section \<open>Properties\<close>

text \<open>A new handle as the start of a stream.\<close>

lemma clob_handle_stream:
  assumes "cesu8_crate c8" "valid_utf8 txt" "length (to_cesu8 c8 txt) + 16 < 2 ^ 31"
    and "lob_ready (to_cesu8 c8 txt) n cc" "length (to_cesu8 c8 txt) \<le> n + k" "k \<le> length (to_cesu8 c8 txt)"
    and "clob_handle_new rs (k = length (to_cesu8 c8 txt)) chars (word_of_nat (length (to_cesu8 c8 txt))) locator
      (take k (to_cesu8 c8 txt)) = Ok h" and "k \<le> B"
  shows "lob_wire.clob_stream dr (to_cesu8 c8 txt) locator c8 txt (unat (cc_lob_read_length cc)) B (h, cc)"
proof -
  have "cl_max_buf_len h = k"
    using assms(6,7) by (auto simp: clob_handle_new_def res_bind_Ok_iff res_simps split: res.splits)
  then show ?thesis
    using clob_handle_ready [OF assms(1-7)] assms(2,8) unfolding lob_wire.clob_stream_def
    by (auto simp: conn_source_def intro!: exI [of _ 0])
qed

text \<open>C12: Reading a character LOB with buffers of at least six bytes, one read after the other, delivers the text in
  order as valid UTF-8, never cutting a character and never more than the buffer holds; no read comes back
  empty before the end, so that as many reads as the text has bytes deliver all of it.\<close>

theorem clob_reads_stream:
  assumes "cesu8_crate c8" "valid_utf8 txt" "length (to_cesu8 c8 txt) + 16 < 2 ^ 31"
    and "lob_ready (to_cesu8 c8 txt) n cc" "length (to_cesu8 c8 txt) \<le> n + k" "k \<le> length (to_cesu8 c8 txt)"
    and "clob_handle_new rs (k = length (to_cesu8 c8 txt)) chars (word_of_nat (length (to_cesu8 c8 txt))) locator
      (take k (to_cesu8 c8 txt)) = Ok h"
    and "\<forall>n \<in> set ns. 6 \<le> n"
  shows "\<exists>bss x' r. clob_reads c8 (conn_source (serving_driver dr lob_answer)) ns (h, cc) = Some (Ok bss, x')
    \<and> txt = concat bss @ r \<and> list_all2 (\<lambda>n bs. length bs \<le> n \<and> valid_utf8 bs) ns bss
    \<and> (length txt \<le> length ns \<longrightarrow> r = [])"
proof -
  let ?L = "unat (cc_lob_read_length cc)"
  let ?B = "k + sum_list ns + 4 + ?L"
  have stream: "lob_wire.clob_stream dr (to_cesu8 c8 txt) locator c8 txt ?L ?B (h, cc)"
    by (rule clob_handle_stream [OF assms(1-7)]) simp
  have "n \<le> sum_list ns" if "n \<in> set ns" for n using that by (simp add: member_le_sum_list)
  then have "\<forall>n \<in> set ns. 6 \<le> n \<and> n + 4 + ?L \<le> ?B" using assms(8) by (simp add: trans_le_add2)
  from lob_wire.clob_reads_text [OF assms(1,3) stream this] obtain bss x' r where
    "clob_reads c8 (conn_source (serving_driver dr lob_answer)) ns (h, cc) = Some (Ok bss, x')"
    "txt = concat bss @ r" "list_all2 (\<lambda>n bs. length bs \<le> n \<and> valid_utf8 bs) ns bss"
    "r \<noteq> [] \<longrightarrow> length ns \<le> length (concat bss)" by blast
  moreover from this have "length txt \<le> length ns \<longrightarrow> r = []" by (cases r) auto
  ultimately show ?thesis by blast
qed

lemma sample_stream:
  obtains h where "clob_handle_new (Some 7) (6 = length sample_cesu8) 4 (word_of_nat (length sample_cesu8)) 9
      (take 6 sample_cesu8) = Ok h"
    "to_cesu8 ref_cesu8 sample_text = sample_cesu8" "valid_utf8 sample_text"
    "lob_ready sample_cesu8 10 (served_core sample_cesu8)"
proof -
  have "is_ok (clob_handle_new (Some 7) (6 = length sample_cesu8) 4 (word_of_nat (length sample_cesu8)) 9 (take 6 sample_cesu8))"
    by code_simp
  moreover have "to_cesu8 ref_cesu8 sample_text = sample_cesu8" "valid_utf8 sample_text" by code_simp+
  moreover have "lob_ready sample_cesu8 10 (served_core sample_cesu8)"
    by (simp add: lob_ready_def idle_served_core default_lob_read_length_def)
  ultimately show ?thesis using that by (auto elim: is_okE)
qed

theorem clob_reads_stream_witness:
  "\<exists>h bss x' r. clob_handle_new (Some 7) (6 = length sample_cesu8) 4 (word_of_nat (length sample_cesu8)) 9
      (take 6 sample_cesu8) = Ok h
    \<and> clob_reads ref_cesu8 (conn_source (serving_driver sample_driver lob_answer)) [6, 7] (h, served_core sample_cesu8)
      = Some (Ok bss, x')
    \<and> sample_text = concat bss @ r \<and> list_all2 (\<lambda>n bs. length bs \<le> n \<and> valid_utf8 bs) [6, 7] bss"
proof -
  obtain h where h: "clob_handle_new (Some 7) (6 = length sample_cesu8) 4 (word_of_nat (length sample_cesu8)) 9
      (take 6 sample_cesu8) = Ok h" "to_cesu8 ref_cesu8 sample_text = sample_cesu8" "valid_utf8 sample_text"
    "lob_ready sample_cesu8 10 (served_core sample_cesu8)" by (rule sample_stream)
  have "\<exists>bss x' r. clob_reads ref_cesu8 (conn_source (serving_driver sample_driver lob_answer)) [6, 7] (h, served_core sample_cesu8)
      = Some (Ok bss, x') \<and> sample_text = concat bss @ r
    \<and> list_all2 (\<lambda>n bs. length bs \<le> n \<and> valid_utf8 bs) [6, 7] bss \<and> (length sample_text \<le> length [6, 7 :: nat] \<longrightarrow> r = [])"
    by (rule clob_reads_stream [OF ref.cesu8_crate_axioms h(3), unfolded h(2), OF _ h(4) _ _ h(1)])
      (simp_all add: sample_cesu8_def)
  then show ?thesis using h(1) by blast
qed

text \<open>C26: While a character LOB is streamed with buffers of six to \<open>N\<close> bytes, the buffer of the handle never holds
  more than the larger of two numbers: the bytes \<open>k\<close> that were sent with the row, and the configured
  chunk size plus \<open>N\<close> plus four.\<close>

theorem clob_buffer_bounded:
  assumes "cesu8_crate c8" "valid_utf8 txt" "length (to_cesu8 c8 txt) + 16 < 2 ^ 31"
    and "lob_ready (to_cesu8 c8 txt) n cc" "length (to_cesu8 c8 txt) \<le> n + k" "k \<le> length (to_cesu8 c8 txt)"
    and "clob_handle_new rs (k = length (to_cesu8 c8 txt)) chars (word_of_nat (length (to_cesu8 c8 txt))) locator
      (take k (to_cesu8 c8 txt)) = Ok h"
    and "\<forall>n \<in> set ns. 6 \<le> n \<and> n \<le> N"
  shows "\<exists>bss h' cc'. clob_reads c8 (conn_source (serving_driver dr lob_answer)) ns (h, cc) = Some (Ok bss, (h', cc'))
    \<and> cl_max_buf_len h' \<le> max k (N + 4 + unat (cc_lob_read_length cc))"
proof -
  let ?L = "unat (cc_lob_read_length cc)"
  have stream: "lob_wire.clob_stream dr (to_cesu8 c8 txt) locator c8 txt ?L (max k (N + 4 + ?L)) (h, cc)"
    by (rule clob_handle_stream [OF assms(1-7)]) simp
  have "\<forall>n \<in> set ns. 6 \<le> n \<and> n + 4 + ?L \<le> max k (N + 4 + ?L)"
    using assms(8) by (simp add: le_max_iff_disj)
  from lob_wire.clob_reads_text [OF assms(1,3) stream this] obtain bss x' r where
    "clob_reads c8 (conn_source (serving_driver dr lob_answer)) ns (h, cc) = Some (Ok bss, x')"
    "lob_wire.clob_stream dr (to_cesu8 c8 txt) locator c8 r ?L (max k (N + 4 + ?L)) x'" by blast
  then show ?thesis by (cases x') (auto simp: lob_wire.clob_stream_def)
qed

theorem clob_buffer_bounded_witness:
  "\<exists>h bss h' cc'. clob_handle_new (Some 7) (6 = length sample_cesu8) 4 (word_of_nat (length sample_cesu8)) 9
      (take 6 sample_cesu8) = Ok h
    \<and> clob_reads ref_cesu8 (conn_source (serving_driver sample_driver lob_answer)) [6, 7] (h, served_core sample_cesu8)
      = Some (Ok bss, (h', cc'))
    \<and> cl_max_buf_len h' \<le> max 6 (7 + 4 + unat (cc_lob_read_length (served_core sample_cesu8)))"
proof -
  obtain h where h: "clob_handle_new (Some 7) (6 = length sample_cesu8) 4 (word_of_nat (length sample_cesu8)) 9
      (take 6 sample_cesu8) = Ok h" "to_cesu8 ref_cesu8 sample_text = sample_cesu8" "valid_utf8 sample_text"
    "lob_ready sample_cesu8 10 (served_core sample_cesu8)" by (rule sample_stream)
  have "\<exists>bss h' cc'. clob_reads ref_cesu8 (conn_source (serving_driver sample_driver lob_answer)) [6, 7]
      (h, served_core sample_cesu8) = Some (Ok bss, (h', cc'))
    \<and> cl_max_buf_len h' \<le> max 6 (7 + 4 + unat (cc_lob_read_length (served_core sample_cesu8)))"
    by (rule clob_buffer_bounded [OF ref.cesu8_crate_axioms h(3), unfolded h(2), OF _ h(4) _ _ h(1)])
      (simp_all add: sample_cesu8_def)
  then show ?thesis using h(1) by blast
qed

text \<open>The documentation of \<^verbatim>\<open>max_buf_len\<close> leaves out the four bytes. They are reached: with chunks of two bytes
  and a buffer of six, a surrogate pair after five letters lets the buffer grow to twelve.\<close>

definition letters_and_smileys :: bytes where
  "letters_and_smileys = [0x61, 0x62, 0x63, 0x64, 0x65, 0xED, 0xA0, 0xBD, 0xED, 0xB8, 0x80, 0x66, 0x67]"

definition plain_source :: "bytes \<Rightarrow> u32 \<Rightarrow> unit lob_source" where
  "plain_source content chunk = \<lparr>ls_fetch = \<lambda>_ i l (s, u).
     (Ok (take (unat l) (drop i content), length content \<le> i + unat l), (s, u)), ls_read_length = \<lambda>_. chunk\<rparr>"

lemma clob_buffer_exceeds_documentation:
  "res_map (\<lambda>h. map_option (\<lambda>(r, (h', _)). (r, cl_max_buf_len h'))
       (clob_reads ref_cesu8 (plain_source letters_and_smileys 2) [6] (h, ())))
     (clob_handle_new None False 13 13 9 []) = Ok (Some (Ok [[0x61, 0x62, 0x63, 0x64, 0x65]], 12))"
  by code_simp

end
