(* ===== verification/Hdb_Text_Slices.thy ===== *)
theory Hdb_Text_Slices
  imports Hdb_Cesu8
begin

text \<open>
  Slices of a CESU-8 text (\<^verbatim>\<open>split_off_orphaned_bytes\<close> and \<^verbatim>\<open>split_off_orphaned_surrogates\<close> of
  protocol/util.rs): a slice may begin and end within a character, whose bytes are then handed out beside
  the text.
\<close>

section \<open>Where the text of a slice begins\<close>

lemma find_split_step:
  "i < length w \<Longrightarrow> find_split w i (Suc n) =
     (case type_at w i of
        CT_SecondHalfOfSurrogate \<Rightarrow> Ok (i + 3)
      | CT_NotAStart \<Rightarrow> find_split w (i + 1) n
      | _ \<Rightarrow> Ok i)"
  by (cases "type_at w i") (simp_all add: char_type_at_eq)

lemma find_split_skip:
  assumes "list_all is_cont xs" "2 \<le> length r"
  shows "find_split (pre @ xs @ r) (length pre) (length xs + n) = find_split (pre @ xs @ r) (length pre + length xs) n"
  using assms(1)
proof (induction xs arbitrary: pre)
  case (Cons x xs)
  have "type_at (pre @ (x # xs) @ r) (length pre) = CT_NotAStart"
    using Cons.prems assms(2) by (auto simp: type_at_def nth_append type_of_pair_cont)
  then have "find_split (pre @ (x # xs) @ r) (length pre) (Suc (length xs + n)) =
      find_split ((pre @ [x]) @ xs @ r) (length (pre @ [x])) (length xs + n)"
    by (subst find_split_step) simp_all
  also have "\<dots> = find_split ((pre @ [x]) @ xs @ r) (length (pre @ [x]) + length xs) n"
    by (rule Cons.IH) (use Cons.prems in simp)
  finally show ?case by simp
qed simp

text \<open>The first two bytes of whole characters show a start.\<close>

lemma type_of_start:
  assumes "list_all cesu_char ds" "2 \<le> length (concat ds)"
  shows "type_of_pair (concat ds ! 0) (concat ds ! 1) \<in> {CT_One, CT_Two, CT_Three, CT_FirstHalfOfSurrogate}"
proof -
  obtain d es where ds: "ds = d # es" using assms(2) by (cases ds) auto
  then have "cesu_char d" using assms(1) by simp
  then show ?thesis
    by (cases rule: cesu_char_cases)
      (auto simp: ds type_of_pair_one type_of_pair_two type_of_pair_three type_of_pair_hi dest: surrogate_conts)
qed

lemma find_split_start:
  assumes "list_all cesu_char ds" "2 \<le> m" "m \<le> length (concat ds)" "list_all is_cont xs" "0 < n"
  shows "find_split (xs @ take m (concat ds)) 0 (length xs + n) = Ok (length xs)"
proof -
  let ?r = "take m (concat ds)"
  obtain k where k: "n = Suc k" using assms(5) by (cases n) auto
  have two: "2 \<le> length ?r" using assms(2,3) by simp
  have "type_at (xs @ ?r) (length xs) = type_of_pair (concat ds ! 0) (concat ds ! 1)"
    using assms(2,3) by (simp add: type_at_def nth_append)
  then have "find_split (xs @ ?r) (length xs) (Suc k) = Ok (length xs)"
    using type_of_start [OF assms(1)] assms(2,3) by (subst find_split_step) auto
  then show ?thesis using find_split_skip [OF assms(4) two, of "[]" "Suc k"] k by simp
qed

lemma cont_tail: "cesu_char d \<Longrightarrow> length d \<le> 3 \<Longrightarrow> 0 < j \<Longrightarrow> list_all is_cont (drop j d)"
  by (cases rule: cesu_char_cases) (auto dest: surrogate_conts simp: drop_Cons split: nat.split)

lemma find_split_surrogate:
  assumes "list_all is_cont xs" "lo_surrogate x y z" "0 < n"
  shows "find_split (xs @ [x, y, z] @ r) 0 (length xs + n) = Ok (length xs + 3)"
proof -
  obtain k where k: "n = Suc k" using assms(3) by (cases n) auto
  have "type_at (xs @ [x, y, z] @ r) (length xs) = CT_SecondHalfOfSurrogate"
    using assms(2) by (simp add: type_at_def nth_append type_of_pair_lo)
  then have "find_split (xs @ [x, y, z] @ r) (length xs) (Suc k) = Ok (length xs + 3)"
    by (subst find_split_step) simp_all
  then show ?thesis using find_split_skip [OF assms(1), of "[x, y, z] @ r" "[]" "Suc k"] k by simp
qed

lemma cesu_char_long:
  assumes "cesu_char d" "\<not> length d \<le> 3"
  obtains a b c x y z where "d = [a, b, c, x, y, z]" "hi_surrogate a b c" "lo_surrogate x y z"
  using assms by (cases d rule: cesu_char_cases) auto

text \<open>A window begins with what remains of a character.\<close>

lemma find_split_window:
  assumes d: "cesu_char d" and j: "0 < j" "j < length d" and ds: "list_all cesu_char ds" "2 \<le> m" "m \<le> length (concat ds)"
  shows "find_split (drop j d @ take m (concat ds)) 0 (length (drop j d @ take m (concat ds))) = Ok (length (drop j d))"
proof (cases "length d \<le> 3")
  case True
  from find_split_start [OF ds cont_tail [OF d True j(1)], of m] show ?thesis using ds(2,3) by simp
next
  case False
  then obtain a b c x y z where d: "d = [a, b, c, x, y, z]" "hi_surrogate a b c" "lo_surrogate x y z"
    using cesu_char_long [OF d] by blast
  note conts = surrogate_conts(1) [OF d(2)] surrogate_conts(2) [OF d(3)]
  show ?thesis
  proof (cases "j \<le> 3")
    case True
    then have xs: "drop j d = drop j [a, b, c] @ [x, y, z]" "list_all is_cont (drop j [a, b, c])"
      using j d(1) conts by (auto simp: drop_Cons split: nat.split)
    moreover have "length (drop j d @ take m (concat ds)) = length (drop j [a, b, c]) + (3 + m)"
      "length (drop j d) = length (drop j [a, b, c]) + 3" using xs(1) ds(3) by simp_all
    ultimately show ?thesis
      using find_split_surrogate [OF xs(2) d(3), of "3 + m" "take m (concat ds)"] by (simp only: append_assoc)
  next
    case False
    then have "list_all is_cont (drop j d)" using j d(1) conts by (auto simp: drop_Cons split: nat.split)
    from find_split_start [OF ds this, of m] show ?thesis using ds(2,3) by simp
  qed
qed

lemma find_split_whole:
  assumes "list_all cesu_char ds" "2 \<le> m" "m \<le> length (concat ds)"
  shows "find_split (take m (concat ds)) 0 (length (take m (concat ds))) = Ok 0"
  using find_split_start [OF assms, of "[]" m] assms(2,3) by simp

section \<open>The parts of a slice\<close>

definition slice_bytes :: "cesu8_lib \<Rightarrow> char_lob_slice \<Rightarrow> bytes" where
  "slice_bytes c8 s = case_option [] id (cls_prefix s) @ to_cesu8 c8 (cls_data s) @ case_option [] id (cls_postfix s)"

definition orphan :: "bytes option \<Rightarrow> bool" where
  "orphan o_bs \<longleftrightarrow> (case o_bs of Some bs \<Rightarrow> 0 < length bs \<and> length bs < 6 | None \<Rightarrow> True)"

context cesu8_crate
begin

lemma split_rest:
  assumes ds: "list_all cesu_char ds" "2 \<le> m" "m \<le> length (concat ds)"
  shows "\<exists>data postfix. cesu8_to_string_and_tail c8 (take m (concat ds)) = Ok (data, postfix) \<and> valid_utf8 data
    \<and> to_cesu8 c8 data @ postfix = take m (concat ds) \<and> length postfix < 6"
proof -
  have "\<not> (m = 1 \<and> 2 < length (hd ds))" using ds(2) by simp
  from cut_position [OF ds(1,3) this] obtain k n where k: "get_cesu8_tail_len (take m (concat ds)) m = Ok k" "k \<le> m" "k < 6"
    "take (m - k) (concat ds) = concat (take n ds)" by blast
  have "list_all cesu_char (take n ds)" using ds(1) by (auto simp: list_all_iff dest: in_set_takeD)
  from hdb_string_chars [OF this] obtain s where s: "hdb_string c8 (concat (take n ds)) = Ok s" "valid_utf8 s"
    "to_cesu8 c8 s = concat (take n ds)" by blast
  have cut: "take (m - k) (take m (concat ds)) = concat (take n ds)" using k(4) by (simp add: min_def)
  have decoded: "hdb_string c8 (take (m - k) (concat ds)) = Ok s" using s(1) k(4) by simp
  have len: "length (take m (concat ds)) = m" using ds(3) by simp
  have "cesu8_to_string_and_tail c8 (take m (concat ds)) = Ok (s, drop (m - k) (take m (concat ds)))"
    unfolding cesu8_to_string_and_tail_def len k(1) by (simp add: decoded)
  moreover have "to_cesu8 c8 s @ drop (m - k) (take m (concat ds)) = take m (concat ds)"
    unfolding s(3) cut [symmetric] by (rule append_take_drop_id)
  ultimately show ?thesis using s(2) k(2,3) len by fastforce
qed

lemma split_parts:
  assumes "find_split (pre @ r) 0 (length (pre @ r)) = Ok (length pre)" "length pre < 6"
    and "cesu8_to_string_and_tail c8 r = Ok (data, postfix)" "valid_utf8 data" "to_cesu8 c8 data @ postfix = r"
      "length postfix < 6"
  shows "\<exists>sl. split_off_orphaned_bytes c8 (pre @ r) = Ok sl \<and> slice_bytes c8 sl = pre @ r
    \<and> valid_utf8 (cls_data sl) \<and> orphan (cls_prefix sl) \<and> orphan (cls_postfix sl)"
proof -
  have "split_off_orphaned_bytes c8 (pre @ r) = Ok \<lparr>cls_prefix = (if length pre = 0 then None else Some pre), cls_data = data,
      cls_postfix = (if postfix = [] then None else Some postfix)\<rparr>"
    unfolding split_off_orphaned_bytes_def assms(1) by (simp add: slice_def assms(3))
  then show ?thesis using assms(2,4-6) by (auto simp: slice_bytes_def orphan_def)
qed

text \<open>Any window of at least seven bytes.\<close>

lemma split_any_window:
  assumes cs: "list_all cesu_char cs" and i: "i + l \<le> length (concat cs)" and l: "7 \<le> l"
  shows "\<exists>sl. split_off_orphaned_bytes c8 (take l (drop i (concat cs))) = Ok sl
    \<and> slice_bytes c8 sl = take l (drop i (concat cs))
    \<and> valid_utf8 (cls_data sl) \<and> orphan (cls_prefix sl) \<and> orphan (cls_postfix sl)"
proof -
  have ne: "list_all (\<lambda>c. c \<noteq> []) cs" using cs by (auto simp: list_all_iff dest: cesu_char_nonempty)
  have "i \<le> length (concat cs)" using i by simp
  from take_concat [OF this ne] obtain n j where nj: "n \<le> length cs" "i = length (concat (take n cs)) + j"
    "if n < length cs then j < length (cs ! n) else j = 0" by blast
  have n: "n < length cs" using i l nj by (cases "n = length cs") auto
  have "concat cs = concat (take n cs) @ concat (drop n cs)" by (metis append_take_drop_id concat_append)
  then have window: "drop i (concat cs) = drop j (concat (drop n cs))" using nj(2) by simp
  have ds: "list_all cesu_char (drop n cs)" "list_all cesu_char (drop (Suc n) cs)"
    using cs by (auto simp: list_all_iff dest: in_set_dropD)
  have len: "l \<le> length (drop j (concat (drop n cs)))" using i window by (metis add_le_imp_le_diff add.commute length_drop)
  show ?thesis
  proof (cases "j = 0")
    case True
    then have "2 \<le> l" "l \<le> length (concat (drop n cs))" using len l by simp_all
    from split_rest [OF ds(1) this] find_split_whole [OF ds(1) this] show ?thesis
      unfolding window True using split_parts [of "[]" "take l (concat (drop n cs))"] by auto
  next
    case False
    let ?d = "cs ! n" and ?ds = "drop (Suc n) cs"
    have d: "cesu_char ?d" "j < length ?d" using cs n nj(3) by (simp_all add: list_all_length)
    let ?m = "l - length (drop j ?d)"
    have pre: "length (drop j ?d) < 6" using cesu_char_length [OF d(1)] False by (simp; linarith)
    have rest: "drop j (concat (drop n cs)) = drop j ?d @ concat ?ds"
      using d(2) by (simp add: Cons_nth_drop_Suc [OF n, symmetric])
    then have m: "2 \<le> ?m" "?m \<le> length (concat ?ds)" using len l pre by simp_all
    have take: "take l (drop i (concat cs)) = drop j ?d @ take ?m (concat ?ds)"
      using l pre by (simp add: window rest)
    from split_rest [OF ds(2) m] find_split_window [OF d(1) _ d(2) ds(2) m] False pre
    show ?thesis unfolding take using split_parts [of "drop j ?d" "take ?m (concat ?ds)"] by blast
  qed
qed

text \<open>A window of characters as the server counts them: a surrogate pair may be cut in its middle.\<close>

lemma type_of_char:
  assumes "cesu_char d"
  shows "type_at (d @ r) 0 \<in> {CT_One, CT_Two, CT_Three, CT_FirstHalfOfSurrogate}"
  using assms
  by (cases rule: cesu_char_cases)
    (auto simp: type_at_def type_of_pair_one type_of_pair_two type_of_pair_three type_of_pair_hi type_of_last_def utf8_one_def
      in_range_def dest: surrogate_conts)

lemma split_half:
  assumes ds: "list_all cesu_char ds" and h: "h = [] \<or> (\<exists>e. cesu_char e \<and> length e = 6 \<and> h = take 3 e)"
  shows "\<exists>data. cesu8_to_string_and_surrogate c8 (concat ds @ h) = Ok (data, if h = [] then None else Some h)
    \<and> valid_utf8 data \<and> to_cesu8 c8 data = concat ds"
proof -
  have tail: "get_cesu8_tail_len (concat ds @ h) (length (concat ds @ h)) = Ok (length h) \<and> length h \<in> {0, 3}"
  proof (cases "h = []")
    case True
    show ?thesis
    proof (cases ds rule: rev_cases)
      case Nil
      then show ?thesis using True by (simp add: get_cesu8_tail_len_def)
    next
      case (snoc es e)
      then show ?thesis using True ds tail_after_char [of e "concat es"] by simp
    qed
  next
    case False
    then obtain e where "cesu_char e" "length e = 6" "h = take 3 e" using h by blast
    then show ?thesis using tail_after_partial [of e 3 "concat ds"] by simp
  qed
  obtain s where s: "hdb_string c8 (concat ds) = Ok s" "valid_utf8 s" "to_cesu8 c8 s = concat ds"
    using hdb_string_chars [OF ds] by blast
  have "cesu8_to_string_and_tail c8 (concat ds @ h) = Ok (s, h)"
    unfolding cesu8_to_string_and_tail_def tail [THEN conjunct1] by (simp add: s(1))
  then show ?thesis using s(2,3) tail by (auto simp: cesu8_to_string_and_surrogate_def)
qed

lemma split_units_window:
  assumes ds: "list_all cesu_char ds" and h: "h = [] \<or> (\<exists>e. cesu_char e \<and> length e = 6 \<and> h = take 3 e)"
    and pre: "pre = [] \<or> (\<exists>x y z. pre = [x, y, z] \<and> lo_surrogate x y z)" and ne: "pre @ concat ds @ h \<noteq> []"
  shows "\<exists>sl. split_off_orphaned_surrogates c8 (pre @ concat ds @ h) = Ok sl \<and> slice_bytes c8 sl = pre @ concat ds @ h
    \<and> valid_utf8 (cls_data sl) \<and> cls_prefix sl = (if pre = [] then None else Some pre)
    \<and> cls_postfix sl = (if h = [] then None else Some h)"
proof -
  obtain data where data: "cesu8_to_string_and_surrogate c8 (concat ds @ h) = Ok (data, if h = [] then None else Some h)"
    "valid_utf8 data" "to_cesu8 c8 data = concat ds" using split_half [OF ds h] by blast
  let ?w = "pre @ concat ds @ h"
  have first: "char_type_at ?w 0 (length ?w) = Ok (type_at ?w 0)" using ne by (intro char_type_at_eq) auto
  have "split_off_orphaned_surrogates c8 ?w = Ok \<lparr>cls_prefix = (if pre = [] then None else Some pre), cls_data = data,
      cls_postfix = (if h = [] then None else Some h)\<rparr>"
  proof (cases "pre = []")
    case True
    have "type_at (concat ds @ h) 0 \<in> {CT_One, CT_Two, CT_Three, CT_FirstHalfOfSurrogate}"
    proof (cases ds)
      case Nil
      then obtain e where "cesu_char e" "length e = 6" "h = take 3 e" using h ne True by auto
      then show ?thesis using Nil
        by (cases rule: cesu_char_cases) (auto simp: type_at_def type_of_pair_hi)
    next
      case (Cons d es)
      then show ?thesis using type_of_char [of d "concat es @ h"] ds by simp
    qed
    then show ?thesis using True data(1) unfolding split_off_orphaned_surrogates_def first by (cases "h = []") auto
  next
    case False
    then obtain x y z where "pre = [x, y, z]" "lo_surrogate x y z" using pre by blast
    moreover from this have "type_at ?w 0 = CT_SecondHalfOfSurrogate" by (simp add: type_at_def type_of_pair_lo)
    ultimately show ?thesis unfolding split_off_orphaned_surrogates_def first by (simp add: data(1) slice_def)
  qed
  then show ?thesis using data(2,3) by (simp add: slice_bytes_def)
qed

end

end
