(* ===== verification/Hdb_Lob_Slices.thy ===== *)
theory Hdb_Lob_Slices
  imports Hdb_Nclob_Server Hdb_Text_Slices
begin

text \<open>
  Reading a slice of a LOB (\<^verbatim>\<open>read_slice\<close> in types\_impl/lob/clob.rs and nclob.rs) from a server that holds its
  content: nothing of the slice is lost, what cannot be text because a character was cut is handed out
  beside the text.
\<close>

section \<open>Windows of characters as the server counts them\<close>

definition units_of :: "bytes \<Rightarrow> bytes list" where
  "units_of d = (if length d = 6 then [take 3 d, drop 3 d] else [d])"

lemma concat_units_of [simp]: "concat (units_of d) = d"
  by (simp add: units_of_def)

lemma concat_map_units_of [simp]: "concat (concat (map units_of ds)) = concat ds"
  by (induction ds) simp_all

lemma units_of_units:
  assumes "cesu_char d"
  shows "list_all is_unit (units_of d)"
  using assms
proof (cases rule: cesu_char_cases)
  case (Two a b)
  then have "in_range 0xC0 0xDF a" "is_cont b" by (auto simp: byte_defs)
  then show ?thesis using Two(1) start_bytes by (simp add: units_of_def is_unit_def)
qed (use start_bytes surrogate_conts in \<open>auto simp: units_of_def is_unit_def\<close>)

lemma char_units_append:
  "list_all is_unit us \<Longrightarrow> starts_char rest \<Longrightarrow> char_units (concat us @ rest) = us @ char_units rest"
proof (induction us)
  case (Cons u us)
  then have "starts_char (concat us @ rest)" by (cases us) (auto simp: starts_char_unit)
  then show ?case using Cons by (simp add: char_units_append_unit)
qed simp

lemma char_units_chars: "list_all cesu_char cs \<Longrightarrow> char_units (concat cs) = concat (map units_of cs)"
proof (induction cs)
  case (Cons d cs)
  then show ?case
    using char_units_append [OF units_of_units, of d "concat cs"] by (simp add: cesu_chars_start)
qed simp

lemma drop_units:
  assumes cs: "list_all cesu_char cs" and i: "i \<le> length (concat (map units_of cs))"
  shows "\<exists>pre ds. drop i (concat (map units_of cs)) = pre @ concat (map units_of ds) \<and> list_all cesu_char ds
    \<and> (pre = [] \<or> (\<exists>x y z. pre = [[x, y, z]] \<and> lo_surrogate x y z))"
  using assms
proof (induction cs arbitrary: i)
  case Nil
  show ?case by (intro exI [of _ "[]"]) simp
next
  case (Cons d cs)
  show ?case
  proof (cases "length (units_of d) \<le> i")
    case True
    then show ?thesis using Cons.IH [of "i - length (units_of d)"] Cons.prems by simp
  next
    case False
    then have "i < length (units_of d)" by simp
    then consider "i = 0" | "i = 1" "length d = 6" by (auto simp: units_of_def less_Suc_eq split: if_splits)
    then show ?thesis
    proof cases
      case 1
      then show ?thesis using Cons.prems by (intro exI [of _ "[]"] exI [of _ "d # cs"]) simp
    next
      case 2
      then have d: "cesu_char d" "\<not> length d \<le> 3" using Cons.prems by simp_all
      obtain a b c x y z where "d = [a, b, c, x, y, z]" "lo_surrogate x y z" by (rule cesu_char_long [OF d]) blast
      then show ?thesis using 2 Cons.prems
        by (intro exI [of _ "[[x, y, z]]"] exI [of _ cs]) (simp add: units_of_def)
    qed
  qed
qed

lemma take_units_of:
  assumes "list_all cesu_char cs"
  shows "\<exists>ds h. concat (take l (concat (map units_of cs))) = concat ds @ h \<and> list_all cesu_char ds
    \<and> (h = [] \<or> (\<exists>e. cesu_char e \<and> length e = 6 \<and> h = take 3 e))"
  using assms
proof (induction cs arbitrary: l)
  case Nil
  show ?case by (intro exI [of _ "[]"]) simp
next
  case (Cons d cs)
  show ?case
  proof (cases "length (units_of d) \<le> l")
    case True
    from Cons.IH [of "l - length (units_of d)"] Cons.prems obtain ds h where
      "concat (take (l - length (units_of d)) (concat (map units_of cs))) = concat ds @ h" "list_all cesu_char ds"
      "h = [] \<or> (\<exists>e. cesu_char e \<and> length e = 6 \<and> h = take 3 e)" by auto
    then show ?thesis using True Cons.prems by (intro exI [of _ "d # ds"] exI [of _ h]) simp
  next
    case False
    then have "l < length (units_of d)" by simp
    then consider "l = 0" | "l = 1" "length d = 6" by (auto simp: units_of_def less_Suc_eq split: if_splits)
    then show ?thesis
    proof cases
      case 1
      then show ?thesis by (intro exI [of _ "[]"]) simp
    next
      case 2
      then show ?thesis using Cons.prems by (intro exI [of _ "[]"] exI [of _ "take 3 d"]) (auto simp: units_of_def)
    qed
  qed
qed

lemma units_window:
  assumes cs: "list_all cesu_char cs" and i: "i < length (char_units (concat cs))" and l: "0 < l"
  shows "\<exists>pre ds h. concat (take l (drop i (char_units (concat cs)))) = pre @ concat ds @ h \<and> list_all cesu_char ds
    \<and> (h = [] \<or> (\<exists>e. cesu_char e \<and> length e = 6 \<and> h = take 3 e))
    \<and> (pre = [] \<or> (\<exists>x y z. pre = [x, y, z] \<and> lo_surrogate x y z)) \<and> pre @ concat ds @ h \<noteq> []"
proof -
  note us = char_units_chars [OF cs]
  obtain pre ds where ds: "drop i (char_units (concat cs)) = pre @ concat (map units_of ds)" "list_all cesu_char ds"
    "pre = [] \<or> (\<exists>x y z. pre = [[x, y, z]] \<and> lo_surrogate x y z)"
    using drop_units [OF cs less_imp_le [OF i [unfolded us]]] unfolding us by blast
  obtain es h where es: "concat (take (l - length pre) (concat (map units_of ds))) = concat es @ h" "list_all cesu_char es"
    "h = [] \<or> (\<exists>e. cesu_char e \<and> length e = 6 \<and> h = take 3 e)" using take_units_of [OF ds(2)] by blast
  have "take l (drop i (char_units (concat cs))) \<noteq> []" using i l by simp
  moreover have "set (take l (drop i (char_units (concat cs)))) \<subseteq> set (char_units (concat cs))"
    by (meson set_drop_subset set_take_subset subset_trans)
  ultimately have ne: "concat (take l (drop i (char_units (concat cs)))) \<noteq> []"
    using char_units_nonempty by (cases "take l (drop i (char_units (concat cs)))") auto
  have eq: "concat (take l (drop i (char_units (concat cs)))) = concat pre @ concat es @ h"
    using l ds(3) es(1) by (auto simp: ds(1))
  have "concat pre = [] \<or> (\<exists>x y z. concat pre = [x, y, z] \<and> lo_surrogate x y z)" using ds(3) by auto
  with eq es(2,3) ne [unfolded eq] show ?thesis by blast
qed

section \<open>Properties\<close>

text \<open>Shorter slices can make the driver panic.\<close>

lemma short_slices_panic:
  "list_all (\<lambda>bs. split_off_orphaned_bytes ref_cesu8 bs = Panic) [[0xE2], [0x82, 0xAC], [0xED, 0xB2]]"
  by code_simp

text \<open>C16: A slice of at least seven bytes of a character LOB is read without loss wherever it begins and ends within
  the LOB: the bytes asked for are the prefix, the text in CESU-8 and the postfix, where prefix and
  postfix are left out or have one to five bytes; the handle is not changed. Slices of fewer than seven
  bytes are not covered: the driver can panic on them.\<close>

theorem clob_slice_lossless:
  assumes "cesu8_crate c8" "valid_utf8 txt" "length (to_cesu8 c8 txt) + 16 < 2 ^ 31" "lob_ready (to_cesu8 c8 txt) (Suc n) cc"
    and "i + unat l \<le> length (to_cesu8 c8 txt)" "7 \<le> unat l"
  shows "\<exists>sl cc'. clob_read_slice c8 (conn_source (serving_driver dr lob_answer)) i l (h, cc) = (Ok sl, (h, cc'))
    \<and> slice_bytes c8 sl = take (unat l) (drop i (to_cesu8 c8 txt))
    \<and> valid_utf8 (cls_data sl) \<and> orphan (cls_prefix sl) \<and> orphan (cls_postfix sl)"
proof -
  obtain cs where cs: "list_all cesu_char cs" "to_cesu8 c8 txt = concat cs"
    using cesu8_crate.to_cesu8_chars [OF assms(1,2)] by blast
  have "i < length (to_cesu8 c8 txt)" using assms(5,6) by simp
  from lob_fetch_served [OF assms(4,3) this]
    cesu8_crate.split_any_window [OF assms(1) cs(1), of i "unat l"] assms(5,6)
  show ?thesis by (auto simp: clob_read_slice_def conn_source_def cs(2))
qed

theorem clob_slice_lossless_witness:
  "\<forall>h. \<exists>sl cc'. clob_read_slice ref_cesu8 (conn_source (serving_driver sample_driver lob_answer)) 1 7
      (h, served_core sample_cesu8) = (Ok sl, (h, cc'))
    \<and> slice_bytes ref_cesu8 sl = take 7 (drop 1 sample_cesu8)" (is "\<forall>h. ?P h")
proof
  fix h
  have enc: "to_cesu8 ref_cesu8 sample_text = sample_cesu8" "valid_utf8 sample_text" by code_simp+
  have "lob_ready sample_cesu8 (Suc 10) (served_core sample_cesu8)"
    by (simp add: lob_ready_def idle_served_core default_lob_read_length_def)
  from clob_slice_lossless [OF ref.cesu8_crate_axioms enc(2), unfolded enc(1), OF _ this, of 1 7 sample_driver h]
  show "?P h" by (simp add: sample_cesu8_def) blast
qed

text \<open>C17: A slice of a national character LOB is read without loss as well, of any length, offset and length counted in
  characters as the server does: if the slice begins with the second half of a surrogate pair or ends with
  the first, the prefix or postfix is that half, three bytes, otherwise there is none.\<close>

theorem nclob_slice_lossless:
  assumes "cesu8_crate c8" "valid_utf8 txt" "length (to_cesu8 c8 txt) + 16 < 2 ^ 31" "lob_ready (to_cesu8 c8 txt) (Suc n) cc"
    and "i < length (char_units (to_cesu8 c8 txt))" "0 < l"
  shows "\<exists>sl cc'. nclob_read_slice c8 (conn_source (serving_driver dr nclob_answer)) i l (h, cc) = (Ok sl, (h, cc'))
    \<and> slice_bytes c8 sl = concat (take (unat l) (drop i (char_units (to_cesu8 c8 txt))))
    \<and> valid_utf8 (cls_data sl)
    \<and> (cls_prefix sl = None \<or> (\<exists>x y z. cls_prefix sl = Some [x, y, z] \<and> lo_surrogate x y z))
    \<and> (cls_postfix sl = None \<or> (\<exists>x y z. cls_postfix sl = Some [x, y, z] \<and> hi_surrogate x y z))"
proof -
  obtain cs where cs: "list_all cesu_char cs" "to_cesu8 c8 txt = concat cs"
    using cesu8_crate.to_cesu8_chars [OF assms(1,2)] by blast
  have "0 < unat l" using assms(6) by (simp add: unat_gt_0)
  from units_window [OF cs(1) assms(5) [unfolded cs(2)] this] obtain pre ds t where
    w: "concat (take (unat l) (drop i (char_units (concat cs)))) = pre @ concat ds @ t" "list_all cesu_char ds"
    "t = [] \<or> (\<exists>e. cesu_char e \<and> length e = 6 \<and> t = take 3 e)"
    "pre = [] \<or> (\<exists>x y z. pre = [x, y, z] \<and> lo_surrogate x y z)" "pre @ concat ds @ t \<noteq> []" by blast
  have "t = [] \<or> (\<exists>x y z. t = [x, y, z] \<and> hi_surrogate x y z)"
    using w(3) by (auto elim!: cesu_char_cases)
  with nclob_fetch_served [OF assms(4,3,5)] cesu8_crate.split_units_window [OF assms(1) w(2-5)] w(4)
  show ?thesis by (auto simp: nclob_read_slice_def conn_source_def cs(2) w(1) split: if_splits)
qed

theorem nclob_slice_lossless_witness:
  "\<forall>h. \<exists>sl cc'. nclob_read_slice ref_cesu8 (conn_source (serving_driver sample_driver nclob_answer)) 0 3
      (h, served_core sample_cesu8) = (Ok sl, (h, cc'))
    \<and> slice_bytes ref_cesu8 sl = concat (take 3 (char_units sample_cesu8))" (is "\<forall>h. ?P h")
proof
  fix h
  have enc: "to_cesu8 ref_cesu8 sample_text = sample_cesu8" "valid_utf8 sample_text" by code_simp+
  have len: "length (char_units sample_cesu8) = 4" by code_simp
  have "lob_ready sample_cesu8 (Suc 10) (served_core sample_cesu8)"
    by (simp add: lob_ready_def idle_served_core default_lob_read_length_def)
  from nclob_slice_lossless [OF ref.cesu8_crate_axioms enc(2), unfolded enc(1), OF _ this, of 0 3 sample_driver h]
  have "length sample_cesu8 + 16 < 2 ^ 31 \<Longrightarrow> ?P h" by (simp only: len) (simp, blast)
  then show "?P h" by (simp add: sample_cesu8_def)
qed

end
