(* ===== verification/Hdb_Origin.thy ===== *)
theory Hdb_Origin
  imports Hdb_Statements
begin

text \<open>
  Where result sets and LOBs come from. A result set is returned by the execution of a query
  (\<^verbatim>\<open>Connection::execute\<close>) or of a prepared statement and is advanced by \<^verbatim>\<open>next_row\<close>, a LOB is a value in
  one of its rows. The relation \<open>origin\<close> records which call returned the result set, whatever its own
  fields say; the lemmas follow the bytes of the reply through the parser and the response: the core of
  the result set has the id that the server sent and the statement that was executed, and every LOB in its
  rows refers to that core.
\<close>

section \<open>Values and rows that refer to a result set\<close>

definition is_lob :: "hdb_value \<Rightarrow> bool" where
  "is_lob v = (case v of HV_BLOB _ \<Rightarrow> True | HV_CLOB _ \<Rightarrow> True | HV_NCLOB _ \<Rightarrow> True | _ \<Rightarrow> False)"

text \<open>The result set core that a LOB handle keeps alive.\<close>

definition value_rs :: "hdb_value \<Rightarrow> u64 option" where
  "value_rs v =
     (case v of HV_BLOB h \<Rightarrow> bl_rscore h | HV_CLOB h \<Rightarrow> cl_rscore h | HV_NCLOB h \<Rightarrow> nc_rscore h | _ \<Rightarrow> None)"

definition value_of :: "u64 \<Rightarrow> hdb_value \<Rightarrow> bool" where
  "value_of i v \<longleftrightarrow> value_rs v = (if is_lob v then Some i else None)"

definition row_of :: "u64 \<Rightarrow> row \<Rightarrow> bool" where
  "row_of i r \<longleftrightarrow> list_all (value_of i) (row_value_iter r)"

definition state_rows :: "rs_state \<Rightarrow> row list" where
  "state_rows st = rss_row_iter st @ rss_next_rows st"

definition state_of :: "u64 \<Rightarrow> u64 option \<Rightarrow> rs_state \<Rightarrow> bool" where
  "state_of i o_ps st \<longleftrightarrow> list_all (row_of i) (state_rows st) \<and>
     (\<forall>core. rss_core st = Some core \<longrightarrow> rsc_resultset_id core = i \<and> rsc_pscore core = o_ps)"

definition fresh_result_set :: "result_set \<Rightarrow> bool" where
  "fresh_result_set rs \<longleftrightarrow> (\<exists>core. rss_core (rs_state rs) = Some core \<and>
     state_of (rsc_resultset_id core) None (rs_state rs))"

section \<open>Parsing\<close>

lemma not_lob: "\<not> is_lob v \<Longrightarrow> value_of i v"
  by (cases v) (simp_all add: value_of_def value_rs_def is_lob_def)

lemmas plain_parsers = parse_tinyint_def parse_smallint_def parse_int_def parse_bigint_def parse_real_def
  parse_double_def parse_bool_def decimal_parse_def parse_hdb_decimal_def parse_string_def parse_alphanum_def
  parse_binary_def parse_longdate_def parse_seconddate_def parse_daydate_def parse_secondtime_def

lemma rd_lift_Ok_iff: "rd_lift r bs = Ok (x, rest) \<longleftrightarrow> r = Ok x \<and> rest = bs"
  by (cases r) (auto simp: rd_simps)

lemma io_of_hdb_Ok_iff: "io_of_hdb r = Ok x \<longleftrightarrow> r = Ok x"
  by (simp add: io_of_hdb_def res_simps)

lemmas read_Ok_iffs = rd_bind_apply rd_lift_Ok_iff io_of_hdb_Ok_iff res_simps

lemma parse_lob_value:
  "parse_blob (Some i) nu bs = Ok (v, rest) \<Longrightarrow> value_of i v"
  "parse_clob (Some i) nu bs = Ok (v, rest) \<Longrightarrow> value_of i v"
  "parse_nclob (Some i) nu t bs = Ok (v, rest) \<Longrightarrow> value_of i v"
  by (auto simp: parse_blob_def parse_clob_def parse_nclob_def read_Ok_iffs rd_apply_simps value_of_def value_rs_def
      is_lob_def blob_handle_new_def clob_handle_new_def nclob_handle_new_def Let_def split: if_splits)

lemma parse_plain_value:
  "parse_tinyint nu bs = Ok (v, rest) \<Longrightarrow> \<not> is_lob v" "parse_smallint nu bs = Ok (v, rest) \<Longrightarrow> \<not> is_lob v"
  "parse_int nu bs = Ok (v, rest) \<Longrightarrow> \<not> is_lob v" "parse_bigint nu bs = Ok (v, rest) \<Longrightarrow> \<not> is_lob v"
  "parse_real nu bs = Ok (v, rest) \<Longrightarrow> \<not> is_lob v" "parse_double nu bs = Ok (v, rest) \<Longrightarrow> \<not> is_lob v"
  "parse_bool nu bs = Ok (v, rest) \<Longrightarrow> \<not> is_lob v" "parse_longdate nu bs = Ok (v, rest) \<Longrightarrow> \<not> is_lob v"
  "parse_seconddate nu bs = Ok (v, rest) \<Longrightarrow> \<not> is_lob v" "parse_daydate nu bs = Ok (v, rest) \<Longrightarrow> \<not> is_lob v"
  "parse_secondtime nu bs = Ok (v, rest) \<Longrightarrow> \<not> is_lob v"
  by (auto simp: plain_parsers read_Ok_iffs rd_apply_simps is_lob_def Let_def
      split: if_splits option.splits)

lemma parse_text_value:
  "parse_string c8 nu t bs = Ok (v, rest) \<Longrightarrow> \<not> is_lob v"
  "parse_alphanum c8 nu bs = Ok (v, rest) \<Longrightarrow> \<not> is_lob v"
  "parse_binary nu t bs = Ok (v, rest) \<Longrightarrow> \<not> is_lob v"
  by (auto simp: plain_parsers read_Ok_iffs rd_apply_simps is_lob_def Let_def split: if_splits type_id.splits)

lemma parse_decimal_value: "decimal_parse nl nu t sc bs = Ok (v, rest) \<Longrightarrow> \<not> is_lob v"
  by (cases t) (auto simp: plain_parsers read_Ok_iffs rd_apply_simps is_lob_def Let_def split: if_splits)

lemma parse_from_reply_value:
  assumes "parse_from_reply c8 nl t sc nu (Some i) bs = Ok (v, rest)"
  shows "value_of i v"
  using assms
  by (cases t) (auto simp: parse_from_reply_def rd_apply_simps
      intro: parse_lob_value parse_plain_value [THEN not_lob] parse_text_value [THEN not_lob]
        parse_decimal_value [THEN not_lob])

lemma parse_columns_values:
  "parse_columns c8 nl (Some i) md k n bs = Ok (vs, rest) \<Longrightarrow> list_all (value_of i) vs"
  by (induction n arbitrary: k bs vs rest) (auto simp: read_Ok_iffs rd_apply_simps dest: parse_from_reply_value)

lemma row_parse_row: "row_parse c8 nl md (Some i) bs = Ok (r, rest) \<Longrightarrow> row_of i r"
  by (auto simp: row_parse_def read_Ok_iffs rd_apply_simps row_of_def row_new_def dest: parse_columns_values)

lemma rd_repeat_all:
  assumes "\<And>bs x rest. p bs = Ok (x, rest) \<Longrightarrow> P x"
  shows "rd_repeat n p bs = Ok (xs, rest) \<Longrightarrow> list_all P xs"
  by (induction n arbitrary: bs xs rest) (auto simp: read_Ok_iffs rd_apply_simps dest: assms)

lemma parse_rows_state:
  assumes "parse_rows c8 nl n md st bs = Ok (st', rest)" "state_of i o_ps st"
  shows "state_of i o_ps st' \<and> rss_core st' = rss_core st"
proof -
  have "list_all (row_of i) rows" if "rss_core st = Some core"
    "rd_repeat n (row_parse c8 nl md (Some (rsc_resultset_id core))) bs = Ok (rows, rest)" for core rows rest
    using that assms(2) rd_repeat_all [OF row_parse_row that(2)] by (simp add: state_of_def)
  then show ?thesis using assms
    by (auto simp: parse_rows_def read_Ok_iffs rd_apply_simps state_of_def state_rows_def split: if_splits option.splits)
qed

section \<open>Parts and replies\<close>

definition good_part :: "part \<Rightarrow> bool" where
  "good_part p = (case p of P_ResultSet (Some rs) \<Rightarrow> fresh_result_set rs | _ \<Rightarrow> True)"

text \<open>What a reader keeps of the parts read so far and of the result set that is being advanced.\<close>

definition good_parts :: "u64 \<Rightarrow> u64 option \<Rightarrow> part list \<Rightarrow> rs_state option \<Rightarrow> bool" where
  "good_parts i o_ps ps o_rs \<longleftrightarrow> list_all good_part ps \<and> (\<forall>st. o_rs = Some st \<longrightarrow> state_of i o_ps st)"

lemma pop_sublist:
  "set (snd (parts_pop ps)) \<subseteq> set ps" "set (snd (pop_if_kind k ps)) \<subseteq> set ps"
  by (auto simp: parts_pop_def pop_if_kind_def dest: in_set_butlastD)

lemma pop_good:
  "parts_pop ps = (r, ps') \<Longrightarrow> list_all good_part ps \<Longrightarrow> list_all good_part ps'"
  "pop_if_kind k ps = (r, ps') \<Longrightarrow> list_all good_part ps \<Longrightarrow> list_all good_part ps'"
  using pop_sublist(1) [of ps] pop_sublist(2) [of k ps] by (auto simp: list_all_iff)

lemma result_set_new_fresh:
  "rss_core (rs_state (result_set_new attrs rs_id md o_sc)) = Some \<lparr>rsc_pscore = None, rsc_attributes = attrs, rsc_resultset_id = rs_id\<rparr>"
  "state_of rs_id None (rs_state (result_set_new attrs rs_id md o_sc))"
  by (simp_all add: result_set_new_def state_of_def state_rows_def)

lemma parse_fresh_rows:
  assumes "parse_rows c8 nl n md (rs_state (result_set_new attrs rs_id md o_sc)) bs = Ok (st, rest)"
  shows "fresh_result_set (result_set_new attrs rs_id md o_sc\<lparr>rs_state := st\<rparr>)"
  using parse_rows_state [OF assms result_set_new_fresh(2)] result_set_new_fresh(1) [of attrs rs_id md o_sc]
  by (simp add: fresh_result_set_def)

lemma state_of_update:
  "state_of i o_ps (st\<lparr>rss_server_usage := u\<rparr>) = state_of i o_ps st"
  "state_of i o_ps st \<Longrightarrow> state_of i o_ps (st\<lparr>rss_core := map_option (\<lambda>c. c\<lparr>rsc_attributes := a\<rparr>) (rss_core st)\<rparr>)"
  by (auto simp: state_of_def state_rows_def)

lemma result_set_parse_good:
  assumes "result_set_parse c8 nl n attrs ps o_md o_rs bs = Ok ((o_res, ps', o_rs'), rest)" "good_parts i o_ps ps o_rs"
  shows "good_part (P_ResultSet o_res) \<and> good_parts i o_ps ps' o_rs'"
proof (cases o_rs)
  case None
  obtain o_sc ps1 where p1: "pop_if_kind PK_StatementContext ps = (o_sc, ps1)" by fastforce
  obtain o_id ps2 where p2: "parts_pop ps1 = (o_id, ps2)" by fastforce
  obtain o_m ps3 where p3: "pop_if_kind PK_ResultSetMetadata ps2 = (o_m, ps3)" by fastforce
  have "list_all good_part ps3"
    using assms(2) pop_good(2) [OF p1] pop_good(1) [OF p2] pop_good(2) [OF p3] by (simp add: good_parts_def)
  moreover obtain rs_id where "o_id = Some (P_ResultSetId rs_id)"
    using assms(1) by (cases o_id) (auto simp: result_set_parse_def None p1 p2 rd_apply_simps split: part.splits)
  ultimately show ?thesis using assms(1)
    by (auto simp: result_set_parse_def None p1 p2 p3 read_Ok_iffs rd_apply_simps Let_def good_parts_def good_part_def
        dest!: parse_fresh_rows)
next
  case (Some st)
  obtain o_sc ps1 where p1: "pop_if_kind PK_StatementContext ps = (o_sc, ps1)" by fastforce
  define st1 where "st1 = (case o_sc of Some (P_StatementContext sc) \<Rightarrow>
      st\<lparr>rss_server_usage := usage_of_stmt_ctx sc (rss_server_usage st)\<rparr> | _ \<Rightarrow> st)"
  have "state_of i o_ps st1"
    using assms(2) by (auto simp: st1_def Some good_parts_def state_of_update split: option.split part.split)
  moreover have "list_all good_part ps1" using assms(2) pop_good(2) [OF p1] by (simp add: good_parts_def)
  ultimately show ?thesis using assms(1)
    by (auto simp: result_set_parse_def Some p1 st1_def [symmetric] read_Ok_iffs rd_apply_simps Let_def good_parts_def
        good_part_def split: option.splits dest!: parse_rows_state dest: state_of_update(2))
qed

lemma lift_part_Ok_iff:
  "lift_part ps o_rs p bs = Ok ((x, ps', o_rs'), rest) \<longleftrightarrow> p bs = Ok (x, rest) \<and> ps' = ps \<and> o_rs' = o_rs"
  by (auto simp: lift_part_def read_Ok_iffs rd_apply_simps)

lemma rd_map_Ok_iff: "rd_map f p bs = Ok (y, rest) \<longleftrightarrow> (\<exists>x. p bs = Ok (x, rest) \<and> y = f x)"
  by (auto simp: rd_map_def read_Ok_iffs rd_apply_simps)

lemma part_parse_body_good:
  assumes "part_parse_body c8 nl k attrs n ps hc o_md o_ds o_rs bs = Ok ((p, ps', o_rs'), rest)"
    and "good_parts i o_ps ps o_rs"
  shows "good_part p \<and> good_parts i o_ps ps' o_rs'"
proof (cases "k = PK_ResultSet")
  case True
  then show ?thesis using assms(1) result_set_parse_good [OF _ assms(2)]
    by (fastforce simp: part_parse_body_def rd_map_Ok_iff rd_apply_simps split: if_splits)
next
  case False
  then show ?thesis using assms(1) unfolding part_parse_body_def
    by (cases k) (auto simp: lift_part_Ok_iff rd_map_Ok_iff rd_apply_simps good_part_def assms(2) split: option.splits)
qed

lemma rd_bind_OkE:
  assumes "rd_bind p f bs = Ok y"
  obtains a rest where "p bs = Ok (a, rest)" "f a rest = Ok y"
  using assms by (cases "p bs") (auto simp: rd_bind_apply)

lemma part_parse_good:
  assumes "part_parse c8 nl ps hc o_md o_ds o_rs is_last bs = Ok ((p, ps', o_rs'), rest)" "good_parts i o_ps ps o_rs"
  shows "good_part p \<and> good_parts i o_ps ps' o_rs'"
proof -
  obtain k attrs sz n bs1 where h: "parse_part_header bs = Ok ((k, attrs, sz, n), bs1)"
    using assms(1) unfolding part_parse_def by (elim rd_bind_OkE) (auto intro: that split: prod.splits)
  obtain q qs o_q bs2 where q: "part_parse_body c8 nl k attrs n ps hc o_md o_ds o_rs bs1 = Ok ((q, qs, o_q), bs2)"
    using assms(1) unfolding part_parse_def rd_bind_apply [of parse_part_header] h res_bind.simps prod.case
    by (elim rd_bind_OkE) (auto intro: that)
  have skipped: "r = r'" if "rd_bind m (\<lambda>_. rd_return r) xs = Ok (r', ys)" for m :: "u8 list rd" and r r' :: "part \<times> part list \<times> rs_state option" and xs ys
    using that by (elim rd_bind_OkE) (simp add: rd_apply_simps)
  have "(q, qs, o_q) = (p, ps', o_rs')"
    using assms(1) unfolding part_parse_def rd_bind_apply [of parse_part_header] h res_bind.simps prod.case
      rd_bind_apply [of "part_parse_body c8 nl k attrs n ps hc o_md o_ds o_rs"] q
    by (auto simp only: rd_apply_simps res.inject prod.inject res.distinct dest: skipped split: if_split_asm)
  then show ?thesis using part_parse_body_good [OF q assms(2)] by simp
qed

lemma parse_parts_good:
  "parse_parts c8 nl o_md o_ds hc n ps o_rs bs = Ok ((ps', o_rs'), rest) \<Longrightarrow> good_parts i o_ps ps o_rs
     \<Longrightarrow> good_parts i o_ps ps' o_rs'"
proof (induction n arbitrary: ps o_rs bs)
  case (Suc n)
  obtain x rest' where x: "part_parse c8 nl ps hc o_md o_ds o_rs (n = 0) bs = Ok (x, rest')"
    "(case x of (p, parts', o_rs') \<Rightarrow> parse_parts c8 nl o_md o_ds hc n (parts' @ [p]) o_rs') rest' = Ok ((ps', o_rs'), rest)"
    using Suc.prems(1) unfolding parse_parts.simps by (rule rd_bind_OkE)
  obtain p qs o_q where "x = (p, qs, o_q)" by (cases x)
  then have q: "part_parse c8 nl ps hc o_md o_ds o_rs (n = 0) bs = Ok ((p, qs, o_q), rest')"
    "parse_parts c8 nl o_md o_ds hc n (qs @ [p]) o_q rest' = Ok ((ps', o_rs'), rest)" using x by simp_all
  have "good_parts i o_ps (qs @ [p]) o_q"
    using part_parse_good [OF q(1) Suc.prems(2)] by (simp add: good_parts_def)
  then show ?case by (rule Suc.IH [OF q(2)])
qed (simp add: rd_apply_simps)

lemma reply_parse_good:
  assumes "reply_parse c8 nl o_md o_ds o_rs hc bs = Ok ((r, o_rs'), rest)" "good_parts i o_ps [] o_rs"
  shows "good_parts i o_ps (rp_parts r) o_rs'"
proof -
  obtain k r0 bs1 where h: "parse_message_and_sequence_header bs = Ok ((k, r0), bs1)"
    using assms(1) unfolding reply_parse_def by (elim rd_bind_OkE) (auto intro: that)
  obtain ps o_q bs2 where q: "parse_parts c8 nl o_md o_ds hc (nat (sint k)) [] o_rs bs1 = Ok ((ps, o_q), bs2)"
    using assms(1) unfolding reply_parse_def rd_bind_apply [of parse_message_and_sequence_header] h res_bind.simps prod.case
    by (elim rd_bind_OkE) (auto intro: that)
  have "r = r0\<lparr>rp_parts := ps\<rparr>" "o_rs' = o_q"
    using assms(1) by (simp_all add: reply_parse_def rd_bind_apply h q rd_apply_simps)
  then show ?thesis using parse_parts_good [OF q assms(2)] by simp
qed

section \<open>Exchanges\<close>

definition good_state :: "u64 \<Rightarrow> u64 option \<Rightarrow> rs_state option \<Rightarrow> bool" where
  "good_state i o_ps o_rs \<longleftrightarrow> (\<forall>st. o_rs = Some st \<longrightarrow> state_of i o_ps st)"

definition good_reply :: "(reply, hdb_error) res \<Rightarrow> bool" where
  "good_reply r \<longleftrightarrow> (\<forall>reply. r = Ok reply \<longrightarrow> list_all good_part (rp_parts reply))"

lemma receive_reply_good:
  assumes "receive_reply dr hc o_md o_ds (cc, rs) = (r, (cc', rs'))" "good_state i o_ps rs"
  shows "good_reply r \<and> good_state i o_ps rs'"
proof -
  obtain x n where x: "net_read (dr_net dr) (reply_parse (dr_c8 dr) (dr_nl dr) o_md o_ds rs hc) (cc_tcp cc) = (x, n)" by fastforce
  have start: "good_parts i o_ps [] rs" using assms(2) by (simp add: good_parts_def good_state_def)
  show ?thesis
  proof (cases x)
    case (Ok a)
    obtain reply rs1 where a: "a = (reply, rs1)" by (cases a)
    from x have "\<exists>rest. reply_parse (dr_c8 dr) (dr_nl dr) o_md o_ds rs hc (net_input (dr_net dr) (cc_tcp cc)) = Ok ((reply, rs1), rest)"
      by (auto simp: net_read_def Ok a split: res.splits prod.splits)
    then have "good_parts i o_ps (rp_parts reply) rs1" using reply_parse_good [OF _ start] by blast
    then show ?thesis using assms(1)
      by (auto simp: receive_reply_def on_tcp_def x Ok a good_reply_def good_state_def good_parts_def)
  qed (use assms in \<open>auto simp: receive_reply_def on_tcp_def x good_reply_def\<close>)
qed

lemma handle_db_error_good:
  assumes "handle_db_error r cc = (r', cc')" "list_all good_part (rp_parts r)"
  shows "good_reply r'"
proof (cases r')
  case (Ok reply)
  obtain o_p ps where p: "remove_first_of_kind PK_Error (rp_parts r) = (o_p, ps)" by fastforce
  have "set ps \<subseteq> set (rp_parts r)"
    using remove_first_of_kind_Some [of PK_Error "rp_parts r" _ ps] remove_first_of_kind_None [of PK_Error "rp_parts r" ps] p
    by (cases o_p) fastforce+
  moreover have "rp_parts reply = rp_parts r \<or> rp_parts reply = ps"
    using assms(1) unfolding handle_db_error_def Let_def p Ok
    by (auto simp: st_bind_def st_simps split: option.splits part.splits if_splits prod.splits res.splits list.splits)
  ultimately show ?thesis using assms(2) by (auto simp: good_reply_def Ok list_all_iff)
qed (simp_all add: good_reply_def)

lemma roundtrip_good:
  assumes "roundtrip dr q hc o_md o_ds (cc, rs) = (r, (cc', rs'))" "good_state i o_ps rs"
  shows "good_reply r \<and> good_state i o_ps rs'"
proof -
  obtain a cc1 where a: "send_request dr q o_ds cc = (a, cc1)" by fastforce
  obtain b cc2 rs2 where b: "receive_reply dr hc o_md o_ds (cc1, rs) = (b, (cc2, rs2))" by (metis prod.exhaust)
  note good = receive_reply_good [OF b assms(2)]
  show ?thesis
  proof (cases b)
    case (Ok reply)
    obtain c cc3 where c: "handle_db_error reply cc2 = (c, cc3)" by fastforce
    have "good_reply c" using handle_db_error_good [OF c] good Ok by (simp add: good_reply_def)
    then show ?thesis using assms(1) good
      using assms(2) by (cases a) (auto simp: roundtrip_def st_bind_def on_core_def a b Ok c good_reply_def)
  qed (use assms good in \<open>cases a; auto simp: roundtrip_def st_bind_def on_core_def a b good_reply_def\<close>)+
qed

lemma full_send_good:
  assumes "full_send dr q o_md o_ds (cc, rs) = (r, (cc', rs'))" "good_state i o_ps rs"
  shows "good_reply r \<and> good_state i o_ps rs'"
proof -
  obtain q' cc1 where q: "augment_request q cc = (q', cc1)" by fastforce
  obtain x cc2 rs2 where x: "roundtrip dr q' True o_md o_ds (cc1, rs) = (x, (cc2, rs2))" by (metis prod.exhaust)
  note good = roundtrip_good [OF x assms(2)]
  obtain y cc3 where y: "reconnect dr cc2 = (y, cc3)" by fastforce
  obtain z cc4 rs4 where z: "roundtrip dr q' True o_md o_ds (cc3, rs2) = (z, (cc4, rs4))" by (metis prod.exhaust)
  have "good_state i o_ps rs2" using good by blast
  note again = roundtrip_good [OF z this]
  show ?thesis
    using assms(1) good again
    by (cases y) (auto simp: full_send_def q x st_bind_def on_core_def y z good_reply_def split: if_splits)
qed

lemma send_good: "send dr q cc = (r, cc') \<Longrightarrow> good_reply r"
  using full_send_good [of dr q None None cc None] by (auto simp: send_def good_state_def split: prod.splits)

lemma ps_send_good: "ps_send dr ps q cc = (r, cc') \<Longrightarrow> good_reply r"
  using full_send_good [of dr q "ps_rsmd ps" "Some (ps_descriptors ps)" cc None]
  by (auto simp: ps_send_def good_state_def split: prod.splits)

section \<open>Result sets of a response\<close>

definition good_irv :: "u64 option \<Rightarrow> internal_return_value \<Rightarrow> bool" where
  "good_irv o_ps irv = (case irv of
     IRV_ResultSet rs \<Rightarrow> (\<exists>core. rss_core (rs_state rs) = Some core \<and>
       state_of (rsc_resultset_id core) o_ps (rs_state rs)) | _ \<Rightarrow> True)"

lemma st_bind_return:
  "st_bind m (\<lambda>vs. st_return (v # vs)) s = (Ok ws, s') \<longleftrightarrow> (\<exists>vs. m s = (Ok vs, s') \<and> ws = v # vs)"
  by (auto simp: st_bind_def st_simps split: prod.splits res.splits)

lemma internal_return_values_good:
  "into_internal_return_values ps s = (Ok irvs, s') \<Longrightarrow> list_all good_part ps \<Longrightarrow> list_all (good_irv None) irvs"
proof (induction ps arbitrary: s irvs rule: into_internal_return_values.induct)
  case (2 sc ps)
  from 2(2) obtain s1 where "into_internal_return_values ps s1 = (Ok irvs, s')"
    by (auto simp: st_bind_def st_simps)
  then show ?case using 2 by simp
next
  case (3 flags ps)
  from 3(2) obtain s1 where "into_internal_return_values ps s1 = (Ok irvs, s')"
    by (auto simp: st_bind_def split: prod.splits res.splits)
  then show ?case using 3 by simp
next
  case (7 md ps)
  from 7(2) obtain rs_id ps' vs where q: "ps = P_ResultSetId rs_id # ps'"
    "into_internal_return_values ps' s = (Ok vs, s')" "irvs = IRV_ResultSet (result_set_new 0b00000100 rs_id md None) # vs"
    by (auto simp: st_bind_return st_simps split: list.splits part.splits)
  have "list_all (good_irv None) vs" using 7(1) [OF q(1) refl q(2)] 7(3) q(1) by simp
  then show ?case by (simp add: q(3) good_irv_def [of _ "IRV_ResultSet _"] result_set_new_fresh)
qed (auto simp: st_bind_return st_simps good_irv_def good_part_def fresh_result_set_def)

lemma inject_ids_good: "list_all (good_irv None) irvs \<Longrightarrow> list_all (good_irv (Some p)) (inject_ids p irvs)"
  unfolding list_all_iff inject_ids_def
  by (fastforce simp: good_irv_def inject_statement_id_def state_of_def state_rows_def split: internal_return_value.splits)

lemma single_member: "single irvs = Ok irv \<Longrightarrow> irv \<in> set irvs"
proof -
  assume "single irvs = Ok irv"
  then have alone: "filter (\<lambda>irv. \<not> is_parameter_metadata irv) irvs = [irv]"
    by (auto simp: single_def split: list.splits)
  have "irv \<in> set (filter (\<lambda>irv. \<not> is_parameter_metadata irv) irvs)" unfolding alone by simp
  then show ?thesis by simp
qed

lemma response_kinds:
  "response_resultset irvs = Ok resp \<Longrightarrow> \<exists>rs. resp = [RV_ResultSet rs] \<and> IRV_ResultSet rs \<in> set irvs"
  "response_success irvs = Ok resp \<Longrightarrow> resp = [RV_Success]"
  "response_rows_affected irvs = Ok resp \<Longrightarrow> \<exists>ns. resp = [RV_AffectedRows ns]"
  by (cases "single irvs"; auto simp: response_resultset_def response_success_def response_rows_affected_def
      res_map_Ok_iff dest: single_member
      split: internal_return_value.split_asm list.split_asm execution_result.split_asm if_split_asm)+

lemma return_values_member:
  "return_values irvs = Ok resp \<Longrightarrow> RV_ResultSet rs \<in> set resp \<Longrightarrow> IRV_ResultSet rs \<in> set irvs"
  by (induction irvs arbitrary: resp rule: return_values.induct) (auto simp: res_simps)

lemma response_good:
  assumes "hdb_response_try_new irvs t = Ok resp" "list_all (good_irv o_ps) irvs" "RV_ResultSet rs \<in> set resp"
  shows "good_irv o_ps (IRV_ResultSet rs)"
proof -
  have "IRV_ResultSet rs \<in> set irvs"
    using assms(1,3) return_values_member [of "rev irvs" resp rs] response_kinds [of irvs resp]
    unfolding hdb_response_try_new_def multiple_return_values_def by (auto split: if_split_asm)
  then show ?thesis using assms(2) by (auto simp: list_all_iff)
qed

lemma return_values_of_good:
  "return_values_of ps cc = (Ok irvs, cc') \<Longrightarrow> list_all good_part ps \<Longrightarrow> list_all (good_irv None) irvs"
  using internal_return_values_good [of ps "(cc, None)"] by (auto simp: return_values_of_def split: prod.splits)

lemma executed_good:
  assumes "execute_parameter_rows dr ho ps o_rows cc = (Ok resp, cc')" "RV_ResultSet rs \<in> set resp"
  shows "good_irv (Some (ps_statement_id ps)) (IRV_ResultSet rs)"
proof -
  obtain reply cc1 irvs cc2 where "ps_send dr ps (execute_rows_request (ps_statement_id ps) o_rows) cc = (Ok reply, cc1)"
    "return_values_of (rp_parts reply) cc1 = (Ok irvs, cc2)"
    "hdb_response_try_new (inject_ids (ps_statement_id ps) irvs) (rp_replytype reply) = Ok resp"
    using assms(1) unfolding execute_parameter_rows_def build_response_def consume_def
    by (elim st_bind_cases) (auto intro: that)
  then show ?thesis using response_good [OF _ inject_ids_good assms(2)] return_values_of_good ps_send_good
    by (metis good_reply_def)
qed

lemma queried_good:
  assumes "conn_execute dr ho stmt o_ci cc = (Ok resp, cc')" "RV_ResultSet rs \<in> set resp"
  shows "good_irv None (IRV_ResultSet rs)"
proof -
  obtain reply cc1 irvs cc2 where "send dr (execute_request (cc_fetch_size cc) o_ci stmt) cc = (Ok reply, cc1)"
    "return_values_of (rp_parts reply) cc1 = (Ok irvs, cc2)"
    "hdb_response_try_new irvs (rp_replytype reply) = Ok resp"
    using assms(1) unfolding conn_execute_def build_response_def consume_def
    by (elim st_bind_cases) (auto intro: that)
  then show ?thesis using response_good [OF _ _ assms(2)] return_values_of_good send_good
    by (metis good_reply_def)
qed

section \<open>Advancing a result set\<close>

lemma state_of_simps:
  "state_of i o_ps st \<Longrightarrow> state_of i o_ps (st\<lparr>rss_core := None\<rparr>)"
  "state_of i o_ps st \<Longrightarrow> rss_next_rows st = r # rs \<Longrightarrow> row_of i r \<and> state_of i o_ps (st\<lparr>rss_next_rows := [], rss_row_iter := rs\<rparr>)"
  "state_of i o_ps st \<Longrightarrow> rss_row_iter st = r # rs \<Longrightarrow> row_of i r \<and> state_of i o_ps (st\<lparr>rss_row_iter := rs\<rparr>)"
  "state_of i o_ps st \<Longrightarrow> state_of i o_ps (st\<lparr>rss_next_rows := [], rss_row_iter := []\<rparr>)"
  by (auto simp: state_of_def state_rows_def)

lemma fetch_next_state:
  assumes "rs_fetch_next dr ho md (cc, st) = (r, (cc', st'))" "state_of i o_ps st"
  shows "state_of i o_ps st'"
proof (cases "rss_core st")
  case (Some core)
  obtain x cc1 o_st where x: "full_send dr (fetch_next_request (rsc_resultset_id core) (cc_fetch_size cc)) (Some md) None
      (cc, Some st) = (x, (cc1, o_st))" by (metis prod.exhaust)
  have "good_state i o_ps o_st" using full_send_good [OF x] assms(2) by (simp add: good_state_def)
  then have "state_of i o_ps (case o_st of Some s \<Rightarrow> s | None \<Rightarrow> st)"
    using assms(2) by (simp add: good_state_def split: option.split)
  then show ?thesis using assms(1)
    by (auto simp: rs_fetch_next_def Some x Let_def state_of_simps(1) split: res.splits option.splits if_splits)
qed (use assms in \<open>simp add: rs_fetch_next_def\<close>)

lemma next_row_state:
  assumes "rs_next_row dr ho md (cc, st) = (r, (cc', st'))" "state_of i o_ps st"
  shows "state_of i o_ps st' \<and> (\<forall>row. r = Ok (Some row) \<longrightarrow> row_of i row)"
proof -
  have swap: "state_of i o_ps s' \<and> (\<forall>row. x = Ok (Some row) \<longrightarrow> row_of i row)"
    if "rs_swap_rows (c, s) = (x, (c', s'))" "state_of i o_ps s" for c s x c' s'
    using that by (cases "rss_next_rows s") (auto simp: rs_swap_rows_def dest: state_of_simps(2,4))
  show ?thesis
  proof (cases "rss_row_iter st")
    case Nil
    show ?thesis
    proof (cases "rss_next_rows st = [] \<and> rs_is_complete st = Ok False")
      case True
      obtain y c s where y: "rs_fetch_next dr ho md (cc, st) = (y, (c, s))" by (metis prod.exhaust)
      then show ?thesis using assms Nil True fetch_next_state [OF y assms(2)] swap [of c s]
        by (cases y) (auto simp: rs_next_row_def st_bind_def)
    next
      case False
      then show ?thesis using assms Nil swap [of cc st]
        by (auto simp: rs_next_row_def split: if_splits res.splits bool.splits)
    qed
  next
    case (Cons row rows)
    then show ?thesis using assms state_of_simps(3) [OF assms(2) Cons] by (auto simp: rs_next_row_def)
  qed
qed

section \<open>Origins\<close>

text \<open>\<open>origin dr i o_ps st\<close>: the state of a result set that the server has sent with the id \<open>i\<close>, as a direct
  execution (\<open>o_ps = None\<close>) or an execution of the statement with the id in \<open>o_ps\<close> has returned it, or as
  calls of \<^verbatim>\<open>next_row\<close> have left it. Other holders and the state of the connection are arbitrary.\<close>

inductive origin :: "'n driver \<Rightarrow> u64 \<Rightarrow> u64 option \<Rightarrow> rs_state \<Rightarrow> bool" for dr where
  queried: "conn_execute dr ho stmt o_ci cc = (Ok (resp :: unit hdb_response), cc') \<Longrightarrow>
    RV_ResultSet rs \<in> set resp \<Longrightarrow> rss_core (rs_state rs) = Some core \<Longrightarrow>
    origin dr (rsc_resultset_id core) None (rs_state rs)"
| executed: "execute_parameter_rows dr ho ps o_rows cc = (Ok (resp :: unit hdb_response), cc') \<Longrightarrow>
    RV_ResultSet rs \<in> set resp \<Longrightarrow> rss_core (rs_state rs) = Some core \<Longrightarrow>
    origin dr (rsc_resultset_id core) (Some (ps_statement_id ps)) (rs_state rs)"
| advanced: "origin dr i o_ps st \<Longrightarrow> rs_next_row dr ho md (cc, st) = (r, (cc', st')) \<Longrightarrow> origin dr i o_ps st'"

text \<open>A LOB in a row that such a result set delivers.\<close>

definition lob_origin :: "'n driver \<Rightarrow> u64 \<Rightarrow> u64 option \<Rightarrow> hdb_value \<Rightarrow> bool" where
  "lob_origin dr i o_ps v \<longleftrightarrow> is_lob v \<and> (\<exists>st ho md cc row cc' st'. origin dr i o_ps st \<and>
     rs_next_row dr ho md (cc, st) = (Ok (Some row), (cc', st')) \<and> v \<in> set (row_value_iter row))"

text \<open>A core of a result set; the attributes may have changed since, when packets were fetched.\<close>

definition core_origin :: "'n driver \<Rightarrow> u64 \<Rightarrow> u64 option \<Rightarrow> rs_core \<Rightarrow> bool" where
  "core_origin dr i o_ps core \<longleftrightarrow> (\<exists>st core0. origin dr i o_ps st \<and> rss_core st = Some core0 \<and>
     core = core0\<lparr>rsc_attributes := rsc_attributes core\<rparr>)"

theorem origin_state: "origin dr i o_ps st \<Longrightarrow> state_of i o_ps st"
proof (induction rule: origin.induct)
  case (queried ho stmt o_ci cc resp cc' rs core)
  then show ?case using queried_good by (fastforce simp: good_irv_def)
next
  case (executed ho ps o_rows cc resp cc' rs core)
  then show ?case using executed_good by (fastforce simp: good_irv_def)
next
  case (advanced i o_ps st ho md cc r cc' st')
  then show ?case using next_row_state by blast
qed

theorem lob_origin_refers: "lob_origin dr i o_ps v \<Longrightarrow> value_rs v = Some i"
  using next_row_state [OF _ origin_state]
  by (fastforce simp: lob_origin_def row_of_def value_of_def list_all_iff)

theorem core_origin_fields: "core_origin dr i o_ps core \<Longrightarrow> rsc_resultset_id core = i \<and> rsc_pscore core = o_ps"
  using origin_state unfolding core_origin_def state_of_def
  by (metis rs_core.surjective rs_core.update_convs(2) rs_core.select_convs(1,3))

end
