(* ===== verification/Hdb_Handles.thy ===== *)
theory Hdb_Handles
  imports Hdb_Api Hdb_Origin
begin

text \<open>
  Giving up the client's handles. Connections, prepared statements, result sets and LOBs share the cores
  of the connection (conn/am\_conn\_core.rs), of prepared statements (sync\_prepared\_statement.rs) and of
  result sets (protocol/parts/resultset.rs) by reference counting; a core that loses its last reference
  tells the server in its \<^verbatim>\<open>drop\<close> and then gives up the references it holds itself. Here the references
  are read off the data of the handles, so that the record \<open>holders\<close> of the other theories is computed,
  and the messages are those that the drops of the other theories write to a server that takes notes.

  What the server has to be told is stated independently, from the \<open>origin\<close> of the handles: which call has
  returned a result set, and from which result set a LOB was read.
\<close>

section \<open>Handles and their references\<close>

text \<open>A connection (or a clone of it, or a resource manager), a prepared statement, a result set, a LOB.\<close>

datatype handle = H_Connection | H_Statement prepared_statement | H_ResultSet rs_state | H_Lob hdb_value

text \<open>The cores of result sets a handle refers to, by their ids: a result set to its core until it is
  complete, a LOB handle to the core it was read with; a result set owns the LOBs in the rows that it has
  not delivered. Statements are considered here without LOBs in their batch (see \<open>estate\<close>).\<close>

definition core_refs :: "handle \<Rightarrow> u64 list" where
  "core_refs h =
     (case h of
        H_ResultSet st \<Rightarrow>
          (case rss_core st of Some core \<Rightarrow> [rsc_resultset_id core] | None \<Rightarrow> [])
          @ [i. r \<leftarrow> state_rows st, v \<leftarrow> row_value_iter r, Some i \<leftarrow> [value_rs v]]
      | H_Lob v \<Rightarrow> (case value_rs v of Some i \<Rightarrow> [i] | None \<Rightarrow> [])
      | _ \<Rightarrow> [])"

definition refers_ps :: "(u64 \<Rightarrow> rs_core option) \<Rightarrow> u64 \<Rightarrow> handle \<Rightarrow> bool" where
  "refers_ps cores p h \<longleftrightarrow>
     (case h of H_Statement ps \<Rightarrow> ps_statement_id ps = p | _ \<Rightarrow> False)
     \<or> list_ex (\<lambda>i. case cores i of Some core \<Rightarrow> rsc_pscore core = Some p | None \<Rightarrow> False) (core_refs h)"

text \<open>\<open>cores\<close> are the shared cores of result sets. Those that nothing refers to are gone.\<close>

definition holders_of :: "(u64 \<Rightarrow> rs_core option) \<Rightarrow> handle list \<Rightarrow> holders" where
  "holders_of cores hs = \<lparr>ho_rscore = \<lambda>i. list_ex (\<lambda>h. i \<in> set (core_refs h)) hs,
     ho_pscore = \<lambda>p. list_ex (refers_ps cores p) hs\<rparr>"

text \<open>The core of the connection is shared by connections, statements, cores of result sets and LOBs.\<close>

definition refers_conn :: "handle \<Rightarrow> bool" where
  "refers_conn h \<longleftrightarrow> (case h of H_ResultSet st \<Rightarrow> core_refs h \<noteq> [] | _ \<Rightarrow> True)"

section \<open>Dropping handles\<close>

text \<open>One of the references to a core of a result set is given up, or all that a result set has.\<close>

definition release_core ::
    "'n driver \<Rightarrow> holders \<Rightarrow> (u64 \<Rightarrow> rs_core option) \<Rightarrow> u64 list \<Rightarrow> 'n conn_core \<Rightarrow> 'n conn_core" where
  "release_core dr ho cores is cc =
     (case is of
        [] \<Rightarrow> cc
      | i # _ \<Rightarrow> (case cores i of Some core \<Rightarrow> rs_core_release dr ho core cc | None \<Rightarrow> cc))"

text \<open>\<open>rest\<close> are the handles that are still alive.\<close>

definition give_up_cores ::
    "'n driver \<Rightarrow> (u64 \<Rightarrow> rs_core option) \<Rightarrow> handle list \<Rightarrow> handle \<Rightarrow> 'n conn_core \<Rightarrow> 'n conn_core" where
  "give_up_cores dr cores rest h cc =
     (let ho = holders_of cores rest
      in case h of
           H_Connection \<Rightarrow> cc
         | H_Statement ps \<Rightarrow> prepared_statement_drop dr ho ps cc
         | H_ResultSet st \<Rightarrow>
             (case rss_core st of
                Some _ \<Rightarrow> result_set_drop dr ho st cc
              | None \<Rightarrow> release_core dr ho cores (core_refs h) cc)
         | H_Lob v \<Rightarrow> release_core dr ho cores (core_refs h) cc)"

definition drop_handle ::
    "'n driver \<Rightarrow> (u64 \<Rightarrow> rs_core option) \<Rightarrow> handle list \<Rightarrow> handle \<Rightarrow> 'n conn_core \<Rightarrow> 'n conn_core" where
  "drop_handle dr cores rest h cc =
     (let cc1 = give_up_cores dr cores rest h cc
      in if refers_conn h \<and> \<not> list_ex refers_conn rest then conn_core_drop dr cc1 else cc1)"

fun drop_handles ::
    "'n driver \<Rightarrow> (u64 \<Rightarrow> rs_core option) \<Rightarrow> handle list \<Rightarrow> handle list \<Rightarrow> 'n conn_core \<Rightarrow> 'n conn_core" where
  "drop_handles dr cores kept [] cc = cc"
| "drop_handles dr cores kept (h # hs) cc =
     drop_handles dr cores kept hs (drop_handle dr cores (hs @ kept) h cc)"

section \<open>What the server has to be told\<close>

datatype message = Close_ResultSet u64 | Drop_Statement u64 | Disconnect | Other_Message

text \<open>The request type is in the segment header, the id is the body of the first part.\<close>

definition sent_message :: "bytes \<Rightarrow> message" where
  "sent_message msg =
     (let body = (case read_u64 (drop 72 msg) of Ok (i, _) \<Rightarrow> i | _ \<Rightarrow> 0)
      in if msg ! 45 = 69 then Close_ResultSet body
         else if msg ! 45 = 70 then Drop_Statement body
         else if msg ! 45 = 77 then Disconnect
         else Other_Message)"

text \<open>A server that takes notes and acknowledges every request with a reply without parts.\<close>

definition acknowledgement :: bytes where
  "acknowledgement =
     write_i64 0 @ write_i32 1 @ write_u32 0 @ write_u32 0 @ write_i16 1 @ replicate 10 0
     @ write_i32 0 @ write_i32 0 @ write_i16 0 @ write_i16 1 @ [2] @ [0] @ write_i16 0 @ replicate 8 0"

definition recorder :: "bytes list server" where
  "recorder msg log = (acknowledgement, log @ [msg])"

text \<open>What a handle stands for: the result set it is or came from, the statement whose execution has
  returned that result set (or that it is), the connection.\<close>

type_synonym stands_for = "u64 option \<times> u64 option \<times> bool"

text \<open>A handle with the id of the result set that it is or was read from; \<open>owner\<close> says which statement was
  executed to get a result set. A result set that is complete and has delivered its LOBs stands for
  nothing any more.\<close>

definition label :: "(u64 \<Rightarrow> u64 option) \<Rightarrow> handle \<times> u64 \<Rightarrow> stands_for" where
  "label owner x =
     (case x of
        (H_Connection, _) \<Rightarrow> (None, None, True)
      | (H_Statement ps, _) \<Rightarrow> (None, Some (ps_statement_id ps), True)
      | (H_ResultSet st, i) \<Rightarrow>
          if rss_core st = None \<and> \<not> list_ex (\<lambda>r. list_ex is_lob (row_value_iter r)) (state_rows st)
          then (None, None, False) else (Some i, owner i, True)
      | (H_Lob _, i) \<Rightarrow> (Some i, owner i, True))"

text \<open>When handles are given up one after the other, those for \<open>kept\<close> remaining: with the last handle for a
  result set it is closed, unless the server has closed it; with the last handle for a statement it is
  dropped; with the last handle at all the connection is closed.\<close>

fun announced :: "(u64 \<Rightarrow> bool) \<Rightarrow> stands_for list \<Rightarrow> stands_for list \<Rightarrow> message list" where
  "announced closed kept [] = []"
| "announced closed kept ((o_rs, o_ps, conn) # ls) =
     (case o_rs of None \<Rightarrow> [] | Some i \<Rightarrow>
        if o_rs \<in> fst ` set (ls @ kept) \<or> closed i then [] else [Close_ResultSet i])
     @ (case o_ps of None \<Rightarrow> [] | Some p \<Rightarrow>
        if o_ps \<in> (fst \<circ> snd) ` set (ls @ kept) then [] else [Drop_Statement p])
     @ (if conn \<and> True \<notin> (snd \<circ> snd) ` set (ls @ kept) then [Disconnect] else [])
     @ announced closed kept ls"

text \<open>The handles of a client: every result set was returned by the execution of its owner, every LOB was
  read from its result set and was not put into the batch of a statement, and \<open>cores\<close> holds the cores as
  they are now.\<close>

definition estate ::
    "'m driver \<Rightarrow> (u64 \<Rightarrow> u64 option) \<Rightarrow> (u64 \<Rightarrow> rs_core option) \<Rightarrow> (handle \<times> u64) list \<Rightarrow> bool" where
  "estate dr owner cores xs \<longleftrightarrow> (\<forall>(h, i) \<in> set xs.
     (case h of
        H_ResultSet st \<Rightarrow> origin dr i (owner i) st \<and> (\<forall>core. rss_core st = Some core \<longrightarrow> cores i = Some core)
      | H_Lob v \<Rightarrow> lob_origin dr i (owner i) v
      | H_Statement ps \<Rightarrow> \<not> list_ex (list_ex is_lob) (ps_batch ps)
      | H_Connection \<Rightarrow> True)
     \<and> (core_refs h \<noteq> [] \<longrightarrow> (\<exists>core. cores i = Some core \<and> core_origin dr i (owner i) core)))"

definition closed_by_server :: "(u64 \<Rightarrow> rs_core option) \<Rightarrow> u64 \<Rightarrow> bool" where
  "closed_by_server cores i = (case cores i of Some core \<Rightarrow> resultset_is_closed (rsc_attributes core) | None \<Rightarrow> True)"

text \<open>What is announced is announced once: a result set and a statement if there was a handle for it and none
  is kept, and the end of the connection if there was a handle that needs it and none is kept.\<close>

lemma announced_close_once:
  "count_list (announced closed kept ls) (Close_ResultSet i) =
     (if Some i \<in> fst ` set ls \<and> Some i \<notin> fst ` set kept \<and> \<not> closed i then 1 else 0)"
proof (induction ls)
  case (Cons x ls)
  obtain r s c where x: "x = (r, s, c)" by (cases x)
  define A K where "A = fst ` set ls" and "K = fst ` set kept"
  then have sets: "fst ` set (ls @ kept) = A \<union> K" "fst ` set ((r, s, c) # ls) = insert r A"
    by (simp_all add: image_Un)
  show ?case
    using Cons unfolding x announced.simps sets A_def [symmetric] K_def [symmetric]
    by (auto simp: count_list_append split: option.split)
qed simp

lemma announced_drop_once:
  "count_list (announced closed kept ls) (Drop_Statement p) =
     (if Some p \<in> (fst \<circ> snd) ` set ls \<and> Some p \<notin> (fst \<circ> snd) ` set kept then 1 else 0)"
proof (induction ls)
  case (Cons x ls)
  obtain r s c where x: "x = (r, s, c)" by (cases x)
  define A K where "A = (fst \<circ> snd) ` set ls" and "K = (fst \<circ> snd) ` set kept"
  then have sets: "(fst \<circ> snd) ` set (ls @ kept) = A \<union> K" "(fst \<circ> snd) ` set ((r, s, c) # ls) = insert s A"
    by (simp_all add: image_Un)
  show ?case
    using Cons unfolding x announced.simps sets A_def [symmetric] K_def [symmetric]
    by (auto simp: count_list_append split: option.split)
qed simp

lemma announced_disconnect_once:
  "count_list (announced closed kept ls) (Disconnect) =
     (if True \<in> (snd \<circ> snd) ` set ls \<and> True \<notin> (snd \<circ> snd) ` set kept then 1 else 0)"
proof (induction ls)
  case (Cons x ls)
  obtain r s c where x: "x = (r, s, c)" by (cases x)
  define A K where "A = (snd \<circ> snd) ` set ls" and "K = (snd \<circ> snd) ` set kept"
  then have sets: "(snd \<circ> snd) ` set (ls @ kept) = A \<union> K" "(snd \<circ> snd) ` set ((r, s, c) # ls) = insert c A"
    by (simp_all add: image_Un)
  show ?case
    using Cons unfolding x announced.simps sets A_def [symmetric] K_def [symmetric]
    by (auto simp: count_list_append split: option.split)
qed simp


section \<open>The references are those of the origins\<close>

lemma lob_refs:
  assumes "list_all (row_of i) rs"
  shows "set [j. r \<leftarrow> rs, v \<leftarrow> row_value_iter r, Some j \<leftarrow> [value_rs v]] =
    (if list_ex (\<lambda>r. list_ex is_lob (row_value_iter r)) rs then {i} else {})"
proof -
  have "set [j. v \<leftarrow> vs, Some j \<leftarrow> [value_rs v]] = (if list_ex is_lob vs then {i} else {})"
    if "list_all (value_of i) vs" for vs
    using that by (induction vs) (auto simp: value_of_def)
  then show ?thesis using assms by (induction rs) (auto simp: row_of_def)
qed

lemma estate_refs:
  assumes "estate dr owner cores xs" "(h, i) \<in> set xs"
  shows "label owner (h, i) =
    (case h of H_Statement ps \<Rightarrow> (None, Some (ps_statement_id ps), True)
     | H_Connection \<Rightarrow> (None, None, True)
     | _ \<Rightarrow> if core_refs h = [] then (None, None, False) else (Some i, owner i, True))"
    and "set (core_refs h) \<subseteq> {i}"
proof -
  have e: "case h of H_ResultSet st \<Rightarrow> origin dr i (owner i) st | H_Lob v \<Rightarrow> lob_origin dr i (owner i) v | _ \<Rightarrow> True"
    using assms by (fastforce simp: estate_def split: handle.splits)
  have "label owner (h, i) =
    (case h of H_Statement ps \<Rightarrow> (None, Some (ps_statement_id ps), True)
     | H_Connection \<Rightarrow> (None, None, True)
     | _ \<Rightarrow> if core_refs h = [] then (None, None, False) else (Some i, owner i, True)) \<and> set (core_refs h) \<subseteq> {i}"
  proof (cases h)
    case (H_ResultSet st)
    then have st: "state_of i (owner i) st" using e origin_state by auto
    define refs where "refs = [j. r \<leftarrow> state_rows st, v \<leftarrow> row_value_iter r, Some j \<leftarrow> [value_rs v]]"
    have refs: "set refs = (if list_ex (\<lambda>r. list_ex is_lob (row_value_iter r)) (state_rows st) then {i} else {})"
      using st lob_refs [of i "state_rows st"] unfolding refs_def by (simp add: state_of_def)
    have "core_refs h = (case rss_core st of Some core \<Rightarrow> [i] | None \<Rightarrow> []) @ refs"
      using st by (auto simp: core_refs_def H_ResultSet refs_def state_of_def split: option.split)
    then show ?thesis using refs
      by (cases "rss_core st"; cases refs) (auto simp: label_def H_ResultSet split: if_splits)
  next
    case (H_Lob v)
    then have "value_rs v = Some i" using e lob_origin_refers by auto
    then show ?thesis by (simp add: H_Lob core_refs_def label_def)
  qed (simp_all add: core_refs_def label_def)
  then show "label owner (h, i) =
    (case h of H_Statement ps \<Rightarrow> (None, Some (ps_statement_id ps), True)
     | H_Connection \<Rightarrow> (None, None, True)
     | _ \<Rightarrow> if core_refs h = [] then (None, None, False) else (Some i, owner i, True))"
    and "set (core_refs h) \<subseteq> {i}" by simp_all
qed

lemma estate_label:
  assumes "estate dr owner cores xs" "(h, i) \<in> set xs"
  shows "refers_conn h \<longleftrightarrow> snd (snd (label owner (h, i)))"
    and "j \<in> set (core_refs h) \<longleftrightarrow> fst (label owner (h, i)) = Some j"
    and "refers_ps cores p h \<longleftrightarrow> fst (snd (label owner (h, i))) = Some p"
proof -
  note r = estate_refs [OF assms]
  have core: "core_refs h \<noteq> [] \<Longrightarrow> \<exists>core. cores i = Some core \<and> rsc_pscore core = owner i"
    using assms core_origin_fields by (fastforce simp: estate_def)
  have refs: "set (core_refs h) = (if core_refs h = [] then {} else {i})"
    using r(2) by (cases "core_refs h") auto
  have ps: "list_ex (\<lambda>i. case cores i of Some core \<Rightarrow> rsc_pscore core = Some p | None \<Rightarrow> False) (core_refs h)
      \<longleftrightarrow> core_refs h \<noteq> [] \<and> owner i = Some p"
    using refs core by (auto simp: list_ex_iff split: if_splits)
  have lob: "core_refs (H_Lob v) \<noteq> []" if "h = H_Lob v" for v
    using assms lob_origin_refers that by (fastforce simp: estate_def core_refs_def)
  show "refers_conn h \<longleftrightarrow> snd (snd (label owner (h, i)))"
    unfolding r(1) using lob by (cases h) (simp_all add: refers_conn_def)
  show "j \<in> set (core_refs h) \<longleftrightarrow> fst (label owner (h, i)) = Some j"
    unfolding r(1) refs by (cases h) (auto simp: core_refs_def)
  show "refers_ps cores p h \<longleftrightarrow> fst (snd (label owner (h, i))) = Some p"
    unfolding r(1) refers_ps_def ps by (cases h) (auto simp: core_refs_def)
qed

lemma estate_holders:
  assumes "estate dr owner cores xs"
  shows "list_ex refers_conn (map fst xs) \<longleftrightarrow> True \<in> (snd \<circ> snd) ` set (map (label owner) xs)"
    and "ho_rscore (holders_of cores (map fst xs)) j \<longleftrightarrow> Some j \<in> fst ` set (map (label owner) xs)"
    and "ho_pscore (holders_of cores (map fst xs)) p \<longleftrightarrow> Some p \<in> (fst \<circ> snd) ` set (map (label owner) xs)"
proof -
  note l = estate_label [OF assms]
  show "list_ex refers_conn (map fst xs) \<longleftrightarrow> True \<in> (snd \<circ> snd) ` set (map (label owner) xs)"
    using l(1) by (force simp: list_ex_iff image_iff)
  show "ho_rscore (holders_of cores (map fst xs)) j \<longleftrightarrow> Some j \<in> fst ` set (map (label owner) xs)"
    using l(2) by (force simp: holders_of_def list_ex_iff image_iff)
  show "ho_pscore (holders_of cores (map fst xs)) p \<longleftrightarrow> Some p \<in> (fst \<circ> snd) ` set (map (label owner) xs)"
    using l(3) by (force simp: holders_of_def list_ex_iff image_iff)
qed

section \<open>The messages\<close>

definition noted :: "nat \<Rightarrow> bytes list \<Rightarrow> (bytes list \<times> bytes) conn_core \<Rightarrow> bool" where
  "noted n log cc \<longleftrightarrow> idle n cc \<and> cc_authenticated cc \<and> server_state cc = log"

lemma noted_less: "noted n log cc \<Longrightarrow> m \<le> n \<Longrightarrow> noted m log cc"
  by (auto simp: noted_def idle_def)

lemma acknowledged: "reply_parse c8 nl None None None True acknowledgement =
    Ok ((\<lparr>rp_session_id = 0, rp_replytype = RT_Nil, rp_parts = []\<rparr>, None), [])"
  by (simp add: reply_parse_def acknowledgement_def parse_message_and_sequence_header_def rd_simps
      seg_kind_from_i8_def skip_bytes_append [of "[0]" 1, simplified]
      skip_bytes_append [of "replicate 8 0" 8 "[]", simplified] reply_type_from_i16_def reply_new_def)

lemma id_request_bytes:
  "request_emit c8 nl sid nsn ac None (request_push (P_ResultSetId i) (request_new t 0)) =
    Ok (message_header sid nsn 48 48 @ segment_header 48 1 t ac 0
      @ ([13, 0] @ (write_i16 1 @ write_i32 0) @ write_i32 8 @ write_i32 24) @ write_u64 i)"
  "request_emit c8 nl sid nsn ac None (request_push (P_StatementId i) (request_new t 0)) =
    Ok (message_header sid nsn 48 48 @ segment_header 48 1 t ac 0
      @ ([10, 0] @ (write_i16 1 @ write_i32 0) @ write_i32 8 @ write_i32 24) @ write_u64 i)"
  "request_emit c8 nl sid nsn ac None (request_new t 0) = Ok (message_header sid nsn 24 24 @ segment_header 24 0 t ac 0)"
  by (simp_all add: request_emit_def request_push_def request_new_def varpart_size_def seg_size_def
      part_size_def part_body_size_def part_raw_size_def padsize_def part_emit_def part_count_def
      part_header_count_def sub_u32_def part_emit_body_def part_emit_raw_def)

lemma sent_message_bytes:
  assumes "bs = message_header sid nsn v v @ segment_header w k t ac 0 @ part @ write_u64 i" "length part = 16"
  shows "sent_message bs = (if request_type_as_i8 t = 69 then Close_ResultSet i
    else if request_type_as_i8 t = 70 then Drop_Statement i
    else if request_type_as_i8 t = 77 then Disconnect else Other_Message)"
proof -
  have "bs ! 45 = request_type_as_i8 t"
    by (simp add: assms(1) nth_append segment_header_def)
  moreover have "drop 72 bs = write_u64 i" by (simp add: assms)
  moreover have "read_u64 (write_u64 i) = Ok (i, [])" using read_write(3) [of i "[]"] by simp
  ultimately show ?thesis by (simp add: sent_message_def Let_def)
qed

lemma disconnect_message:
  "sent_message (message_header sid nsn v v @ segment_header w k RQ_Disconnect ac 0) = Disconnect"
  by (simp add: sent_message_def nth_append segment_header_def Let_def)

lemma recorded_send:
  assumes "noted (Suc n) log cc" "rq_type r \<noteq> RQ_Authenticate"
    and "request_emit (dr_c8 dr) (dr_nl dr) (cc_session_id cc) (cc_seq_number cc + 1) (cc_auto_commit cc) None r = Ok bs"
  shows "noted n (log @ [bs]) (snd (send (serving_driver dr recorder) r cc))"
proof -
  have idle: "idle (Suc n) cc" using assms(1) by (simp add: noted_def)
  have "send (serving_driver dr recorder) r cc =
      (Ok \<lparr>rp_session_id = 0, rp_replytype = RT_Nil, rp_parts = []\<rparr>, served (log @ [bs]) cc)"
    by (rule served_send [OF idle assms(2,3) _ acknowledged]) (use assms(1) in \<open>simp_all add: recorder_def noted_def\<close>)
  then show ?thesis using assms(1) idle_served [OF idle] by (simp add: noted_def) (simp add: served_def)
qed

lemma id_message:
  "\<exists>bs. request_emit c8 nl sid nsn ac None (request_push (P_ResultSetId i) (request_new RQ_CloseResultSet 0)) = Ok bs
    \<and> sent_message bs = Close_ResultSet i"
  "\<exists>bs. request_emit c8 nl sid nsn ac None (request_push (P_StatementId i) (request_new RQ_DropStatementId 0)) = Ok bs
    \<and> sent_message bs = Drop_Statement i"
  subgoal unfolding id_request_bytes by (intro exI conjI, rule refl) (subst sent_message_bytes [OF refl], simp_all)
  subgoal unfolding id_request_bytes by (intro exI conjI, rule refl) (subst sent_message_bytes [OF refl], simp_all)
  done

lemma statement_dropped:
  assumes "noted (Suc n) log cc"
  shows "\<exists>m. noted n (log @ [m]) (ps_core_drop (serving_driver dr recorder) p cc) \<and> sent_message m = Drop_Statement p"
proof -
  obtain bs where bs: "request_emit (dr_c8 dr) (dr_nl dr) (cc_session_id cc) (cc_seq_number cc + 1) (cc_auto_commit cc) None
      (request_push (P_StatementId p) (request_new RQ_DropStatementId 0)) = Ok bs" "sent_message bs = Drop_Statement p"
    using id_message(2) by blast
  have "noted n (log @ [bs]) (ps_core_drop (serving_driver dr recorder) p cc)"
    unfolding ps_core_drop_def by (rule recorded_send [OF assms _ bs(1)]) (simp add: request_push_def request_new_def)
  then show ?thesis using bs(2) by blast
qed

lemma result_set_closed:
  assumes "noted (Suc n) log cc" "\<not> resultset_is_closed (rsc_attributes core)"
  shows "\<exists>m. noted n (log @ [m]) (rs_core_drop (serving_driver dr recorder) core cc)
    \<and> sent_message m = Close_ResultSet (rsc_resultset_id core)"
proof -
  obtain bs where bs: "request_emit (dr_c8 dr) (dr_nl dr) (cc_session_id cc) (cc_seq_number cc + 1) (cc_auto_commit cc) None
      (request_push (P_ResultSetId (rsc_resultset_id core)) (request_new RQ_CloseResultSet 0)) = Ok bs"
    "sent_message bs = Close_ResultSet (rsc_resultset_id core)"
    using id_message(1) by blast
  have "noted n (log @ [bs]) (snd (send (serving_driver dr recorder)
      (request_push (P_ResultSetId (rsc_resultset_id core)) (request_new RQ_CloseResultSet 0)) cc))"
    by (rule recorded_send [OF assms(1) _ bs(1)]) (simp add: request_push_def request_new_def)
  then show ?thesis using bs(2) assms(2) by (auto simp: rs_core_drop_def)
qed

lemma connection_closed:
  assumes "noted (Suc n) log cc"
  shows "\<exists>m. server_state (conn_core_drop (serving_driver dr recorder) cc) = log @ [m] \<and> sent_message m = Disconnect"
proof -
  have "cc_seq_number cc \<noteq> 0x7FFFFFFF" using assms by (auto simp: noted_def idle_def)
  then show ?thesis using assms
    by (cases "cc_tcp cc") (auto simp: noted_def conn_core_drop_def st_bind_def next_seq_number_def Let_def on_tcp_def
        net_send_def serving_network_def request_new_for_disconnect_def id_request_bytes(3) recorder_def
        server_state_def disconnect_message)
qed

lemma core_released:
  assumes "noted (n + 2) log cc"
  shows "\<exists>ms. noted n (log @ ms) (rs_core_release (serving_driver dr recorder) ho core cc) \<and>
    map sent_message ms =
      (if ho_rscore ho (rsc_resultset_id core) then []
       else (if resultset_is_closed (rsc_attributes core) then [] else [Close_ResultSet (rsc_resultset_id core)])
         @ (case rsc_pscore core of None \<Rightarrow> [] | Some p \<Rightarrow> if ho_pscore ho p then [] else [Drop_Statement p]))"
proof (cases "ho_rscore ho (rsc_resultset_id core)")
  case True
  then show ?thesis using noted_less [OF assms, of n] by (intro exI [of _ "[]"]) (simp add: rs_core_release_def)
next
  case False
  let ?cc = "rs_core_drop (serving_driver dr recorder) core cc"
  obtain ms where ms: "noted (Suc n) (log @ ms) ?cc"
    "map sent_message ms = (if resultset_is_closed (rsc_attributes core) then [] else [Close_ResultSet (rsc_resultset_id core)])"
  proof (cases "resultset_is_closed (rsc_attributes core)")
    case True
    then show ?thesis using that [of "[]"] noted_less [OF assms, of "Suc n"] by (simp add: rs_core_drop_def)
  next
    case False
    then obtain m where "noted (Suc n) (log @ [m]) ?cc" "sent_message m = Close_ResultSet (rsc_resultset_id core)"
      using result_set_closed [of "Suc n" log cc core dr] assms by auto
    then show ?thesis using that [of "[m]"] False by simp
  qed
  have keep: "noted n (log @ ms) ?cc" using noted_less [OF ms(1), of n] by simp
  show ?thesis
  proof (cases "\<exists>p. rsc_pscore core = Some p \<and> \<not> ho_pscore ho p")
    case True
    then obtain p where p: "rsc_pscore core = Some p" "\<not> ho_pscore ho p" by blast
    obtain m where "noted n ((log @ ms) @ [m]) (ps_core_drop (serving_driver dr recorder) p ?cc)"
      "sent_message m = Drop_Statement p" using statement_dropped [OF ms(1)] by blast
    then show ?thesis using False p ms(2)
      by (intro exI [of _ "ms @ [m]"]) (simp add: rs_core_release_def Let_def)
  next
    case none: False
    then show ?thesis using False ms(2) keep
      by (intro exI [of _ ms]) (auto simp: rs_core_release_def Let_def split: option.split)
  qed
qed

lemma label_owner: "fst (label owner x) = Some i \<Longrightarrow> fst (snd (label owner x)) = owner i"
  by (auto simp: label_def split: prod.splits handle.splits if_splits)

lemma release_core_hd:
  "is \<noteq> [] \<Longrightarrow> hd is = i \<Longrightarrow> cores i = Some core \<Longrightarrow> release_core dr ho cores is cc = rs_core_release dr ho core cc"
  by (cases "is") (auto simp: release_core_def)

lemma estate_core:
  assumes "estate dr owner cores xs" "(h, i) \<in> set xs" "core_refs h \<noteq> []"
  obtains core where "cores i = Some core" "rsc_resultset_id core = i" "rsc_pscore core = owner i"
    "hd (core_refs h) = i" "\<And>st c. h = H_ResultSet st \<Longrightarrow> rss_core st = Some c \<Longrightarrow> c = core"
proof -
  obtain core where core: "cores i = Some core" "core_origin dr i (owner i) core"
    using assms by (fastforce simp: estate_def)
  have "hd (core_refs h) = i" using estate_refs(2) [OF assms(1,2)] assms(3) by (cases "core_refs h") auto
  moreover have "c = core" if "h = H_ResultSet st" "rss_core st = Some c" for st c
    using assms(1,2) that core(1) by (fastforce simp: estate_def)
  ultimately show ?thesis using that core core_origin_fields [OF core(2)] by blast
qed

lemma cores_given_up:
  assumes estate: "estate dr0 owner cores ((h, i) # xs)" and conn: "refers_conn h" and cc: "noted (n + 2) log cc"
    and label: "label owner (h, i) = (o_rs, o_ps, c)"
  shows "\<exists>ms. noted n (log @ ms) (give_up_cores (serving_driver dr recorder) cores (map fst xs) h cc) \<and>
    map sent_message ms =
      (case o_rs of None \<Rightarrow> [] | Some i \<Rightarrow>
         if o_rs \<in> fst ` set (map (label owner) xs) \<or> closed_by_server cores i then [] else [Close_ResultSet i])
      @ (case o_ps of None \<Rightarrow> [] | Some p \<Rightarrow>
         if o_ps \<in> (fst \<circ> snd) ` set (map (label owner) xs) then [] else [Drop_Statement p])"
proof -
  have later: "estate dr0 owner cores xs" using estate by (simp add: estate_def)
  note held = estate_holders [OF later]
  note form = estate_refs(1) [OF estate, of h i, simplified, unfolded label]
  define ho where "ho = holders_of cores (map fst xs)"
  have "c" using estate_label(1) [OF estate, of h i] conn label by simp
  then consider (connection) "h = H_Connection" | (statement) ps where "h = H_Statement ps"
    | (refs) "core_refs h \<noteq> []" "(o_rs, o_ps) = (Some i, owner i)"
    using form by (cases h) (auto split: if_splits)
  then show ?thesis
  proof cases
    case connection
    then show ?thesis using noted_less [OF cc, of n] form
      by (intro exI [of _ "[]"]) (simp add: give_up_cores_def)
  next
    case (statement ps)
    show ?thesis
    proof (cases "ho_pscore ho (ps_statement_id ps)")
      case True
      then show ?thesis using noted_less [OF cc, of n] form statement held(3) [of "ps_statement_id ps"]
        by (intro exI [of _ "[]"]) (simp add: give_up_cores_def prepared_statement_drop_def Let_def ho_def)
    next
      case False
      obtain m where m: "noted n (log @ [m]) (ps_core_drop (serving_driver dr recorder) (ps_statement_id ps) cc)"
        "sent_message m = Drop_Statement (ps_statement_id ps)"
        using statement_dropped [OF noted_less [OF cc, of "Suc n"]] by auto
      then show ?thesis using False form statement held(3) [of "ps_statement_id ps"]
        by (intro exI [of _ "[m]"]) (simp add: give_up_cores_def prepared_statement_drop_def Let_def ho_def)
    qed
  next
    case refs
    obtain core where core: "cores i = Some core" "rsc_resultset_id core = i" "rsc_pscore core = owner i"
      "hd (core_refs h) = i" "\<And>st c. h = H_ResultSet st \<Longrightarrow> rss_core st = Some c \<Longrightarrow> c = core"
      using estate_core [OF estate, of h i] refs(1) by auto
    have rel: "give_up_cores (serving_driver dr recorder) cores (map fst xs) h cc =
        rs_core_release (serving_driver dr recorder) ho core cc"
      using release_core_hd [of "core_refs h" i cores core, OF refs(1) core(4,1)] core(5) refs(1)
      by (cases h) (auto simp: give_up_cores_def ho_def Let_def result_set_drop_def core_refs_def [of H_Connection]
          core_refs_def [of "H_Statement _"] split: option.split)
    have owned: "owner i \<in> (fst \<circ> snd) ` set (map (label owner) xs)" if "Some i \<in> fst ` set (map (label owner) xs)"
    proof -
      from that obtain x where x: "x \<in> set xs" "fst (label owner x) = Some i" by auto
      then have "(fst \<circ> snd) (label owner x) = owner i" using label_owner by simp
      then show ?thesis using x(1) by force
    qed
    define A where "A = fst ` set (map (label owner) xs)"
    define B where "B = (fst \<circ> snd) ` set (map (label owner) xs)"
    have held': "ho_rscore ho i = (Some i \<in> A)" "\<And>p. ho_pscore ho p = (Some p \<in> B)" "Some i \<in> A \<Longrightarrow> owner i \<in> B"
      using held(2,3) owned by (simp_all only: ho_def A_def B_def)
    have closed: "closed_by_server cores i = resultset_is_closed (rsc_attributes core)"
      by (simp add: closed_by_server_def core(1))
    have o: "o_rs = Some i" "o_ps = owner i" using refs(2) by simp_all
    show ?thesis
      using core_released [OF cc, of dr ho core] held'(3)
      unfolding rel core(2,3) held'(1,2) A_def [symmetric] B_def [symmetric] o closed
      by (cases "owner i"; cases "Some i \<in> A"; cases "resultset_is_closed (rsc_attributes core)") (simp_all add: closed)
  qed
qed

lemma drop_handles_messages:
  assumes "estate dr0 owner cores (order @ kept)" "server_state cc = log"
    and "list_ex refers_conn (map fst (order @ kept)) \<Longrightarrow> noted (3 * length order) log cc"
  shows "\<exists>ms. server_state (drop_handles (serving_driver dr recorder) cores (map fst kept) (map fst order) cc) = log @ ms
    \<and> map sent_message ms = announced (closed_by_server cores) (map (label owner) kept) (map (label owner) order)"
  using assms
proof (induction order arbitrary: log cc)
  case (Cons x order)
  obtain h i where x: "x = (h, i)" by (cases x)
  have estate: "estate dr0 owner cores ((h, i) # order @ kept)" using Cons.prems(1) by (simp add: x)
  have later: "estate dr0 owner cores (order @ kept)" using estate by (simp add: estate_def)
  obtain o_rs o_ps c where label: "label owner (h, i) = (o_rs, o_ps, c)" by (cases "label owner (h, i)")
  have c: "c \<longleftrightarrow> refers_conn h" using estate_label(1) [OF estate, of h i] label by simp
  note others = estate_holders(1) [OF later]
  let ?dr = "serving_driver dr recorder" and ?rest = "map fst (order @ kept)"
  let ?cc1 = "give_up_cores ?dr cores ?rest h cc" and ?cc' = "drop_handle ?dr cores ?rest h cc"
  show ?case
  proof (cases "refers_conn h")
    case True
    then have "noted ((3 * length order + 1) + 2) log cc" using Cons.prems(3) by (simp add: x numeral_3_eq_3)
    from cores_given_up [OF estate True this label, of dr] obtain ms where ms: "noted (3 * length order + 1) (log @ ms) ?cc1"
      "map sent_message ms = (case o_rs of None \<Rightarrow> [] | Some i \<Rightarrow>
         if o_rs \<in> fst ` set (map (label owner) (order @ kept)) \<or> closed_by_server cores i then [] else [Close_ResultSet i])
      @ (case o_ps of None \<Rightarrow> [] | Some p \<Rightarrow>
         if o_ps \<in> (fst \<circ> snd) ` set (map (label owner) (order @ kept)) then [] else [Drop_Statement p])" by blast
    obtain ms' where ms': "server_state ?cc' = log @ ms @ ms'"
      "map sent_message ms' = (if list_ex refers_conn ?rest then [] else [Disconnect])"
      "list_ex refers_conn ?rest \<Longrightarrow> noted (3 * length order) (log @ ms @ ms') ?cc'"
    proof (cases "list_ex refers_conn ?rest")
      case True
      then have "?cc' = ?cc1" by (simp add: drop_handle_def)
      then show ?thesis using that [of "[]"] True ms(1) noted_less [OF ms(1), of "3 * length order"]
        by (simp add: noted_def)
    next
      case False
      obtain m where "server_state (conn_core_drop ?dr ?cc1) = (log @ ms) @ [m]" "sent_message m = Disconnect"
        using connection_closed [of "3 * length order" "log @ ms" ?cc1 dr] ms(1) by auto
      then show ?thesis using that [of "[m]"] False True by (simp add: drop_handle_def)
    qed
    obtain ms'' where ms'': "server_state (drop_handles ?dr cores (map fst kept) (map fst order) ?cc') = (log @ ms @ ms') @ ms''"
      "map sent_message ms'' = announced (closed_by_server cores) (map (label owner) kept) (map (label owner) order)"
      using Cons.IH [OF later ms'(1)] ms'(3) by auto
    have told: "map sent_message ms' =
        (if True \<in> (snd \<circ> snd) ` set (map (label owner) (order @ kept)) then [] else [Disconnect])"
      unfolding ms'(2) others ..
    have "announced (closed_by_server cores) (map (label owner) kept) (map (label owner) (x # order)) =
        map sent_message (ms @ ms' @ ms'')"
      using c True by (simp only: x label ms(2) told ms''(2) list.map announced.simps map_append append_assoc simp_thms
          if_not_P if_P if_cancel cong: if_cong) simp
    then show ?thesis using ms''(1) by (intro exI [of _ "ms @ ms' @ ms''"]) (simp add: x)
  next
    case False
    then have l: "(o_rs, o_ps, c) = (None, None, False)"
      using estate_refs(1) [OF estate, of h i] label c by (cases h) (auto split: if_splits)
    obtain st where st: "h = H_ResultSet st" "core_refs (H_ResultSet st) = []"
      using False by (cases h) (auto simp: refers_conn_def)
    then have "rss_core st = None" by (auto simp: core_refs_def split: option.splits)
    then have "?cc1 = cc" by (simp add: st give_up_cores_def release_core_def)
    then have same: "?cc' = cc" using False by (simp add: drop_handle_def)
    have "list_ex refers_conn ?rest \<Longrightarrow> noted (3 * length order) log cc"
      using Cons.prems(3) noted_less [of _ log cc "3 * length order"] by (fastforce simp: x)
    from Cons.IH [OF later Cons.prems(2) this] show ?thesis using l by (simp add: x label same [unfolded map_append])
  qed
qed simp

section \<open>Giving up everything\<close>

text \<open>C13: What a server is told when a client gives up its handles, in any order and with any of them kept:
  connections, prepared statements (with no LOB handle in their batch), result sets (as an execution
  returned them or as \<^verbatim>\<open>next_row\<close> left them) and LOBs from their rows. With the last handle that is or was read from a result set, and not
  before, the result set is closed by one message, unless the server has already closed it; with the
  last handle that is a statement or goes back to an execution of it, and after the message for the
  result set, the statement is dropped by one message; with the last handle of all the connection is
  closed by one message. Nothing else is sent. To which result set and statement a handle goes back is
  recorded by the calls that have returned it, not read off its fields.\<close>

theorem server_resources_released:
  assumes "estate dr0 owner cores (order @ kept)" "idle (3 * length order) cc" "cc_authenticated cc"
  shows "\<exists>msgs. server_state (drop_handles (serving_driver dr recorder) cores (map fst kept) (map fst order) cc)
      = server_state cc @ msgs
    \<and> map sent_message msgs = announced (closed_by_server cores) (map (label owner) kept) (map (label owner) order)"
  by (rule drop_handles_messages [OF assms(1) refl]) (use assms(2,3) in \<open>simp add: noted_def\<close>)

section \<open>A statement, its result set and a BLOB\<close>

text \<open>A statement whose execution returns the result set 7 with one row, in which there is a BLOB.\<close>

definition blob_metadata :: resultset_metadata where
  "blob_metadata = \<lparr>rsmd_fields = [\<lparr>fm_schemaname_idx = 0, fm_tablename_idx = 0, fm_columnname_idx = 0,
     fm_displayname_idx = 0, fm_column_options = 2, fm_type_id = TY_BLOB, fm_scale = 0, fm_precision = 3\<rparr>],
     rsmd_names = [(0, ascii ''B'')]\<rparr>"

definition blob_statement :: prepared_statement where
  "blob_statement = \<lparr>ps_statement_id = 3, ps_server_usage = server_usage_default, ps_descriptors = [],
     ps_rsmd = Some blob_metadata, ps_batch = [], ps_table_location = None\<rparr>"

definition blob_reply :: bytes where
  "blob_reply =
     write_i64 0 @ write_i32 1 @ write_u32 0 @ write_u32 0 @ write_i16 1 @ replicate 10 0
     @ write_i32 0 @ write_i32 0 @ write_i16 2 @ write_i16 1 @ [2] @ [0] @ write_i16 5 @ replicate 8 0
     @ ([part_kind_as_i8 PK_ResultSetId, 0] @ arg_count 1 @ write_i32 (word_of_nat 8) @ write_i32 0 @ write_u64 7)
     @ [part_kind_as_i8 PK_ResultSet, 4] @ arg_count 1 @ write_i32 (word_of_nat 40) @ write_i32 0
     @ [27, 6, 0, 0] @ write_u64 0 @ write_u64 8 @ write_u64 9 @ write_u32 8 @ [1, 2, 3, 4, 5, 6, 7, 8]"

definition blob_value :: hdb_value where
  "blob_value = HV_BLOB (blob_handle_new (Some 7) True 8 9 [1, 2, 3, 4, 5, 6, 7, 8])"

definition blob_core :: rs_core where
  "blob_core = \<lparr>rsc_pscore = Some 3, rsc_attributes = 4, rsc_resultset_id = 7\<rparr>"

definition blob_rs_state :: rs_state where
  "blob_rs_state = \<lparr>rss_core = Some blob_core, rss_next_rows = [row_new blob_metadata [blob_value]], rss_row_iter = [],
     rss_server_usage = server_usage_default\<rparr>"

definition blob_driver :: "(unit \<times> bytes) driver" where
  "blob_driver = serving_driver sample_driver (\<lambda>_ s. (blob_reply, s))"

lemma part_parsed:
  assumes len: "length body < 2 ^ 31" "length body mod 8 = 0" and argc: "int argc < 2 ^ 31"
    and body: "part_parse_body c8 nl kind attrs argc ps hc md ds rs (body @ rest) = Ok (x, rest)"
  shows "part_parse c8 nl ps hc md ds rs is_last ([part_kind_as_i8 kind, attrs] @ arg_count argc
       @ write_i32 (word_of_nat (length body)) @ write_i32 0 @ body @ rest) = Ok (x, rest)"
proof -
  have cnt: "part_header_count argc = Ok (arg_count argc)"
    using argc by (simp add: part_header_count_def arg_count_def)
  have pad: "7 - (length body + 7) mod 8 = 0" using len(2) by presburger
  show ?thesis
    using parse_part_header_emit [OF cnt, of "length body" kind attrs 0 "body @ rest"] len argc
    by (simp add: part_parse_def rd_bind_apply body pad rd_apply_simps del: append_Cons)
qed

lemma blob_row_parsed:
  "row_parse c8 nl blob_metadata (Some 7)
     ([27, 6, 0, 0] @ write_u64 0 @ write_u64 8 @ write_u64 9 @ write_u32 8 @ [1, 2, 3, 4, 5, 6, 7, 8]) =
   Ok (row_new blob_metadata [blob_value], [])"
  by (simp add: row_parse_def blob_metadata_def number_of_fields_def typeid_nullable_scale_def field_metadata_at_def
      parse_from_reply_def rd_simps io_of_hdb_def parse_blob_def parse_lob_1_def parse_lob_2_def fm_is_nullable_def
      blob_value_def skip_bytes_append [of "[0, 0]" 2, simplified]
      parse_bytes_append [of "[1, 2, 3, 4, 5, 6, 7, 8]" 8 "[]", simplified] isize_max_def)

lemma blob_reply_parsed:
  "reply_parse c8 nl (Some blob_metadata) ds None True blob_reply =
    Ok ((\<lparr>rp_session_id = 0, rp_replytype = RT_Select, rp_parts =
      [P_ResultSet (Some \<lparr>rs_metadata = blob_metadata,
        rs_state = blob_rs_state\<lparr>rss_core := Some (blob_core\<lparr>rsc_pscore := None\<rparr>)\<rparr>\<rparr>)]\<rparr>, None), [])"
proof -
  let ?row = "[27, 6, 0, 0] @ write_u64 0 @ write_u64 8 @ write_u64 9 @ write_u32 8 @ [1, 2, 3, 4, 5, 6, 7, 8]"
  let ?rows = "[part_kind_as_i8 PK_ResultSet, 4] @ arg_count 1 @ write_i32 (word_of_nat 40) @ write_i32 0 @ ?row"
  have body: "part_parse_body c8 nl PK_ResultSet 4 1 [P_ResultSetId 7] True (Some blob_metadata) ds None ?row =
      Ok ((P_ResultSet (Some \<lparr>rs_metadata = blob_metadata,
        rs_state = blob_rs_state\<lparr>rss_core := Some (blob_core\<lparr>rsc_pscore := None\<rparr>)\<rparr>\<rparr>), [], None), [])"
    using blob_row_parsed [of c8 nl]
    by (simp add: part_parse_body_def rd_map_def result_set_parse_def pop_if_kind_def parts_pop_def result_set_new_def
        parse_rows_def rd_bind_apply rd_apply_simps blob_rs_state_def blob_core_def isize_max_def Let_def
        del: append_Cons append.simps)
  have "parse_message_and_sequence_header blob_reply = Ok ((2, reply_new 0 RT_Select), drop 56 blob_reply)"
    by code_simp
  moreover have "drop 56 blob_reply = [part_kind_as_i8 PK_ResultSetId, 0] @ arg_count 1 @ write_i32 (word_of_nat 8)
      @ write_i32 0 @ write_u64 7 @ ?rows"
    by code_simp
  moreover have "part_parse c8 nl [] True (Some blob_metadata) ds None False ([part_kind_as_i8 PK_ResultSetId, 0] @ arg_count 1
      @ write_i32 (word_of_nat 8) @ write_i32 0 @ write_u64 7 @ ?rows) = Ok ((P_ResultSetId 7, [], None), ?rows)"
    using part_parsed [of "write_u64 7" 1 c8 nl PK_ResultSetId 0 "[]" True "Some blob_metadata" ds None ?rows
      "(P_ResultSetId 7, [], None)" False]
    by (simp add: part_parse_body_def lift_part_def rd_map_def rd_simps del: append_Cons append.simps)
  moreover have "part_parse c8 nl [P_ResultSetId 7] True (Some blob_metadata) ds None True ?rows =
      Ok ((P_ResultSet (Some \<lparr>rs_metadata = blob_metadata,
        rs_state = blob_rs_state\<lparr>rss_core := Some (blob_core\<lparr>rsc_pscore := None\<rparr>)\<rparr>\<rparr>), [], None), [])"
    using part_parsed [of ?row 1 c8 nl PK_ResultSet 4 "[P_ResultSetId 7]" True "Some blob_metadata" ds None "[]" _ True]
      body [unfolded One_nat_def] by (simp del: append_Cons append.simps)
  ultimately show ?thesis
    by (simp add: reply_parse_def rd_bind_apply rd_apply_simps reply_new_def numeral_2_eq_2 del: append_Cons)
qed

lemma blob_executed:
  "execute_parameter_rows blob_driver nobody blob_statement None (served_core ()) =
    (Ok ([RV_ResultSet \<lparr>rs_metadata = blob_metadata, rs_state = blob_rs_state\<rparr>] :: unit hdb_response),
     served () (served_core ()))"
proof -
  have emit: "request_emit c8 nl sid nsn ac (Some []) (execute_rows_request 3 None) = Ok
    (message_header sid nsn 48 48 @ segment_header 48 1 RQ_Execute ac hold_cursors_over_commit @
      [10, 0] @ write_i16 1 @ write_i32 0 @ write_i32 8 @ write_i32 24 @ write_u64 3)" for c8 nl sid nsn ac
    by (simp add: request_emit_def execute_rows_request_def request_push_def request_new_def varpart_size_def seg_size_def
        part_size_def part_body_size_def part_raw_size_def padsize_def part_emit_def part_count_def
        part_header_count_def sub_u32_def part_emit_body_def part_emit_raw_def)
  have "full_send blob_driver (execute_rows_request 3 None) (Some blob_metadata) (Some []) (served_core (), None) =
    (Ok \<lparr>rp_session_id = 0, rp_replytype = RT_Select, rp_parts =
      [P_ResultSet (Some \<lparr>rs_metadata = blob_metadata,
        rs_state = blob_rs_state\<lparr>rss_core := Some (blob_core\<lparr>rsc_pscore := None\<rparr>)\<rparr>\<rparr>)]\<rparr>, (served () (served_core ()), None))"
    unfolding blob_driver_def
    by (rule served_full_send [where n = 1, OF _ _ emit _ blob_reply_parsed])
      (simp_all add: idle_served_core execute_rows_request_def request_push_def request_new_def)
  then show ?thesis
    by (simp add: execute_parameter_rows_def ps_send_def st_bind_def blob_statement_def return_values_of_def st_simps
        build_response_def consume_def hdb_response_try_new_def inject_ids_def inject_statement_id_def
        response_resultset_def single_def blob_rs_state_def blob_core_def is_parameter_metadata_def)
qed

definition blob_rs_read :: rs_state where
  "blob_rs_read = blob_rs_state\<lparr>rss_next_rows := []\<rparr>"

lemma blob_row_delivered:
  "rs_next_row blob_driver nobody blob_metadata (served_core (), blob_rs_state) =
    (Ok (Some (row_new blob_metadata [blob_value])), (served_core (), blob_rs_read))"
  by (simp add: rs_next_row_def blob_rs_state_def st_bind_def rs_swap_rows_def blob_rs_read_def)

theorem server_resources_released_witness:
  "\<exists>msgs. server_state (drop_handles (serving_driver sample_driver recorder) [7 \<mapsto> blob_core] []
        [H_Statement blob_statement, H_ResultSet blob_rs_read, H_Connection, H_Lob blob_value] (served_core [])) = msgs
    \<and> map sent_message msgs = [Close_ResultSet 7, Drop_Statement 3, Disconnect]"
proof -
  define owner :: "u64 \<Rightarrow> u64 option" where "owner = [7 \<mapsto> 3]"
  let ?handles = "[(H_Statement blob_statement, 0), (H_ResultSet blob_rs_read, 7), (H_Connection, 0), (H_Lob blob_value, 7)]"
  have fresh: "origin blob_driver 7 (Some 3) blob_rs_state"
    using origin.executed [OF blob_executed, of "\<lparr>rs_metadata = blob_metadata, rs_state = blob_rs_state\<rparr>" blob_core]
    by (simp add: blob_rs_state_def blob_core_def blob_statement_def)
  then have read: "origin blob_driver 7 (Some 3) blob_rs_read"
    by (rule origin.advanced) (rule blob_row_delivered)
  have lob: "lob_origin blob_driver 7 (Some 3) blob_value"
    unfolding lob_origin_def using fresh blob_row_delivered
    by (fastforce simp: blob_value_def is_lob_def row_new_def)
  have core: "core_origin blob_driver 7 (Some 3) blob_core"
    unfolding core_origin_def using fresh by (intro exI [of _ blob_rs_state] exI [of _ blob_core]) (simp add: blob_rs_state_def)
  have "estate blob_driver owner [7 \<mapsto> blob_core] (?handles @ [])"
    using read lob core
    by (simp add: estate_def owner_def blob_rs_read_def blob_rs_state_def core_refs_def blob_statement_def)
  moreover have "cc_authenticated (served_core [])" by (simp add: served_core_def)
  ultimately show ?thesis
    using server_resources_released [of blob_driver owner "[7 \<mapsto> blob_core]" ?handles "[]" "served_core []" sample_driver]
    by (simp add: idle_served_core owner_def label_def blob_rs_read_def blob_rs_state_def blob_statement_def
        closed_by_server_def blob_core_def resultset_is_closed_def)
qed

end
