(* ===== verification/Hdb_Reconnect.thy ===== *)
theory Hdb_Reconnect
  imports Hdb_Handshake
begin

text \<open>
  A connection that is reset while a request is sent (\<^verbatim>\<open>full_send_sync\<close> in conn/am\_conn\_core.rs): the client
  connects again, authenticates with the two requests of the handshake and repeats the request. The server
  below is the one of the handshake, in front of any application; the network loses its stream once.
\<close>

section \<open>A server behind a login\<close>

text \<open>What an accepted client sends goes to the application.\<close>

definition session_answer ::
    "cesu8_lib \<Rightarrow> num_lib \<Rightarrow> crypto \<Rightarrow> auth_server \<Rightarrow> 'a server \<Rightarrow> (auth_phase \<times> 'a) server" where
  "session_answer c8 nl cr srv app req s =
     (case s of (phase, a) \<Rightarrow>
        if phase = Accepted then case app req a of (reply, a') \<Rightarrow> (reply, (Accepted, a'))
        else case auth_answer c8 nl cr srv req phase of (reply, phase') \<Rightarrow> (reply, (phase', a)))"

section \<open>A network that can be reset\<close>

text \<open>The state of the server, what it has sent, and whether the stream was reset. A new stream begins a new
  handshake, the state of the application survives.\<close>

type_synonym 'a wire = "(auth_phase \<times> 'a) \<times> bytes \<times> bool"

definition reset_error :: ioerr where
  "reset_error = IoErr KindConnectionReset ''connection reset''"

definition resetting_network :: "(auth_phase \<times> 'a) server \<Rightarrow> 'a wire network" where
  "resetting_network server = \<lparr>net_connect = \<lambda>_ (s, input, broken). (Ok ((Hello, snd s), [], False), (s, input, broken)),
     net_write = \<lambda>bs (s, input, broken).
       if broken then (Err reset_error, (s, input, broken))
       else case server bs s of (reply, s') \<Rightarrow> (Ok (), (s', input @ reply, broken)),
     net_input = \<lambda>(s, input, broken). input,
     net_error = \<lambda>(s, input, broken). if broken then reset_error else eof_error,
     net_consume = \<lambda>k (s, input, broken). (s, drop k input, broken),
     net_abandon = \<lambda>(s, input, broken). (s, [], broken)\<rparr>"

definition resetting_driver :: "'a wire driver \<Rightarrow> auth_server \<Rightarrow> 'a server \<Rightarrow> 'a wire driver" where
  "resetting_driver dr srv app =
     dr\<lparr>dr_net := resetting_network (session_answer (dr_c8 dr) (dr_nl dr) (dr_crypto dr) srv app)\<rparr>"

lemma resetting_driver_simps [simp]:
  "dr_net (resetting_driver dr srv app) = resetting_network (session_answer (dr_c8 dr) (dr_nl dr) (dr_crypto dr) srv app)"
  "dr_c8 (resetting_driver dr srv app) = dr_c8 dr" "dr_nl (resetting_driver dr srv app) = dr_nl dr"
  "dr_crypto (resetting_driver dr srv app) = dr_crypto dr" "dr_challenges (resetting_driver dr srv app) = dr_challenges dr"
  "fitting_client (resetting_driver dr srv app) = fitting_client dr"
  by (simp_all add: resetting_driver_def fun_eq_iff fitting_client_def)

interpretation auth_resetting: auth_network "resetting_driver dr srv app" srv "\<lambda>phase input. ((phase, a), input, False)"
  for dr srv app a
  by unfold_locales (simp_all add: resetting_network_def session_answer_def)

section \<open>Sending\<close>

lemma op_insert_fits:
  "wf_options m \<Longrightarrow> wf_option_value v \<Longrightarrow> wf_options (op_insert k v m) \<and> length (op_insert k v m) \<le> Suc (length m)"
proof -
  have "length (AList.update k v m) \<le> Suc (length m)" by (induction m) auto
  moreover have "set (AList.update k v m) \<subseteq> insert (k, v) (set m)" by (induction m) auto
  ultimately show "wf_options m \<Longrightarrow> wf_option_value v \<Longrightarrow> wf_options (op_insert k v m) \<and> length (op_insert k v m) \<le> Suc (length m)"
    by (auto simp: op_insert_def list_all_iff)
qed

lemma first_attempt_reset:
  assumes "cc_tcp cc = ((phase, a), [], True)" "cc_seq_number cc \<noteq> 0x7FFFFFFF" "rq_type r \<noteq> RQ_Authenticate"
    and "request_emit (dr_c8 dr) (dr_nl dr) (cc_session_id cc) (cc_seq_number cc + 1) (cc_auto_commit cc) ds r = Ok bs"
  shows "roundtrip (resetting_driver dr srv app) r True md ds (cc, rs) =
    (Err (Tcp reset_error), (cc\<lparr>cc_seq_number := cc_seq_number cc + 1\<rparr>, rs))"
  using assms
  by (simp add: roundtrip_def on_core_def st_bind_def send_request_def request_numbers_def st_simps next_seq_number_def
      Let_def on_tcp_def net_send_def resetting_network_def)

lemma accepted_roundtrip:
  assumes "cc_tcp cc = ((Accepted, a), [], False)" "cc_seq_number cc \<noteq> 0x7FFFFFFF" "rq_type r \<noteq> RQ_Authenticate"
    and "request_emit (dr_c8 dr) (dr_nl dr) (cc_session_id cc) (cc_seq_number cc + 1) (cc_auto_commit cc) ds r = Ok bs"
    and "app bs a = (msg, a')"
    and "reply_parse (dr_c8 dr) (dr_nl dr) md ds rs True msg = Ok ((reply, rs'), [])"
    and parts: "\<forall>p \<in> set (rp_parts reply). part_kind_of p \<noteq> PK_Error"
  shows "roundtrip (resetting_driver dr srv app) r True md ds (cc, rs) =
    (Ok reply, (cc\<lparr>cc_seq_number := cc_seq_number cc + 1, cc_tcp := ((Accepted, a'), [], False), cc_warnings := []\<rparr>, rs'))"
  using assms(1-6)
  by (simp add: roundtrip_def on_core_def st_bind_def send_request_def request_numbers_def st_simps next_seq_number_def
      Let_def on_tcp_def net_send_def resetting_network_def session_answer_def receive_reply_def net_read_def
      handle_no_error [OF parts])

lemma augment_same:
  assumes "augment_request r cc = (r', cc1)"
  shows "cc_params cc1 = cc_params cc" "cc_tcp cc1 = cc_tcp cc" "cc_seq_number cc1 = cc_seq_number cc"
    "cc_connect_options cc1 = cc_connect_options cc" "cc_session_id cc1 = cc_session_id cc"
    "cc_auto_commit cc1 = cc_auto_commit cc"
  using assms by (auto simp: augment_request_def get_client_info_for_sending_def Let_def split: if_splits option.splits)

lemma seq_numbers_left:
  assumes "sint (n :: i32) + 3 < 2 ^ 31"
  shows "n \<noteq> 0x7FFFFFFF" "n + 1 \<noteq> 0x7FFFFFFF" "n + 2 \<noteq> 0x7FFFFFFF"
proof -
  have max: "m \<noteq> 0x7FFFFFFF" if "sint m + 1 < 2 ^ 31" for m :: i32 using that by auto
  show n: "n \<noteq> 0x7FFFFFFF" using assms max by simp
  then have s1: "sint (n + 1) = sint n + 1" by (rule sint_Suc)
  then show n1: "n + 1 \<noteq> 0x7FFFFFFF" using assms max [of "n + 1"] by simp
  have "n + 2 = (n + 1) + 1" by simp
  then have "sint (n + 2) = sint n + 2" using sint_Suc [OF n1] s1 by (simp only:)
  then show "n + 2 \<noteq> 0x7FFFFFFF" using assms by (intro max) simp
qed

section \<open>Properties\<close>

text \<open>C6: A request meets a stream that was reset. If the server can be reached again and still has the account, the
  client connects, both authentication requests are understood, and then the request is repeated in the
  new session with the next sequence number: the reply of the repetition is what the caller gets, the
  connection is authenticated and has the new session id. If the server that answers cannot prove its
  key, the caller gets the refusal and the request is not sent.\<close>

theorem reset_is_survived:
  fixes dr :: "'a wire driver"
  assumes "cesu8_crate (dr_c8 dr)" "num_crates (dr_nl dr)" "crypto_crates (dr_crypto dr)"
    and "dr_challenges dr ((Greeted, a), [], False) = (c1, c2)" "fitting_client dr p c1 c2" "fitting_server srv"
    and "as_user srv = cp_dbuser p"
    and "as_stored_key srv
      = sha256 (dr_crypto dr) (sha256 (dr_crypto dr) (account_salted (dr_crypto dr) srv (cp_password p)))"
    and cc: "cc_params cc = p" "cc_tcp cc = ((phase, a), [], True)" "sint (cc_seq_number cc) + 3 < 2 ^ 31"
    and opts: "get_connection_id (cc_connect_options cc) = (Ok i :: (i32, hdb_error) res)"
      "wf_options (cc_connect_options cc)" "length (cc_connect_options cc) \<le> 1000"
    and aug: "augment_request r cc = (r', cc1)" "rq_type r' \<noteq> RQ_Authenticate"
    and emit: "request_emit (dr_c8 dr) (dr_nl dr) (cc_session_id cc) (cc_seq_number cc + 1) (cc_auto_commit cc) ds r' = Ok bs0"
      "request_emit (dr_c8 dr) (dr_nl dr) (as_session_id srv) (cc_seq_number cc + 3) (cc_auto_commit cc) ds r' = Ok bs"
    and reply: "app bs a = (msg, a')" "reply_parse (dr_c8 dr) (dr_nl dr) md ds rs True msg = Ok ((reply, rs'), [])"
      "\<forall>q \<in> set (rp_parts reply). part_kind_of q \<noteq> PK_Error"
  shows "if server_proof (dr_crypto dr) srv c2 = expected_proof (dr_crypto dr) srv (cp_password p) c2
    then \<exists>cc'. full_send (resetting_driver dr srv app) r md ds (cc, rs) = (Ok reply, (cc', rs'))
      \<and> cc_tcp cc' = ((Accepted, a'), [], False) \<and> cc_authenticated cc' \<and> cc_session_id cc' = as_session_id srv
      \<and> cc_seq_number cc' = cc_seq_number cc + 3
    else \<exists>cc'. full_send (resetting_driver dr srv app) r md ds (cc, rs) = (Err wrong_server, (cc', rs))
      \<and> fst (cc_tcp cc') = (Accepted, a)"
proof -
  let ?D = "resetting_driver dr srv app"
  note same = augment_same [OF aug(1)]
  have seq: "cc_seq_number cc \<noteq> 0x7FFFFFFF" "cc_seq_number cc + 1 \<noteq> 0x7FFFFFFF" "cc_seq_number cc + 2 \<noteq> 0x7FFFFFFF"
    using seq_numbers_left [OF cc(3)] by simp_all
  let ?cc2 = "cc1\<lparr>cc_seq_number := cc_seq_number cc + 1\<rparr>"
  let ?cc3 = "?cc2\<lparr>cc_tcp := ((Greeted, a), [], False), cc_authenticated := False, cc_session_id := 0\<rparr>"
  have first: "roundtrip ?D r' True md ds (cc1, rs) = (Err (Tcp reset_error), (?cc2, rs))"
    using first_attempt_reset [of cc1 phase a r' dr ds bs0] cc(2) seq(1) aug(2) emit(1) by (simp add: same)
  obtain co where co: "second_auth_options True (cc_connect_options ?cc3) = (Ok co :: (_, hdb_error) res)"
    "wf_options co" "length co \<le> 1100"
    using opts op_insert_fits [of "cc_connect_options cc" "OV_INT i" OriginalAnchorConnectionID]
    by (simp add: second_auth_options_def same)
  have cc3: "cc_params ?cc3 = p" "cc_tcp ?cc3 = ((Greeted, a), [], False)" "cc_seq_number ?cc3 \<noteq> 0x7FFFFFFF"
    using cc seq by (simp_all add: same)
  have "send_and_receive (dr_net ?D) ((Hello, a), [], False) = (Ok (), ((Greeted, a), [], False))"
    by (rule auth_resetting.hello_answered)
  then have rec: "reconnect ?D ?cc2 = authenticate ?D True ?cc3"
    using cc(2) by (simp add: reconnect_def same resetting_network_def split: unit.split)
  note auth = auth_resetting.authenticate_outcome [of dr, simplified, OF assms(1-8) cc3 co]
  have send: "full_send ?D r md ds (cc, rs) =
      st_bind (on_core (reconnect ?D)) (\<lambda>_. roundtrip ?D r' True md ds) (?cc2, rs)"
    by (simp add: full_send_def aug(1) first is_connection_reset_def reset_error_def)
  show ?thesis
  proof (cases "server_proof (dr_crypto dr) srv c2 = expected_proof (dr_crypto dr) srv (cp_password p) c2")
    case False
    then show ?thesis using auth by (simp add: send rec st_bind_def on_core_def set_session_id_def)
  next
    case True
    then obtain cc4 where cc4: "reconnect ?D ?cc2 = (Ok (), cc4)" "cc_tcp cc4 = ((Accepted, a), [], False)"
      "cc_seq_number cc4 = cc_seq_number cc + 2" "cc_session_id cc4 = as_session_id srv" "cc_authenticated cc4"
      "cc_auto_commit cc4 = cc_auto_commit cc"
      using auth by (simp add: rec set_session_id_def set_authenticated_def same)
    have "roundtrip ?D r' True md ds (cc4, rs) = (Ok reply, (cc4\<lparr>cc_seq_number := cc_seq_number cc4 + 1,
        cc_tcp := ((Accepted, a'), [], False), cc_warnings := []\<rparr>, rs'))"
      by (rule accepted_roundtrip [where app = app, OF cc4(2) _ aug(2) _ reply]) (use cc4 seq emit(2) in \<open>simp_all add: add.commute\<close>)
    then show ?thesis using True cc4 by (simp add: send st_bind_def on_core_def)
  qed
qed

text \<open>An application that counts the requests it was sent, and a connection whose stream is lost.\<close>

definition counting_app :: "nat server" where
  "counting_app req n = (parts_reply ref_cesu8 ref_num 77 [], Suc n)"

definition sample_wire_driver :: "nat wire driver" where
  "sample_wire_driver = \<lparr>dr_net = resetting_network (\<lambda>_ s. ([], s)), dr_c8 = ref_cesu8, dr_nl = ref_num,
     dr_crypto = ref_crypto, dr_challenges = \<lambda>_. ([], []), dr_version = [], dr_pkg_name = [], dr_program = None,
     dr_os_user = []\<rparr>"

definition lost_core :: "nat wire conn_core" where
  "lost_core = \<lparr>cc_authenticated = True, cc_session_id = 1, cc_client_info = [],
     cc_client_info_touched = False, cc_seq_number = 1, cc_auto_commit = True,
     cc_server_usage = server_usage_default, cc_fetch_size = default_fetch_size,
     cc_lob_read_length = default_lob_read_length, cc_lob_write_length = default_lob_write_length,
     cc_session_state = session_state_default, cc_statement_sequence = None,
     cc_connect_options = [(ConnectionID, OV_INT 9)],
     cc_topology = None, cc_warnings = [], cc_params = sample_url_params, cc_tcp = ((Accepted, 0), [], True)\<rparr>"

definition close_request :: request where
  "close_request = request_push (P_ResultSetId 9) (request_new RQ_CloseResultSet 0)"

lemma close_request_emitted: "\<exists>bs. request_emit c8 nl sid nsn ac None close_request = Ok bs"
  by (simp add: close_request_def request_emit_def request_push_def request_new_def varpart_size_def seg_size_def part_size_def
      part_body_size_def part_raw_size_def padsize_def part_emit_def part_count_def
      part_header_count_def sub_u32_def part_emit_body_def part_emit_raw_def)

theorem reset_is_survived_witness:
  "\<exists>reply cc'. full_send (resetting_driver sample_wire_driver sample_account counting_app) close_request None None
      (lost_core, None) = (Ok reply, (cc', None))
    \<and> cc_tcp cc' = ((Accepted, Suc 0), [], False) \<and> cc_authenticated cc' \<and> cc_session_id cc' = 77 \<and> cc_seq_number cc' = 4"
proof -
  note account = sample_account_fits
  have dr: "dr_c8 sample_wire_driver = ref_cesu8" "dr_nl sample_wire_driver = ref_num" "dr_crypto sample_wire_driver = ref_crypto"
    "dr_challenges sample_wire_driver ((Greeted, 0), [], False) = ([], [])"
    by (simp_all add: sample_wire_driver_def)
  have client: "fitting_client sample_wire_driver sample_url_params [] []"
    by (simp add: fitting_client_def sample_wire_driver_def sample_url_params_def cesu8_length_def ascii_def)
  have core: "cc_params lost_core = sample_url_params" "cc_tcp lost_core = ((Accepted, 0), [], True)"
    "sint (cc_seq_number lost_core) + 3 < 2 ^ 31"
    "get_connection_id (cc_connect_options lost_core) = (Ok 9 :: (i32, hdb_error) res)"
    "list_all (\<lambda>(_, v). wf_option_value v) (cc_connect_options lost_core)" "length (cc_connect_options lost_core) \<le> 1000"
    "augment_request close_request lost_core = (close_request, lost_core)"
    "rq_type close_request \<noteq> RQ_Authenticate"
    by (simp_all add: lost_core_def get_connection_id_def co_get_integer_def op_get_def augment_request_def close_request_def
        request_new_def request_push_def)
  obtain bs0 bs where bs: "request_emit ref_cesu8 ref_num (cc_session_id lost_core) (cc_seq_number lost_core + 1)
      (cc_auto_commit lost_core) None close_request = Ok bs0"
    "request_emit ref_cesu8 ref_num (as_session_id sample_account) (cc_seq_number lost_core + 3)
      (cc_auto_commit lost_core) None close_request = Ok bs"
    using close_request_emitted by metis
  have reply: "reply_parse ref_cesu8 ref_num None None None True (parts_reply ref_cesu8 ref_num 77 []) =
      Ok ((\<lparr>rp_session_id = 77, rp_replytype = RT_Nil, rp_parts = []\<rparr>, None), [])"
    by (rule parts_reply_parsed [OF ref.cesu8_crate_axioms ref_num.num_crates_axioms, where bodies = "[]"]) simp_all
  have app: "counting_app bs 0 = (parts_reply ref_cesu8 ref_num 77 [], Suc 0)" by (simp add: counting_app_def)
  from reset_is_survived [where dr = sample_wire_driver and a = 0 and p = sample_url_params
      and srv = sample_account and cc = lost_core and r = close_request and app = counting_app and bs = bs, unfolded dr,
      OF ref.cesu8_crate_axioms ref_num.num_crates_axioms ref_crypto.crypto_crates_axioms refl client account(1-3) core bs app reply]
  show ?thesis by (auto simp: account(4,5)) (simp add: lost_core_def)
qed

end
