(* ===== verification/Hdb_Url_Roundtrip.thy ===== *)
theory Hdb_Url_Roundtrip
  imports Hdb_Tls
begin

text \<open>
  The text form of a \<^verbatim>\<open>ConnectParamsBuilder\<close> (conn/params/connect\_params\_builder.rs), in which serde stores
  it, and reading it again. The crate url is the locale \<open>url_crate\<close>; a small parser of URLs shows that its
  law can be met.
\<close>

section \<open>The text form and its reader\<close>

text \<open>\<^verbatim>\<open>visit_str\<close>, with the constructor of errors of the deserializer.\<close>

definition builder_visit_str ::
    "(hdb_error \<Rightarrow> 'e) \<Rightarrow> 'c tls_world \<Rightarrow> rstring \<Rightarrow> (connect_params_builder, 'e) res" where
  "builder_visit_str custom tw v = res_map_err custom (str_into_builder tw v)"

section \<open>The crate url\<close>

text \<open>Characters that the parser takes over into user and host, and those that survive in a query.\<close>

definition name_char :: "u8 \<Rightarrow> bool" where
  "name_char c \<longleftrightarrow> 48 \<le> c \<and> c \<le> 57 \<or> 65 \<le> c \<and> c \<le> 90 \<or> 97 \<le> c \<and> c \<le> 122 \<or> c \<in> set (ascii ''.-_'')"

definition query_char :: "u8 \<Rightarrow> bool" where
  "query_char c \<longleftrightarrow> name_char c \<or> c \<in> set (ascii ''/:<>'')"

definition query_piece :: "rstring \<times> rstring option \<Rightarrow> rstring" where
  "query_piece q = (case q of (k, None) \<Rightarrow> k | (k, Some v) \<Rightarrow> k @ ascii ''='' @ v)"

definition query_text :: "(rstring \<times> rstring option) list \<Rightarrow> rstring" where
  "query_text qs = (if qs = [] then [] else ascii ''?'' @ join_amp (map query_piece qs))"

definition url_text :: "rstring \<Rightarrow> rstring \<Rightarrow> rstring \<Rightarrow> u16 \<Rightarrow> (rstring \<times> rstring option) list \<Rightarrow> rstring" where
  "url_text scheme user host port qs =
     scheme @ ascii ''://'' @ user @ ascii ''@'' @ host @ ascii '':'' @ nat_digits (uint port) @ query_text qs"

definition plain_query :: "rstring \<times> rstring option \<Rightarrow> bool" where
  "plain_query q \<longleftrightarrow> fst q \<noteq> [] \<and> list_all query_char (fst q) \<and> list_all query_char (case_option [] id (snd q))"

locale url_crate =
  fixes parse :: "rstring \<Rightarrow> url option"
  assumes parse_plain:
    "scheme \<in> {ascii ''hdbsql'', ascii ''hdbsqls''} \<Longrightarrow> user \<noteq> [] \<Longrightarrow> list_all name_char user \<Longrightarrow> host \<noteq> [] \<Longrightarrow>
     list_all name_char host \<Longrightarrow> list_all plain_query qs \<Longrightarrow>
     parse (url_text scheme user host port qs) =
       Some \<lparr>url_scheme = scheme, url_username = user, url_password = None, url_host_str = Some host, url_port = Some port,
         url_query_pairs = map (\<lambda>(k, v). (k, case_option [] id v)) qs\<rparr>"

section \<open>A parser of plain URLs\<close>

definition until :: "u8 \<Rightarrow> bytes \<Rightarrow> bytes" where
  "until c s = takeWhile (\<lambda>x. x \<noteq> c) s"

definition behind :: "u8 \<Rightarrow> bytes \<Rightarrow> bytes" where
  "behind c s = drop 1 (dropWhile (\<lambda>x. x \<noteq> c) s)"

lemma until_behind [simp]:
  "list_all (\<lambda>x. x \<noteq> c) a \<Longrightarrow> until c (a @ c # r) = a" "list_all (\<lambda>x. x \<noteq> c) a \<Longrightarrow> behind c (a @ c # r) = r"
  "list_all (\<lambda>x. x \<noteq> c) a \<Longrightarrow> until c a = a" "list_all (\<lambda>x. x \<noteq> c) a \<Longrightarrow> behind c a = []"
proof -
  assume a: "list_all (\<lambda>x. x \<noteq> c) a"
  then have none: "dropWhile (\<lambda>x. x \<noteq> c) a = []" by (simp add: list_all_iff)
  show "until c (a @ c # r) = a" "behind c (a @ c # r) = r" "until c a = a" "behind c a = []"
    using a by (simp_all add: until_def behind_def list_all_iff takeWhile_append2 dropWhile_append2 none)
qed

fun pieces :: "u8 \<Rightarrow> bytes \<Rightarrow> bytes list" where
  "pieces c [] = [[]]"
| "pieces c (x # xs) =
     (if x = c then [] # pieces c xs else case pieces c xs of p # ps \<Rightarrow> (x # p) # ps | [] \<Rightarrow> [[x]])"

lemma pieces_none: "list_all (\<lambda>x. x \<noteq> c) a \<Longrightarrow> pieces c a = [a]"
  by (induction a) auto

lemma pieces_append: "list_all (\<lambda>x. x \<noteq> c) a \<Longrightarrow> pieces c (a @ c # r) = a # pieces c r"
  by (induction a) auto

lemma pieces_join:
  "list_all (list_all (\<lambda>x. x \<noteq> 38)) ss \<Longrightarrow> ss \<noteq> [] \<Longrightarrow> pieces 38 (join_amp ss) = ss"
  by (induction ss rule: join_amp.induct) (simp_all add: pieces_none pieces_append ascii_def)

definition digits_value :: "bytes \<Rightarrow> int" where
  "digits_value ds = foldl (\<lambda>n d. 10 * n + (uint d - 48)) 0 ds"

lemma uint_digit: "0 \<le> d \<Longrightarrow> d < 10 \<Longrightarrow> uint (48 + word_of_int d :: u8) = 48 + d"
  using uint_word_of_int [of "48 + d", where 'a = 8] by (simp add: mod_pos_pos_trivial)

lemma digits_value_nat_digits: "0 \<le> n \<Longrightarrow> digits_value (nat_digits n) = n"
proof (induction n rule: nat_digits.induct)
  case (1 n)
  show ?case
  proof (cases "n < 10")
    case True
    then show ?thesis using 1(2) by (subst nat_digits.simps) (simp add: digits_value_def uint_digit)
  next
    case False
    then show ?thesis using 1 by (subst nat_digits.simps) (simp add: digits_value_def uint_digit)
  qed
qed

lemma nat_digits_plain: "0 \<le> n \<Longrightarrow> list_all (\<lambda>x. x \<noteq> 63) (nat_digits n)"
proof (induction n rule: nat_digits.induct)
  case (1 n)
  have "48 + word_of_int d \<noteq> (63 :: u8)" if "0 \<le> d" "d < 10" for d using uint_digit [OF that] that(2) by auto
  from this [of n] this [of "n mod 10"] show ?case using 1 by (subst nat_digits.simps) simp
qed

definition ref_url :: "rstring \<Rightarrow> url option" where
  "ref_url s =
     (let r1 = drop 2 (behind 58 s); r2 = behind 64 r1; r3 = behind 58 r2; q = behind 63 r3
      in Some \<lparr>url_scheme = until 58 s, url_username = until 64 r1, url_password = None,
           url_host_str = Some (until 58 r2), url_port = Some (word_of_int (digits_value (until 63 r3))),
           url_query_pairs = (if q = [] then [] else map (\<lambda>p. (until 61 p, behind 61 p)) (pieces 38 q))\<rparr>)"

lemma name_char_not: "list_all name_char a \<Longrightarrow> c \<in> set (ascii '':@?&='') \<Longrightarrow> list_all (\<lambda>x. x \<noteq> c) a"
  by (auto simp: list_all_iff name_char_def ascii_def)

lemma query_char_not: "list_all query_char a \<Longrightarrow> c \<in> set (ascii ''&='') \<Longrightarrow> list_all (\<lambda>x. x \<noteq> c) a"
  by (auto simp: list_all_iff query_char_def name_char_def ascii_def)

lemma query_piece_split:
  assumes "plain_query q"
  shows "list_all (\<lambda>x. x \<noteq> 38) (query_piece q)" "query_piece q \<noteq> []"
    "(until 61 (query_piece q), behind 61 (query_piece q)) = (fst q, case_option [] id (snd q))"
proof -
  have k: "list_all (\<lambda>x. x \<noteq> 38) (fst q)" "list_all (\<lambda>x. x \<noteq> 61) (fst q)"
    using assms by (auto simp: plain_query_def ascii_def intro: query_char_not)
  have v: "list_all (\<lambda>x. x \<noteq> 38) (case_option [] id (snd q))"
    using assms by (auto simp: plain_query_def ascii_def intro: query_char_not)
  show "list_all (\<lambda>x. x \<noteq> 38) (query_piece q)" "query_piece q \<noteq> []"
    "(until 61 (query_piece q), behind 61 (query_piece q)) = (fst q, case_option [] id (snd q))"
    using k v assms by (auto simp: query_piece_def ascii_def plain_query_def split: prod.splits option.splits)
qed

interpretation plain_url: url_crate ref_url
proof
  fix scheme user host :: rstring and qs :: "(rstring \<times> rstring option) list" and port :: u16
  assume "scheme \<in> {ascii ''hdbsql'', ascii ''hdbsqls''}" and user: "list_all name_char user"
    and host: "list_all name_char host" and qs: "list_all plain_query qs"
  then have scheme: "list_all (\<lambda>x. x \<noteq> 58) scheme" by (auto simp: ascii_def)
  have cs: "list_all (\<lambda>x. x \<noteq> 64) user" "list_all (\<lambda>x. x \<noteq> 58) host"
    using name_char_not [OF user] name_char_not [OF host] by (simp_all add: ascii_def)
  note port = nat_digits_plain [of "uint port"] digits_value_nat_digits [of "uint port"]
  have ps: "list_all (list_all (\<lambda>x. x \<noteq> 38)) (map query_piece qs)" using qs query_piece_split(1) by (auto simp: list_all_iff)
  have pairs: "map (\<lambda>p. (until 61 p, behind 61 p)) (map query_piece qs) = map (\<lambda>(k, v). (k, case_option [] id v)) qs"
    using qs query_piece_split(3) by (auto simp: list_all_iff split_beta)
  have ne: "join_amp (map query_piece qs) \<noteq> []" if "qs \<noteq> []"
    using that qs query_piece_split(2) by (cases qs; cases "List.tl qs") (auto simp: list_all_iff)
  show "ref_url (url_text scheme user host port qs) =
     Some \<lparr>url_scheme = scheme, url_username = user, url_password = None, url_host_str = Some host, url_port = Some port,
       url_query_pairs = map (\<lambda>(k, v). (k, case_option [] id v)) qs\<rparr>"
  proof (cases "qs = []")
    case True
    then show ?thesis using scheme cs port by (simp add: ref_url_def url_text_def query_text_def ascii_def Let_def)
  next
    case False
    then show ?thesis using scheme cs port ne pieces_join [OF ps]
      by (simp add: ref_url_def url_text_def query_text_def ascii_def Let_def flip: pairs)
  qed
qed

section \<open>Reading the text form\<close>

text \<open>What the builder writes behind the question mark.\<close>

fun cert_query :: "server_certs \<Rightarrow> rstring \<times> rstring option" where
  "cert_query (SC_Directory s) = (option_cert_dir, Some s)"
| "cert_query (SC_Environment s) = (option_cert_env, Some s)"
| "cert_query (SC_Direct _) = (option_cert_direct, Some (ascii ''<...>''))"
| "cert_query SC_RootCertificates = (option_cert_mozilla, None)"
| "cert_query SC_None = (option_insecure_no_check, None)"

definition option_query :: "rstring \<times> rstring \<Rightarrow> rstring \<times> rstring option" where
  "option_query kv = (fst kv, if snd kv = [] then None else Some (snd kv))"

definition builder_query :: "connect_params_builder \<Rightarrow> (rstring \<times> rstring option) list" where
  "builder_query b = map option_query (cb_options b) @ map cert_query (cb_server_certs b)
     @ map (\<lambda>l. (option_client_locale, Some l)) (case_option [] (\<lambda>l. [l]) (cb_clientlocale b))"

text \<open>A builder whose texts need no escaping, and whose own options are none of the driver's.\<close>

definition known_options :: "rstring list" where
  "known_options = [option_client_locale, option_client_locale_from_env, option_cert_dir, option_cert_env,
     option_cert_mozilla, option_insecure_no_check, option_nonblocking]"

fun plain_cert :: "server_certs \<Rightarrow> bool" where
  "plain_cert (SC_Directory s) \<longleftrightarrow> list_all query_char s"
| "plain_cert (SC_Environment s) \<longleftrightarrow> list_all query_char s"
| "plain_cert _ \<longleftrightarrow> True"

definition plain_builder :: "connect_params_builder \<Rightarrow> bool" where
  "plain_builder b \<longleftrightarrow>
     (case cb_dbuser b of Some u \<Rightarrow> u \<noteq> [] \<and> list_all name_char u | None \<Rightarrow> False) \<and>
     (case cb_hostname b of Some h \<Rightarrow> h \<noteq> [] \<and> list_all name_char h | None \<Rightarrow> False) \<and>
     cb_port b \<noteq> None \<and> list_all plain_cert (cb_server_certs b) \<and>
     (case cb_clientlocale b of Some l \<Rightarrow> list_all query_char l | None \<Rightarrow> True) \<and>
     list_all (\<lambda>(k, v). k \<noteq> [] \<and> list_all query_char k \<and> list_all query_char v \<and> k \<notin> set known_options) (cb_options b)"

fun is_direct :: "server_certs \<Rightarrow> bool" where
  "is_direct (SC_Direct _) \<longleftrightarrow> True"
| "is_direct _ \<longleftrightarrow> False"

lemma join_amp_Cons: "join_amp (t # ss) = (if ss = [] then t else t @ ascii ''&'' @ join_amp ss)"
  by (cases ss) simp_all

lemma number_options_join: "number_options True ss = (if ss = [] then [] else ascii ''?'' @ join_amp ss)"
proof -
  have rest: "number_options False ss = (if ss = [] then [] else ascii ''&'' @ join_amp ss)" for ss
    by (induction ss) (simp_all add: join_amp_Cons)
  show ?thesis by (cases ss) (simp_all add: rest join_amp_Cons)
qed

lemma query_piece_cert: "query_piece (cert_query sc) = server_certs_string sc"
  by (cases sc) (simp_all add: query_piece_def ascii_def)

lemma query_piece_option:
  "query_piece (option_query kv) = (case kv of (k, v) \<Rightarrow> if v = [] then k else k @ ascii ''='' @ v)"
  by (simp add: query_piece_def option_query_def split_beta)

lemma builder_parameters: "get_options_as_parameters b = query_text (builder_query b)"
  by (cases "cb_clientlocale b")
    (simp_all add: get_options_as_parameters_def number_options_join query_text_def builder_query_def query_piece_cert
      query_piece_option locale_assignment_def query_piece_def [of "(_, Some _)"] o_def)

lemma known_options_plain: "list_all (list_all query_char) known_options" "list_all (\<lambda>k. k \<noteq> []) known_options"
  "list_all query_char option_cert_direct" "option_cert_direct \<noteq> []" "list_all query_char (ascii ''<...>'')"
  by code_simp+

lemma builder_query_plain:
  assumes "plain_builder b"
  shows "list_all plain_query (builder_query b)"
proof -
  note known = known_options_plain [unfolded known_options_def, simplified]
  have "plain_query (cert_query sc)" if "plain_cert sc" for sc
    using that known by (cases sc) (simp_all add: plain_query_def)
  moreover have "plain_query (option_query (k, v))" if "k \<noteq> []" "list_all query_char k" "list_all query_char v" for k v
    using that by (simp add: plain_query_def option_query_def)
  moreover have "plain_query (option_client_locale, Some l)" if "list_all query_char l" for l
    using that known by (simp add: plain_query_def)
  ultimately show ?thesis using assms
    by (auto simp: plain_builder_def builder_query_def list_all_iff split: option.splits)
qed

text \<open>The loop over the query of the text.\<close>

lemma url_options_append:
  "url_options env (xs @ ys) b cs = res_bind (url_options env xs b cs) (\<lambda>(b', cs'). url_options env ys b' cs')"
  by (induction xs arbitrary: b cs) (auto simp: Let_def)

lemma url_options_unknown:
  "list_all (\<lambda>(k, v). k \<notin> set known_options) qs \<Longrightarrow> url_options env qs b cs = Ok (b, cs)"
  by (induction qs) (auto simp: known_options_def)

definition plain_pair :: "rstring \<times> rstring option \<Rightarrow> rstring \<times> rstring" where
  "plain_pair = (\<lambda>(k, v). (k, case_option [] id v))"

lemma option_names_distinct: "distinct (option_cert_direct # known_options)"
  by code_simp

lemma url_options_certs_read:
  "url_options env (map plain_pair (map cert_query scs)) b cs = Ok (b, cs @ filter (\<lambda>sc. \<not> is_direct sc) scs)"
proof (induction scs arbitrary: cs)
  case (Cons sc scs)
  note distinct = option_names_distinct [unfolded known_options_def, simplified]
  show ?case using distinct Cons by (cases sc) (auto simp: plain_pair_def)
qed simp

section \<open>Properties\<close>

lemma builder_into_string_text:
  assumes "cb_dbuser b = Some user" "cb_hostname b = Some host" "cb_port b = Some port"
  shows "builder_into_string b = Ok (url_text (get_protocol_name b) user host port (builder_query b))"
  using assms builder_parameters [of "builder_unset_password b"]
  by (simp add: builder_into_string_def builder_to_url_def builder_unset_password_def url_text_def builder_query_def
      get_protocol_name_def)

lemma builder_query_read:
  assumes "plain_builder b"
  shows "url_options env (map plain_pair (builder_query b)) b0 [] =
    Ok (b0\<lparr>cb_clientlocale := (case cb_clientlocale b of None \<Rightarrow> cb_clientlocale b0 | Some l \<Rightarrow> Some l)\<rparr>,
      filter (\<lambda>sc. \<not> is_direct sc) (cb_server_certs b))"
proof -
  have "list_all (\<lambda>(k, v). k \<notin> set known_options) (map plain_pair (map option_query (cb_options b)))"
    using assms by (auto simp: plain_builder_def list_all_iff option_query_def plain_pair_def)
  from url_options_unknown [OF this] url_options_certs_read show ?thesis
    by (simp add: builder_query_def url_options_append plain_pair_def builder_clientlocale_def split: option.split)
qed

definition missing_certificates :: hdb_error where
  "missing_certificates = Usage ''Using 'hdbsqls' requires one of the url-options 'tls_certificate_dir', ...''"

lemma plain_url_into_builder:
  assumes "plain_builder b" "cb_dbuser b = Some user" "cb_hostname b = Some host" "cb_port b = Some port" "user \<noteq> []"
  shows "url_into_builder env \<lparr>url_scheme = get_protocol_name b, url_username = user, url_password = None,
      url_host_str = Some host, url_port = Some port, url_query_pairs = map plain_pair (builder_query b)\<rparr> =
    (if cb_server_certs b \<noteq> [] \<and> list_all is_direct (cb_server_certs b) then Err missing_certificates
     else Ok (b\<lparr>cb_password := None, cb_options := [],
       cb_server_certs := filter (\<lambda>sc. \<not> is_direct sc) (cb_server_certs b)\<rparr>))"
proof -
  have scheme: "ascii ''hdbsqls'' \<noteq> ascii ''hdbsql''" by (simp add: ascii_def)
  have all: "filter (\<lambda>sc. \<not> is_direct sc) cs = [] \<longleftrightarrow> list_all is_direct cs" for cs
    by (simp add: filter_empty_conv list_all_iff)
  have same: "\<lparr>cb_hostname = Some host, cb_port = Some port, cb_dbuser = Some user, cb_password = None,
      cb_clientlocale = cb_clientlocale b, cb_server_certs = cs, cb_options = []\<rparr>
    = b\<lparr>cb_password := None, cb_options := [], cb_server_certs := cs\<rparr>" for cs
    using assms(2-4) by (cases b) simp
  show ?thesis
    using assms(5) scheme builder_query_read [OF assms(1)]
    by (cases "cb_clientlocale b")
      (simp_all add: url_into_builder_def get_protocol_name_def foldl_tls_with all builder_new_def builder_hostname_def
        builder_port_def builder_dbuser_def missing_certificates_def flip: same)
qed

text \<open>The text is not percent-encoded, so that two builders can have the same text; what follows is about
  builders whose texts need no encoding.\<close>

definition sample_plain_builder :: connect_params_builder where
  "sample_plain_builder = builder_dbuser (ascii ''MEIER'') (builder_port 2222 (builder_hostname (ascii ''abcd123'') builder_new))"

theorem unescaped_values_collide:
  "\<exists>b b'. builder_into_string b = (builder_into_string b' :: (rstring, hdb_error) res) \<and>
     cb_clientlocale b = Some (ascii ''de'') \<and> cb_clientlocale b' = None"
  by (rule exI [of _ "sample_plain_builder\<lparr>cb_options := [(ascii ''a'', ascii ''b'')], cb_clientlocale := Some (ascii ''de'')\<rparr>"],
      rule exI [of _ "sample_plain_builder\<lparr>cb_options := [(ascii ''a'', ascii ''b&client_locale=de'')]\<rparr>"]) code_simp

text \<open>C18: The text in which serde stores connection parameters, read again, gives the parameters back, for a builder
  that has a user, a host and a port, whose user, host, certificate references, locale and options
  consist of characters that a URL needs not encode (letters, digits, dot, underscore, minus; in the
  values also slash, colon and angle brackets), and whose own options are not named as those of the
  driver. Under these conditions, whatever the order and number of certificates and with the client
  locale, everything comes back except for the password, the builder's own options, and certificates given
  directly: they are lost, and if there are no others the text is refused, because its scheme demands
  certificates.\<close>

theorem builder_text_roundtrip:
  fixes custom :: "hdb_error \<Rightarrow> 'e"
  assumes "url_crate (tw_url_parse tw)" "plain_builder b"
  shows "\<exists>s. builder_into_string b = (Ok s :: (_, 'f) res) \<and> builder_visit_str custom tw s =
    (if cb_server_certs b \<noteq> [] \<and> list_all is_direct (cb_server_certs b) then Err (custom missing_certificates)
     else Ok (b\<lparr>cb_password := None, cb_options := [],
       cb_server_certs := filter (\<lambda>sc. \<not> is_direct sc) (cb_server_certs b)\<rparr>))"
proof -
  obtain user host port where b: "cb_dbuser b = Some user" "cb_hostname b = Some host" "cb_port b = Some port"
    "user \<noteq> []" "list_all name_char user" "host \<noteq> []" "list_all name_char host"
    using assms(2) by (auto simp: plain_builder_def split: option.splits)
  let ?text = "url_text (get_protocol_name b) user host port (builder_query b)"
  have "get_protocol_name b \<in> {ascii ''hdbsql'', ascii ''hdbsqls''}" by (simp add: get_protocol_name_def)
  note parsed = url_crate.parse_plain [OF assms(1) this b(4-7) builder_query_plain [OF assms(2)], of port,
      folded plain_pair_def]
  show ?thesis
    by (rule exI, rule conjI, rule builder_into_string_text [OF b(1-3)])
      (simp add: builder_visit_str_def str_into_builder_def parsed plain_url_into_builder [OF assms(2) b(1-4)])
qed

text \<open>The example of the tests in the repository.\<close>

definition sample_builder :: connect_params_builder where
  "sample_builder = builder_tls_with SC_RootCertificates (builder_tls_with (SC_Directory (ascii ''TCD''))
     (builder_clientlocale (ascii ''de_DE'') (builder_password (ascii ''schLau'') (builder_dbuser (ascii ''MEIER'')
     (builder_port 2222 (builder_hostname (ascii ''abcd123'') builder_new))))))"

lemma sample_builder_text:
  "builder_into_string sample_builder = (Ok (ascii (''hdbsqls://MEIER@abcd123:2222?tls_certificate_dir=TCD'' @
     ''&use_mozillas_root_certificates&client_locale=de_DE'')) :: (_, hdb_error) res)"
  by code_simp

definition reading_world :: "nat tls_world" where
  "reading_world = \<lparr>tw_mozilla = [], tw_pem = \<lambda>_. None, tw_var = \<lambda>_. None, tw_read_dir = \<lambda>_. Ok [], tw_open = \<lambda>_. Ok [],
     tw_url_parse = ref_url\<rparr>"

theorem builder_text_roundtrip_witness:
  "\<exists>s. builder_into_string sample_builder = (Ok s :: (_, hdb_error) res)
    \<and> builder_visit_str id reading_world s = Ok (builder_unset_password sample_builder)"
proof -
  have "url_crate (tw_url_parse reading_world)" "plain_builder sample_builder"
    using plain_url.url_crate_axioms by (simp_all add: reading_world_def) code_simp
  from builder_text_roundtrip [OF this, of id] show ?thesis
    by (simp add: sample_builder_def builder_tls_with_def builder_clientlocale_def builder_password_def builder_dbuser_def
        builder_port_def builder_hostname_def builder_new_def builder_unset_password_def)
qed

end
