(* ===== verification/Spec2Isabelle.thy ===== *)
theory Spec2Isabelle
  imports Hdb_Prelude Hdb_Errors Hdb_Text Hdb_Cesu8 Hdb_Options Hdb_Option_Ids Hdb_Types Hdb_Dates
    Hdb_Decimal Hdb_Lob_Wire Hdb_Values Hdb_Rows Hdb_Small_Parts Hdb_Parts Hdb_Params Hdb_Messages
    Hdb_Wire_Props Hdb_Session Hdb_Auth Hdb_Connection
    Hdb_Loops Hdb_Lob Hdb_Lob_Props Hdb_Server Hdb_Lob_Server Hdb_ResultSet Hdb_ResultSet_Server
    Hdb_Response Hdb_Lob_Writer Hdb_Lob_Writer_Server Hdb_Statements Hdb_Xa
    Hdb_Conversions Hdb_Serde_De Hdb_Serde_Ser Hdb_Serde_Props Hdb_Float Hdb_Calendar
    Hdb_Handshake Hdb_Tls Hdb_Tcp Hdb_Api Hdb_Metadata Hdb_Display
    Hdb_Nclob_Server Hdb_Lob_Streams Hdb_Text_Slices Hdb_Lob_Slices Hdb_Origin Hdb_Handles Hdb_Reconnect
    Hdb_Url_Roundtrip
begin

text \<open>
  hdbconnect, the pure Rust driver for SAP HANA: a model of its wire protocol, its connections, its
  data types and its client interface, and what makes them correct.

  \<^bold>\<open>The program and its theories.\<close> File names are relative to src/src.

  \<^item> The wire. \<open>Hdb_Prelude\<close>: machine integers, outcomes of functions, readers and writers.
    \<open>Hdb_Errors\<close>: hdb\_error.rs, protocol/parts/server\_error.rs, execution\_result.rs.
    \<open>Hdb_Text\<close>, \<open>Hdb_Cesu8\<close>, \<open>Hdb_Text_Slices\<close>: protocol/util.rs, the cutting of CESU-8.
    \<open>Hdb_Options\<close>, \<open>Hdb_Option_Ids\<close>: the option parts and their identifiers (transactionflags.rs,
    statement\_context.rs, lob\_flags.rs, command\_info.rs, session\_context.rs, client\_context.rs,
    topology.rs, xat\_options.rs, connect\_options.rs).
    \<open>Hdb_Small_Parts\<close>: authfields.rs, read\_lob\_request.rs, read\_lob\_reply.rs,
    write\_lob\_request.rs, write\_lob\_reply.rs, partition\_information.rs, client\_info.rs,
    protocol/part\_attributes.rs. \<open>Hdb_Parts\<close>: protocol/part.rs, parts.rs, partkind.rs and the parsing
    of result sets. \<open>Hdb_Messages\<close>: protocol/request.rs and reply.rs. \<open>Hdb_Wire_Props\<close>: the layout of a
    request and the round trip of its parts.

  \<^item> Values. \<open>Hdb_Types\<close>: type\_id.rs, parameter\_descriptor.rs, server\_usage.rs. \<open>Hdb_Dates\<close>,
    \<open>Hdb_Float\<close>, \<open>Hdb_Calendar\<close>: types\_impl/daydate.rs, secondtime.rs, seconddate.rs, longdate.rs.
    \<open>Hdb_Decimal\<close>: types\_impl/decimal.rs, hdb\_decimal.rs. \<open>Hdb_Lob_Wire\<close>: types\_impl/lob/wire.rs and
    char\_lob\_slice.rs. \<open>Hdb_Values\<close>: protocol/parts/hdb\_value.rs. \<open>Hdb_Rows\<close>: parameter\_rows.rs,
    output\_parameters.rs, resultset\_metadata.rs, row.rs, \<open>Hdb_Metadata\<close> the names in metadata,
    \<open>Hdb_Display\<close> the text forms. \<open>Hdb_Conversions\<close>, \<open>Hdb_Serde_De\<close>,
    \<open>Hdb_Serde_Ser\<close>, \<open>Hdb_Serde_Props\<close>: serde\_db\_impl/de.rs and ser.rs.

  \<^item> Connections. \<open>Hdb_Params\<close>, \<open>Hdb_Tls\<close>, \<open>Hdb_Url_Roundtrip\<close>: conn/params. \<open>Hdb_Tcp\<close>:
    conn/tcp\_client.rs and conn/tcp\_client. \<open>Hdb_Session\<close>: conn/session\_state.rs and the state of
    conn/connection\_core.rs, the treatment of errors and of the parts of a reply. \<open>Hdb_Auth\<close>:
    conn/authentication (authenticators, the SCRAM computations). \<open>Hdb_Connection\<close>: the handshake, the
    two authentication requests, roundtrip, reconnect and \<open>full_send\<close> (conn/am\_conn\_core.rs,
    conn/connection\_core.rs, conn/initial\_request.rs).

  \<^item> The client's side. \<open>Hdb_Lob\<close>: types\_impl/lob/fetch.rs, blob.rs, clob.rs, nclob.rs. \<open>Hdb_Lob_Writer\<close>:
    lob\_writer.rs. \<open>Hdb_ResultSet\<close>: protocol/parts/resultset.rs. \<open>Hdb_Response\<close>: hdb\_response.rs,
    hdb\_return\_value.rs. \<open>Hdb_Statements\<close>: sync\_connection.rs, sync\_prepared\_statement.rs,
    sync\_connection\_manager.rs. \<open>Hdb_Api\<close>: the rest of sync\_connection.rs. \<open>Hdb_Xa\<close>: xa\_impl. \<open>Hdb_Loops\<close>:
    loops that depend on the server. \<open>Hdb_Origin\<close>: which call returned a result set and from which result
    set a LOB was read, followed from the bytes of the reply to the references in the handles.
    \<open>Hdb_Handles\<close>: giving up handles, which share the cores of connections, statements and result sets by
    reference counting, and what their drops send.

  A statement becomes a \<open>request\<close> of parts, \<open>request_emit\<close> its bytes; \<open>roundtrip\<close> numbers it, writes it,
  parses the reply, updates the session and turns the errors of the reply into an outcome; \<open>full_send\<close>
  repeats it once after a reconnect. Result sets and LOB handles send further requests through the same
  connection until they are complete.

  \<^bold>\<open>State.\<close> The mutable state of a connection is the record \<open>conn_core\<close>; result sets, statements and LOB
  handles have records of their own, and operations return the changed state (type \<open>('s, 'a) st\<close>).
  A Rust function that can fail returns \<open>Ok\<close>, \<open>Err\<close> or \<open>Panic\<close>; the latter covers failed assertions,
  unwraps, indices out of range and arithmetic overflow, which a development build checks.

  \<^bold>\<open>Decisions.\<close> Machine integers keep their width; a \<^verbatim>\<open>usize\<close> is a natural number, casts are written
  out. Values of type \<^verbatim>\<open>f32\<close> and \<^verbatim>\<open>f64\<close> on the wire are bit patterns; only the calendar computes with
  doubles. Hash maps are association lists in iteration order. What \<^verbatim>\<open>format!\<close> interpolates into an error
  text is dropped, unless it is a number or a type name. The operations of a handle take the one connection
  as their state; that a handle refers to it, to a result set and to a statement, and when the last
  reference is gone, is the subject of \<open>Hdb_Handles\<close>, which computes the record \<open>holders\<close>, an argument
  of the other theories, from the fields of the handles that are alive. That an \<^verbatim>\<open>Arc\<close> runs the \<^verbatim>\<open>drop\<close> of
  its content with the last reference, and that the fields of a structure are dropped after it, is how Rust
  works and is written out in \<open>drop_handle\<close>. Logging and the poisoning of mutexes are left out. A loop whose end depends on the server is
  a \<open>partial_function\<close> in the option type: that it returns is part of what is proved.

  \<^bold>\<open>What is not in the repository.\<close> The TCP stream and the server are the record \<open>network\<close>; the crates
  cesu8, num and bigdecimal, hmac, sha2 and pbkdf2, dist\_tx, url and chrono are records of functions,
  their documented laws are the locales \<open>cesu8_crate\<close>, \<open>num_crates\<close>, \<open>crypto_crates\<close> and \<open>conv_crates\<close>, each
  interpreted on a concrete instance (\<open>ref_cesu8\<close>, \<open>ref_num\<close>, \<open>ref_crypto\<close>, \<open>ref_conv\<close>).

  \<^bold>\<open>Interfaces.\<close> \<open>wire_codec\<close> and \<open>sized_codec\<close>: what emits and parses; \<open>option_id\<close> and
  \<open>option_part_codec\<close>: identifiers of options; \<open>step_rel\<close>: relations every operation on a connection
  respects; \<open>lob_server\<close> and \<open>rows_server\<close>: what a client relies on when it fetches, interpreted on the
  model's own requests and replies in \<open>Hdb_Lob_Server\<close> and \<open>Hdb_ResultSet_Server\<close>, where a server
  (\<open>Hdb_Server\<close>) decodes the bytes of the request and answers with the bytes of a reply;
  \<open>char_lob_server\<close> is the same for servers that count characters (\<open>Hdb_Nclob_Server\<close>). \<open>auth_network\<close>: a
  network in front of a server that holds an account and checks the proof of the client, interpreted in
  \<open>Hdb_Handshake\<close> on a reliable network and in \<open>Hdb_Reconnect\<close> on one that loses its stream.
  \<open>url_crate\<close>: the parser of URLs.

  \<^bold>\<open>What is shown.\<close>
  \<^item> Wire: a request has the layout its headers promise; parts survive emission and parsing; the size
    of a value is the number of its bytes, except where a decimal overflows FIXED12; decimals of at most
    112 bits, strings and binary values round-trip, with the exact limits of DECIMAL and FIXED12; CESU-8
    and UTF-8 are cut at characters.
  \<^item> Connection: connecting to a server with an account for the user ends authenticated, or with the
    refusal of a server that cannot prove its key; what an error part in a reply becomes, exactly: no server error is lost unless
    the session is closed with it; sending keeps the user's settings and the order of
    sequence numbers, with or without a reconnect; when the server's proof is checked and accepted; TLS
    is used exactly if the URL names certificates, and which certificates are then trusted; the client
    information is sent once after a change; a request that meets a reset stream is repeated in a newly
    authenticated session; parameters of plain characters survive being stored as a URL, except for
    what the URL cannot say; others need not, since nothing is percent-encoded.
  \<^item> Fetching: a result set delivers every row once and in order and counts them; BLOBs and CLOBs are
    read completely or as a stream, NCLOBs completely, slices of at least seven bytes without loss; what is written to a LOB arrives
    completely; the buffer of a streamed CLOB is bounded. The bound of 2 GB is
    that of the length fields; the hypotheses on sequence numbers exclude the panic at their maximum.
  \<^item> Data: the dates of the driver are those of the calendar on all days that can be represented; what
    serde builds passes the type check of rows, and integers come back as they were (an \<^verbatim>\<open>i32\<close> that became
    a date or a time does not come back as an \<^verbatim>\<open>i32\<close>).
  \<^item> Resources: in whatever order the client gives up its handles, the server is told once, and not before
    the last handle that goes back to it is given up, that a result set, a statement or the connection is
    no longer needed. What a handle goes back to is its \<open>origin\<close>, not what its fields say.
  \<^item> Responses, batches and XA operations: what they return, collect and refuse; the rows a batch takes are
    those that fit by a table of types of its own (\<open>value_suits\<close>).

  \<^bold>\<open>Not modelled.\<close> The buffering of the TCP streams, the unfinished asynchronous client, the glue of
  serde and of the trait objects, the examples in the documentation, derived implementations of
  \<^verbatim>\<open>Debug\<close> (the names of option identifiers are a parameter of their display), functions that only return a
  field or pass a call on, two modules of identifiers that no part uses, and LOB handles in the batch of
  a statement that is given up. When a reply cannot be parsed, \<open>receive_reply\<close> keeps the state of the
  result set that the code has by then partly changed.
\<close>

end
